(* ===== verification/Prelude.thy ===== *)
theory Prelude
  imports Main "HOL-Library.Sublist" "HOL-Library.List_Lexorder" "HOL-Library.Product_Lexorder"
begin

text \<open>
  What the component theories share: texts as lists of Unicode scalar values, their length in UTF-8
  bytes, the character classes of the Rust standard library the program uses, the result type of
  fallible operations, and the collections of facts the component proofs are run with.

  A Rust \<open>&str\<close> is a sequence of Unicode scalar values, so \<open>str\<close> is a list of code points. Where the
  source counts or slices by byte, the model computes the UTF-8 width of each character and says what
  happens off a character boundary. The program tests most characters by their ASCII byte; a byte
  above 127 belongs to a character above 127, so a test over all bytes that only ASCII bytes pass is
  the same test over all code points.
\<close>

named_theorems operation_defs "definitions of operations, for evaluating them"
named_theorems text_simps "facts on texts used as rewrite rules"
named_theorems result_simps "facts that eliminate the result monad"

section \<open>Texts\<close>

type_synonym uchar = nat
type_synonym str = "uchar list"

text \<open>A Rust string literal, written as an Isabelle string.\<close>

definition lit :: "string \<Rightarrow> str" where
  "lit s = map of_char s"

lemma lit_eq_iff [simp]: "lit s = lit t \<longleftrightarrow> s = t"
  by (simp add: lit_def inj_map_eq_map inj_of_char)

lemma length_lit [simp]: "length (lit s) = length s"
  by (simp add: lit_def)

lemma lit_append [text_simps]: "lit (s @ t) = lit s @ lit t"
  by (simp add: lit_def)

lemma lit_Nil [simp]: "lit [] = []"
  by (simp add: lit_def)

lemma lit_eq_Nil [simp]: "lit s = [] \<longleftrightarrow> s = []"
  by (simp add: lit_def)

text \<open>The number of bytes of a character in UTF-8, and of a text: Rust's \<open>char::len_utf8\<close> and \<open>str::len\<close>.\<close>

definition utf8_len :: "uchar \<Rightarrow> nat" where
  "utf8_len c = (if c < 128 then 1 else if c < 2048 then 2 else if c < 65536 then 3 else 4)"

definition byte_len :: "str \<Rightarrow> nat" where
  "byte_len s = sum_list (map utf8_len s)"

lemma byte_len_simps [simp]:
  "byte_len [] = 0"
  "byte_len (c # s) = utf8_len c + byte_len s"
  "byte_len (s @ t) = byte_len s + byte_len t"
  by (simp_all add: byte_len_def)

lemma utf8_len_pos [simp]: "0 < utf8_len c"
  by (simp add: utf8_len_def)

lemma utf8_len_le: "utf8_len c \<le> 4"
  by (simp add: utf8_len_def)

lemma utf8_len_ascii [simp]: "c < 128 \<Longrightarrow> utf8_len c = 1"
  by (simp add: utf8_len_def)

lemma byte_len_eq_0 [simp]: "byte_len s = 0 \<longleftrightarrow> s = []"
  by (cases s) (auto simp: utf8_len_def)

lemma length_le_byte_len: "length s \<le> byte_len s"
proof (induction s)
  case (Cons c s)
  have "1 \<le> utf8_len c" by (simp add: utf8_len_def)
  with Cons show ?case by simp
qed simp

lemma byte_len_le: "byte_len s \<le> 4 * length s"
proof (induction s)
  case (Cons c s)
  have "utf8_len c \<le> 4" by (rule utf8_len_le)
  with Cons show ?case by simp
qed simp

lemma byte_len_ascii: "\<forall>c \<in> set s. c < 128 \<Longrightarrow> byte_len s = length s"
  by (induction s) auto

section \<open>Character classes\<close>

definition is_ascii_digit :: "uchar \<Rightarrow> bool" where
  "is_ascii_digit c \<longleftrightarrow> 48 \<le> c \<and> c \<le> 57"

definition is_ascii_upper :: "uchar \<Rightarrow> bool" where
  "is_ascii_upper c \<longleftrightarrow> 65 \<le> c \<and> c \<le> 90"

definition is_ascii_lower :: "uchar \<Rightarrow> bool" where
  "is_ascii_lower c \<longleftrightarrow> 97 \<le> c \<and> c \<le> 122"

definition is_ascii_alphabetic :: "uchar \<Rightarrow> bool" where
  "is_ascii_alphabetic c \<longleftrightarrow> is_ascii_upper c \<or> is_ascii_lower c"

definition is_ascii_alphanumeric :: "uchar \<Rightarrow> bool" where
  "is_ascii_alphanumeric c \<longleftrightarrow> is_ascii_alphabetic c \<or> is_ascii_digit c"

definition is_ascii_hexdigit :: "uchar \<Rightarrow> bool" where
  "is_ascii_hexdigit c \<longleftrightarrow> is_ascii_digit c \<or> (65 \<le> c \<and> c \<le> 70) \<or> (97 \<le> c \<and> c \<le> 102)"

text \<open>\<open>char::is_control\<close>: the general category Cc.\<close>

definition is_control :: "uchar \<Rightarrow> bool" where
  "is_control c \<longleftrightarrow> c < 32 \<or> (127 \<le> c \<and> c < 160)"

text \<open>\<open>char::is_whitespace\<close>: the Unicode property White_Space.\<close>

definition is_whitespace :: "uchar \<Rightarrow> bool" where
  "is_whitespace c \<longleftrightarrow>
    (9 \<le> c \<and> c \<le> 13) \<or> c = 32 \<or> c = 133 \<or> c = 160 \<or> c = 5760 \<or> (8192 \<le> c \<and> c \<le> 8202) \<or>
    c = 8232 \<or> c = 8233 \<or> c = 8239 \<or> c = 8287 \<or> c = 12288"

text \<open>\<open>u8::is_ascii_whitespace\<close>: tab, line feed, form feed, carriage return and space.\<close>

definition is_ascii_whitespace :: "uchar \<Rightarrow> bool" where
  "is_ascii_whitespace c \<longleftrightarrow> c = 9 \<or> c = 10 \<or> c = 12 \<or> c = 13 \<or> c = 32"

definition to_ascii_lowercase :: "uchar \<Rightarrow> uchar" where
  "to_ascii_lowercase c = (if is_ascii_upper c then c + 32 else c)"

lemmas char_class_defs =
  is_ascii_digit_def is_ascii_upper_def is_ascii_lower_def is_ascii_alphabetic_def
  is_ascii_alphanumeric_def is_ascii_hexdigit_def is_control_def is_whitespace_def
  is_ascii_whitespace_def to_ascii_lowercase_def

lemma ascii_class_lt:
  "is_ascii_digit c \<Longrightarrow> c < 128"
  "is_ascii_alphabetic c \<Longrightarrow> c < 128"
  "is_ascii_alphanumeric c \<Longrightarrow> c < 128"
  "is_ascii_hexdigit c \<Longrightarrow> c < 128"
  by (auto simp: char_class_defs)

lemma byte_len_list_all:
  assumes "list_all P s" and "\<And>c. P c \<Longrightarrow> c < 128"
  shows "byte_len s = length s"
  using assms by (intro byte_len_ascii) (auto simp: list_all_iff)

section \<open>Results\<close>

text \<open>\<open>Result<T, E>\<close> is a sum with the error on the left; \<open>?\<close> is its bind.\<close>

type_synonym ('e, 'a) res = "'e + 'a"

abbreviation Ok :: "'a \<Rightarrow> ('e, 'a) res" where
  "Ok \<equiv> Inr"

abbreviation Err :: "'e \<Rightarrow> ('e, 'a) res" where
  "Err \<equiv> Inl"

definition bind_res :: "('e, 'a) res \<Rightarrow> ('a \<Rightarrow> ('e, 'b) res) \<Rightarrow> ('e, 'b) res" where
  "bind_res r f = (case r of Inl e \<Rightarrow> Inl e | Inr a \<Rightarrow> f a)"

lemma bind_res_simps [simp]:
  "bind_res (Err e) f = Err e"
  "bind_res (Ok a) f = f a"
  by (simp_all add: bind_res_def)

lemma bind_res_eq_Ok [result_simps]:
  "bind_res r f = Ok b \<longleftrightarrow> (\<exists>a. r = Ok a \<and> f a = Ok b)"
  by (cases r) auto

lemma bind_res_eq_Err [result_simps]:
  "bind_res r f = Err e \<longleftrightarrow> r = Err e \<or> (\<exists>a. r = Ok a \<and> f a = Err e)"
  by (cases r) auto

text \<open>A guard: the early return of an error when the condition holds.\<close>

definition fail_if :: "bool \<Rightarrow> 'e \<Rightarrow> ('e, unit) res" where
  "fail_if b e = (if b then Err e else Ok ())"

lemma fail_if_simps [simp]:
  "fail_if False e = Ok ()"
  "fail_if True e = Err e"
  by (simp_all add: fail_if_def)

lemma fail_if_eq_Ok [result_simps]: "fail_if b e = Ok u \<longleftrightarrow> \<not> b"
  by (simp add: fail_if_def)

lemma fail_if_eq_Err [result_simps]: "fail_if b e = Err e' \<longleftrightarrow> b \<and> e' = e"
  by (auto simp: fail_if_def)

text \<open>\<open>Option::ok_or\<close>.\<close>

definition ok_or :: "'a option \<Rightarrow> 'e \<Rightarrow> ('e, 'a) res" where
  "ok_or opt e = (case opt of None \<Rightarrow> Err e | Some a \<Rightarrow> Ok a)"

lemma ok_or_simps [simp]:
  "ok_or None e = Err e"
  "ok_or (Some a) e = Ok a"
  by (simp_all add: ok_or_def)

lemma ok_or_eq_Ok [result_simps]: "ok_or opt e = Ok a \<longleftrightarrow> opt = Some a"
  by (cases opt) auto

lemma ok_or_eq_Err [result_simps]: "ok_or opt e = Err e' \<longleftrightarrow> opt = None \<and> e' = e"
  by (cases opt) auto

text \<open>Running a check over a list and stopping at its first error, as a \<open>for\<close> loop with \<open>?\<close> does.\<close>

fun check_all :: "('a \<Rightarrow> ('e, unit) res) \<Rightarrow> 'a list \<Rightarrow> ('e, unit) res" where
  "check_all f [] = Ok ()"
| "check_all f (x # xs) = bind_res (f x) (\<lambda>_. check_all f xs)"

lemma check_all_eq_Ok [result_simps]:
  "check_all f xs = Ok u \<longleftrightarrow> (\<forall>x \<in> set xs. f x = Ok ())"
  by (induction xs) (auto simp: bind_res_eq_Ok)

lemma check_all_eq_Err:
  "check_all f xs = Err e \<longleftrightarrow>
    (\<exists>pre x post. xs = pre @ x # post \<and> (\<forall>y \<in> set pre. f y = Ok ()) \<and> f x = Err e)"
proof (induction xs)
  case (Cons a xs)
  have split: "(\<exists>pre x post. a # xs = pre @ x # post \<and> (\<forall>y \<in> set pre. f y = Ok ()) \<and> f x = Err e) \<longleftrightarrow>
    f a = Err e \<or> (f a = Ok () \<and>
      (\<exists>pre x post. xs = pre @ x # post \<and> (\<forall>y \<in> set pre. f y = Ok ()) \<and> f x = Err e))"
    (is "?L \<longleftrightarrow> ?R")
  proof
    assume ?L
    then obtain pre x post where "a # xs = pre @ x # post" "\<forall>y \<in> set pre. f y = Ok ()" "f x = Err e"
      by blast
    then show ?R by (cases pre) auto
  next
    assume ?R
    then show ?L
    proof
      assume "f a = Err e"
      then show ?L by (intro exI [of _ "[]"]) auto
    next
      assume "f a = Ok () \<and>
        (\<exists>pre x post. xs = pre @ x # post \<and> (\<forall>y \<in> set pre. f y = Ok ()) \<and> f x = Err e)"
      then obtain pre x post where
        "f a = Ok ()" "xs = pre @ x # post" "\<forall>y \<in> set pre. f y = Ok ()" "f x = Err e"
        by blast
      then show ?L by (intro exI [of _ "a # pre"]) auto
    qed
  qed
  show ?case using Cons.IH split by (auto simp: bind_res_eq_Err)
qed simp

section \<open>Lists and first minima\<close>

text \<open>\<open>Iterator::min_by_key\<close>: of several minimal elements, the first.\<close>

fun min_by_key :: "('a \<Rightarrow> 'k :: linorder) \<Rightarrow> 'a list \<Rightarrow> 'a option" where
  "min_by_key f [] = None"
| "min_by_key f (x # xs) =
    (case min_by_key f xs of
      None \<Rightarrow> Some x
    | Some y \<Rightarrow> if f x \<le> f y then Some x else Some y)"

lemma min_by_key_None [simp]: "min_by_key f xs = None \<longleftrightarrow> xs = []"
  by (cases xs) (auto split: option.splits)

lemma min_by_key_minimal:
  "min_by_key f xs = Some m \<Longrightarrow> m \<in> set xs \<and> (\<forall>x \<in> set xs. f m \<le> f x)"
proof (induction xs arbitrary: m)
  case (Cons x xs)
  show ?case
  proof (cases "min_by_key f xs")
    case None
    with Cons.prems show ?thesis by (auto simp: min_by_key_None)
  next
    case (Some y)
    then have y: "y \<in> set xs" "\<forall>z \<in> set xs. f y \<le> f z" using Cons.IH by auto
    show ?thesis
    proof (cases "f x \<le> f y")
      case True
      with Some Cons.prems have m: "m = x" by simp
      show ?thesis using True y(2) m by (auto intro: order_trans)
    next
      case False
      with Some Cons.prems have "m = y" by simp
      with False y show ?thesis by auto
    qed
  qed
qed simp

lemma list_all_append_iff [simp]: "list_all P (xs @ ys) \<longleftrightarrow> list_all P xs \<and> list_all P ys"
  by (simp add: list_all_append)

lemma takeWhile_dropWhile_rev:
  "rev (dropWhile P (rev s)) @ rev (takeWhile P (rev s)) = s"
  by (metis rev_append rev_rev_ident takeWhile_dropWhile_id)

text \<open>The elements of a list whose keys are not among those of its first \<open>n\<close>.\<close>

lemma filter_take_ids: "distinct (map f xs) \<Longrightarrow> filter (\<lambda>x. f x \<notin> f ` set (take n xs)) xs = drop n xs"
proof (induction xs arbitrary: n)
  case (Cons x xs)
  show ?case
  proof (cases n)
    case (Suc m)
    have "filter (\<lambda>y. f y \<notin> insert (f x) (f ` set (take m xs))) xs = filter (\<lambda>y. f y \<notin> f ` set (take m xs)) xs"
      using Cons.prems by (intro filter_cong refl) (auto, metis image_eqI)
    then show ?thesis using Cons Suc by simp
  qed simp
qed simp

end
