(* ===== verification/Rust_Str.thy ===== *)
theory Rust_Str
  imports Prelude
begin

text \<open>
  The string operations of the Rust standard library that the program calls: slicing by byte,
  prefixes and suffixes, splitting, trimming, lines, words and the parsing of integers. Each is an
  executable function over \<open>str\<close> with the equations or characterisations the components use. A byte
  offset off a character boundary, where Rust panics or \<open>str::get\<close> answers \<open>None\<close>, is the value \<open>None\<close>.
\<close>

section \<open>Slicing by byte\<close>

fun byte_split_at :: "nat \<Rightarrow> str \<Rightarrow> (str \<times> str) option" where
  "byte_split_at n [] = (if n = 0 then Some ([], []) else None)"
| "byte_split_at n (c # s) =
    (if n = 0 then Some ([], c # s)
     else if utf8_len c \<le> n then map_option (apfst (Cons c)) (byte_split_at (n - utf8_len c) s)
     else None)"

lemma byte_split_at_Some:
  "byte_split_at n s = Some (a, b) \<longleftrightarrow> s = a @ b \<and> byte_len a = n"
proof (induction n s arbitrary: a b rule: byte_split_at.induct)
  case (1 n)
  then show ?case by auto
next
  case (2 n c s)
  have pos: "0 < utf8_len c" by simp
  show ?case
  proof (cases "n = 0")
    case True
    then show ?thesis by auto
  next
    case n: False
    show ?thesis
    proof (cases "utf8_len c \<le> n")
      case True
      have IH: "byte_split_at (n - utf8_len c) s = Some (a', b') \<longleftrightarrow>
        s = a' @ b' \<and> byte_len a' = n - utf8_len c" for a' b'
        using "2.IH" n True by simp
      show ?thesis using n True IH
        by (cases a) (auto simp: apfst_def map_prod_def split: prod.splits)
    next
      case False
      then show ?thesis using n by (cases a) auto
    qed
  qed
qed

lemma byte_split_at_append [text_simps]: "byte_split_at (byte_len a) (a @ b) = Some (a, b)"
  by (simp add: byte_split_at_Some)

definition byte_take :: "nat \<Rightarrow> str \<Rightarrow> str option" where
  "byte_take n s = map_option fst (byte_split_at n s)"

definition byte_drop :: "nat \<Rightarrow> str \<Rightarrow> str option" where
  "byte_drop n s = map_option snd (byte_split_at n s)"

lemma byte_take_append [text_simps]: "byte_take (byte_len a) (a @ b) = Some a"
  by (simp add: byte_take_def byte_split_at_append)

lemma byte_drop_append [text_simps]: "byte_drop (byte_len a) (a @ b) = Some b"
  by (simp add: byte_drop_def byte_split_at_append)

lemma byte_take_Some: "byte_take n s = Some a \<longleftrightarrow> (\<exists>b. s = a @ b \<and> byte_len a = n)"
  by (auto simp: byte_take_def byte_split_at_Some)

lemma byte_drop_Some: "byte_drop n s = Some b \<longleftrightarrow> (\<exists>a. s = a @ b \<and> byte_len a = n)"
  by (auto simp: byte_drop_def byte_split_at_Some)

lemma byte_split_at_ascii:
  "\<lbrakk>\<forall>c \<in> set s. c < 128; n \<le> length s\<rbrakk> \<Longrightarrow> byte_split_at n s = Some (take n s, drop n s)"
proof -
  assume *: "\<forall>c \<in> set s. c < 128" "n \<le> length s"
  then have "\<forall>c \<in> set (take n s). c < 128" by (auto dest: in_set_takeD)
  then have "byte_len (take n s) = n" using * by (simp add: byte_len_ascii)
  then show ?thesis by (simp add: byte_split_at_Some)
qed

section \<open>Prefixes and suffixes\<close>

fun strip_prefix :: "str \<Rightarrow> str \<Rightarrow> str option" where
  "strip_prefix [] s = Some s"
| "strip_prefix (p # ps) [] = None"
| "strip_prefix (p # ps) (c # s) = (if p = c then strip_prefix ps s else None)"

lemma strip_prefix_Some: "strip_prefix p s = Some r \<longleftrightarrow> s = p @ r"
  by (induction p s rule: strip_prefix.induct) auto

definition strip_suffix :: "str \<Rightarrow> str \<Rightarrow> str option" where
  "strip_suffix p s = map_option rev (strip_prefix (rev p) (rev s))"

lemma strip_suffix_Some: "strip_suffix p s = Some r \<longleftrightarrow> s = r @ p"
proof -
  have "strip_suffix p s = Some r \<longleftrightarrow> strip_prefix (rev p) (rev s) = Some (rev r)"
    unfolding strip_suffix_def
    by (cases "strip_prefix (rev p) (rev s)") (auto simp: rev_swap)
  also have "\<dots> \<longleftrightarrow> rev s = rev p @ rev r" by (rule strip_prefix_Some)
  also have "\<dots> \<longleftrightarrow> s = r @ p" by (metis rev_append rev_rev_ident)
  finally show ?thesis .
qed

definition starts_with :: "str \<Rightarrow> str \<Rightarrow> bool" where
  "starts_with p s \<longleftrightarrow> strip_prefix p s \<noteq> None"

definition ends_with :: "str \<Rightarrow> str \<Rightarrow> bool" where
  "ends_with p s \<longleftrightarrow> strip_suffix p s \<noteq> None"

lemma starts_with_iff: "starts_with p s \<longleftrightarrow> (\<exists>r. s = p @ r)"
  by (auto simp: starts_with_def strip_prefix_Some)

lemma ends_with_iff: "ends_with p s \<longleftrightarrow> (\<exists>r. s = r @ p)"
  by (auto simp: ends_with_def strip_suffix_Some)

lemma starts_with_lit: "starts_with (lit p) (lit s) \<longleftrightarrow> take (length p) s = p"
proof
  assume "starts_with (lit p) (lit s)"
  then obtain r where "lit s = lit p @ r" by (auto simp: starts_with_iff)
  then have "take (length p) (lit s) = lit p" by simp
  then have "lit (take (length p) s) = lit p" by (simp add: lit_def take_map)
  then show "take (length p) s = p" by simp
next
  assume "take (length p) s = p"
  then have "s = p @ drop (length p) s" by (metis append_take_drop_id)
  then show "starts_with (lit p) (lit s)"
    by (metis lit_append starts_with_iff)
qed

section \<open>Splitting\<close>

fun split_char :: "uchar \<Rightarrow> str \<Rightarrow> str list" where
  "split_char d [] = [[]]"
| "split_char d (c # s) =
    (if c = d then [] # split_char d s
     else (case split_char d s of [] \<Rightarrow> [[c]] | w # ws \<Rightarrow> (c # w) # ws))"

lemma split_char_not_Nil [simp]: "split_char d s \<noteq> []"
  by (induction s) (auto split: list.splits)

fun join_char :: "uchar \<Rightarrow> str list \<Rightarrow> str" where
  "join_char d [] = []"
| "join_char d [w] = w"
| "join_char d (w # ws) = w @ d # join_char d ws"

lemma join_split_char: "join_char d (split_char d s) = s"
proof (induction s)
  case (Cons c s)
  then show ?case
    by (cases "split_char d s"; cases "tl (split_char d s)") auto
qed simp

lemma split_char_no_sep: "w \<in> set (split_char d s) \<Longrightarrow> d \<notin> set w"
  by (induction s arbitrary: w) (auto split: if_splits list.splits)

definition split_once :: "uchar \<Rightarrow> str \<Rightarrow> (str \<times> str) option" where
  "split_once d s =
    (if d \<in> set s then Some (takeWhile (\<lambda>c. c \<noteq> d) s, tl (dropWhile (\<lambda>c. c \<noteq> d) s)) else None)"

lemma split_once_append [text_simps]: "d \<notin> set a \<Longrightarrow> split_once d (a @ d # b) = Some (a, b)"
  by (induction a) (auto simp: split_once_def)

lemma split_once_Some: "split_once d s = Some (a, b) \<longleftrightarrow> s = a @ d # b \<and> d \<notin> set a"
proof
  assume *: "split_once d s = Some (a, b)"
  then have d: "d \<in> set s" and a: "a = takeWhile (\<lambda>c. c \<noteq> d) s"
    and b: "b = tl (dropWhile (\<lambda>c. c \<noteq> d) s)"
    by (auto simp: split_once_def split: if_splits)
  from d have "dropWhile (\<lambda>c. c \<noteq> d) s \<noteq> []" by (auto simp: dropWhile_eq_Nil_conv)
  moreover from this have "hd (dropWhile (\<lambda>c. c \<noteq> d) s) = d"
    using hd_dropWhile by blast
  ultimately have "dropWhile (\<lambda>c. c \<noteq> d) s = d # b"
    using b by (metis list.collapse)
  then have "s = a @ d # b" using a by (metis takeWhile_dropWhile_id)
  moreover have "d \<notin> set a" using a by (auto dest: set_takeWhileD)
  ultimately show "s = a @ d # b \<and> d \<notin> set a" by simp
next
  assume "s = a @ d # b \<and> d \<notin> set a"
  then show "split_once d s = Some (a, b)" by (auto simp: split_once_append)
qed

lemma split_once_None: "split_once d s = None \<longleftrightarrow> d \<notin> set s"
  by (simp add: split_once_def)

text \<open>\<open>split_once\<close> at a string: the text before its first occurrence and the text after it.\<close>

fun split_once_str :: "str \<Rightarrow> str \<Rightarrow> (str \<times> str) option" where
  "split_once_str p [] = (if p = [] then Some ([], []) else None)"
| "split_once_str p (c # s) =
    (case strip_prefix p (c # s) of
      Some r \<Rightarrow> Some ([], r)
    | None \<Rightarrow> map_option (apfst (Cons c)) (split_once_str p s))"

lemma split_once_str_append: "split_once_str p s = Some (a, b) \<Longrightarrow> s = a @ p @ b"
proof (induction p s arbitrary: a b rule: split_once_str.induct)
  case (1 p)
  then show ?case by (auto split: if_splits)
next
  case (2 p c s)
  show ?case
  proof (cases "strip_prefix p (c # s)")
    case None
    then obtain a' where "split_once_str p s = Some (a', b)" "a = c # a'"
      using "2.prems" by (auto simp: apfst_def map_prod_def split: prod.splits)
    then show ?thesis using "2.IH" None by simp
  next
    case (Some r)
    then have "a = []" "b = r" using "2.prems" by auto
    moreover have "c # s = p @ r" using Some by (simp add: strip_prefix_Some)
    ultimately show ?thesis by simp
  qed
qed

definition contains_str :: "str \<Rightarrow> str \<Rightarrow> bool" where
  "contains_str p s \<longleftrightarrow> split_once_str p s \<noteq> None"

text \<open>\<open>rsplit_once\<close> at a character: the text before its last occurrence and the text after it.\<close>

definition rsplit_once :: "uchar \<Rightarrow> str \<Rightarrow> (str \<times> str) option" where
  "rsplit_once d s = map_option (\<lambda>(a, b). (rev b, rev a)) (split_once d (rev s))"

lemma rsplit_once_Some: "rsplit_once d s = Some (a, b) \<longleftrightarrow> s = a @ d # b \<and> d \<notin> set b"
proof -
  have "rsplit_once d s = Some (a, b) \<longleftrightarrow> split_once d (rev s) = Some (rev b, rev a)"
    unfolding rsplit_once_def
    by (cases "split_once d (rev s)") (auto simp: rev_swap)
  also have "\<dots> \<longleftrightarrow> rev s = rev b @ d # rev a \<and> d \<notin> set b"
    by (simp add: split_once_Some)
  also have "\<dots> \<longleftrightarrow> s = a @ d # b \<and> d \<notin> set b"
    by (metis append.assoc append_Cons append_Nil rev.simps(2) rev_append rev_rev_ident)
  finally show ?thesis .
qed

definition rsplit_once_str :: "str \<Rightarrow> str \<Rightarrow> (str \<times> str) option" where
  "rsplit_once_str p s = map_option (\<lambda>(a, b). (rev b, rev a)) (split_once_str (rev p) (rev s))"

lemma rsplit_once_str_append: "rsplit_once_str p s = Some (a, b) \<Longrightarrow> s = a @ p @ b"
  unfolding rsplit_once_str_def
  by (auto dest!: split_once_str_append simp: rev_swap)

lemma split_once_str_skip:
  assumes "hd p \<notin> set a" "p \<noteq> []"
  shows "split_once_str p (a @ p @ b) = Some (a, b)"
  using assms(1)
proof (induction a)
  case Nil
  show ?case
  proof (cases "p @ b")
    case Nil
    then show ?thesis using assms(2) by simp
  next
    case (Cons c s)
    have "strip_prefix p (p @ b) = Some b" by (simp add: strip_prefix_Some)
    then show ?thesis using Cons by simp
  qed
next
  case (Cons c a)
  have "strip_prefix p (c # a @ p @ b) = None"
    using Cons.prems assms(2) by (cases p) auto
  then show ?case using Cons by simp
qed

lemma rsplit_once_str_skip:
  assumes "last p \<notin> set b" "p \<noteq> []"
  shows "rsplit_once_str p (a @ p @ b) = Some (a, b)"
proof -
  have "split_once_str (rev p) (rev b @ rev p @ rev a) = Some (rev b, rev a)"
    using assms by (intro split_once_str_skip) (auto simp: hd_rev)
  then show ?thesis by (simp add: rsplit_once_str_def)
qed

text \<open>\<open>replace\<close> of one character by a text.\<close>

definition replace_char :: "uchar \<Rightarrow> str \<Rightarrow> str \<Rightarrow> str" where
  "replace_char c t s = concat (map (\<lambda>x. if x = c then t else [x]) s)"

section \<open>Trimming, lines and words\<close>

definition trim_start_matches :: "(uchar \<Rightarrow> bool) \<Rightarrow> str \<Rightarrow> str" where
  "trim_start_matches P s = dropWhile P s"

definition trim_end_matches :: "(uchar \<Rightarrow> bool) \<Rightarrow> str \<Rightarrow> str" where
  "trim_end_matches P s = rev (dropWhile P (rev s))"

definition trim_start :: "str \<Rightarrow> str" where
  "trim_start s = trim_start_matches is_whitespace s"

definition trim_end :: "str \<Rightarrow> str" where
  "trim_end s = trim_end_matches is_whitespace s"

definition trim :: "str \<Rightarrow> str" where
  "trim s = trim_end (trim_start s)"

lemma trim_start_matches_suffix: "suffix (trim_start_matches P s) s"
  by (simp add: trim_start_matches_def suffix_dropWhile)

lemma trim_end_matches_prefix: "prefix (trim_end_matches P s) s"
  unfolding trim_end_matches_def prefix_def
  by (metis takeWhile_dropWhile_rev)

lemma trim_sublist: "\<exists>a b. s = a @ trim s @ b"
proof -
  obtain a where a: "s = a @ trim_start s"
    using trim_start_matches_suffix [of is_whitespace s]
    by (auto simp: suffix_def trim_start_def)
  obtain b where "trim_start s = trim_end (trim_start s) @ b"
    using trim_end_matches_prefix [of is_whitespace "trim_start s"]
    by (auto simp: prefix_def trim_end_def)
  with a show ?thesis unfolding trim_def by metis
qed

lemma set_trim: "set (trim s) \<subseteq> set s"
proof -
  obtain a b where "s = a @ trim s @ b" using trim_sublist by blast
  from arg_cong [where f = set, OF this] show ?thesis by (simp only: set_append) blast
qed

lemma byte_len_trim: "byte_len (trim s) \<le> byte_len s"
proof -
  obtain a b where "s = a @ trim s @ b" using trim_sublist by blast
  then have "byte_len s = byte_len a + byte_len (trim s) + byte_len b"
    by (metis add.assoc byte_len_simps(3))
  then show ?thesis by simp
qed

lemma trim_no_edge_whitespace:
  "trim s \<noteq> [] \<Longrightarrow> \<not> is_whitespace (hd (trim s)) \<and> \<not> is_whitespace (last (trim s))"
proof -
  assume ne: "trim s \<noteq> []"
  let ?m = "trim_start s"
  have e: "trim s = rev (dropWhile is_whitespace (rev ?m))"
    by (simp add: trim_def trim_end_def trim_end_matches_def)
  have d: "dropWhile is_whitespace (rev ?m) \<noteq> []" using ne e by auto
  then have "\<not> is_whitespace (hd (dropWhile is_whitespace (rev ?m)))" by (rule hd_dropWhile)
  then have last: "\<not> is_whitespace (last (trim s))" using d e by (simp add: last_rev)
  obtain b where b: "?m = trim s @ b"
    using trim_end_matches_prefix [of is_whitespace ?m]
    by (auto simp: prefix_def trim_def trim_end_def)
  have "?m \<noteq> []" using ne b by auto
  then have "\<not> is_whitespace (hd ?m)"
    unfolding trim_start_def trim_start_matches_def by (rule hd_dropWhile)
  moreover have "hd ?m = hd (trim s)" by (metis b hd_append2 ne)
  ultimately show ?thesis using last by simp
qed

text \<open>
  \<open>str::lines\<close>: the pieces between line feeds, each without the carriage return before its line feed;
  a last piece without a line feed is a line only when it is not empty, and keeps a carriage return.
\<close>

definition strip_cr :: "str \<Rightarrow> str" where
  "strip_cr s = (case strip_suffix [13] s of Some r \<Rightarrow> r | None \<Rightarrow> s)"

definition lines :: "str \<Rightarrow> str list" where
  "lines s =
    (let ps = split_char 10 s
     in map strip_cr (butlast ps) @ (if last ps = [] then [] else [last ps]))"

text \<open>\<open>split_whitespace\<close>: the maximal runs of characters that are not whitespace.\<close>

lemma length_dropWhile_less [termination_simp]: "length (dropWhile P s) < Suc (length s)"
  by (simp add: length_dropWhile_le le_imp_less_Suc)

fun split_words :: "(uchar \<Rightarrow> bool) \<Rightarrow> str \<Rightarrow> str list" where
  "split_words P [] = []"
| "split_words P (c # s) =
    (if P c then split_words P s
     else (c # takeWhile (\<lambda>x. \<not> P x) s) # split_words P (dropWhile (\<lambda>x. \<not> P x) s))"

definition split_whitespace :: "str \<Rightarrow> str list" where
  "split_whitespace s = split_words is_whitespace s"

lemma split_words_no_sep: "w \<in> set (split_words P s) \<Longrightarrow> w \<noteq> [] \<and> (\<forall>c \<in> set w. \<not> P c)"
proof (induction P s rule: split_words.induct)
  case (2 P c s)
  show ?case
  proof (cases "P c")
    case True
    then have "w \<in> set (split_words P s)" using "2.prems" by simp
    with True show ?thesis by (rule "2.IH"(1))
  next
    case False
    then consider "w = c # takeWhile (\<lambda>x. \<not> P x) s"
      | "w \<in> set (split_words P (dropWhile (\<lambda>x. \<not> P x) s))"
      using "2.prems" by auto
    then show ?thesis
    proof cases
      case 1
      then show ?thesis using False by (auto dest: set_takeWhileD)
    next
      case 2
      with False show ?thesis by (rule "2.IH"(2))
    qed
  qed
qed simp

section \<open>Integers\<close>

definition digits_value :: "str \<Rightarrow> nat" where
  "digits_value s = foldl (\<lambda>n c. 10 * n + (c - 48)) 0 s"

text \<open>
  \<open>parse\<close> of an unsigned type: an optional plus sign, at least one digit, and no overflow of the
  maximum.
\<close>

definition parse_unsigned :: "nat \<Rightarrow> str \<Rightarrow> nat option" where
  "parse_unsigned maximum s =
    (let digits = (case s of c # r \<Rightarrow> if c = 43 then r else s | [] \<Rightarrow> [])
     in if digits \<noteq> [] \<and> list_all is_ascii_digit digits \<and> digits_value digits \<le> maximum
        then Some (digits_value digits) else None)"

text \<open>\<open>parse\<close> of a signed type, between the negative of the minimum and the maximum.\<close>

definition parse_signed :: "nat \<Rightarrow> str \<Rightarrow> int option" where
  "parse_signed maximum s =
    (case s of
      c # r \<Rightarrow>
        if c = 45 then map_option (\<lambda>n. - int n)
          (if r \<noteq> [] \<and> list_all is_ascii_digit r \<and> digits_value r \<le> maximum + 1
           then Some (digits_value r) else None)
        else map_option int (parse_unsigned maximum s)
    | [] \<Rightarrow> None)"

abbreviation (input) u32_max :: nat where "u32_max \<equiv> 4294967295"
abbreviation (input) u64_max :: nat where "u64_max \<equiv> 18446744073709551615"
abbreviation (input) i64_max :: nat where "i64_max \<equiv> 9223372036854775807"

lemma parse_unsigned_le: "parse_unsigned m s = Some n \<Longrightarrow> n \<le> m"
  by (auto simp: parse_unsigned_def Let_def split: if_splits)

lemma parse_signed_le: "parse_signed m s = Some n \<Longrightarrow> n \<le> int m \<and> - int m - 1 \<le> n"
  by (auto simp: parse_signed_def split: list.splits if_splits dest!: parse_unsigned_le)

text \<open>The decimal digits \<open>format!\<close> prints for an unsigned number.\<close>

fun show_nat :: "nat \<Rightarrow> str" where
  "show_nat n = (if n < 10 then [48 + n] else show_nat (n div 10) @ [48 + n mod 10])"

declare show_nat.simps [simp del]

lemma show_nat_digits: "list_all is_ascii_digit (show_nat n)"
proof (induction n rule: show_nat.induct)
  case (1 n)
  have "is_ascii_digit (48 + n mod 10)" "n < 10 \<Longrightarrow> is_ascii_digit (48 + n)"
    by (simp_all add: is_ascii_digit_def)
  then show ?case using 1 by (subst show_nat.simps) simp
qed

lemma show_nat_not_Nil [simp]: "show_nat n \<noteq> []"
  by (subst show_nat.simps) simp

lemma digits_value_append: "digits_value (s @ [c]) = 10 * digits_value s + (c - 48)"
  by (simp add: digits_value_def)

lemma digits_value_show_nat: "digits_value (show_nat n) = n"
proof (induction n rule: show_nat.induct)
  case (1 n)
  show ?case
  proof (cases "n < 10")
    case True
    then show ?thesis by (subst show_nat.simps) (simp add: digits_value_def)
  next
    case False
    then have "digits_value (show_nat n) = 10 * digits_value (show_nat (n div 10)) + n mod 10"
      by (subst show_nat.simps) (simp add: digits_value_append)
    then show ?thesis using 1 False by simp
  qed
qed

lemma parse_show_nat: "n \<le> m \<Longrightarrow> parse_unsigned m (show_nat n) = Some n"
proof -
  assume n: "n \<le> m"
  obtain c s where cs: "show_nat n = c # s" by (cases "show_nat n") auto
  have "is_ascii_digit c" using show_nat_digits [of n] cs by simp
  then have "c \<noteq> 43" by (auto simp: is_ascii_digit_def)
  then show ?thesis
    using n show_nat_digits [of n] digits_value_show_nat [of n]
    by (simp add: parse_unsigned_def cs)
qed

text \<open>The rules that evaluate the text operations on literals.\<close>

lemmas text_eval =
  lit_def char_class_defs utf8_len_def Let_def
  byte_take_def byte_drop_def strip_suffix_def starts_with_def ends_with_def split_once_def
  contains_str_def rsplit_once_def rsplit_once_str_def replace_char_def
  trim_start_matches_def trim_end_matches_def trim_start_def trim_end_def trim_def
  strip_cr_def lines_def split_whitespace_def digits_value_def parse_unsigned_def parse_signed_def

end
