(* ===== verification/Text_Enum.thy ===== *)
theory Text_Enum
  imports Rust_Str
begin

text \<open>
  \<open>src/src/domain/text_enum.rs\<close>: the macro that derives \<open>as_str\<close>, \<open>parse\<close> and \<open>FromStr\<close> of an enum from
  one text per variant. The macro's \<open>match\<close> tries the variants in declaration order, so \<open>parse\<close> is the
  first variant whose text is the value. The locale states what every such enum must satisfy, its
  lemmas are the codec laws of the macro, and each enum of the program interprets it.
\<close>

definition text_enum_parse :: "'a list \<Rightarrow> ('a \<Rightarrow> string) \<Rightarrow> str \<Rightarrow> 'a option" where
  "text_enum_parse all as_str value = List.find (\<lambda>v. lit (as_str v) = value) all"

definition text_enum_from_str :: "string \<Rightarrow> 'a list \<Rightarrow> ('a \<Rightarrow> string) \<Rightarrow> str \<Rightarrow> (string, 'a) res" where
  "text_enum_from_str name all as_str value =
    ok_or (text_enum_parse all as_str value) (''unknown '' @ name)"

locale text_enum =
  fixes all :: "'a list"
    and as_str :: "'a \<Rightarrow> string"
  assumes all_variants: "set all = UNIV"
    and distinct_texts: "distinct (map as_str all)"
begin

lemma as_str_eq_iff: "as_str v = as_str w \<longleftrightarrow> v = w"
  using distinct_texts all_variants by (auto simp: distinct_map inj_on_def)

lemma parse_as_str: "text_enum_parse all as_str (lit (as_str v)) = Some v"
proof (cases "List.find (\<lambda>w. lit (as_str w) = lit (as_str v)) all")
  case None
  then show ?thesis using all_variants by (auto simp: find_None_iff)
next
  case (Some w)
  then have "lit (as_str w) = lit (as_str v)" by (auto simp: find_Some_iff)
  with Some show ?thesis by (simp add: text_enum_parse_def as_str_eq_iff)
qed

lemma parse_Some_iff: "text_enum_parse all as_str t = Some v \<longleftrightarrow> t = lit (as_str v)"
proof
  assume "text_enum_parse all as_str t = Some v"
  then show "t = lit (as_str v)" by (auto simp: text_enum_parse_def find_Some_iff)
qed (simp add: parse_as_str)

lemma parse_None_iff: "text_enum_parse all as_str t = None \<longleftrightarrow> (\<forall>v. t \<noteq> lit (as_str v))"
  using parse_Some_iff by (metis not_None_eq)

lemma from_str_Ok_iff: "text_enum_from_str n all as_str t = Ok v \<longleftrightarrow> t = lit (as_str v)"
  by (simp add: text_enum_from_str_def ok_or_eq_Ok parse_Some_iff)

lemma from_str_Err_iff:
  "text_enum_from_str n all as_str t = Err e \<longleftrightarrow> e = ''unknown '' @ n \<and> (\<forall>v. t \<noteq> lit (as_str v))"
  by (auto simp: text_enum_from_str_def ok_or_eq_Err parse_None_iff)

end

end
