(* ===== verification/Report_Types.thy ===== *)
theory Report_Types
  imports Text_Enum
begin

text \<open>
  The value types of \<open>src/src/domain/report.rs\<close> that other components use: the kind of a report, the
  media type of an attachment and the reference that names an attachment within one submission.
\<close>

datatype report_kind = Crash | WebCompat

definition report_kind_all :: "report_kind list" where
  "report_kind_all = [Crash, WebCompat]"

primrec report_kind_as_str :: "report_kind \<Rightarrow> string" where
  "report_kind_as_str Crash = ''crash''"
| "report_kind_as_str WebCompat = ''web_compat''"

interpretation report_kind: text_enum report_kind_all report_kind_as_str
proof
  show "set report_kind_all = UNIV"
    by (auto simp: report_kind_all_def intro: report_kind.exhaust)
qed (simp add: report_kind_all_def)

datatype attachment_media_type = Png | PlainText

primrec media_type_as_str :: "attachment_media_type \<Rightarrow> string" where
  "media_type_as_str Png = ''image/png''"
| "media_type_as_str PlainText = ''text/plain''"

text \<open>\<open>AttachmentReference\<close>: a text that passed \<open>TryFrom<String>\<close>.\<close>

datatype attachment_reference = AttachmentReference str

primrec reference_as_str :: "attachment_reference \<Rightarrow> str" where
  "reference_as_str (AttachmentReference s) = s"

definition is_reference_char :: "uchar \<Rightarrow> bool" where
  "is_reference_char c \<longleftrightarrow> is_ascii_alphanumeric c \<or> c = 45 \<or> c = 95"

definition attachment_reference_try_from :: "str \<Rightarrow> (string, attachment_reference) res" where
  "attachment_reference_try_from value =
    (if 1 \<le> byte_len value \<and> byte_len value \<le> 64 \<and> list_all is_reference_char value
     then Ok (AttachmentReference value)
     else Err ''attachment reference must be 1 to 64 ASCII letters, digits, hyphens or underscores'')"

lemma is_reference_char_ascii: "is_reference_char c \<Longrightarrow> c < 128 \<and> \<not> is_control c \<and> c \<noteq> 47 \<and> c \<noteq> 46"
  by (auto simp: is_reference_char_def char_class_defs)

lemma attachment_reference_Ok:
  "attachment_reference_try_from value = Ok r \<longleftrightarrow>
    r = AttachmentReference value \<and> value \<noteq> [] \<and> length value \<le> 64 \<and> list_all is_reference_char value"
proof (cases "list_all is_reference_char value")
  case True
  then have "byte_len value = length value"
    by (rule byte_len_list_all) (simp add: is_reference_char_ascii)
  with True show ?thesis
    by (auto simp: attachment_reference_try_from_def Suc_le_eq)
qed (simp add: attachment_reference_try_from_def)

end
