(* ===== verification/Errors.thy ===== *)
theory Errors
  imports Prelude
begin

text \<open>
  \<open>src/src/error.rs\<close>: the application's error type, the HTTP status and the public message of each
  error, and the response built from it. The messages the source fixes with \<open>&'static str\<close> are kept;
  what a database, I/O or internal error carries is the foreign library's own error and is a
  diagnostic text here.
\<close>

datatype app_error =
    InvalidRequest string
  | AuthenticationRequired
  | PermissionDenied string
  | NotFound string
  | Gone string
  | Conflict string
  | RateLimited
  | PayloadTooLarge
  | DeadlineExceeded
  | Unavailable
  | Database string
  | Io string
  | Internal string

type_synonym 'a result = "(app_error, 'a) res"

primrec status :: "app_error \<Rightarrow> nat" where
  "status (InvalidRequest _) = 400"
| "status AuthenticationRequired = 401"
| "status (PermissionDenied _) = 403"
| "status (NotFound _) = 404"
| "status (Gone _) = 410"
| "status (Conflict _) = 409"
| "status RateLimited = 429"
| "status PayloadTooLarge = 413"
| "status DeadlineExceeded = 408"
| "status Unavailable = 503"
| "status (Database _) = 503"
| "status (Io _) = 503"
| "status (Internal _) = 503"

primrec public_message :: "app_error \<Rightarrow> string" where
  "public_message (InvalidRequest m) = m"
| "public_message AuthenticationRequired = ''Authentication required''"
| "public_message (PermissionDenied m) = m"
| "public_message (NotFound m) = m"
| "public_message (Gone m) = m"
| "public_message (Conflict m) = m"
| "public_message RateLimited = ''Rate limit exceeded''"
| "public_message PayloadTooLarge = ''Payload is too large''"
| "public_message DeadlineExceeded = ''Request deadline exceeded''"
| "public_message Unavailable = ''Service temporarily unavailable''"
| "public_message (Database _) = ''Service temporarily unavailable''"
| "public_message (Io _) = ''Service temporarily unavailable''"
| "public_message (Internal _) = ''Service temporarily unavailable''"

text \<open>The response: its status, the \<open>error\<close> member of its JSON body, the \<open>retry-after\<close> header and
  whether the error is written to the log.\<close>

record error_response =
  response_status :: nat
  response_error :: string
  response_retry_after :: "string option"
  response_logged :: bool

definition is_internal :: "app_error \<Rightarrow> bool" where
  "is_internal e = (case e of Database _ \<Rightarrow> True | Io _ \<Rightarrow> True | Internal _ \<Rightarrow> True | _ \<Rightarrow> False)"

definition into_response :: "app_error \<Rightarrow> error_response" where
  "into_response e =
    \<lparr> response_status = status e,
      response_error = public_message e,
      response_retry_after = (if status e = 429 then Some ''60'' else None),
      response_logged = is_internal e \<rparr>"

lemma status_is_error: "400 \<le> status e \<and> status e < 600"
  by (cases e) simp_all

lemma retry_after_iff_rate_limited:
  "response_retry_after (into_response e) \<noteq> None \<longleftrightarrow> e = RateLimited"
  by (cases e) (simp_all add: into_response_def)

text \<open>What an internal failure carries never reaches the caller: two database, I/O or internal
  errors give the same response, and that response is the one of a service that is unavailable, save
  that the failure is logged.\<close>

theorem internal_errors_hidden:
  assumes "is_internal e"
  shows "into_response e = (into_response Unavailable)\<lparr>response_logged := True\<rparr>"
  using assms by (cases e) (simp_all add: into_response_def is_internal_def)

theorem internal_errors_hidden_witness:
  "into_response (Database ''password'') = (into_response Unavailable)\<lparr>response_logged := True\<rparr>"
  by (rule internal_errors_hidden) (simp add: is_internal_def)

end
