(* ===== verification/Trusted_Proxy.thy ===== *)
theory Trusted_Proxy
  imports Rust_Str Errors
begin

text \<open>
  \<open>src/src/domain/trusted_proxy.rs\<close>: a proxy is a network or a DNS name. Networks are the \<open>ipnet\<close>
  crate's, so their type and their parser are parameters, and so is the address parser.
\<close>

datatype 'net trusted_proxy = Network 'net | Host str

abbreviation (input) MAXIMUM_HOST_NAME_BYTES :: nat where "MAXIMUM_HOST_NAME_BYTES \<equiv> 253"
abbreviation (input) MAXIMUM_LABEL_BYTES :: nat where "MAXIMUM_LABEL_BYTES \<equiv> 63"

definition is_host_char :: "uchar \<Rightarrow> bool" where
  "is_host_char c \<longleftrightarrow> is_ascii_alphanumeric c \<or> c = 45 \<or> c = 95"

definition is_host_label :: "str \<Rightarrow> bool" where
  "is_host_label label \<longleftrightarrow>
    label \<noteq> [] \<and> byte_len label \<le> MAXIMUM_LABEL_BYTES \<and>
    \<not> starts_with [45] label \<and> \<not> ends_with [45] label \<and> list_all is_host_char label"

definition is_host_name :: "str \<Rightarrow> bool" where
  "is_host_name value \<longleftrightarrow>
    \<not> (value = [] \<or> byte_len value > MAXIMUM_HOST_NAME_BYTES) \<and>
    list_all is_host_label (split_char 46 value)"

definition trusted_proxy_from_str ::
    "(str \<Rightarrow> 'net option) \<Rightarrow> (str \<Rightarrow> bool) \<Rightarrow> str \<Rightarrow> 'net trusted_proxy result" where
  "trusted_proxy_from_str parse_net is_ip value =
    (case parse_net value of
      Some network \<Rightarrow> Ok (Network network)
    | None \<Rightarrow>
        if is_ip value then Err (InvalidRequest ''Trusted proxy addresses must use CIDR notation'')
        else if \<not> is_host_name value then
          Err (InvalidRequest ''Trusted proxies must be CIDR ranges or DNS names'')
        else Ok (Host (map to_ascii_lowercase value)))"

definition trusted_proxy_display :: "('net \<Rightarrow> str) \<Rightarrow> 'net trusted_proxy \<Rightarrow> str" where
  "trusted_proxy_display show_net p = (case p of Network n \<Rightarrow> show_net n | Host h \<Rightarrow> h)"

lemma to_ascii_lowercase_idem [simp]:
  "to_ascii_lowercase (to_ascii_lowercase c) = to_ascii_lowercase c"
  by (auto simp: char_class_defs)

lemma to_ascii_lowercase_host_char [simp]:
  "is_host_char (to_ascii_lowercase c) = is_host_char c"
  by (auto simp: is_host_char_def char_class_defs)

lemma to_ascii_lowercase_eq_sep [simp]:
  "to_ascii_lowercase c = 45 \<longleftrightarrow> c = 45" "to_ascii_lowercase c = 46 \<longleftrightarrow> c = 46"
  by (auto simp: char_class_defs)

lemma utf8_len_to_ascii_lowercase [simp]: "utf8_len (to_ascii_lowercase c) = utf8_len c"
  by (auto simp: char_class_defs utf8_len_def)

lemma byte_len_to_ascii_lowercase [simp]: "byte_len (map to_ascii_lowercase s) = byte_len s"
  by (induction s) auto

lemma split_char_map:
  assumes "\<And>c. f c = d \<longleftrightarrow> c = d"
  shows "split_char d (map f s) = map (map f) (split_char d s)"
  by (induction s) (auto simp: assms split: list.splits)

lemma ends_with_hyphen: "ends_with [45] s \<longleftrightarrow> s \<noteq> [] \<and> last s = 45"
  by (auto simp: ends_with_iff) (metis append_butlast_last_id)

lemma starts_with_hyphen: "starts_with [45] s \<longleftrightarrow> s \<noteq> [] \<and> hd s = 45"
  by (cases s) (auto simp: starts_with_iff)

lemma is_host_label_lowercase: "is_host_label (map to_ascii_lowercase l) = is_host_label l"
  by (cases "l = []")
    (auto simp: is_host_label_def starts_with_hyphen ends_with_hyphen last_map hd_map list_all_iff)

lemma is_host_name_lowercase: "is_host_name (map to_ascii_lowercase v) = is_host_name v"
  by (auto simp: is_host_name_def split_char_map list_all_iff is_host_label_lowercase)

text \<open>A stored proxy name reads back as itself: when a text is accepted as a DNS name, the name
  kept is a valid host name of at most 253 bytes, and parsing what \<open>Display\<close> prints of it gives the same
  proxy, as long as the network and address parsers do not take letter case into account.\<close>

theorem trusted_proxy_name_roundtrip:
  assumes case_net: "parse_net (map to_ascii_lowercase value) = parse_net value"
    and case_ip: "is_ip (map to_ascii_lowercase value) = is_ip value"
    and parsed: "trusted_proxy_from_str parse_net is_ip value = Ok (Host name)"
  shows "is_host_name name \<and> byte_len name \<le> 253 \<and>
    trusted_proxy_from_str parse_net is_ip (trusted_proxy_display show_net (Host name)) = Ok (Host name)"
proof -
  have name: "name = map to_ascii_lowercase value" "parse_net value = None" "\<not> is_ip value"
    "is_host_name value"
    using parsed by (auto simp: trusted_proxy_from_str_def split: option.splits if_splits)
  then have "is_host_name name" by (simp add: is_host_name_lowercase)
  moreover have "map to_ascii_lowercase name = name" using name(1) by (simp add: comp_def)
  ultimately show ?thesis
    using name case_net case_ip
    by (auto simp: trusted_proxy_from_str_def trusted_proxy_display_def is_host_name_def)
qed

theorem trusted_proxy_name_roundtrip_witness:
  "is_host_name (lit ''proxy.example'') \<and> byte_len (lit ''proxy.example'') \<le> 253 \<and>
    trusted_proxy_from_str (\<lambda>_. None :: nat option) (\<lambda>_. False)
      (trusted_proxy_display (\<lambda>_. []) (Host (lit ''proxy.example''))) = Ok (Host (lit ''proxy.example''))"
proof (rule trusted_proxy_name_roundtrip)
  show "trusted_proxy_from_str (\<lambda>_. None :: nat option) (\<lambda>_. False) (lit ''Proxy.example'') =
    Ok (Host (lit ''proxy.example''))"
    by code_simp
qed simp_all

end
