(* ===== verification/Configuration.thy ===== *)
theory Configuration
  imports Report_Types Trusted_Proxy
begin

text \<open>
  \<open>src/src/domain/configuration.rs\<close>: the runtime configuration as the nested records of the source,
  its defaults, and its validation. Unsigned integers are naturals; the one sum the validation forms
  (\<open>upload_timeout_seconds + 60\<close>) is shown not to leave \<open>u64\<close>. The URL parser is the \<open>url\<close> crate's and is
  an argument; what it answers is a record of the parts the validation reads.
\<close>

abbreviation (input) HARD_MAX_BODY_BYTES :: nat where "HARD_MAX_BODY_BYTES \<equiv> 69206016"
abbreviation (input) HARD_MAX_FIELDS :: nat where "HARD_MAX_FIELDS \<equiv> 256"
abbreviation (input) HARD_MAX_ATTACHMENTS :: nat where "HARD_MAX_ATTACHMENTS \<equiv> 16"
abbreviation (input) HARD_MAX_PNG_PIXELS :: nat where "HARD_MAX_PNG_PIXELS \<equiv> 50000000"
abbreviation (input) HARD_MAX_PNG_DECODED_BYTES :: nat where "HARD_MAX_PNG_DECODED_BYTES \<equiv> 67108864"

section \<open>Records\<close>

record github_issue_labels =
  label_crash :: "str list"
  label_web_compat :: "str list"

record github_configuration =
  repository :: str
  authorization_team :: str
  reports_issue_field_id :: "int option"
  token_refresh_before_seconds :: nat
  membership_recheck_seconds :: nat
  labels :: github_issue_labels

record audit_configuration =
  denied_sign_in_window_seconds :: nat
  retention_days :: nat

record ingestion_limits =
  public_requests_per_minute :: nat
  public_request_burst :: nat
  challenges_per_minute :: nat
  challenge_burst :: nat
  challenges_per_hour :: nat
  submissions_per_minute :: nat
  submission_burst :: nat
  submissions_per_hour :: nat
  concurrent_uploads_per_ip :: nat
  concurrent_uploads_global :: nat
  maximum_fields :: nat
  short_text_bytes :: nat
  multiline_text_bytes :: nat
  metadata_bytes :: nat
  maximum_attachments :: nat
  attachment_bytes :: nat
  submission_bytes :: nat
  png_pixels :: nat
  png_decoded_bytes :: nat
  upload_timeout_seconds :: nat
  minimum_free_storage_bytes :: nat

record proof_of_work_configuration =
  expected_work :: nat
  challenge_lifetime_seconds :: nat

record maintenance_configuration =
  sweep_interval_seconds :: nat
  staging_retention_seconds :: nat
  report_retention_days :: nat
  submission_source_retention_hours :: nat

record discord_webhook_urls =
  webhook_crash :: "str option"
  webhook_web_compat :: "str option"

record discord_configuration =
  webhook_urls :: discord_webhook_urls
  poll_interval_seconds :: nat
  request_timeout_seconds :: nat
  initial_retry_seconds :: nat
  maximum_retry_seconds :: nat
  stack_trace_lines :: nat
  stack_trace_characters :: nat

record 'net runtime_configuration =
  public_base_url :: str
  admin_base_url :: str
  github :: github_configuration
  trusted_proxies :: "'net trusted_proxy list"
  trusted_networks :: "'net list"
  limits :: ingestion_limits
  proof_of_work :: proof_of_work_configuration
  maintenance :: maintenance_configuration
  discord :: discord_configuration
  session_lifetime_seconds :: nat
  audit :: audit_configuration

section \<open>Defaults\<close>

definition github_issue_labels_default :: github_issue_labels where
  "github_issue_labels_default =
    \<lparr> label_crash = [lit ''crash''], label_web_compat = [lit ''web compatibility''] \<rparr>"

definition github_issue_labels_for_kind :: "github_issue_labels \<Rightarrow> report_kind \<Rightarrow> str list" where
  "github_issue_labels_for_kind l kind =
    (case kind of Crash \<Rightarrow> label_crash l | WebCompat \<Rightarrow> label_web_compat l)"

definition default_session_lifetime_seconds :: nat where
  "default_session_lifetime_seconds = 24 * 60 * 60"

definition default_token_refresh_before_seconds :: nat where
  "default_token_refresh_before_seconds = 15 * 60"

definition default_github_authorization_team :: str where
  "default_github_authorization_team = lit ''LadybirdBrowser/maintainers''"

definition github_configuration_default :: github_configuration where
  "github_configuration_default =
    \<lparr> repository = lit ''LadybirdBrowser/ladybird'',
      authorization_team = default_github_authorization_team,
      reports_issue_field_id = None,
      token_refresh_before_seconds = default_token_refresh_before_seconds,
      membership_recheck_seconds = 1800,
      labels = github_issue_labels_default \<rparr>"

definition audit_configuration_default :: audit_configuration where
  "audit_configuration_default =
    \<lparr> denied_sign_in_window_seconds = 10 * 60, retention_days = 3650 \<rparr>"

definition ingestion_limits_default :: ingestion_limits where
  "ingestion_limits_default =
    \<lparr> public_requests_per_minute = 120,
      public_request_burst = 30,
      challenges_per_minute = 10,
      challenge_burst = 3,
      challenges_per_hour = 100,
      submissions_per_minute = 5,
      submission_burst = 2,
      submissions_per_hour = 50,
      concurrent_uploads_per_ip = 2,
      concurrent_uploads_global = 16,
      maximum_fields = 64,
      short_text_bytes = 4 * 1024,
      multiline_text_bytes = 256 * 1024,
      metadata_bytes = 1024 * 1024,
      maximum_attachments = 5,
      attachment_bytes = 10 * 1024 * 1024,
      submission_bytes = 25 * 1024 * 1024,
      png_pixels = 25000000,
      png_decoded_bytes = 32 * 1024 * 1024,
      upload_timeout_seconds = 120,
      minimum_free_storage_bytes = 5 * 1024 * 1024 * 1024 \<rparr>"

definition discord_configuration_default :: discord_configuration where
  "discord_configuration_default =
    \<lparr> webhook_urls = \<lparr> webhook_crash = None, webhook_web_compat = None \<rparr>,
      poll_interval_seconds = 2,
      request_timeout_seconds = 10,
      initial_retry_seconds = 30,
      maximum_retry_seconds = 3600,
      stack_trace_lines = 20,
      stack_trace_characters = 3000 \<rparr>"

definition runtime_configuration_default :: "'net runtime_configuration" where
  "runtime_configuration_default =
    \<lparr> public_base_url = lit ''https://reports.app.ladybird.org'',
      admin_base_url = lit ''http://localhost:3000'',
      github = github_configuration_default,
      trusted_proxies = [],
      trusted_networks = [],
      limits = ingestion_limits_default,
      proof_of_work = \<lparr> expected_work = 5244236, challenge_lifetime_seconds = 600 \<rparr>,
      maintenance =
        \<lparr> sweep_interval_seconds = 900,
          staging_retention_seconds = 3600,
          report_retention_days = 3650,
          submission_source_retention_hours = 48 \<rparr>,
      discord = discord_configuration_default,
      session_lifetime_seconds = default_session_lifetime_seconds,
      audit = audit_configuration_default \<rparr>"

section \<open>Webhooks and proxies\<close>

definition webhook_url :: "discord_configuration \<Rightarrow> report_kind \<Rightarrow> str option" where
  "webhook_url d kind =
    (case kind of Crash \<Rightarrow> webhook_crash (webhook_urls d)
     | WebCompat \<Rightarrow> webhook_web_compat (webhook_urls d))"

definition announced_kinds :: "discord_configuration \<Rightarrow> report_kind list" where
  "announced_kinds d = filter (\<lambda>kind. webhook_url d kind \<noteq> None) [Crash, WebCompat]"

definition trusted_proxy_hosts :: "'net runtime_configuration \<Rightarrow> str list" where
  "trusted_proxy_hosts c =
    List.map_filter (\<lambda>p. case p of Host h \<Rightarrow> Some h | Network _ \<Rightarrow> None) (trusted_proxies c)"

text \<open>\<open>resolved\<close> is the map of the names that were resolved; \<open>net_of\<close> is \<open>IpNet::from\<close> of one address.\<close>

definition resolve_trusted_networks ::
    "('addr \<Rightarrow> 'net) \<Rightarrow> (str \<rightharpoonup> 'addr list) \<Rightarrow> 'net runtime_configuration \<Rightarrow> 'net runtime_configuration"
  where
  "resolve_trusted_networks net_of resolved c = c\<lparr> trusted_networks :=
    concat (map (\<lambda>p. case p of
        Network network \<Rightarrow> [network]
      | Host host \<Rightarrow> (case resolved host of None \<Rightarrow> [] | Some addrs \<Rightarrow> map net_of addrs))
      (trusted_proxies c)) \<rparr>"

lemma announced_kinds_iff: "kind \<in> set (announced_kinds d) \<longleftrightarrow> webhook_url d kind \<noteq> None"
  by (cases kind) (auto simp: announced_kinds_def)

lemma resolve_trusted_networks_set:
  "n \<in> set (trusted_networks (resolve_trusted_networks net_of resolved c)) \<longleftrightarrow>
    Network n \<in> set (trusted_proxies c) \<or>
    (\<exists>host addrs a. Host host \<in> set (trusted_proxies c) \<and> resolved host = Some addrs \<and>
      a \<in> set addrs \<and> n = net_of a)"
proof -
  have "n \<in> set (concat (map (\<lambda>p. case p of Network network \<Rightarrow> [network]
      | Host host \<Rightarrow> (case resolved host of None \<Rightarrow> [] | Some addrs \<Rightarrow> map net_of addrs)) ps)) \<longleftrightarrow>
    Network n \<in> set ps \<or>
    (\<exists>host addrs a. Host host \<in> set ps \<and> resolved host = Some addrs \<and> a \<in> set addrs \<and> n = net_of a)"
    for ps
  proof (induction ps)
    case (Cons p ps)
    then show ?case
    proof (cases p)
      case (Host h)
      then show ?thesis using Cons by (cases "resolved h") (auto, blast+)
    qed auto
  qed simp
  then show ?thesis by (simp add: resolve_trusted_networks_def)
qed

section \<open>Validation\<close>

text \<open>The parts of a parsed URL the validation reads.\<close>

record url =
  url_scheme :: str
  url_host_str :: "str option"
  url_path :: str
  url_path_segments :: "str list option"
  url_query :: "str option"
  url_fragment :: "str option"
  url_username :: str
  url_password :: "str option"

definition validate_origin :: "(str \<Rightarrow> url option) \<Rightarrow> str \<Rightarrow> string \<Rightarrow> unit result" where
  "validate_origin parse_url value message =
    bind_res (ok_or (parse_url value) (InvalidRequest message)) (\<lambda>u.
      let allowed_scheme = url_scheme u = lit ''https'' \<or>
            (url_scheme u = lit ''http'' \<and>
             (url_host_str u = Some (lit ''localhost'') \<or> url_host_str u = Some (lit ''127.0.0.1'')));
          is_origin = url_path u = lit ''/'' \<and> url_query u = None \<and> url_fragment u = None \<and>
            url_username u = [] \<and> url_password u = None
      in fail_if (\<not> allowed_scheme \<or> \<not> is_origin) (InvalidRequest message))"

text \<open>The first two pieces of a text split at slashes, each tested, and no third one.\<close>

definition two_components :: "(str \<Rightarrow> bool) \<Rightarrow> str \<Rightarrow> bool" where
  "two_components valid value =
    (let components = split_char 47 value;
         first = (case components of [] \<Rightarrow> [] | c # _ \<Rightarrow> c);
         second = (case components of _ # c # _ \<Rightarrow> c | _ \<Rightarrow> [])
     in \<not> (\<not> valid first \<or> \<not> valid second \<or> 2 < length components))"

definition is_repository_component :: "str \<Rightarrow> bool" where
  "is_repository_component c \<longleftrightarrow> c \<noteq> [] \<and>
    list_all (\<lambda>b. is_ascii_alphanumeric b \<or> b = 45 \<or> b = 46 \<or> b = 95) c"

definition is_team_component :: "str \<Rightarrow> bool" where
  "is_team_component c \<longleftrightarrow> c \<noteq> [] \<and> byte_len c \<le> 100 \<and>
    list_all (\<lambda>b. is_ascii_alphanumeric b \<or> b = 45) c"

definition validate_github_repository :: "'net runtime_configuration \<Rightarrow> unit result" where
  "validate_github_repository c =
    fail_if (\<not> two_components is_repository_component (repository (github c)))
      (InvalidRequest ''Invalid GitHub repository'')"

definition validate_github_authorization_team :: "'net runtime_configuration \<Rightarrow> unit result" where
  "validate_github_authorization_team c =
    fail_if (\<not> two_components is_team_component (authorization_team (github c)))
      (InvalidRequest ''Invalid GitHub access team'')"

definition invalid_labels :: "str list \<Rightarrow> bool" where
  "invalid_labels ls \<longleftrightarrow> 20 < length ls \<or>
    list_ex (\<lambda>label. trim label = [] \<or> trim label \<noteq> label \<or> 50 < length label \<or>
      list_ex is_control label) ls"

definition validate_github_labels :: "'net runtime_configuration \<Rightarrow> unit result" where
  "validate_github_labels c =
    check_all (\<lambda>ls. fail_if (invalid_labels ls) (InvalidRequest ''Invalid GitHub issue labels''))
      [label_crash (labels (github c)), label_web_compat (labels (github c))]"

definition validate_rate_limits :: "'net runtime_configuration \<Rightarrow> unit result" where
  "validate_rate_limits c =
    (let l = limits c;
         values = [public_requests_per_minute l, public_request_burst l, challenges_per_minute l,
           challenge_burst l, challenges_per_hour l, submissions_per_minute l, submission_burst l,
           submissions_per_hour l]
     in fail_if (list_ex (\<lambda>v. \<not> (1 \<le> v \<and> v \<le> 100000)) values)
          (InvalidRequest ''Rate limits must be between 1 and 100000''))"

definition validate_payload_limits :: "'net runtime_configuration \<Rightarrow> unit result" where
  "validate_payload_limits c =
    (let l = limits c;
         invalid = maximum_fields l = 0 \<or> HARD_MAX_FIELDS < maximum_fields l
           \<or> HARD_MAX_ATTACHMENTS < maximum_attachments l
           \<or> metadata_bytes l = 0 \<or> 2 * 1024 * 1024 < metadata_bytes l
           \<or> short_text_bytes l = 0 \<or> multiline_text_bytes l < short_text_bytes l
           \<or> metadata_bytes l < multiline_text_bytes l
           \<or> attachment_bytes l = 0 \<or> submission_bytes l < attachment_bytes l
           \<or> HARD_MAX_BODY_BYTES < submission_bytes l
           \<or> png_pixels l = 0 \<or> HARD_MAX_PNG_PIXELS < png_pixels l
           \<or> png_decoded_bytes l = 0 \<or> HARD_MAX_PNG_DECODED_BYTES < png_decoded_bytes l
     in fail_if invalid (InvalidRequest ''Unsafe payload limits''))"

text \<open>\<open>+\<close> on \<open>u64\<close>, which wraps in a release build.\<close>

definition u64_add :: "nat \<Rightarrow> nat \<Rightarrow> nat" where
  "u64_add a b = (a + b) mod 2 ^ 64"

lemma u64_add_exact: "a + b < 2 ^ 64 \<Longrightarrow> u64_add a b = a + b"
  by (simp add: u64_add_def)

definition validate_operational_limits :: "'net runtime_configuration \<Rightarrow> unit result" where
  "validate_operational_limits c =
    (let l = limits c; proof_cfg = proof_of_work c; m = maintenance c;
         invalid = concurrent_uploads_per_ip l = 0
           \<or> concurrent_uploads_global l < concurrent_uploads_per_ip l
           \<or> 128 < concurrent_uploads_global l
           \<or> \<not> (5 \<le> upload_timeout_seconds l \<and> upload_timeout_seconds l \<le> 300)
           \<or> \<not> (1 \<le> expected_work proof_cfg \<and> expected_work proof_cfg \<le> 1000000000)
           \<or> \<not> (30 \<le> challenge_lifetime_seconds proof_cfg \<and> challenge_lifetime_seconds proof_cfg \<le> 3600)
           \<or> \<not> (3600 \<le> session_lifetime_seconds c \<and> session_lifetime_seconds c \<le> 2592000)
           \<or> \<not> (60 \<le> token_refresh_before_seconds (github c) \<and>
               token_refresh_before_seconds (github c) \<le> 3600)
           \<or> \<not> (30 \<le> membership_recheck_seconds (github c) \<and>
               membership_recheck_seconds (github c) \<le> 3600)
           \<or> 86400 < denied_sign_in_window_seconds (audit c)
           \<or> \<not> (30 \<le> retention_days (audit c) \<and> retention_days (audit c) \<le> 36500);
         invalid = invalid
           \<or> \<not> (60 \<le> sweep_interval_seconds m \<and> sweep_interval_seconds m \<le> 86400)
           \<or> staging_retention_seconds m < u64_add (upload_timeout_seconds l) 60
           \<or> 604800 < staging_retention_seconds m
           \<or> \<not> (30 \<le> report_retention_days m \<and> report_retention_days m \<le> 36500)
           \<or> \<not> (1 \<le> submission_source_retention_hours m \<and> submission_source_retention_hours m \<le> 8760)
     in fail_if invalid (InvalidRequest ''Unsafe operational limits''))"

definition validate_discord_webhook_url :: "(str \<Rightarrow> url option) \<Rightarrow> str \<Rightarrow> unit result" where
  "validate_discord_webhook_url parse_url value =
    bind_res (ok_or (parse_url value) (InvalidRequest ''Invalid Discord webhook URL'')) (\<lambda>u.
      let valid_host = url_host_str u = Some (lit ''discord.com'') \<or>
            url_host_str u = Some (lit ''discordapp.com'');
          valid_path = (case url_path_segments u of
              Some [api, webhooks, webhook_id, webhook_token] \<Rightarrow>
                api = lit ''api'' \<and> webhooks = lit ''webhooks'' \<and> webhook_id \<noteq> [] \<and> webhook_token \<noteq> []
            | _ \<Rightarrow> False)
      in fail_if (url_scheme u \<noteq> lit ''https'' \<or> \<not> valid_host \<or> \<not> valid_path \<or>
             url_query u \<noteq> None \<or> url_fragment u \<noteq> None \<or> url_username u \<noteq> [] \<or> url_password u \<noteq> None)
           (InvalidRequest ''Invalid Discord webhook URL''))"

definition validate_discord :: "(str \<Rightarrow> url option) \<Rightarrow> 'net runtime_configuration \<Rightarrow> unit result" where
  "validate_discord parse_url c =
    (let d = discord c;
         invalid_limits = \<not> (1 \<le> poll_interval_seconds d \<and> poll_interval_seconds d \<le> 300)
           \<or> \<not> (1 \<le> request_timeout_seconds d \<and> request_timeout_seconds d \<le> 60)
           \<or> \<not> (5 \<le> initial_retry_seconds d \<and> initial_retry_seconds d \<le> 3600)
           \<or> maximum_retry_seconds d < initial_retry_seconds d
           \<or> 86400 < maximum_retry_seconds d
           \<or> \<not> (1 \<le> stack_trace_lines d \<and> stack_trace_lines d \<le> 100)
           \<or> \<not> (256 \<le> stack_trace_characters d \<and> stack_trace_characters d \<le> 3500)
     in bind_res (fail_if invalid_limits (InvalidRequest ''Invalid Discord notification settings''))
          (\<lambda>_. check_all (validate_discord_webhook_url parse_url)
            (List.map_filter (\<lambda>w. w) [webhook_crash (webhook_urls d), webhook_web_compat (webhook_urls d)])))"

definition validate :: "(str \<Rightarrow> url option) \<Rightarrow> 'net runtime_configuration \<Rightarrow> unit result" where
  "validate parse_url c =
    bind_res (validate_origin parse_url (public_base_url c) ''Invalid public URL'') (\<lambda>_.
    bind_res (validate_origin parse_url (admin_base_url c) ''Invalid admin URL'') (\<lambda>_.
    bind_res (validate_github_repository c) (\<lambda>_.
    bind_res (validate_github_authorization_team c) (\<lambda>_.
    bind_res (validate_github_labels c) (\<lambda>_.
    bind_res (fail_if (case reports_issue_field_id (github c) of None \<Rightarrow> False | Some i \<Rightarrow> i < 1)
      (InvalidRequest ''Invalid GitHub Reports field ID'')) (\<lambda>_.
    bind_res (validate_rate_limits c) (\<lambda>_.
    bind_res (validate_payload_limits c) (\<lambda>_.
    bind_res (validate_operational_limits c) (\<lambda>_.
    validate_discord parse_url c)))))))))"

lemma two_components_iff:
  "two_components valid v \<longleftrightarrow> (\<exists>a b. split_char 47 v = [a, b] \<and> valid a \<and> valid b)"
  if "\<not> valid []"
proof (cases "split_char 47 v")
  case (Cons a rest)
  then show ?thesis
    using that by (cases rest; cases "tl rest") (auto simp: two_components_def Let_def)
qed simp

lemma two_components_slash:
  assumes "\<not> valid []" "two_components valid v"
  obtains a b where "v = a @ 47 # b" "valid a" "valid b" "47 \<notin> set a" "47 \<notin> set b"
proof -
  obtain a b where ab: "split_char 47 v = [a, b]" "valid a" "valid b"
    using assms two_components_iff by blast
  have "v = a @ 47 # b" using join_split_char [of 47 v] ab by simp
  moreover have "47 \<notin> set a" "47 \<notin> set b"
    using split_char_no_sep [of _ 47 v] ab by auto
  ultimately show thesis using that ab by blast
qed

text \<open>Everything a validated configuration guarantees its users.\<close>

lemma validate_OkD:
  assumes "validate parse_url c = Ok ()"
  shows "validate_origin parse_url (public_base_url c) ''Invalid public URL'' = Ok ()"
    and "validate_origin parse_url (admin_base_url c) ''Invalid admin URL'' = Ok ()"
    and "validate_github_repository c = Ok ()"
    and "validate_github_authorization_team c = Ok ()"
    and "validate_github_labels c = Ok ()"
    and "\<And>i. reports_issue_field_id (github c) = Some i \<Longrightarrow> 1 \<le> i"
    and "validate_rate_limits c = Ok ()"
    and "validate_payload_limits c = Ok ()"
    and "validate_operational_limits c = Ok ()"
    and "validate_discord parse_url c = Ok ()"
  using assms by (auto simp: validate_def bind_res_eq_Ok fail_if_eq_Ok)

lemma payload_limits_Ok:
  assumes "validate_payload_limits c = Ok ()"
  shows "1 \<le> maximum_fields (limits c)" "maximum_fields (limits c) \<le> 256"
    "maximum_attachments (limits c) \<le> 16"
    "1 \<le> short_text_bytes (limits c)" "short_text_bytes (limits c) \<le> multiline_text_bytes (limits c)"
    "multiline_text_bytes (limits c) \<le> metadata_bytes (limits c)"
    "metadata_bytes (limits c) \<le> 2097152"
    "1 \<le> attachment_bytes (limits c)" "attachment_bytes (limits c) \<le> submission_bytes (limits c)"
    "submission_bytes (limits c) \<le> HARD_MAX_BODY_BYTES"
    "png_decoded_bytes (limits c) \<le> HARD_MAX_PNG_DECODED_BYTES"
  using assms by (simp_all add: validate_payload_limits_def Let_def fail_if_eq_Ok)

lemma operational_limits_Ok:
  assumes "validate_operational_limits c = Ok ()"
  shows "1 \<le> concurrent_uploads_per_ip (limits c)"
    "concurrent_uploads_per_ip (limits c) \<le> concurrent_uploads_global (limits c)"
    "concurrent_uploads_global (limits c) \<le> 128"
    "5 \<le> upload_timeout_seconds (limits c)" "upload_timeout_seconds (limits c) \<le> 300"
    "1 \<le> expected_work (proof_of_work c)" "expected_work (proof_of_work c) \<le> 1000000000"
    "30 \<le> challenge_lifetime_seconds (proof_of_work c)"
    "upload_timeout_seconds (limits c) + 60 \<le> staging_retention_seconds (maintenance c)"
    "staging_retention_seconds (maintenance c) \<le> 604800"
    "30 \<le> report_retention_days (maintenance c)" "report_retention_days (maintenance c) \<le> 36500"
    "3600 \<le> session_lifetime_seconds c" "session_lifetime_seconds c \<le> 2592000"
    "1 \<le> submission_source_retention_hours (maintenance c)"
  using assms
  by (simp_all add: validate_operational_limits_def Let_def fail_if_eq_Ok u64_add_def not_less)

lemma discord_Ok:
  assumes "validate_discord parse_url c = Ok ()"
  shows "5 \<le> initial_retry_seconds (discord c)"
    "initial_retry_seconds (discord c) \<le> maximum_retry_seconds (discord c)"
    "maximum_retry_seconds (discord c) \<le> 86400"
    "1 \<le> stack_trace_lines (discord c)" "stack_trace_lines (discord c) \<le> 100"
    "256 \<le> stack_trace_characters (discord c)" "stack_trace_characters (discord c) \<le> 3500"
    "1 \<le> poll_interval_seconds (discord c)"
    "1 \<le> request_timeout_seconds (discord c)" "request_timeout_seconds (discord c) \<le> 60"
  using assms by (simp_all add: validate_discord_def Let_def bind_res_eq_Ok fail_if_eq_Ok)

text \<open>A configuration that passes validation is safe to run with: the payload limits nest (short
  text within multiline text within the manifest within 2 MiB, an attachment within a submission within
  the hard body limit), every upload ends before the staging sweep may remove its files, the sum the
  check forms does not wrap, the retry delays of the Discord queue are ordered, and the proof of work and
  the upload caps are never zero.\<close>

theorem validated_configuration_bounds:
  assumes "validate parse_url c = Ok ()"
  shows "1 \<le> short_text_bytes (limits c) \<and>
    short_text_bytes (limits c) \<le> multiline_text_bytes (limits c) \<and>
    multiline_text_bytes (limits c) \<le> metadata_bytes (limits c) \<and>
    metadata_bytes (limits c) \<le> 2097152 \<and>
    attachment_bytes (limits c) \<le> submission_bytes (limits c) \<and>
    submission_bytes (limits c) \<le> HARD_MAX_BODY_BYTES \<and>
    u64_add (upload_timeout_seconds (limits c)) 60 = upload_timeout_seconds (limits c) + 60 \<and>
    upload_timeout_seconds (limits c) + 60 \<le> staging_retention_seconds (maintenance c) \<and>
    0 < initial_retry_seconds (discord c) \<and>
    initial_retry_seconds (discord c) \<le> maximum_retry_seconds (discord c) \<and>
    0 < expected_work (proof_of_work c) \<and>
    0 < concurrent_uploads_per_ip (limits c) \<and>
    concurrent_uploads_per_ip (limits c) \<le> concurrent_uploads_global (limits c)"
proof -
  note payload = payload_limits_Ok [OF validate_OkD(8) [OF assms]]
  note oper = operational_limits_Ok [OF validate_OkD(9) [OF assms]]
  note disc = discord_Ok [OF validate_OkD(10) [OF assms]]
  have "u64_add (upload_timeout_seconds (limits c)) 60 = upload_timeout_seconds (limits c) + 60"
    using oper(5) by (intro u64_add_exact) simp
  then show ?thesis using payload oper disc by simp
qed

lemma default_valid:
  assumes "parse_url (lit ''https://reports.app.ladybird.org'') =
      Some \<lparr> url_scheme = lit ''https'', url_host_str = Some (lit ''reports.app.ladybird.org''),
        url_path = lit ''/'', url_path_segments = Some [[]], url_query = None, url_fragment = None,
        url_username = [], url_password = None \<rparr>"
    and "parse_url (lit ''http://localhost:3000'') =
      Some \<lparr> url_scheme = lit ''http'', url_host_str = Some (lit ''localhost''),
        url_path = lit ''/'', url_path_segments = Some [[]], url_query = None, url_fragment = None,
        url_username = [], url_password = None \<rparr>"
  shows "validate parse_url (runtime_configuration_default :: 'net runtime_configuration) = Ok ()"
proof -
  let ?c = "runtime_configuration_default :: 'net runtime_configuration"
  have "two_components is_repository_component (lit ''LadybirdBrowser/ladybird'')"
    "two_components is_team_component (lit ''LadybirdBrowser/maintainers'')"
    "\<not> invalid_labels [lit ''crash'']" "\<not> invalid_labels [lit ''web compatibility'']"
    by (simp_all add: two_components_def is_repository_component_def is_team_component_def
        invalid_labels_def text_eval)
  then have "validate_github_repository ?c = Ok ()" "validate_github_authorization_team ?c = Ok ()"
    "validate_github_labels ?c = Ok ()"
    by (simp_all add: validate_github_repository_def validate_github_authorization_team_def
        validate_github_labels_def runtime_configuration_default_def github_configuration_default_def
        default_github_authorization_team_def github_issue_labels_default_def)
  moreover have "validate_rate_limits ?c = Ok ()" "validate_payload_limits ?c = Ok ()"
    "validate_operational_limits ?c = Ok ()" "validate_discord parse_url ?c = Ok ()"
    by (simp_all add: validate_rate_limits_def validate_payload_limits_def
        validate_operational_limits_def validate_discord_def runtime_configuration_default_def
        ingestion_limits_default_def discord_configuration_default_def u64_add_def
        default_session_lifetime_seconds_def github_configuration_default_def
        default_token_refresh_before_seconds_def audit_configuration_default_def map_filter_simps)
  ultimately show ?thesis
    using assms
    by (simp add: validate_def validate_origin_def runtime_configuration_default_def
        github_configuration_default_def)
qed

definition example_parse_url :: "str \<Rightarrow> url option" where
  "example_parse_url s = Some \<lparr> url_scheme = (if s = lit ''http://localhost:3000'' then lit ''http'' else lit ''https''),
    url_host_str = Some (if s = lit ''http://localhost:3000'' then lit ''localhost''
      else lit ''reports.app.ladybird.org''),
    url_path = lit ''/'', url_path_segments = Some [[]], url_query = None, url_fragment = None,
    url_username = [], url_password = None \<rparr>"

text \<open>The built-in configuration is accepted by its own validation, given that the URL parser reads
  its two origins as what they are.\<close>

theorem default_configuration_valid:
  assumes "parse_url (lit ''https://reports.app.ladybird.org'') =
      Some \<lparr> url_scheme = lit ''https'', url_host_str = Some (lit ''reports.app.ladybird.org''),
        url_path = lit ''/'', url_path_segments = Some [[]], url_query = None, url_fragment = None,
        url_username = [], url_password = None \<rparr>"
    and "parse_url (lit ''http://localhost:3000'') =
      Some \<lparr> url_scheme = lit ''http'', url_host_str = Some (lit ''localhost''),
        url_path = lit ''/'', url_path_segments = Some [[]], url_query = None, url_fragment = None,
        url_username = [], url_password = None \<rparr>"
  shows "validate parse_url (runtime_configuration_default :: 'net runtime_configuration) = Ok ()"
  using assms by (rule default_valid)

theorem default_configuration_valid_witness:
  "validate example_parse_url (runtime_configuration_default :: nat runtime_configuration) = Ok ()"
  by (rule default_configuration_valid) (simp_all add: example_parse_url_def)

theorem validated_configuration_bounds_witness:
  "1 \<le> short_text_bytes (limits (runtime_configuration_default :: nat runtime_configuration)) \<and>
   submission_bytes (limits (runtime_configuration_default :: nat runtime_configuration)) \<le> HARD_MAX_BODY_BYTES"
proof -
  have "validate example_parse_url (runtime_configuration_default :: nat runtime_configuration) = Ok ()"
    by (rule default_valid) (simp_all add: example_parse_url_def)
  from validated_configuration_bounds [OF this] show ?thesis by simp
qed

end
