(* ===== verification/Diagnostic_Fields.thy ===== *)
theory Diagnostic_Fields
  imports Configuration
begin

text \<open>
  \<open>src/src/domain/field.rs\<close>: the diagnostic fields of a report, the kinds a field definition accepts,
  the validation of submitted fields and the choice of the stack trace that signs a submission. A
  \<open>HashSet\<close> of the keys seen is a set, the definitions are a map by key.
\<close>

text \<open>A JSON number is \<open>serde_json\<close>'s and is a type parameter.\<close>

datatype 'num field_value =
    Text str
  | Multiline str
  | StackTrace str
  | Url str
  | CommitId str
  | Number 'num
  | Boolean bool
  | Attachment attachment_reference

datatype field_kind = Text | Multiline | StackTrace | Url | CommitId | Number | Boolean | Attachment

definition field_kind_all :: "field_kind list" where
  "field_kind_all = [field_kind.Text, field_kind.Multiline, field_kind.StackTrace, field_kind.Url,
    field_kind.CommitId, field_kind.Number, field_kind.Boolean, field_kind.Attachment]"

primrec field_kind_as_str :: "field_kind \<Rightarrow> string" where
  "field_kind_as_str field_kind.Text = ''text''"
| "field_kind_as_str field_kind.Multiline = ''multiline''"
| "field_kind_as_str field_kind.StackTrace = ''stack_trace''"
| "field_kind_as_str field_kind.Url = ''url''"
| "field_kind_as_str field_kind.CommitId = ''commit_id''"
| "field_kind_as_str field_kind.Number = ''number''"
| "field_kind_as_str field_kind.Boolean = ''boolean''"
| "field_kind_as_str field_kind.Attachment = ''attachment''"

interpretation field_kind: text_enum field_kind_all field_kind_as_str
proof
  show "set field_kind_all = UNIV"
    by (auto simp: field_kind_all_def intro: field_kind.exhaust)
qed (simp add: field_kind_all_def)

record 'num diagnostic_field =
  field_key :: str
  field_value :: "'num field_value"

record field_definition =
  definition_key :: str
  definition_label :: str
  definition_kind :: field_kind
  definition_position :: int

definition accepts :: "field_kind \<Rightarrow> field_kind \<Rightarrow> bool" where
  "accepts defined submitted \<longleftrightarrow> defined = submitted \<or>
    (defined = field_kind.StackTrace \<and> submitted = field_kind.Multiline) \<or>
    ((defined = field_kind.Url \<or> defined = field_kind.CommitId) \<and> submitted = field_kind.Text)"

definition is_commit_id :: "str \<Rightarrow> bool" where
  "is_commit_id v \<longleftrightarrow> 7 \<le> byte_len v \<and> byte_len v \<le> 64 \<and> list_all is_ascii_hexdigit v"

primrec field_value_kind :: "'num field_value \<Rightarrow> field_kind" where
  "field_value_kind (field_value.Text _) = field_kind.Text"
| "field_value_kind (field_value.Multiline _) = field_kind.Multiline"
| "field_value_kind (field_value.StackTrace _) = field_kind.StackTrace"
| "field_value_kind (field_value.Url _) = field_kind.Url"
| "field_value_kind (field_value.CommitId _) = field_kind.CommitId"
| "field_value_kind (field_value.Number _) = field_kind.Number"
| "field_value_kind (field_value.Boolean _) = field_kind.Boolean"
| "field_value_kind (field_value.Attachment _) = field_kind.Attachment"

text \<open>The JSON value a field is stored as.\<close>

datatype 'num json = JsonString str | JsonNumber 'num | JsonBool bool

primrec json_value :: "'num field_value \<Rightarrow> 'num json" where
  "json_value (field_value.Text v) = JsonString v"
| "json_value (field_value.Multiline v) = JsonString v"
| "json_value (field_value.StackTrace v) = JsonString v"
| "json_value (field_value.Url v) = JsonString v"
| "json_value (field_value.CommitId v) = JsonString v"
| "json_value (field_value.Number n) = JsonNumber n"
| "json_value (field_value.Boolean b) = JsonBool b"
| "json_value (field_value.Attachment r) = JsonString (reference_as_str r)"

definition is_key_char :: "uchar \<Rightarrow> bool" where
  "is_key_char c \<longleftrightarrow> is_ascii_alphanumeric c \<or> c = 46 \<or> c = 95 \<or> c = 45"

definition is_valid_field_key :: "str \<Rightarrow> bool" where
  "is_valid_field_key key \<longleftrightarrow> key \<noteq> [] \<and> byte_len key \<le> 64 \<and> list_all is_key_char key"

definition validate_field_key :: "str \<Rightarrow> unit result" where
  "validate_field_key key =
    fail_if (\<not> is_valid_field_key key) (InvalidRequest ''Invalid diagnostic field key'')"

text \<open>The tests on the type and on the size of one field, in the order of the loop's body.\<close>

definition validate_field_type :: "(str \<rightharpoonup> field_definition) \<Rightarrow> 'num diagnostic_field \<Rightarrow> unit result" where
  "validate_field_type definitions f =
    (case definitions (field_key f) of
      Some d \<Rightarrow> fail_if (\<not> accepts (definition_kind d) (field_value_kind (field_value f)))
        (InvalidRequest ''Recognized diagnostic field has the wrong type'')
    | None \<Rightarrow> Ok ())"

definition validate_field_value ::
    "attachment_reference set \<Rightarrow> ingestion_limits \<Rightarrow> 'num field_value \<Rightarrow> unit result" where
  "validate_field_value references l v =
    (case v of
      field_value.Text t \<Rightarrow>
        fail_if (short_text_bytes l < byte_len t) (InvalidRequest ''Text field is too large'')
    | field_value.Url t \<Rightarrow>
        fail_if (short_text_bytes l < byte_len t) (InvalidRequest ''Text field is too large'')
    | field_value.CommitId t \<Rightarrow>
        fail_if (short_text_bytes l < byte_len t) (InvalidRequest ''Text field is too large'')
    | field_value.Multiline t \<Rightarrow>
        fail_if (multiline_text_bytes l < byte_len t) (InvalidRequest ''Multiline field is too large'')
    | field_value.StackTrace t \<Rightarrow>
        fail_if (multiline_text_bytes l < byte_len t) (InvalidRequest ''Multiline field is too large'')
    | field_value.Attachment r \<Rightarrow>
        fail_if (r \<notin> references)
          (InvalidRequest ''Diagnostic field references an unknown attachment'')
    | _ \<Rightarrow> Ok ())"

fun validate_fields_loop ::
    "str set \<Rightarrow> attachment_reference set \<Rightarrow> (str \<rightharpoonup> field_definition) \<Rightarrow> ingestion_limits \<Rightarrow>
     'num diagnostic_field list \<Rightarrow> unit result" where
  "validate_fields_loop keys references definitions l [] = Ok ()"
| "validate_fields_loop keys references definitions l (f # fs) =
    bind_res (validate_field_key (field_key f)) (\<lambda>_.
    bind_res (fail_if (field_key f \<in> keys) (InvalidRequest ''Duplicate diagnostic field'')) (\<lambda>_.
    bind_res (validate_field_type definitions f) (\<lambda>_.
    bind_res (validate_field_value references l (field_value f)) (\<lambda>_.
    validate_fields_loop (insert (field_key f) keys) references definitions l fs))))"

definition validate_fields ::
    "'num diagnostic_field list \<Rightarrow> attachment_reference set \<Rightarrow> (str \<rightharpoonup> field_definition) \<Rightarrow>
     ingestion_limits \<Rightarrow> unit result" where
  "validate_fields submitted references definitions l =
    bind_res (fail_if (maximum_fields l < length submitted) (InvalidRequest ''Too many diagnostic fields''))
      (\<lambda>_. validate_fields_loop {} references definitions l submitted)"

text \<open>\<open>submitted_stack_trace\<close>: the candidates in the order sent, then the first least one by
  \<open>(key != "stack", key)\<close>.\<close>

definition stack_candidate ::
    "(str \<rightharpoonup> field_definition) \<Rightarrow> 'num diagnostic_field \<Rightarrow> (str \<times> str) option" where
  "stack_candidate definitions f =
    (case field_value f of
      field_value.StackTrace t \<Rightarrow> Some (field_key f, t)
    | field_value.Multiline t \<Rightarrow>
        if field_key f = lit ''stack'' \<or>
           (case definitions (field_key f) of
              Some d \<Rightarrow> definition_kind d = field_kind.StackTrace | None \<Rightarrow> False)
        then Some (field_key f, t) else None
    | _ \<Rightarrow> None)"

definition stack_rank :: "str \<times> str \<Rightarrow> bool \<times> str" where
  "stack_rank candidate = (fst candidate \<noteq> lit ''stack'', fst candidate)"

definition submitted_stack_trace ::
    "'num diagnostic_field list \<Rightarrow> (str \<rightharpoonup> field_definition) \<Rightarrow> str option" where
  "submitted_stack_trace submitted definitions =
    map_option snd (min_by_key stack_rank (List.map_filter (stack_candidate definitions) submitted))"

section \<open>What the checks establish\<close>

lemma is_key_char_ascii: "is_key_char c \<Longrightarrow> c < 128"
  by (auto simp: is_key_char_def char_class_defs)

lemma is_valid_field_key_length: "is_valid_field_key k \<Longrightarrow> length k = byte_len k"
  using byte_len_list_all [of is_key_char k] is_key_char_ascii by (simp add: is_valid_field_key_def)

lemma accepts_refl [simp]: "accepts k k"
  by (simp add: accepts_def)

text \<open>The rules a submitted field must satisfy, as a predicate.\<close>

definition field_ok ::
    "attachment_reference set \<Rightarrow> (str \<rightharpoonup> field_definition) \<Rightarrow> ingestion_limits \<Rightarrow>
     'num diagnostic_field \<Rightarrow> bool" where
  "field_ok references definitions l f \<longleftrightarrow>
    is_valid_field_key (field_key f) \<and>
    (\<forall>d. definitions (field_key f) = Some d \<longrightarrow> accepts (definition_kind d) (field_value_kind (field_value f))) \<and>
    (case field_value f of
      field_value.Text t \<Rightarrow> byte_len t \<le> short_text_bytes l
    | field_value.Url t \<Rightarrow> byte_len t \<le> short_text_bytes l
    | field_value.CommitId t \<Rightarrow> byte_len t \<le> short_text_bytes l
    | field_value.Multiline t \<Rightarrow> byte_len t \<le> multiline_text_bytes l
    | field_value.StackTrace t \<Rightarrow> byte_len t \<le> multiline_text_bytes l
    | field_value.Attachment r \<Rightarrow> r \<in> references
    | _ \<Rightarrow> True)"

lemma field_checks_Ok:
  "validate_field_key (field_key f) = Ok () \<and> validate_field_type definitions f = Ok () \<and>
    validate_field_value references l (field_value f) = Ok () \<longleftrightarrow> field_ok references definitions l f"
  by (cases "field_value f"; cases "definitions (field_key f)")
    (auto simp: field_ok_def validate_field_key_def validate_field_type_def validate_field_value_def
      fail_if_eq_Ok not_less)

lemma validate_fields_loop_Ok:
  "validate_fields_loop keys references definitions l submitted = Ok () \<longleftrightarrow>
    distinct (map field_key submitted) \<and> keys \<inter> field_key ` set submitted = {} \<and>
    (\<forall>f \<in> set submitted. field_ok references definitions l f)"
proof (induction submitted arbitrary: keys)
  case (Cons f fs)
  show ?case
    using field_checks_Ok [of f definitions references l] Cons.IH [of "insert (field_key f) keys"]
    by (auto simp: bind_res_eq_Ok fail_if_eq_Ok)
qed simp

lemma validate_fields_Ok:
  "validate_fields submitted references definitions l = Ok () \<longleftrightarrow>
    length submitted \<le> maximum_fields l \<and> distinct (map field_key submitted) \<and>
    (\<forall>f \<in> set submitted. field_ok references definitions l f)"
  by (auto simp: validate_fields_def bind_res_eq_Ok fail_if_eq_Ok validate_fields_loop_Ok not_less)

lemma stack_candidate_Some:
  "stack_candidate definitions f = Some (k, t) \<Longrightarrow> k = field_key f \<and>
    (field_value f = field_value.StackTrace t \<or> field_value f = field_value.Multiline t)"
  by (auto simp: stack_candidate_def split: field_value.splits if_splits)

lemma map_filter_mem: "y \<in> set (List.map_filter g xs) \<longleftrightarrow> (\<exists>x \<in> set xs. g x = Some y)"
  by (force simp: map_filter_def)

text \<open>The stack trace that signs a submission is the \<open>stack\<close> field whenever one was sent as a stack
  trace or as multiline text, whatever other fields came with it and in whatever order.\<close>

theorem stack_field_signs:
  assumes mem: "f \<in> set submitted" and key: "field_key f = lit ''stack''"
    and value_f: "field_value f = field_value.StackTrace t \<or> field_value f = field_value.Multiline t"
    and unique: "distinct (map field_key submitted)"
  shows "submitted_stack_trace submitted definitions = Some t"
proof -
  let ?cs = "List.map_filter (stack_candidate definitions) submitted"
  have "stack_candidate definitions f = Some (lit ''stack'', t)"
    using key value_f by (auto simp: stack_candidate_def)
  with mem have in_cs: "(lit ''stack'', t) \<in> set ?cs" by (auto simp: map_filter_mem)
  then have "min_by_key stack_rank ?cs \<noteq> None" by (auto simp: min_by_key_None)
  then obtain m where m: "min_by_key stack_rank ?cs = Some m" by blast
  from min_by_key_minimal [OF m] in_cs have "m \<in> set ?cs" "stack_rank m \<le> stack_rank (lit ''stack'', t)"
    by auto
  then have "fst m = lit ''stack''" by (auto simp: stack_rank_def less_eq_prod_def)
  moreover obtain g where g: "g \<in> set submitted" "stack_candidate definitions g = Some m"
    using \<open>m \<in> set ?cs\<close> by (auto simp: map_filter_mem)
  ultimately have "field_key g = field_key f"
    using key by (cases m) (auto dest: stack_candidate_Some)
  then have "g = f" using unique g(1) mem by (auto simp: distinct_map inj_on_def)
  with g(2) \<open>stack_candidate definitions f = Some (lit ''stack'', t)\<close> have "m = (lit ''stack'', t)"
    by simp
  with m show ?thesis by (simp add: submitted_stack_trace_def)
qed

theorem stack_field_signs_witness:
  "submitted_stack_trace
    [\<lparr>field_key = lit ''a.trace'', field_value = field_value.StackTrace (lit ''x'') :: nat field_value\<rparr>,
     \<lparr>field_key = lit ''stack'', field_value = field_value.Multiline (lit ''y'')\<rparr>] (\<lambda>_. None)
    = Some (lit ''y'')"
  by (rule stack_field_signs
      [where f = "\<lparr>field_key = lit ''stack'', field_value = field_value.Multiline (lit ''y'')\<rparr>"])
    simp_all

end
