(* ===== verification/States.thy ===== *)
theory States
  imports Text_Enum
begin

text \<open>
  \<open>src/src/domain/states.rs\<close>: the states of reports and issues, what is known of a linked GitHub
  issue, and the fix that resolves an unlinked report. Each text enum lists its variants in
  declaration order and interprets the codec laws.
\<close>

datatype report_state = Triage | Confirmed | Resolved | Rejected

definition report_state_all :: "report_state list" where
  "report_state_all = [report_state.Triage, report_state.Confirmed, report_state.Resolved,
    report_state.Rejected]"

primrec report_state_as_str :: "report_state \<Rightarrow> string" where
  "report_state_as_str report_state.Triage = ''triage''"
| "report_state_as_str report_state.Confirmed = ''confirmed''"
| "report_state_as_str report_state.Resolved = ''resolved''"
| "report_state_as_str report_state.Rejected = ''rejected''"

interpretation report_state: text_enum report_state_all report_state_as_str
proof
  show "set report_state_all = UNIV"
    by (auto simp: report_state_all_def intro: report_state.exhaust)
qed (simp add: report_state_all_def)

datatype report_state_action = Confirm | ReturnToTriage | Reject

datatype report_fix_kind = PullRequest | Commit

definition report_fix_kind_all :: "report_fix_kind list" where
  "report_fix_kind_all = [report_fix_kind.PullRequest, report_fix_kind.Commit]"

primrec report_fix_kind_as_str :: "report_fix_kind \<Rightarrow> string" where
  "report_fix_kind_as_str report_fix_kind.PullRequest = ''pull_request''"
| "report_fix_kind_as_str report_fix_kind.Commit = ''commit''"

interpretation report_fix_kind: text_enum report_fix_kind_all report_fix_kind_as_str
proof
  show "set report_fix_kind_all = UNIV"
    by (auto simp: report_fix_kind_all_def intro: report_fix_kind.exhaust)
qed (simp add: report_fix_kind_all_def)

record report_fix =
  fix_kind :: report_fix_kind
  fix_reference :: str
  fix_title :: str
  fix_url :: str

text \<open>\<open>ReportFix::label\<close>. The slice of a commit's reference by byte is \<open>None\<close> where Rust panics.\<close>

definition fix_label :: "report_fix \<Rightarrow> str option" where
  "fix_label f =
    (case fix_kind f of
      report_fix_kind.PullRequest \<Rightarrow> Some (lit ''Pull request #'' @ fix_reference f)
    | report_fix_kind.Commit \<Rightarrow>
        map_option (\<lambda>hash. lit ''Commit '' @ hash)
          (byte_take (min (byte_len (fix_reference f)) 11) (fix_reference f)))"

lemma fix_label_total:
  assumes "list_all is_ascii_hexdigit (fix_reference f)"
  shows "fix_label f =
    Some (case fix_kind f of
      report_fix_kind.PullRequest \<Rightarrow> lit ''Pull request #'' @ fix_reference f
    | report_fix_kind.Commit \<Rightarrow> lit ''Commit '' @ take 11 (fix_reference f))"
proof -
  have ascii: "\<forall>c \<in> set (fix_reference f). c < 128"
    using assms by (auto simp: list_all_iff dest: ascii_class_lt)
  then have "byte_len (fix_reference f) = length (fix_reference f)" by (rule byte_len_ascii)
  moreover have "take (min (length (fix_reference f)) 11) (fix_reference f) = take 11 (fix_reference f)"
    by (simp add: min_def)
  ultimately show ?thesis
    using byte_split_at_ascii [OF ascii, of "min (length (fix_reference f)) 11"]
    by (simp add: fix_label_def byte_take_def split: report_fix_kind.split)
qed

datatype github_link_state = Unknown | Open | Closed | Missing | Moved | Unavailable

definition github_link_state_all :: "github_link_state list" where
  "github_link_state_all = [github_link_state.Unknown, github_link_state.Open,
    github_link_state.Closed, github_link_state.Missing, github_link_state.Moved,
    github_link_state.Unavailable]"

primrec github_link_state_as_str :: "github_link_state \<Rightarrow> string" where
  "github_link_state_as_str github_link_state.Unknown = ''unknown''"
| "github_link_state_as_str github_link_state.Open = ''open''"
| "github_link_state_as_str github_link_state.Closed = ''closed''"
| "github_link_state_as_str github_link_state.Missing = ''missing''"
| "github_link_state_as_str github_link_state.Moved = ''moved''"
| "github_link_state_as_str github_link_state.Unavailable = ''unavailable''"

interpretation github_link_state: text_enum github_link_state_all github_link_state_as_str
proof
  show "set github_link_state_all = UNIV"
    by (auto simp: github_link_state_all_def intro: github_link_state.exhaust)
qed (simp add: github_link_state_all_def)

primrec is_unreachable :: "github_link_state \<Rightarrow> bool" where
  "is_unreachable github_link_state.Unknown = False"
| "is_unreachable github_link_state.Open = False"
| "is_unreachable github_link_state.Closed = False"
| "is_unreachable github_link_state.Missing = True"
| "is_unreachable github_link_state.Moved = True"
| "is_unreachable github_link_state.Unavailable = True"

primrec is_gone :: "github_link_state \<Rightarrow> bool" where
  "is_gone github_link_state.Unknown = False"
| "is_gone github_link_state.Open = False"
| "is_gone github_link_state.Closed = False"
| "is_gone github_link_state.Missing = True"
| "is_gone github_link_state.Moved = True"
| "is_gone github_link_state.Unavailable = False"

lemma is_gone_unreachable: "is_gone l \<Longrightarrow> is_unreachable l"
  by (cases l) simp_all

datatype issue_state = Unresolved | NeedsAttention | Resolved | Rejected

definition issue_state_all :: "issue_state list" where
  "issue_state_all = [issue_state.Unresolved, issue_state.NeedsAttention, issue_state.Resolved,
    issue_state.Rejected]"

primrec issue_state_as_str :: "issue_state \<Rightarrow> string" where
  "issue_state_as_str issue_state.Unresolved = ''unresolved''"
| "issue_state_as_str issue_state.NeedsAttention = ''needs_attention''"
| "issue_state_as_str issue_state.Resolved = ''resolved''"
| "issue_state_as_str issue_state.Rejected = ''rejected''"

interpretation issue_state: text_enum issue_state_all issue_state_as_str
proof
  show "set issue_state_all = UNIV"
    by (auto simp: issue_state_all_def intro: issue_state.exhaust)
qed (simp add: issue_state_all_def)

primrec is_open :: "issue_state \<Rightarrow> bool" where
  "is_open issue_state.Unresolved = True"
| "is_open issue_state.NeedsAttention = True"
| "is_open issue_state.Resolved = False"
| "is_open issue_state.Rejected = False"

primrec tracking :: "github_link_state \<Rightarrow> issue_state" where
  "tracking github_link_state.Closed = issue_state.Resolved"
| "tracking github_link_state.Missing = issue_state.NeedsAttention"
| "tracking github_link_state.Moved = issue_state.NeedsAttention"
| "tracking github_link_state.Unavailable = issue_state.NeedsAttention"
| "tracking github_link_state.Unknown = issue_state.Unresolved"
| "tracking github_link_state.Open = issue_state.Unresolved"

lemma tracking_simps [simp]:
  "tracking l = issue_state.NeedsAttention \<longleftrightarrow> is_unreachable l"
  "tracking l = issue_state.Resolved \<longleftrightarrow> l = github_link_state.Closed"
  "tracking l \<noteq> issue_state.Rejected"
  by (cases l; simp)+

datatype issue_report_action = Unlink | Reject

definition issue_report_action_all :: "issue_report_action list" where
  "issue_report_action_all = [issue_report_action.Unlink, issue_report_action.Reject]"

primrec issue_report_action_as_str :: "issue_report_action \<Rightarrow> string" where
  "issue_report_action_as_str issue_report_action.Unlink = ''unlink''"
| "issue_report_action_as_str issue_report_action.Reject = ''reject''"

interpretation issue_report_action: text_enum issue_report_action_all issue_report_action_as_str
proof
  show "set issue_report_action_all = UNIV"
    by (auto simp: issue_report_action_all_def intro: issue_report_action.exhaust)
qed (simp add: issue_report_action_all_def)

datatype github_sync_source = Webhook | Assignment

definition github_sync_source_all :: "github_sync_source list" where
  "github_sync_source_all = [github_sync_source.Webhook, github_sync_source.Assignment]"

primrec github_sync_source_as_str :: "github_sync_source \<Rightarrow> string" where
  "github_sync_source_as_str github_sync_source.Webhook = ''webhook''"
| "github_sync_source_as_str github_sync_source.Assignment = ''assignment''"

interpretation github_sync_source: text_enum github_sync_source_all github_sync_source_as_str
proof
  show "set github_sync_source_all = UNIV"
    by (auto simp: github_sync_source_all_def intro: github_sync_source.exhaust)
qed (simp add: github_sync_source_all_def)

datatype storage_state = PendingFiles | Ready

definition storage_state_all :: "storage_state list" where
  "storage_state_all = [storage_state.PendingFiles, storage_state.Ready]"

primrec storage_state_as_str :: "storage_state \<Rightarrow> string" where
  "storage_state_as_str storage_state.PendingFiles = ''pending_files''"
| "storage_state_as_str storage_state.Ready = ''ready''"

interpretation storage_state: text_enum storage_state_all storage_state_as_str
proof
  show "set storage_state_all = UNIV"
    by (auto simp: storage_state_all_def intro: storage_state.exhaust)
qed (simp add: storage_state_all_def)

text \<open>The text of a state determines it: parsing the text of any report state, issue state, link
  state, storage state or fix kind gives that variant back, no other text parses, so two variants never
  share a text and an unknown text never becomes a wrong state.\<close>

theorem state_texts_roundtrip:
  "(text_enum_parse report_state_all report_state_as_str t = Some r \<longleftrightarrow> t = lit (report_state_as_str r))
  \<and> (text_enum_parse issue_state_all issue_state_as_str t = Some i \<longleftrightarrow> t = lit (issue_state_as_str i))
  \<and> (text_enum_parse github_link_state_all github_link_state_as_str t = Some l \<longleftrightarrow>
      t = lit (github_link_state_as_str l))
  \<and> (text_enum_parse storage_state_all storage_state_as_str t = Some s \<longleftrightarrow>
      t = lit (storage_state_as_str s))
  \<and> (text_enum_parse report_fix_kind_all report_fix_kind_as_str t = Some k \<longleftrightarrow>
      t = lit (report_fix_kind_as_str k))"
  by (simp add: report_state.parse_Some_iff issue_state.parse_Some_iff
      github_link_state.parse_Some_iff storage_state.parse_Some_iff report_fix_kind.parse_Some_iff)

end
