(* ===== verification/Search.thy ===== *)
theory Search
  imports Diagnostic_Fields States
begin

text \<open>
  \<open>src/src/domain/report_search.rs\<close> and \<open>src/src/domain/issue_search.rs\<close>: the query language of the
  report and issue lists. The tokenizer is the state machine of the source, run over the characters;
  a query is its free terms and its \<open>key:value\<close> qualifiers.
\<close>

section \<open>The tokenizer\<close>

record tokenizer =
  tokens :: "str list"
  token :: str
  quoted :: bool
  escaped :: bool

definition tokenize_start :: tokenizer where
  "tokenize_start = \<lparr> tokens = [], token = [], quoted = False, escaped = False \<rparr>"

definition tokenize_step :: "tokenizer \<Rightarrow> uchar \<Rightarrow> tokenizer" where
  "tokenize_step t c =
    (if escaped t then t\<lparr> token := token t @ [c], escaped := False \<rparr>
     else if c = 92 \<and> quoted t then t\<lparr> escaped := True \<rparr>
     else if c = 34 then t\<lparr> quoted := \<not> quoted t \<rparr>
     else if is_whitespace c \<and> \<not> quoted t then
       (if token t \<noteq> [] then t\<lparr> tokens := tokens t @ [token t], token := [] \<rparr> else t)
     else t\<lparr> token := token t @ [c] \<rparr>)"

definition tokenize :: "str \<Rightarrow> str list result" where
  "tokenize input =
    (let t = foldl tokenize_step tokenize_start input
     in if quoted t \<or> escaped t then Err (InvalidRequest ''Unterminated quoted search value'')
        else Ok (if token t \<noteq> [] then tokens t @ [token t] else tokens t))"

section \<open>Report searches\<close>

abbreviation (input) MAXIMUM_SEARCH_BYTES :: nat where "MAXIMUM_SEARCH_BYTES \<equiv> 512"
abbreviation (input) MAXIMUM_SEARCH_TERMS :: nat where "MAXIMUM_SEARCH_TERMS \<equiv> 32"

record report_qualifier =
  qualifier_key :: str
  qualifier_value :: str

record report_search =
  terms :: "str list"
  qualifiers :: "report_qualifier list"

definition validate_qualifier :: "str \<Rightarrow> str \<Rightarrow> unit result" where
  "validate_qualifier key v =
    (let valid_key = key \<noteq> [] \<and> byte_len key \<le> 64 \<and> list_all is_key_char key
     in bind_res (fail_if (\<not> valid_key \<or> v = []) (InvalidRequest ''Invalid report search qualifier''))
       (\<lambda>_. fail_if (map to_ascii_lowercase key = lit ''state'' \<and>
          text_enum_parse report_state_all report_state_as_str (map to_ascii_lowercase v) = None)
        (InvalidRequest ''Invalid report state filter'')))"

definition report_search_token :: "report_search \<Rightarrow> str \<Rightarrow> report_search result" where
  "report_search_token s tok =
    (case split_once 58 tok of
      Some (key, v) \<Rightarrow> bind_res (validate_qualifier key v) (\<lambda>_.
        Ok (s\<lparr> qualifiers := qualifiers s @
          [\<lparr> qualifier_key = map to_ascii_lowercase key, qualifier_value = v \<rparr>] \<rparr>))
    | None \<Rightarrow> Ok (s\<lparr> terms := terms s @ [tok] \<rparr>))"

text \<open>A loop that threads a state through a list and stops at the first error.\<close>

fun fold_res :: "('s \<Rightarrow> 'a \<Rightarrow> ('e, 's) res) \<Rightarrow> 's \<Rightarrow> 'a list \<Rightarrow> ('e, 's) res" where
  "fold_res f s [] = Ok s"
| "fold_res f s (x # xs) = bind_res (f s x) (\<lambda>s'. fold_res f s' xs)"

definition report_search_parse :: "str \<Rightarrow> report_search result" where
  "report_search_parse input =
    bind_res (fail_if (MAXIMUM_SEARCH_BYTES < byte_len input) (InvalidRequest ''Report search is too long'')) (\<lambda>_.
    bind_res (tokenize input) (\<lambda>toks.
    bind_res (fail_if (MAXIMUM_SEARCH_TERMS < length toks) (InvalidRequest ''Too many report search terms'')) (\<lambda>_.
    fold_res report_search_token \<lparr> terms = [], qualifiers = [] \<rparr> toks)))"

definition filter_expression :: "str \<Rightarrow> str \<Rightarrow> str" where
  "filter_expression key v =
    (if list_all (\<lambda>c. \<not> is_ascii_whitespace c \<and> c \<noteq> 34 \<and> c \<noteq> 92) v
     then key @ [58] @ map to_ascii_lowercase v
     else key @ [58, 34] @ replace_char 34 [92, 34] (replace_char 92 [92, 92] v) @ [34])"

section \<open>Issue searches\<close>

record issue_search =
  issue_terms :: "str list"
  issue_states :: "issue_state list"
  github_numbers :: "int list"
  issue_ids :: "str list"

definition issue_search_token :: "issue_search \<Rightarrow> str \<Rightarrow> issue_search result" where
  "issue_search_token s tok =
    (case split_once 58 tok of
      None \<Rightarrow> Ok (s\<lparr> issue_terms := issue_terms s @ [tok] \<rparr>)
    | Some (key, v) \<Rightarrow>
        (let k = map to_ascii_lowercase key in
         if k = lit ''state'' then
           bind_res (ok_or (text_enum_parse issue_state_all issue_state_as_str (map to_ascii_lowercase v))
             (InvalidRequest ''Invalid issue state filter''))
             (\<lambda>st. Ok (s\<lparr> issue_states := issue_states s @ [st] \<rparr>))
         else if k = lit ''github'' then
           bind_res (ok_or (parse_signed i64_max (trim_start_matches (\<lambda>c. c = 35) v))
             (InvalidRequest ''Invalid GitHub issue number'')) (\<lambda>n.
           bind_res (fail_if (n \<le> 0) (InvalidRequest ''Invalid GitHub issue number''))
             (\<lambda>_. Ok (s\<lparr> github_numbers := github_numbers s @ [n] \<rparr>)))
         else if k = lit ''id'' then
           bind_res (fail_if (v = [] \<or> \<not> list_all (\<lambda>c. is_ascii_hexdigit c \<or> c = 45) v)
             (InvalidRequest ''Invalid issue ID filter''))
             (\<lambda>_. Ok (s\<lparr> issue_ids := issue_ids s @ [map to_ascii_lowercase v] \<rparr>))
         else Err (InvalidRequest ''Unknown issue search qualifier'')))"

definition issue_search_parse :: "str \<Rightarrow> issue_search result" where
  "issue_search_parse input =
    bind_res (fail_if (512 < byte_len input) (InvalidRequest ''Issue search is too long'')) (\<lambda>_.
    bind_res (tokenize input) (\<lambda>toks.
    bind_res (fail_if (32 < length toks) (InvalidRequest ''Too many issue search terms'')) (\<lambda>_.
    fold_res issue_search_token
      \<lparr> issue_terms = [], issue_states = [], github_numbers = [], issue_ids = [] \<rparr> toks)))"

section \<open>Lemmas\<close>

text \<open>An invariant of a threaded loop, when every step keeps it.\<close>

lemma fold_res_invariant:
  assumes "fold_res f s xs = Ok s'" and "I s"
    and "\<And>s x s'. I s \<Longrightarrow> f s x = Ok s' \<Longrightarrow> x \<in> set xs \<Longrightarrow> I s'"
  shows "I s'"
  using assms
proof (induction xs arbitrary: s)
  case (Cons x xs)
  from Cons.prems(1) obtain t where t: "f s x = Ok t" "fold_res f t xs = Ok s'"
    by (auto simp: bind_res_eq_Ok)
  have "I t" using Cons.prems(2,3) t(1) by auto
  with t(2) show ?case using Cons.IH Cons.prems(3) by (meson list.set_intros(2))
qed simp

text \<open>The tokenizer never invents text: what it holds is no longer than what it read.\<close>

definition held :: "tokenizer \<Rightarrow> nat" where
  "held t = sum_list (map byte_len (tokens t)) + byte_len (token t)"

lemma held_step: "held (tokenize_step t c) \<le> held t + utf8_len c"
  by (simp add: held_def tokenize_step_def)

lemma held_foldl: "held (foldl tokenize_step t input) \<le> held t + byte_len input"
proof (induction input arbitrary: t)
  case (Cons c s)
  have "held (foldl tokenize_step (tokenize_step t c) s) \<le> held (tokenize_step t c) + byte_len s"
    by (rule Cons.IH)
  with held_step [of t c] show ?case by simp
qed simp

lemma tokens_nonempty_step:
  "[] \<notin> set (tokens t) \<Longrightarrow> [] \<notin> set (tokens (tokenize_step t c))"
  by (simp add: tokenize_step_def)

lemma tokens_nonempty_foldl:
  "[] \<notin> set (tokens t) \<Longrightarrow> [] \<notin> set (tokens (foldl tokenize_step t input))"
  by (induction input arbitrary: t) (simp_all add: tokens_nonempty_step)

lemma tokenize_Ok:
  assumes "tokenize input = Ok toks"
  shows "[] \<notin> set toks" and "sum_list (map byte_len toks) \<le> byte_len input"
proof -
  let ?t = "foldl tokenize_step tokenize_start input"
  have toks: "toks = (if token ?t \<noteq> [] then tokens ?t @ [token ?t] else tokens ?t)"
    using assms by (auto simp: tokenize_def Let_def split: if_splits)
  have "[] \<notin> set (tokens ?t)"
    by (rule tokens_nonempty_foldl) (simp add: tokenize_start_def)
  with toks show "[] \<notin> set toks" by auto
  have "held ?t \<le> byte_len input"
    using held_foldl [of tokenize_start input] by (simp add: held_def tokenize_start_def)
  with toks show "sum_list (map byte_len toks) \<le> byte_len input"
    by (auto simp: held_def split: if_splits)
qed

text \<open>Plain characters are collected, and the escapes of a quoted value are undone.\<close>

definition is_plain :: "uchar \<Rightarrow> bool" where
  "is_plain c \<longleftrightarrow> \<not> is_whitespace c \<and> c \<noteq> 34"

lemma tokenize_plain:
  "\<lbrakk>list_all is_plain s; \<not> escaped t; \<not> quoted t\<rbrakk> \<Longrightarrow>
    foldl tokenize_step t s = t\<lparr> token := token t @ s \<rparr>"
  by (induction s arbitrary: t) (auto simp: tokenize_step_def is_plain_def)

definition escape :: "str \<Rightarrow> str" where
  "escape s = concat (map (\<lambda>c. if c = 92 \<or> c = 34 then [92, c] else [c]) s)"

lemma escape_simps [simp]:
  "escape [] = []"
  "escape (c # s) = (if c = 92 \<or> c = 34 then 92 # c # escape s else c # escape s)"
  by (simp_all add: escape_def)

lemma replace_char_simps [simp]:
  "replace_char c t [] = []"
  "replace_char c t (x # s) = (if x = c then t else [x]) @ replace_char c t s"
  by (simp_all add: replace_char_def)

lemma replace_char_append [simp]: "replace_char c t (a @ b) = replace_char c t a @ replace_char c t b"
  by (simp add: replace_char_def)

lemma escape_eq: "replace_char 34 [92, 34] (replace_char 92 [92, 92] s) = escape s"
  by (induction s) auto

lemma tokenize_escaped:
  "\<lbrakk>\<not> escaped t; quoted t\<rbrakk> \<Longrightarrow> foldl tokenize_step t (escape s) = t\<lparr> token := token t @ s \<rparr>"
  by (induction s arbitrary: t) (auto simp: tokenize_step_def)

lemma tokenize_single_plain:
  "\<lbrakk>list_all is_plain s; s \<noteq> []\<rbrakk> \<Longrightarrow> tokenize s = Ok [s]"
  by (simp add: tokenize_def tokenize_start_def tokenize_plain)

lemma tokenize_single_quoted:
  assumes "list_all is_plain p"
  shows "p @ s \<noteq> [] \<Longrightarrow> tokenize (p @ [34] @ escape s @ [34]) = Ok [p @ s]"
  using assms
  by (simp add: tokenize_def tokenize_start_def tokenize_plain tokenize_escaped tokenize_step_def)

lemma is_key_char_plain: "is_key_char c \<Longrightarrow> is_plain c \<and> c \<noteq> 58"
  by (auto simp: is_key_char_def is_plain_def char_class_defs)

lemma is_plain_lowercase: "is_plain c \<Longrightarrow> is_plain (to_ascii_lowercase c)"
  by (auto simp: is_plain_def char_class_defs)

section \<open>Properties of the query language\<close>

text \<open>The value a filter link stands for: the text itself when it had to be quoted, else its lowercase.\<close>

definition linked_value :: "str \<Rightarrow> str" where
  "linked_value v =
    (if list_all (\<lambda>c. \<not> is_ascii_whitespace c \<and> c \<noteq> 34 \<and> c \<noteq> 92) v
     then map to_ascii_lowercase v else v)"

lemma tokenize_filter_expression:
  assumes key: "list_all is_key_char key" "key \<noteq> []"
    and ws: "list_all (\<lambda>c. is_whitespace c \<longrightarrow> is_ascii_whitespace c) v"
  shows "tokenize (filter_expression key v) = Ok [key @ [58] @ linked_value v]"
proof -
  have plain: "list_all is_plain (key @ [58])"
    using key(1) by (auto simp: list_all_iff is_key_char_plain) (simp add: is_plain_def is_whitespace_def)
  show ?thesis
  proof (cases "list_all (\<lambda>c. \<not> is_ascii_whitespace c \<and> c \<noteq> 34 \<and> c \<noteq> 92) v")
    case True
    then have "list_all is_plain (map to_ascii_lowercase v)"
      using ws by (auto simp: list_all_iff intro!: is_plain_lowercase) (auto simp: is_plain_def)
    then have "list_all is_plain (key @ [58] @ map to_ascii_lowercase v)" using plain by simp
    from tokenize_single_plain [OF this] True show ?thesis
      by (simp add: filter_expression_def linked_value_def)
  next
    case False
    then have "filter_expression key v = (key @ [58]) @ [34] @ escape v @ [34]"
      by (simp add: filter_expression_def escape_eq)
    with tokenize_single_quoted [OF plain, of v] False show ?thesis
      by (simp add: linked_value_def)
  qed
qed

lemma lowercase_linked_value: "map to_ascii_lowercase (linked_value v) = map to_ascii_lowercase v"
  by (simp add: linked_value_def comp_def)

text \<open>A filter link finds what it was made from: for every valid field key and every value whose
  white space is ASCII white space, parsing the expression built from them gives one qualifier, with the
  lowercase key and a value that equals the original up to ASCII case, and no free term, so quotes,
  backslashes, spaces and colons in a value never change the query.\<close>

theorem filter_expression_roundtrip:
  assumes key: "is_valid_field_key key" and nonempty: "v \<noteq> []"
    and ws: "list_all (\<lambda>c. is_whitespace c \<longrightarrow> is_ascii_whitespace c) v"
    and state: "map to_ascii_lowercase key = lit ''state'' \<Longrightarrow>
      text_enum_parse report_state_all report_state_as_str (map to_ascii_lowercase v) \<noteq> None"
    and size: "byte_len (filter_expression key v) \<le> MAXIMUM_SEARCH_BYTES"
  shows "\<exists>w. map to_ascii_lowercase w = map to_ascii_lowercase v \<and>
    report_search_parse (filter_expression key v) = Ok \<lparr> terms = [],
      qualifiers = [\<lparr> qualifier_key = map to_ascii_lowercase key, qualifier_value = w \<rparr>] \<rparr>"
proof (intro exI conjI)
  show "map to_ascii_lowercase (linked_value v) = map to_ascii_lowercase v"
    by (rule lowercase_linked_value)
  have k: "list_all is_key_char key" "key \<noteq> []" "byte_len key \<le> 64"
    using key by (simp_all add: is_valid_field_key_def)
  have toks: "tokenize (filter_expression key v) = Ok [key @ [58] @ linked_value v]"
    by (rule tokenize_filter_expression [OF k(1,2) ws])
  have "58 \<notin> set key" using k(1) by (auto simp: list_all_iff dest: is_key_char_plain)
  then have once: "split_once 58 (key @ [58] @ linked_value v) = Some (key, linked_value v)"
    by (simp add: split_once_append)
  have ne: "linked_value v \<noteq> []" using nonempty by (simp add: linked_value_def)
  have "validate_qualifier key (linked_value v) = Ok ()"
    using k state ne by (simp add: validate_qualifier_def lowercase_linked_value fail_if_eq_Ok)
  with toks once size show "report_search_parse (filter_expression key v) = Ok \<lparr> terms = [],
      qualifiers = [\<lparr> qualifier_key = map to_ascii_lowercase key, qualifier_value = linked_value v \<rparr>] \<rparr>"
    by (simp add: report_search_parse_def report_search_token_def)
qed

theorem filter_expression_roundtrip_witness:
  "\<exists>w. map to_ascii_lowercase w = lit ''a \"b'' \<and>
    report_search_parse (filter_expression (lit ''URL'') (lit ''A \"b'')) = Ok \<lparr> terms = [],
      qualifiers = [\<lparr> qualifier_key = lit ''url'', qualifier_value = w \<rparr>] \<rparr>"
proof -
  have "map to_ascii_lowercase (lit ''A \"b'') = lit ''a \"b''" "map to_ascii_lowercase (lit ''URL'') = lit ''url''"
    by (simp_all add: lit_def to_ascii_lowercase_def is_ascii_upper_def)
  moreover have "is_valid_field_key (lit ''URL'')"
    by (simp add: is_valid_field_key_def is_key_char_def text_eval)
  moreover have "byte_len (filter_expression (lit ''URL'') (lit ''A \"b'')) \<le> MAXIMUM_SEARCH_BYTES"
    by (simp add: filter_expression_def text_eval)
  ultimately show ?thesis
    using filter_expression_roundtrip [of "lit ''URL''" "lit ''A \"b''"]
    by (simp add: text_eval)
qed

text \<open>The unquoted form is chosen by ASCII white space while the tokenizer splits at Unicode white
  space, so a value with a no-break space becomes a different query: the link for the value
  "a, no-break space, b" filters by "a" and searches for the free term "b".\<close>

theorem filter_expression_splits_unicode_space:
  "report_search_parse (filter_expression (lit ''url'') [97, 160, 98]) = Ok \<lparr> terms = [[98]],
    qualifiers = [\<lparr> qualifier_key = lit ''url'', qualifier_value = [97] \<rparr>] \<rparr>"
  by (simp add: filter_expression_def report_search_parse_def tokenize_def tokenize_start_def
      tokenize_step_def report_search_token_def validate_qualifier_def is_key_char_def text_eval)

definition report_search_ok :: "report_search \<Rightarrow> bool" where
  "report_search_ok s \<longleftrightarrow> (\<forall>q \<in> set (qualifiers s).
    is_valid_field_key (qualifier_key q) \<and> map to_ascii_lowercase (qualifier_key q) = qualifier_key q \<and>
    qualifier_value q \<noteq> [] \<and>
    (qualifier_key q = lit ''state'' \<longrightarrow> (\<exists>st :: report_state.
      map to_ascii_lowercase (qualifier_value q) = lit (report_state_as_str st))))"

lemma is_key_char_lowercase: "is_key_char c \<Longrightarrow> is_key_char (to_ascii_lowercase c)"
  by (auto simp: is_key_char_def char_class_defs)

lemma validate_qualifier_Ok:
  "validate_qualifier key v = Ok () \<longleftrightarrow> is_valid_field_key key \<and> v \<noteq> [] \<and>
    (map to_ascii_lowercase key = lit ''state'' \<longrightarrow>
      (\<exists>st :: report_state. map to_ascii_lowercase v = lit (report_state_as_str st)))"
  using report_state.parse_None_iff [of "map to_ascii_lowercase v"]
  by (auto simp: validate_qualifier_def bind_res_eq_Ok fail_if_eq_Ok is_valid_field_key_def)

lemma report_search_token_ok:
  assumes "report_search_ok s" "report_search_token s tok = Ok s'"
  shows "report_search_ok s'"
proof (cases "split_once 58 tok")
  case None
  then show ?thesis using assms by (auto simp: report_search_token_def report_search_ok_def)
next
  case (Some kv)
  then obtain key v where kv: "split_once 58 tok = Some (key, v)" by (cases kv) auto
  with assms(2) have ok: "validate_qualifier key v = Ok ()"
    and s': "s' = s\<lparr> qualifiers := qualifiers s @
      [\<lparr> qualifier_key = map to_ascii_lowercase key, qualifier_value = v \<rparr>] \<rparr>"
    by (auto simp: report_search_token_def bind_res_eq_Ok)
  have "is_valid_field_key (map to_ascii_lowercase key)"
    using ok by (auto simp: validate_qualifier_Ok is_valid_field_key_def list_all_iff is_key_char_lowercase)
  then show ?thesis
    using assms(1) ok s' by (auto simp: report_search_ok_def validate_qualifier_Ok comp_def)
qed

lemma report_search_token_count:
  "report_search_token s tok = Ok s' \<Longrightarrow>
    length (terms s') + length (qualifiers s') = Suc (length (terms s) + length (qualifiers s))"
  by (auto simp: report_search_token_def bind_res_eq_Ok split: option.splits prod.splits)

lemma report_search_fold_count:
  "fold_res report_search_token s toks = Ok s' \<Longrightarrow>
    length (terms s') + length (qualifiers s') = length (terms s) + length (qualifiers s) + length toks"
  by (induction toks arbitrary: s) (auto simp: bind_res_eq_Ok dest!: report_search_token_count)

text \<open>A parsed report search is bounded and well formed: it has at most 32 terms and qualifiers
  together, every qualifier has a valid lowercase key and a value, and a \<open>state\<close> qualifier always names a
  report state.\<close>

theorem report_search_well_formed:
  assumes "report_search_parse input = Ok s"
  shows "length (terms s) + length (qualifiers s) \<le> MAXIMUM_SEARCH_TERMS \<and> report_search_ok s"
proof -
  obtain toks where toks: "length toks \<le> 32"
    "fold_res report_search_token \<lparr> terms = [], qualifiers = [] \<rparr> toks = Ok s"
    using assms by (auto simp: report_search_parse_def bind_res_eq_Ok fail_if_eq_Ok not_less)
  have "report_search_ok s"
    by (rule fold_res_invariant [OF toks(2)]) (auto simp: report_search_ok_def [of "\<lparr> terms = [], qualifiers = [] \<rparr>"]
        intro: report_search_token_ok)
  with report_search_fold_count [OF toks(2)] toks(1) show ?thesis by simp
qed

theorem report_search_well_formed_witness:
  "report_search_ok \<lparr> terms = [[98]],
    qualifiers = [\<lparr> qualifier_key = lit ''url'', qualifier_value = [97] \<rparr>] \<rparr>"
proof -
  have "report_search_parse (lit ''url:a b'') = Ok \<lparr> terms = [[98]],
    qualifiers = [\<lparr> qualifier_key = lit ''url'', qualifier_value = [97] \<rparr>] \<rparr>"
    by (simp add: report_search_parse_def tokenize_def tokenize_start_def
      tokenize_step_def report_search_token_def validate_qualifier_def is_key_char_def text_eval)
  from report_search_well_formed [OF this] show ?thesis by simp
qed

end
