(* ===== verification/Utf8.thy ===== *)
theory Utf8
  imports Prelude
begin

text \<open>
  The UTF-8 encoding of texts, which the program hashes, signs and measures. It justifies two choices
  of the model: \<open>byte_len\<close> is the length of the encoding, and a test over all bytes that only ASCII bytes
  pass is the same test over all characters.
\<close>

definition utf8_char :: "uchar \<Rightarrow> nat list" where
  "utf8_char c =
    (if c < 128 then [c]
     else if c < 2048 then [192 + c div 64, 128 + c mod 64]
     else if c < 65536 then [224 + c div 4096, 128 + c div 64 mod 64, 128 + c mod 64]
     else [240 + c div 262144, 128 + c div 4096 mod 64, 128 + c div 64 mod 64, 128 + c mod 64])"

definition utf8 :: "str \<Rightarrow> nat list" where
  "utf8 s = concat (map utf8_char s)"

lemma utf8_simps [simp]:
  "utf8 [] = []" "utf8 (c # s) = utf8_char c @ utf8 s" "utf8 (s @ t) = utf8 s @ utf8 t"
  by (simp_all add: utf8_def)

lemma length_utf8_char: "length (utf8_char c) = utf8_len c"
  by (simp add: utf8_char_def utf8_len_def)

lemma byte_len_utf8: "byte_len s = length (utf8 s)"
  by (induction s) (simp_all add: length_utf8_char)

text \<open>One character off the front of an encoding.\<close>

fun utf8_next :: "nat list \<Rightarrow> (uchar \<times> nat list) option" where
  "utf8_next [] = None"
| "utf8_next (a # bs) =
    (if a < 128 then Some (a, bs)
     else if a < 224 then (case bs of b # r \<Rightarrow> Some ((a - 192) * 64 + (b - 128), r) | _ \<Rightarrow> None)
     else if a < 240 then (case bs of
         b # c # r \<Rightarrow> Some ((a - 224) * 4096 + (b - 128) * 64 + (c - 128), r) | _ \<Rightarrow> None)
     else (case bs of
         b # c # d # r \<Rightarrow>
           Some ((a - 240) * 262144 + (b - 128) * 4096 + (c - 128) * 64 + (d - 128), r)
       | _ \<Rightarrow> None))"

lemma split2: "(c :: nat) = c div 64 * 64 + c mod 64"
  by simp

lemma split3: "(c :: nat) = c div 4096 * 4096 + c div 64 mod 64 * 64 + c mod 64"
proof -
  have "c div 64 = c div 64 div 64 * 64 + c div 64 mod 64" by simp
  moreover have "c div 64 div 64 = c div 4096" by (simp add: div_mult2_eq [symmetric])
  ultimately have "c div 64 = c div 4096 * 64 + c div 64 mod 64" by simp
  moreover have "c = c div 64 * 64 + c mod 64" by simp
  ultimately show ?thesis by linarith
qed

lemma split4: "(c :: nat) = c div 262144 * 262144 + c div 4096 mod 64 * 4096 + c div 64 mod 64 * 64 + c mod 64"
proof -
  have "c div 4096 = c div 4096 div 64 * 64 + c div 4096 mod 64" by simp
  moreover have "c div 4096 div 64 = c div 262144" by (simp add: div_mult2_eq [symmetric])
  ultimately have "c div 4096 = c div 262144 * 64 + c div 4096 mod 64" by simp
  with split3 [of c] show ?thesis by linarith
qed

lemma utf8_next_char:
  assumes "c < 1114112"
  shows "utf8_next (utf8_char c @ r) = Some (c, r)"
proof -
  consider "c < 128" | "128 \<le> c" "c < 2048" | "2048 \<le> c" "c < 65536" | "65536 \<le> c"
    by linarith
  then show ?thesis
  proof cases
    case 2
    then have "192 + c div 64 < 224" by (simp add: div_less_iff_less_mult)
    with 2 split2 [of c] show ?thesis by (simp add: utf8_char_def)
  next
    case 3
    then have "224 + c div 4096 < 240" by (simp add: div_less_iff_less_mult)
    with 3 split3 [of c] show ?thesis by (simp add: utf8_char_def)
  next
    case 4
    with split4 [of c] show ?thesis by (simp add: utf8_char_def)
  qed (simp add: utf8_char_def)
qed

definition scalar_values :: "str \<Rightarrow> bool" where
  "scalar_values s \<longleftrightarrow> (\<forall>c \<in> set s. c < 1114112)"

lemma utf8_char_not_Nil [simp]: "utf8_char c \<noteq> []"
  by (simp add: utf8_char_def)

lemma utf8_inject:
  assumes "scalar_values s" "scalar_values t" "utf8 s = utf8 t"
  shows "s = t"
  using assms
proof (induction s arbitrary: t)
  case Nil
  then show ?case by (cases t) auto
next
  case (Cons c s)
  then obtain d u where t: "t = d # u" by (cases t) auto
  have "utf8_next (utf8 (c # s)) = Some (c, utf8 s)"
    using Cons.prems(1) by (simp add: utf8_next_char scalar_values_def)
  moreover have "utf8_next (utf8 t) = Some (d, utf8 u)"
    using Cons.prems(2) t by (simp add: utf8_next_char scalar_values_def)
  ultimately have "Some (c, utf8 s) = Some (d, utf8 u)"
    using Cons.prems(3) by metis
  then have "c = d" "utf8 s = utf8 u" by simp_all
  moreover have "s = u"
    using Cons.IH [of u] Cons.prems t \<open>utf8 s = utf8 u\<close> by (simp add: scalar_values_def)
  ultimately show ?case using t by simp
qed

lemma utf8_char_ascii_iff: "b < 128 \<Longrightarrow> b \<in> set (utf8_char c) \<longleftrightarrow> c = b"
  by (auto simp: utf8_char_def)

lemma utf8_ascii_mem: "b < 128 \<Longrightarrow> b \<in> set (utf8 s) \<longleftrightarrow> b \<in> set s"
  by (induction s) (auto simp: utf8_char_ascii_iff)

lemma utf8_list_all_ascii:
  assumes "\<And>b. P b \<Longrightarrow> b < 128"
  shows "list_all P (utf8 s) \<longleftrightarrow> list_all P s"
proof (induction s)
  case (Cons c s)
  have high: "128 \<le> b \<Longrightarrow> \<not> P b" for b using assms [of b] by auto
  have "list_all P (utf8_char c) \<longleftrightarrow> P c"
    by (simp add: utf8_char_def high)
  with Cons show ?case by simp
qed simp

end
