(* ===== verification/Stack_Trace.thy ===== *)
theory Stack_Trace
  imports Report_Types Utf8
begin

text \<open>
  \<open>src/src/domain/stack_trace.rs\<close>: reading a submitted stack into rows, naming the functions of its
  frames and the fingerprint that groups crashes. SHA-256 and hexadecimal encoding are third-party and
  enter as one argument, the digest of a byte string as text; the Unicode tables for characters above
  127 enter as \<open>alnum\<close> (\<open>char::is_alphanumeric\<close>) and \<open>lower\<close> (\<open>str::to_lowercase\<close>). The byte scanner of
  \<open>demangled\<close> is a recursion over the text that is left, with its termination shown.
\<close>

abbreviation (input) STACK_SIGNATURE_VERSION :: int where
  "STACK_SIGNATURE_VERSION \<equiv> 2"
abbreviation (input) MAX_RENDERED_LINES :: nat where "MAX_RENDERED_LINES \<equiv> 256"
abbreviation (input) MAX_SIGNATURE_FRAMES :: nat where "MAX_SIGNATURE_FRAMES \<equiv> 24"
abbreviation (input) SIGNATURE_FRAMES :: nat where "SIGNATURE_FRAMES \<equiv> 5"
abbreviation (input) SIGNATURE_ADDRESSES :: nat where "SIGNATURE_ADDRESSES \<equiv> 3"

definition NATIVE_STACK_HEADER :: str where
  "NATIVE_STACK_HEADER = lit ''Native stack (binary build ID, object address):''"

definition is_alphanumeric :: "(uchar \<Rightarrow> bool) \<Rightarrow> uchar \<Rightarrow> bool" where
  "is_alphanumeric alnum c = (if c < 128 then is_ascii_alphanumeric c else alnum c)"

record stack_trace_row =
  row_number :: "nat option"
  row_top :: bool
  row_symbol :: str
  row_module :: str
  row_address :: str
  row_build_id :: str
  row_raw :: str
  row_relevant :: bool
  row_unavailable :: bool

record parsed_stack_trace =
  rows :: "stack_trace_row list"
  frame_count :: nat
  frame_keys :: "str list"
  address_keys :: "str list"
  truncated :: bool

section \<open>Symbols\<close>

definition is_symbol_offset :: "str \<Rightarrow> bool" where
  "is_symbol_offset offset \<longleftrightarrow> list_all is_ascii_digit offset \<or>
    (case strip_prefix (lit ''0x'') offset of Some h \<Rightarrow> list_all is_ascii_hexdigit h | None \<Rightarrow> False)"

definition bare_symbol :: "str \<Rightarrow> str" where
  "bare_symbol symbol =
    (let s = (case rsplit_once_str (lit '' + '') symbol of
          Some (head, offset) \<Rightarrow> if is_symbol_offset offset then head else symbol
        | None \<Rightarrow> symbol)
     in trim (case strip_prefix (lit ''(inlined) '') (trim s) of Some r \<Rightarrow> r | None \<Rightarrow> s))"

text \<open>The text after the first underscore, or nothing: skipping a disambiguator or a back reference.\<close>

definition after_underscore :: "str \<Rightarrow> str" where
  "after_underscore s = tl (dropWhile (\<lambda>c. c \<noteq> 95) s)"

text \<open>A length and the name it announces, at the start of a text that begins with a digit: the name,
  when there are as many bytes and they end at a character boundary, and the text to go on with.\<close>

definition length_prefixed :: "str \<Rightarrow> str option \<times> str" where
  "length_prefixed s =
    (let digits = takeWhile is_ascii_digit s;
         after = dropWhile is_ascii_digit s;
         len = (case parse_unsigned u64_max digits of Some n \<Rightarrow> n | None \<Rightarrow> 0);
         start = (case after of c # r \<Rightarrow> if c = 95 then r else after | [] \<Rightarrow> [])
     in case byte_split_at len start of
          Some (name, rest) \<Rightarrow> if 0 < len then (Some name, rest) else (None, start)
        | None \<Rightarrow> (None, start))"

lemma length_prefixed_shorter:
  assumes "is_ascii_digit c" and "length_prefixed (c # s) = (name, rest)"
  shows "length rest \<le> length s"
proof -
  let ?after = "dropWhile is_ascii_digit (c # s)"
  let ?start = "case ?after of d # r \<Rightarrow> if d = 95 then r else ?after | [] \<Rightarrow> []"
  have "length ?after \<le> length s"
    using assms(1) by (simp add: length_dropWhile_le)
  then have start: "length ?start \<le> length s"
    by (auto split: list.split simp del: dropWhile.simps)
  have "\<exists>a. ?start = a @ rest"
    using assms(2) unfolding length_prefixed_def Let_def
    by (auto simp: byte_split_at_Some simp del: dropWhile.simps split: option.splits if_splits prod.splits)
  then show ?thesis using start by auto
qed

lemma after_underscore_shorter: "length (after_underscore s) \<le> length s - 1"
  using length_dropWhile_le [of "\<lambda>c. c \<noteq> 95" s] by (simp add: after_underscore_def)

text \<open>The names in a v0-mangled symbol, from what follows its \<open>_R\<close>. Stepping over a character of several
  bytes is the source's stepping over each of its bytes: none of them is a letter or a digit.\<close>

function demangled_names :: "str \<Rightarrow> str list" where
  "demangled_names [] = []"
| "demangled_names (c # s) =
    (if c = 67 \<and> (case s of d # _ \<Rightarrow> d = 115 | [] \<Rightarrow> False) \<or> c = 66 then
       demangled_names (after_underscore (c # s))
     else if is_ascii_digit c then
       (case length_prefixed (c # s) of
          (Some name, rest) \<Rightarrow> name # demangled_names rest
        | (None, rest) \<Rightarrow> demangled_names rest)
     else demangled_names s)"
  by pat_completeness auto
termination
proof (relation "measure length", goal_cases)
  case (2 c s)
  then show ?case using after_underscore_shorter [of "c # s"] by simp
next
  case 3
  then show ?case by (auto simp: less_Suc_eq_le dest!: length_prefixed_shorter [OF _ sym])
next
  case 4
  then show ?case by (auto simp: less_Suc_eq_le dest!: length_prefixed_shorter [OF _ sym])
qed auto

fun join_str :: "str \<Rightarrow> str list \<Rightarrow> str" where
  "join_str sep [] = []"
| "join_str sep [w] = w"
| "join_str sep (w # ws) = w @ sep @ join_str sep ws"

definition demangled :: "str \<Rightarrow> str" where
  "demangled symbol =
    (case strip_prefix (lit ''_R'') symbol of
      Some rest \<Rightarrow> join_str (lit ''::'') (demangled_names rest)
    | None \<Rightarrow> symbol)"

text \<open>What is outside angle brackets; a closing one without an opening one is kept.\<close>

fun outside_brackets :: "nat \<Rightarrow> str \<Rightarrow> str" where
  "outside_brackets depth [] = []"
| "outside_brackets depth (c # s) =
    (if c = 60 then outside_brackets (Suc depth) s
     else if c = 62 \<and> 0 < depth then outside_brackets (depth - 1) s
     else if depth = 0 then c # outside_brackets depth s
     else outside_brackets depth s)"

text \<open>The pieces of a text between occurrences of a non-empty separator.\<close>

function split_str :: "str \<Rightarrow> str \<Rightarrow> str list" where
  "split_str sep s =
    (if sep = [] then [s]
     else case split_once_str sep s of
       None \<Rightarrow> [s]
     | Some (a, b) \<Rightarrow> a # split_str sep b)"
  by pat_completeness auto
termination
proof (relation "measure (\<lambda>(sep, s). length s)", goal_cases)
  case (2 sep s p a b)
  then have "s = a @ sep @ b" by (auto dest: split_once_str_append)
  with 2 show ?case by simp
qed simp

declare split_str.simps [simp del]

text \<open>\<open>rsplit\<close>: the same from the right, last piece first; the matches are found from the right too.\<close>

function rsplit_str :: "str \<Rightarrow> str \<Rightarrow> str list" where
  "rsplit_str sep s =
    (if sep = [] then [s]
     else case rsplit_once_str sep s of
       None \<Rightarrow> [s]
     | Some (a, b) \<Rightarrow> b # rsplit_str sep a)"
  by pat_completeness auto
termination
proof (relation "measure (\<lambda>(sep, s). length s)", goal_cases)
  case (2 sep s p a b)
  then have "s = a @ sep @ b" by (auto dest: rsplit_once_str_append)
  with 2 show ?case by simp
qed simp

declare rsplit_str.simps [simp del]

definition is_name_char :: "(uchar \<Rightarrow> bool) \<Rightarrow> uchar \<Rightarrow> bool" where
  "is_name_char alnum c \<longleftrightarrow> is_alphanumeric alnum c \<or> c = 95 \<or> c = 36 \<or> c = 126 \<or> c = 46"

text \<open>The pieces a Rust \<open>split\<close> at one character gives are never none, so the first and last exist.\<close>

definition function_name :: "(uchar \<Rightarrow> bool) \<Rightarrow> str \<Rightarrow> str option" where
  "function_name alnum symbol0 =
    (let symbol = bare_symbol symbol0
     in if symbol = [] \<or> starts_with (lit ''at '') symbol \<or> symbol = lit ''Unavailable'' then None
        else
          let plain = outside_brackets 0 (demangled symbol)
          in if contains_str (lit ''operator'') plain then None
             else
               let word = last (split_char 32 (trim (hd (split_char 40 plain))))
               in case List.find (\<lambda>segment. segment \<noteq> [] \<and> \<not> starts_with [123] segment)
                      (rsplit_str (lit ''::'') word) of
                    None \<Rightarrow> None
                  | Some name \<Rightarrow>
                      if list_all (is_name_char alnum) name \<and> byte_len name \<le> 128 then Some name else None)"

definition RUNTIME_FUNCTIONS :: "str list" where
  "RUNTIME_FUNCTIONS = map lit [''__pthread_kill'', ''pthread_kill'', ''raise'', ''gsignal'', ''abort'',
    ''__assert_rtn'', ''__assert_fail'', ''ak_trap'', ''__builtin_trap'', ''_thread_start'',
    ''__pthread_start'', ''start_thread'', ''thread_start'']"

definition RUNTIME_RUST_PATHS :: "str list" where
  "RUNTIME_RUST_PATHS = map lit [''std::panicking'', ''core::panicking'', ''std::process::abort'',
    ''std::sys::backtrace'', ''std::sys::pal::unix::abort_internal'', ''__rustc::'',
    ''rust_begin_unwind'', ''core::option::expect_failed'', ''core::option::unwrap_failed'',
    ''core::result::unwrap_failed'']"

definition is_runtime_frame :: "str \<Rightarrow> bool" where
  "is_runtime_frame symbol0 =
    (let symbol = demangled (bare_symbol symbol0)
     in symbol \<in> set RUNTIME_FUNCTIONS \<or> list_ex (\<lambda>path. contains_str path symbol) RUNTIME_RUST_PATHS)"

definition GENERIC_PREFIXES :: "str list" where
  "GENERIC_PREFIXES = map lit [''Core::ThreadEventQueue::process'',
    ''Core::EventLoopImplementationUnix::exec'', ''Core::Timer::timer_event'', ''ladybird_main('']"

definition is_generic_frame :: "str \<Rightarrow> bool" where
  "is_generic_frame symbol0 =
    (let symbol = bare_symbol symbol0
     in symbol = lit ''_main'' \<or> symbol = lit ''main'' \<or> symbol = lit ''_start'' \<or>
        list_ex (\<lambda>p. starts_with p symbol) GENERIC_PREFIXES)"

section \<open>Frames\<close>

text \<open>The em dash shown where there is nothing to show.\<close>

definition DASH :: str where "DASH = [8212]"

definition unavailable_frame :: "nat \<Rightarrow> str \<Rightarrow> str \<Rightarrow> stack_trace_row" where
  "unavailable_frame number address build_id =
    \<lparr> row_number = Some number, row_top = (number = 0), row_symbol = lit ''Unavailable'',
      row_module = DASH, row_address = address, row_build_id = build_id, row_raw = [],
      row_relevant = False, row_unavailable = True \<rparr>"

text \<open>The first word of a text and the text after it without leading white space:
  \<open>split_whitespace().next()\<close> and \<open>get(len..)?.trim_start()\<close> of a text that starts with that word.\<close>

definition first_word :: "str \<Rightarrow> str option" where
  "first_word s = (case split_whitespace s of [] \<Rightarrow> None | w # _ \<Rightarrow> Some w)"

definition after_word :: "str \<Rightarrow> str \<Rightarrow> str option" where
  "after_word w s = map_option trim_start (byte_drop (byte_len w) s)"

definition symbol_frame :: "nat \<Rightarrow> str \<Rightarrow> str \<Rightarrow> str \<Rightarrow> stack_trace_row option" where
  "symbol_frame number build_id address rest =
    (let (symbol, module) = (case rsplit_once_str (lit '' at '') rest of
           Some (symbol, module) \<Rightarrow> (trim symbol, trim module)
         | None \<Rightarrow> (trim rest, []))
     in if symbol = [] then None
        else Some \<lparr> row_number = Some number, row_top = (number = 0), row_symbol = symbol,
               row_module = rev (takeWhile (\<lambda>c. c \<noteq> 47 \<and> c \<noteq> 92) (rev module)),
               row_address = address, row_build_id = build_id, row_raw = [],
               row_relevant = (\<not> is_generic_frame symbol \<and> \<not> is_runtime_frame symbol),
               row_unavailable = False \<rparr>)"

definition is_frame_address :: "str \<Rightarrow> bool" where
  "is_frame_address address \<longleftrightarrow>
    (case strip_prefix (lit ''0x'') address of Some h \<Rightarrow> list_all is_ascii_hexdigit h | None \<Rightarrow> False)"

definition address_frame :: "nat \<Rightarrow> str \<Rightarrow> str \<Rightarrow> stack_trace_row option" where
  "address_frame number build_id rest =
    Option.bind (first_word rest) (\<lambda>address.
      if \<not> is_frame_address address then None
      else Option.bind (after_word address rest) (\<lambda>rest'.
        if rest' = [] then Some (unavailable_frame number address build_id)
        else symbol_frame number build_id address rest'))"

definition parse_frame :: "str \<Rightarrow> stack_trace_row option" where
  "parse_frame line =
    Option.bind (strip_prefix [35] (trim_start line)) (\<lambda>after_hash.
    Option.bind (parse_unsigned u32_max (takeWhile is_ascii_digit after_hash)) (\<lambda>number.
      let rest = trim_start (dropWhile is_ascii_digit after_hash)
      in if map to_ascii_lowercase rest = lit ''unavailable''
         then Some (unavailable_frame number DASH [])
         else Option.bind (first_word rest) (\<lambda>first.
           if 16 \<le> byte_len first \<and> list_all is_ascii_hexdigit first
           then Option.bind (after_word first rest) (\<lambda>rest'. address_frame number first rest')
           else address_frame number [] rest)))"

section \<open>The whole trace\<close>

definition raw_row :: "str \<Rightarrow> stack_trace_row" where
  "raw_row line =
    \<lparr> row_number = None, row_top = False, row_symbol = [], row_module = [], row_address = [],
      row_build_id = [], row_raw = line, row_relevant = False, row_unavailable = False \<rparr>"

definition row_of_line :: "str \<Rightarrow> stack_trace_row" where
  "row_of_line line = (case parse_frame line of Some row \<Rightarrow> row | None \<Rightarrow> raw_row line)"

definition add_row :: "(uchar \<Rightarrow> bool) \<Rightarrow> parsed_stack_trace \<Rightarrow> stack_trace_row \<Rightarrow> parsed_stack_trace" where
  "add_row alnum p row =
    \<lparr> rows = rows p @ [row],
      frame_count = frame_count p + (if row_number row \<noteq> None then 1 else 0),
      frame_keys =
        (if row_relevant row \<and> length (frame_keys p) < MAX_SIGNATURE_FRAMES
         then (case function_name alnum (row_symbol row) of
             Some name \<Rightarrow> frame_keys p @ [name] | None \<Rightarrow> frame_keys p)
         else frame_keys p),
      address_keys =
        (if row_unavailable row \<and> row_build_id row \<noteq> [] \<and> length (address_keys p) < SIGNATURE_ADDRESSES
         then address_keys p @ [row_build_id row @ [58] @ row_address row] else address_keys p),
      truncated = truncated p \<rparr>"

fun parse_lines :: "(uchar \<Rightarrow> bool) \<Rightarrow> nat \<Rightarrow> str list \<Rightarrow> parsed_stack_trace \<Rightarrow> parsed_stack_trace" where
  "parse_lines alnum index [] p = p"
| "parse_lines alnum index (line # ls) p =
    (if MAX_RENDERED_LINES \<le> index then p\<lparr> truncated := True \<rparr>
     else if index = 0 \<and> trim line = NATIVE_STACK_HEADER then parse_lines alnum (Suc index) ls p
     else parse_lines alnum (Suc index) ls (add_row alnum p (row_of_line line)))"

definition empty_trace :: parsed_stack_trace where
  "empty_trace = \<lparr> rows = [], frame_count = 0, frame_keys = [], address_keys = [], truncated = False \<rparr>"

definition parse_stack_trace :: "(uchar \<Rightarrow> bool) \<Rightarrow> str \<Rightarrow> parsed_stack_trace" where
  "parse_stack_trace alnum text_str = parse_lines alnum 0 (lines text_str) empty_trace"

section \<open>The fingerprint\<close>

text \<open>Each run of ASCII digits becomes one \<open>#\<close>.\<close>

fun blank_digits :: "str \<Rightarrow> str \<Rightarrow> str" where
  "blank_digits key [] = key"
| "blank_digits key (c # s) =
    (if is_ascii_digit c then blank_digits (if ends_with [35] key then key else key @ [35]) s
     else blank_digits (key @ [c]) s)"

definition failure_key :: "(str \<Rightarrow> str) \<Rightarrow> str \<Rightarrow> str option" where
  "failure_key lower reason0 =
    (let reason = trim reason0;
         (message, location) = (case rsplit_once_str (lit '' at '') reason of
             Some (message, location) \<Rightarrow> if 58 \<in> set location then (message, location) else (reason, [])
           | None \<Rightarrow> (reason, []));
         file = hd (split_char 58 location)
     in if message = [] then None
        else Some (blank_digits [] (lower message) @ [64] @ file))"

definition to_ascii_uppercase :: "uchar \<Rightarrow> uchar" where
  "to_ascii_uppercase c = (if is_ascii_lower c then c - 32 else c)"

definition unwrap_or_empty :: "str option \<Rightarrow> str" where
  "unwrap_or_empty v = (case v of Some s \<Rightarrow> s | None \<Rightarrow> [])"

text \<open>The components that are hashed, in order.\<close>

definition fingerprint_components ::
    "(str \<Rightarrow> str) \<Rightarrow> report_kind \<Rightarrow> str option \<Rightarrow> str option \<Rightarrow> str option \<Rightarrow> parsed_stack_trace \<Rightarrow>
     str list option" where
  "fingerprint_components lower kind process signal failure_reason parsed =
    (let failure = Option.bind failure_reason (failure_key lower);
         frames = (if failure \<noteq> None \<or> frame_keys parsed \<noteq> [] then frame_keys parsed
           else address_keys parsed)
     in if frames = [] \<and> failure = None then None
        else Some ([lit (report_kind_as_str kind),
            map to_ascii_lowercase (trim (unwrap_or_empty process)),
            map to_ascii_uppercase (takeWhile (\<lambda>c. c \<noteq> 40 \<and> c \<noteq> 32) (unwrap_or_empty signal)),
            unwrap_or_empty failure] @ take SIGNATURE_FRAMES frames))"

text \<open>Each component followed by a zero byte; a text is hashed as its UTF-8 bytes.\<close>

definition stack_fingerprint ::
    "(nat list \<Rightarrow> str) \<Rightarrow> (str \<Rightarrow> str) \<Rightarrow> report_kind \<Rightarrow> str option \<Rightarrow> str option \<Rightarrow>
     str option \<Rightarrow> parsed_stack_trace \<Rightarrow> str option" where
  "stack_fingerprint sha256_hex lower kind process signal failure_reason parsed =
    map_option (\<lambda>components. sha256_hex (concat (map (\<lambda>c. utf8 c @ [0]) components)))
      (fingerprint_components lower kind process signal failure_reason parsed)"

section \<open>Bounds of a parsed trace\<close>

definition trace_ok :: "parsed_stack_trace \<Rightarrow> bool" where
  "trace_ok p \<longleftrightarrow>
    length (frame_keys p) \<le> MAX_SIGNATURE_FRAMES \<and>
    length (address_keys p) \<le> SIGNATURE_ADDRESSES \<and>
    frame_count p = length (filter (\<lambda>r. row_number r \<noteq> None) (rows p)) \<and>
    (\<forall>k \<in> set (frame_keys p). k \<noteq> [] \<and> byte_len k \<le> 128)"

lemma function_name_ok: "function_name alnum s = Some k \<Longrightarrow> k \<noteq> [] \<and> byte_len k \<le> 128"
  by (auto simp: function_name_def Let_def find_Some_iff split: if_splits option.splits)

lemma trace_ok_add_row: "trace_ok p \<Longrightarrow> trace_ok (add_row alnum p row)"
proof -
  assume ok: "trace_ok p"
  have "length (frame_keys (add_row alnum p row)) \<le> MAX_SIGNATURE_FRAMES \<and>
    (\<forall>k \<in> set (frame_keys (add_row alnum p row)). k \<noteq> [] \<and> byte_len k \<le> 128)"
  proof (cases "function_name alnum (row_symbol row)")
    case None
    with ok show ?thesis by (simp add: trace_ok_def add_row_def)
  next
    case (Some name)
    note this [simp]
    have "name \<noteq> [] \<and> byte_len name \<le> 128" using Some by (rule function_name_ok)
    with ok show ?thesis by (simp add: trace_ok_def add_row_def)
  qed
  moreover have "length (address_keys (add_row alnum p row)) \<le> SIGNATURE_ADDRESSES"
    using ok by (simp add: trace_ok_def add_row_def)
  moreover have "frame_count (add_row alnum p row) =
      length (filter (\<lambda>r. row_number r \<noteq> None) (rows (add_row alnum p row)))"
    using ok by (simp add: trace_ok_def add_row_def)
  ultimately show ?thesis by (simp add: trace_ok_def)
qed

lemma trace_ok_parse_lines: "trace_ok p \<Longrightarrow> trace_ok (parse_lines alnum index ls p)"
proof (induction ls arbitrary: index p)
  case (Cons line ls)
  have "trace_ok (p\<lparr>truncated := True\<rparr>)" using Cons.prems by (simp add: trace_ok_def)
  then show ?case
    using Cons.IH [OF Cons.prems] Cons.IH [OF trace_ok_add_row [OF Cons.prems]]
    by (simp only: parse_lines.simps split: if_split) blast
qed simp

lemma add_row_simps [simp]:
  "rows (add_row alnum p row) = rows p @ [row]"
  "truncated (add_row alnum p row) = truncated p"
  by (simp_all add: add_row_def)

lemma parse_lines_rows:
  "index \<le> MAX_RENDERED_LINES \<Longrightarrow>
    length (rows (parse_lines alnum index ls p)) \<le> length (rows p) + (MAX_RENDERED_LINES - index)"
proof (induction ls arbitrary: index p)
  case (Cons line ls)
  show ?case
  proof (cases "index = MAX_RENDERED_LINES")
    case False
    then have i: "Suc index \<le> MAX_RENDERED_LINES" using Cons.prems by simp
    note IH = Cons.IH [OF i]
    from IH [of p] IH [of "add_row alnum p (row_of_line line)"] False Cons.prems
    show ?thesis by (cases "index = 0") auto
  qed simp
qed simp

lemma parse_lines_truncated:
  "index \<le> MAX_RENDERED_LINES \<Longrightarrow> truncated (parse_lines alnum index ls p) \<longleftrightarrow>
    truncated p \<or> MAX_RENDERED_LINES < index + length ls"
proof (induction ls arbitrary: index p)
  case (Cons line ls)
  show ?case
  proof (cases "index = MAX_RENDERED_LINES")
    case False
    then have i: "Suc index \<le> MAX_RENDERED_LINES" using Cons.prems by simp
    note IH = Cons.IH [OF i]
    from IH [of p] IH [of "add_row alnum p (row_of_line line)"] False Cons.prems
    show ?thesis by (cases "index = 0") auto
  qed simp
qed simp

text \<open>Whatever an anonymous client sends as a stack, the parsed trace is bounded: at most 256 rows, at
  most 24 frame names of 1 to 128 bytes and at most 3 addresses, the frame count is the number of
  numbered rows, and the trace is marked truncated exactly when the text has more than 256 lines.\<close>

theorem parsed_trace_bounds:
  "length (rows (parse_stack_trace alnum s)) \<le> MAX_RENDERED_LINES \<and>
   trace_ok (parse_stack_trace alnum s) \<and>
   (truncated (parse_stack_trace alnum s) \<longleftrightarrow> MAX_RENDERED_LINES < length (lines s))"
  using parse_lines_rows [of 0 alnum "lines s" empty_trace]
    trace_ok_parse_lines [of empty_trace alnum 0 "lines s"]
    parse_lines_truncated [of 0 alnum "lines s" empty_trace]
  by (simp add: parse_stack_trace_def empty_trace_def trace_ok_def)

section \<open>The fingerprint's encoding\<close>

lemma nul_terminated_unique:
  assumes "0 \<notin> set a" "0 \<notin> set b" "a @ (0 :: nat) # r = b @ 0 # t"
  shows "a = b \<and> r = t"
  using assms
proof (induction a arbitrary: b)
  case Nil
  then show ?case by (cases b) auto
next
  case (Cons x a)
  then show ?case by (cases b) auto
qed

definition clean :: "str \<Rightarrow> bool" where
  "clean s \<longleftrightarrow> scalar_values s \<and> 0 \<notin> set s"

lemma component_encoding_unique:
  assumes "\<forall>c \<in> set xs. clean c" "\<forall>c \<in> set ys. clean c"
    and "concat (map (\<lambda>c. utf8 c @ [0]) xs) = concat (map (\<lambda>c. utf8 c @ [0]) ys)"
  shows "xs = ys"
  using assms
proof (induction xs arbitrary: ys)
  case Nil
  then show ?case by (cases ys) auto
next
  case (Cons x xs)
  then obtain y ys' where ys: "ys = y # ys'" by (cases ys) auto
  have nul: "0 \<notin> set (utf8 x)" "0 \<notin> set (utf8 y)"
    using Cons.prems ys by (auto simp: clean_def utf8_ascii_mem)
  have "utf8 x @ 0 # concat (map (\<lambda>c. utf8 c @ [0]) xs) = utf8 y @ 0 # concat (map (\<lambda>c. utf8 c @ [0]) ys')"
    using Cons.prems(3) ys by simp
  from nul_terminated_unique [OF nul this] have
    "utf8 x = utf8 y" "concat (map (\<lambda>c. utf8 c @ [0]) xs) = concat (map (\<lambda>c. utf8 c @ [0]) ys')"
    by simp_all
  moreover have "x = y"
    using Cons.prems(1,2) ys \<open>utf8 x = utf8 y\<close> utf8_inject [of x y] by (simp add: clean_def)
  moreover have "xs = ys'"
    using Cons.IH [of ys'] Cons.prems(1,2) ys
      \<open>concat (map (\<lambda>c. utf8 c @ [0]) xs) = concat (map (\<lambda>c. utf8 c @ [0]) ys')\<close> by simp
  ultimately show ?case using ys by simp
qed

text \<open>The bytes that are hashed identify the crash's components: when neither stack's components
  contain a zero byte and the digest tells the two inputs apart, equal fingerprints mean the same kind,
  process, signal, failure and leading frames, so no crash can be moved into another's group by where
  one component ends and the next begins.\<close>

theorem fingerprint_unambiguous:
  assumes digest: "\<And>x y. sha256_hex x = sha256_hex y \<Longrightarrow> x = y"
    and a: "fingerprint_components lower k p g r t = Some xs" "\<forall>c \<in> set xs. clean c"
    and b: "fingerprint_components lower k' p' g' r' t' = Some ys" "\<forall>c \<in> set ys. clean c"
    and same: "stack_fingerprint sha256_hex lower k p g r t = stack_fingerprint sha256_hex lower k' p' g' r' t'"
  shows "xs = ys"
proof -
  have "sha256_hex (concat (map (\<lambda>c. utf8 c @ [0]) xs)) = sha256_hex (concat (map (\<lambda>c. utf8 c @ [0]) ys))"
    using same a(1) b(1) by (simp add: stack_fingerprint_def)
  then have "concat (map (\<lambda>c. utf8 c @ [0]) xs) = concat (map (\<lambda>c. utf8 c @ [0]) ys)"
    by (rule digest)
  then show ?thesis by (rule component_encoding_unique [OF a(2) b(2)])
qed

definition one_frame_trace :: "str \<Rightarrow> parsed_stack_trace" where
  "one_frame_trace key = empty_trace\<lparr> frame_count := 1, frame_keys := [key] \<rparr>"

theorem fingerprint_unambiguous_witness:
  "[lit ''crash'', [], [], [], lit ''close''] = [lit (report_kind_as_str Crash), [], [], [], lit ''close'']"
proof (rule fingerprint_unambiguous [where sha256_hex = id and lower = id and k = Crash and k' = Crash
      and p = None and p' = None and g = None and g' = "Some (lit ''(11)'')" and r = None and r' = None
      and t = "one_frame_trace (lit ''close'')" and t' = "one_frame_trace (lit ''close'')"])
  show "fingerprint_components id Crash None None None (one_frame_trace (lit ''close'')) =
      Some [lit ''crash'', [], [], [], lit ''close'']"
    by (simp add: fingerprint_components_def one_frame_trace_def unwrap_or_empty_def text_eval)
  show "fingerprint_components id Crash None (Some (lit ''(11)'')) None (one_frame_trace (lit ''close'')) =
      Some [lit (report_kind_as_str Crash), [], [], [], lit ''close'']"
    by (simp add: fingerprint_components_def one_frame_trace_def unwrap_or_empty_def text_eval)
  show "stack_fingerprint id id Crash None None None (one_frame_trace (lit ''close'')) =
      stack_fingerprint id id Crash None (Some (lit ''(11)'')) None (one_frame_trace (lit ''close''))"
    by (simp add: stack_fingerprint_def fingerprint_components_def one_frame_trace_def
        unwrap_or_empty_def text_eval)
qed (simp_all add: clean_def scalar_values_def lit_def)

end
