(* ===== verification/Stack_Signature.thy ===== *)
theory Stack_Signature
  imports Stack_Trace
begin

text \<open>
  What a signature depends on: the frames a client writes as
  \<open>#n build-id address symbol at module\<close> are read back field by field, and the fingerprint of such a
  trace is a function of its symbols alone.
\<close>

section \<open>Reading a frame back\<close>

definition no_space :: "str \<Rightarrow> bool" where
  "no_space s \<longleftrightarrow> s \<noteq> [] \<and> list_all (\<lambda>c. \<not> is_whitespace c) s"

definition trimmed :: "str \<Rightarrow> bool" where
  "trimmed s \<longleftrightarrow> s \<noteq> [] \<and> \<not> is_whitespace (hd s) \<and> \<not> is_whitespace (last s)"

lemma no_space_trimmed: "no_space s \<Longrightarrow> trimmed s"
  by (auto simp: no_space_def trimmed_def list_all_iff)

lemma trim_start_id: "s \<noteq> [] \<Longrightarrow> \<not> is_whitespace (hd s) \<Longrightarrow> trim_start s = s"
  by (cases s) (simp_all add: trim_start_def trim_start_matches_def)

lemma trim_end_id: "s \<noteq> [] \<Longrightarrow> \<not> is_whitespace (last s) \<Longrightarrow> trim_end s = s"
  by (cases s rule: rev_cases) (simp_all add: trim_end_def trim_end_matches_def)

lemma trim_trimmed: "trimmed s \<Longrightarrow> trim s = s"
  by (simp add: trim_def trimmed_def trim_start_id trim_end_id)

lemma is_whitespace_32 [simp]: "is_whitespace 32"
  by (simp add: is_whitespace_def)

lemma trim_start_space [simp]: "trim_start (32 # s) = trim_start s"
  by (simp add: trim_start_def trim_start_matches_def)

lemma first_word_append: "no_space w \<Longrightarrow> first_word (w @ 32 # r) = Some w"
proof (cases w)
  case (Cons c v)
  assume "no_space w"
  then have "\<not> is_whitespace c" "\<forall>x \<in> set v. \<not> is_whitespace x"
    using Cons by (auto simp: no_space_def list_all_iff)
  then show ?thesis
    using Cons by (simp add: first_word_def split_whitespace_def takeWhile_append2)
qed (simp add: no_space_def)

lemma after_word_append:
  "r \<noteq> [] \<Longrightarrow> \<not> is_whitespace (hd r) \<Longrightarrow> after_word w (w @ 32 # r) = Some r"
  by (simp add: after_word_def byte_drop_append trim_start_id)

record frame =
  number :: nat
  build_id :: str
  address_digits :: str
  symbol :: str
  module_path :: str

definition frame_ok :: "frame \<Rightarrow> bool" where
  "frame_ok f \<longleftrightarrow> number f \<le> u32_max \<and>
    16 \<le> length (build_id f) \<and> list_all is_ascii_hexdigit (build_id f) \<and>
    list_all is_ascii_hexdigit (address_digits f) \<and>
    trimmed (symbol f) \<and> 10 \<notin> set (symbol f) \<and>
    no_space (module_path f)"

definition frame_line :: "frame \<Rightarrow> str" where
  "frame_line f = [35] @ show_nat (number f) @ [32] @ build_id f @ [32] @ lit ''0x'' @ address_digits f @
    [32] @ symbol f @ lit '' at '' @ module_path f"

lemma hexdigit_not_space: "is_ascii_hexdigit c \<Longrightarrow> \<not> is_whitespace c"
  by (auto simp: char_class_defs)

lemma hex_no_space: "list_all is_ascii_hexdigit s \<Longrightarrow> s \<noteq> [] \<Longrightarrow> no_space s"
  by (auto simp: no_space_def list_all_iff hexdigit_not_space)

lemma address_no_space: "list_all is_ascii_hexdigit s \<Longrightarrow> no_space (lit ''0x'' @ s)"
  by (auto simp: no_space_def list_all_iff hexdigit_not_space) (auto simp: lit_def is_whitespace_def)

lemma address_ok: "list_all is_ascii_hexdigit s \<Longrightarrow> is_frame_address (lit ''0x'' @ s)"
proof -
  have "strip_prefix (lit ''0x'') (lit ''0x'' @ s) = Some s" by (simp add: strip_prefix_Some)
  then show "list_all is_ascii_hexdigit s \<Longrightarrow> is_frame_address (lit ''0x'' @ s)"
    by (simp add: is_frame_address_def)
qed

definition frame_row :: "frame \<Rightarrow> stack_trace_row" where
  "frame_row f =
    \<lparr> row_number = Some (number f), row_top = (number f = 0), row_symbol = symbol f,
      row_module = rev (takeWhile (\<lambda>c. c \<noteq> 47 \<and> c \<noteq> 92) (rev (module_path f))),
      row_address = lit ''0x'' @ address_digits f, row_build_id = build_id f, row_raw = [],
      row_relevant = (\<not> is_generic_frame (symbol f) \<and> \<not> is_runtime_frame (symbol f)),
      row_unavailable = False \<rparr>"

lemma symbol_frame_line:
  assumes "frame_ok f"
  shows "symbol_frame (number f) (build_id f) (lit ''0x'' @ address_digits f)
    (symbol f @ lit '' at '' @ module_path f) = Some (frame_row f)"
proof -
  have m: "no_space (module_path f)" and s: "trimmed (symbol f)" using assms by (simp_all add: frame_ok_def)
  have "last (lit '' at '') \<notin> set (module_path f)"
    using m by (auto simp: lit_def no_space_def list_all_iff)
  then have "rsplit_once_str (lit '' at '') (symbol f @ lit '' at '' @ module_path f) =
      Some (symbol f, module_path f)"
    by (intro rsplit_once_str_skip) simp_all
  moreover have "symbol f \<noteq> []" using s by (simp add: trimmed_def)
  ultimately show ?thesis
    using trim_trimmed [OF s] trim_trimmed [OF no_space_trimmed [OF m]]
    by (simp add: symbol_frame_def frame_row_def)
qed

lemma address_frame_line:
  assumes "frame_ok f"
  shows "address_frame (number f) (build_id f)
    ((lit ''0x'' @ address_digits f) @ 32 # symbol f @ lit '' at '' @ module_path f) = Some (frame_row f)"
proof -
  have a: "list_all is_ascii_hexdigit (address_digits f)" and s: "trimmed (symbol f)"
    using assms by (simp_all add: frame_ok_def)
  let ?r = "symbol f @ lit '' at '' @ module_path f"
  have r: "?r \<noteq> []" "\<not> is_whitespace (hd ?r)" using s by (simp_all add: trimmed_def)
  show ?thesis
    unfolding address_frame_def
    using first_word_append [OF address_no_space [OF a], of ?r] address_ok [OF a]
      after_word_append [OF r, of "lit ''0x'' @ address_digits f"] symbol_frame_line [OF assms] r
    by simp
qed

lemma parse_frame_line:
  assumes "frame_ok f"
  shows "parse_frame (frame_line f) = Some (frame_row f)"
proof -
  let ?a = "(lit ''0x'' @ address_digits f) @ 32 # symbol f @ lit '' at '' @ module_path f"
  let ?rest = "build_id f @ 32 # ?a"
  have b: "list_all is_ascii_hexdigit (build_id f)" "16 \<le> length (build_id f)" and n: "number f \<le> u32_max"
    using assms by (simp_all add: frame_ok_def)
  have ne: "build_id f \<noteq> []" using b(2) by auto
  note bw = hex_no_space [OF b(1) ne]
  have line: "frame_line f = 35 # show_nat (number f) @ 32 # ?rest"
    by (simp add: frame_line_def)
  have hash: "strip_prefix [35] (trim_start (frame_line f)) = Some (show_nat (number f) @ 32 # ?rest)"
    by (simp add: line trim_start_id is_whitespace_def)
  have digits: "\<forall>c \<in> set (show_nat (number f)). is_ascii_digit c"
    using show_nat_digits by (simp add: list_all_iff)
  have tw: "takeWhile is_ascii_digit (show_nat (number f) @ 32 # ?rest) = show_nat (number f)"
    "dropWhile is_ascii_digit (show_nat (number f) @ 32 # ?rest) = 32 # ?rest"
    using digits by (simp_all add: takeWhile_append2 dropWhile_append2 is_ascii_digit_def)
  have hd_rest: "\<not> is_whitespace (hd ?rest)"
    using bw ne by (simp add: trimmed_def [THEN iffD1, OF no_space_trimmed])
  have rest: "trim_start (32 # ?rest) = ?rest"
    using hd_rest by (subst trim_start_space) (rule trim_start_id, simp_all)
  have "32 \<in> set (map to_ascii_lowercase ?rest)" by (auto simp: to_ascii_lowercase_def is_ascii_upper_def)
  moreover have "32 \<notin> set (lit ''unavailable'')" by (simp add: lit_def)
  ultimately have notun: "map to_ascii_lowercase ?rest \<noteq> lit ''unavailable''" by metis
  have len: "16 \<le> byte_len (build_id f)"
    using b byte_len_list_all [of is_ascii_hexdigit "build_id f"] ascii_class_lt(4) by simp
  have ha: "?a \<noteq> []" "\<not> is_whitespace (hd ?a)" by (simp_all add: lit_def is_whitespace_def)
  show ?thesis
    unfolding parse_frame_def
    using hash tw rest notun len b parse_show_nat [OF n] first_word_append [OF bw, of ?a]
      after_word_append [OF ha, of "build_id f"] address_frame_line [OF assms]
    by (simp add: Let_def)
qed

section \<open>Reading a trace back\<close>

definition render :: "frame list \<Rightarrow> str" where
  "render fs = concat (map (\<lambda>f. frame_line f @ [10]) fs)"

lemma split_char_append: "d \<notin> set l \<Longrightarrow> split_char d (l @ d # r) = l # split_char d r"
  by (induction l) auto

lemma strip_cr_id: "l \<noteq> [] \<Longrightarrow> last l \<noteq> 13 \<Longrightarrow> strip_cr l = l"
proof -
  assume "l \<noteq> []" "last l \<noteq> 13"
  then have "strip_suffix [13] l = None"
    by (metis last_snoc not_Some_eq strip_suffix_Some)
  then show ?thesis by (simp add: strip_cr_def)
qed

lemma lines_concat:
  assumes "\<forall>l \<in> set ls. 10 \<notin> set l \<and> l \<noteq> [] \<and> last l \<noteq> 13"
  shows "lines (concat (map (\<lambda>l. l @ [10]) ls)) = ls"
proof -
  have "split_char 10 (concat (map (\<lambda>l. l @ [10]) ls)) = ls @ [[]]"
    using assms by (induction ls) (auto simp: split_char_append)
  then show ?thesis
    using assms by (simp add: lines_def strip_cr_id map_idI)
qed

lemma frame_line_char:
  assumes "frame_ok f"
  shows "10 \<notin> set (frame_line f)" "trimmed (frame_line f)" "last (frame_line f) \<noteq> 13"
proof -
  have ws: "is_whitespace 10" "is_whitespace 13" by (simp_all add: is_whitespace_def)
  have m: "no_space (module_path f)" using assms by (simp add: frame_ok_def)
  then have l: "\<not> is_whitespace (last (frame_line f))"
    using no_space_trimmed [OF m] by (simp add: frame_line_def trimmed_def)
  then show "last (frame_line f) \<noteq> 13" using ws by auto
  show "trimmed (frame_line f)" using l by (simp add: trimmed_def frame_line_def is_whitespace_def)
  have digits: "10 \<notin> set (show_nat (number f))"
    using show_nat_digits [of "number f"] by (auto simp: list_all_iff is_ascii_digit_def)
  have hex: "10 \<notin> set (build_id f)" "10 \<notin> set (address_digits f)"
    using assms ws hexdigit_not_space by (auto simp: frame_ok_def list_all_iff)
  have "10 \<notin> set (module_path f)" using m ws by (auto simp: no_space_def list_all_iff)
  then show "10 \<notin> set (frame_line f)"
    using assms digits hex by (simp add: frame_line_def frame_ok_def lit_def)
qed

lemma lines_render:
  assumes "\<forall>f \<in> set fs. frame_ok f"
  shows "lines (render fs) = map frame_line fs"
proof -
  have "\<forall>l \<in> set (map frame_line fs). 10 \<notin> set l \<and> l \<noteq> [] \<and> last l \<noteq> 13"
    using assms frame_line_char by (auto simp: trimmed_def)
  from lines_concat [OF this] show ?thesis by (simp add: render_def comp_def)
qed

lemma frame_line_not_header: "frame_ok f \<Longrightarrow> trim (frame_line f) \<noteq> NATIVE_STACK_HEADER"
proof -
  assume ok: "frame_ok f"
  have "trim (frame_line f) = frame_line f" by (rule trim_trimmed [OF frame_line_char(2) [OF ok]])
  moreover have "hd (frame_line f) \<noteq> hd NATIVE_STACK_HEADER"
    by (simp add: frame_line_def NATIVE_STACK_HEADER_def lit_def)
  ultimately show ?thesis by metis
qed

lemma frame_keys_add_row:
  assumes "frame_keys p = frame_keys p'" "symbol f = symbol g"
  shows "frame_keys (add_row alnum p (frame_row f)) = frame_keys (add_row alnum p' (frame_row g))"
  using assms by (simp add: add_row_def frame_row_def cong: option.case_cong)

lemma frame_keys_parse_lines:
  assumes "\<forall>f \<in> set fs. frame_ok f" "\<forall>g \<in> set gs. frame_ok g" "map symbol fs = map symbol gs"
    and "frame_keys p = frame_keys p'"
  shows "frame_keys (parse_lines alnum index (map frame_line fs) p) =
    frame_keys (parse_lines alnum index (map frame_line gs) p')"
  using assms
proof (induction fs arbitrary: gs index p p')
  case (Cons f fs)
  then obtain g gs' where gs: "gs = g # gs'" "symbol f = symbol g" "map symbol fs = map symbol gs'"
    by (cases gs) auto
  have rows: "row_of_line (frame_line f) = frame_row f" "row_of_line (frame_line g) = frame_row g"
    using Cons.prems gs by (simp_all add: row_of_line_def parse_frame_line)
  have "frame_keys (parse_lines alnum (Suc index) (map frame_line fs) (add_row alnum p (frame_row f))) =
      frame_keys (parse_lines alnum (Suc index) (map frame_line gs') (add_row alnum p' (frame_row g)))"
    using Cons.prems gs by (intro Cons.IH frame_keys_add_row) auto
  then show ?case
    using Cons.prems gs rows by (simp add: frame_line_not_header)
qed simp

lemma frame_keys_render:
  assumes "\<forall>f \<in> set fs. frame_ok f" "\<forall>g \<in> set gs. frame_ok g" "map symbol fs = map symbol gs"
  shows "frame_keys (parse_stack_trace alnum (render fs)) = frame_keys (parse_stack_trace alnum (render gs))"
  using frame_keys_parse_lines [OF assms refl]
  by (simp add: parse_stack_trace_def lines_render assms)

text \<open>C30: One crash keeps its signature across builds: two traces written by the client whose frames name
  the same symbols in the same order, in whatever builds, at whatever addresses, from whatever module
  paths and with whatever frame numbers, have the same fingerprint, as long as a failure reason or a
  frame name identifies them.\<close>

theorem fingerprint_ignores_builds:
  assumes fs: "\<forall>f \<in> set fs. frame_ok f" and gs: "\<forall>g \<in> set gs. frame_ok g"
    and symbols: "map symbol fs = map symbol gs"
    and identified: "Option.bind reason (failure_key lower) \<noteq> None \<or>
      frame_keys (parse_stack_trace alnum (render fs)) \<noteq> []"
  shows "stack_fingerprint sha lower k process signal reason (parse_stack_trace alnum (render fs)) =
    stack_fingerprint sha lower k process signal reason (parse_stack_trace alnum (render gs))"
  using identified frame_keys_render [OF fs gs symbols, of alnum]
  by (simp add: stack_fingerprint_def fingerprint_components_def Let_def)

definition example_frame :: "string \<Rightarrow> frame" where
  "example_frame b = \<lparr> number = 0, build_id = lit b, address_digits = lit ''123'',
    symbol = lit ''close'', module_path = lit ''WebContent'' \<rparr>"

lemma example_frame_ok: "frame_ok (example_frame ''abcdef1234567890'')" "frame_ok (example_frame ''1234567890abcdef'')"
  by (simp_all add: example_frame_def frame_ok_def trimmed_def no_space_def text_eval)

theorem fingerprint_ignores_builds_witness:
  "stack_fingerprint (map (\<lambda>b. b)) id Crash None None (Some (lit ''x''))
      (parse_stack_trace (\<lambda>_. False) (render [example_frame ''abcdef1234567890''])) =
   stack_fingerprint (map (\<lambda>b. b)) id Crash None None (Some (lit ''x''))
      (parse_stack_trace (\<lambda>_. False) (render [example_frame ''1234567890abcdef'']))"
proof (rule fingerprint_ignores_builds)
  show "Option.bind (Some (lit ''x'')) (failure_key id) \<noteq> None \<or>
    frame_keys (parse_stack_trace (\<lambda>_. False) (render [example_frame ''abcdef1234567890''])) \<noteq> []"
    by (simp add: failure_key_def text_eval)
qed (simp_all add: example_frame_ok, simp add: example_frame_def)

end
