(* ===== verification/Audit_Log.thy ===== *)
theory Audit_Log
  imports Text_Enum
begin

text \<open>
  \<open>src/src/domain/audit.rs\<close>: the actions of the audit log, the kind of record each refers to, and the
  classification of texts stored by earlier releases.
\<close>

datatype audit_action =
    ReportSubmitted | ReportUpdateIssue | ReportUpdateState | ReportShareCreate
  | SubmissionSourceUpdateState
  | IssueCreate | IssueUpdateState | IssueUpdateGithubLink | IssueSyncGithub | IssueMerge
  | IssueUpdateVisibility
  | SessionSignedIn | SessionSignedOut | SessionDenied
  | ConfigurationUpdate | FieldDefinitionCreate | FieldDefinitionUpdate | FieldDefinitionsReorder

definition audit_action_all :: "audit_action list" where
  "audit_action_all = [ReportSubmitted, ReportUpdateIssue, ReportUpdateState, ReportShareCreate,
    SubmissionSourceUpdateState, IssueCreate, IssueUpdateState, IssueUpdateGithubLink,
    IssueSyncGithub, IssueMerge, IssueUpdateVisibility, SessionSignedIn, SessionSignedOut,
    SessionDenied, ConfigurationUpdate, FieldDefinitionCreate, FieldDefinitionUpdate,
    FieldDefinitionsReorder]"

primrec audit_action_as_str :: "audit_action \<Rightarrow> string" where
  "audit_action_as_str ReportSubmitted = ''report.submitted''"
| "audit_action_as_str ReportUpdateIssue = ''report.update_issue''"
| "audit_action_as_str ReportUpdateState = ''report.update_state''"
| "audit_action_as_str ReportShareCreate = ''report.share_create''"
| "audit_action_as_str SubmissionSourceUpdateState = ''submission_source.update_state''"
| "audit_action_as_str IssueCreate = ''issue.create''"
| "audit_action_as_str IssueUpdateState = ''issue.update_state''"
| "audit_action_as_str IssueUpdateGithubLink = ''issue.update_github_link''"
| "audit_action_as_str IssueSyncGithub = ''issue.sync_github''"
| "audit_action_as_str IssueMerge = ''issue.merge''"
| "audit_action_as_str IssueUpdateVisibility = ''issue.update_visibility''"
| "audit_action_as_str SessionSignedIn = ''session.signed_in''"
| "audit_action_as_str SessionSignedOut = ''session.signed_out''"
| "audit_action_as_str SessionDenied = ''session.denied''"
| "audit_action_as_str ConfigurationUpdate = ''configuration.update''"
| "audit_action_as_str FieldDefinitionCreate = ''field_definition.create''"
| "audit_action_as_str FieldDefinitionUpdate = ''field_definition.update''"
| "audit_action_as_str FieldDefinitionsReorder = ''field_definitions.reorder''"

interpretation audit_action: text_enum audit_action_all audit_action_as_str
proof
  show "set audit_action_all = UNIV"
    by (auto simp: audit_action_all_def intro: audit_action.exhaust)
qed (simp add: audit_action_all_def)

datatype audit_entity = ReportEntity | IssueEntity

definition entity :: "audit_action \<Rightarrow> audit_entity" where
  "entity a =
    (case a of
      IssueCreate \<Rightarrow> IssueEntity
    | IssueUpdateState \<Rightarrow> IssueEntity
    | IssueUpdateGithubLink \<Rightarrow> IssueEntity
    | IssueSyncGithub \<Rightarrow> IssueEntity
    | IssueMerge \<Rightarrow> IssueEntity
    | IssueUpdateVisibility \<Rightarrow> IssueEntity
    | _ \<Rightarrow> ReportEntity)"

definition entity_has_page :: "audit_action \<Rightarrow> bool" where
  "entity_has_page a = (case a of IssueUpdateVisibility \<Rightarrow> False | _ \<Rightarrow> True)"

definition of_stored_action :: "str \<Rightarrow> audit_entity" where
  "of_stored_action action =
    (case text_enum_parse audit_action_all audit_action_as_str action of
      Some a \<Rightarrow> entity a
    | None \<Rightarrow> if starts_with (lit ''issue.'') action then IssueEntity else ReportEntity)"

lemma entity_prefix:
  "entity a = IssueEntity \<longleftrightarrow> starts_with (lit ''issue.'') (lit (audit_action_as_str a))"
  by (cases a) (simp_all add: entity_def starts_with_lit)

text \<open>The family prefix of a stored action classifies it: for every text, written by this release
  or by an earlier one, the entity is an issue exactly when the text begins with \<open>issue.\<close>, so the
  current actions agree with the rule for retired ones.\<close>

theorem stored_action_by_prefix:
  "of_stored_action t = IssueEntity \<longleftrightarrow> starts_with (lit ''issue.'') t"
  by (cases "text_enum_parse audit_action_all audit_action_as_str t")
    (simp_all add: of_stored_action_def audit_action.parse_Some_iff audit_action.parse_as_str
      entity_prefix)

end
