(* ===== verification/Identifiers.thy ===== *)
theory Identifiers
  imports Prelude "HOL-Library.Word"
begin

text \<open>
  \<open>src/src/domain/identifiers.rs\<close>: the identifier newtypes over \<open>Uuid\<close>. A UUID is its 128 bits, read
  as the big-endian number of its text form; the variant is in the top bits of byte 8 and the version
  in the top half of byte 6. Parsing the text form belongs to the \<open>uuid\<close> crate and is an argument.
\<close>

type_synonym uuid = "128 word"

definition uuid_byte :: "uuid \<Rightarrow> nat \<Rightarrow> nat" where
  "uuid_byte u i = unat (drop_bit (8 * (15 - i)) u) mod 256"

text \<open>\<open>get_variant() == Variant::RFC4122\<close>: the two top bits of byte 8 are 1 and 0.\<close>

definition is_uuid :: "uuid \<Rightarrow> bool" where
  "is_uuid u \<longleftrightarrow> uuid_byte u 8 div 64 = 2"

definition uuid_version_num :: "uuid \<Rightarrow> nat" where
  "uuid_version_num u = uuid_byte u 6 div 16"

definition is_uuid_v7 :: "uuid \<Rightarrow> bool" where
  "is_uuid_v7 u \<longleftrightarrow> is_uuid u \<and> uuid_version_num u = 7"

text \<open>The macro's \<open>TryFrom<Uuid>\<close> and \<open>FromStr\<close>, over the test the identifier accepts with.\<close>

definition identifier_try_from :: "(uuid \<Rightarrow> bool) \<Rightarrow> string \<Rightarrow> uuid \<Rightarrow> (string, uuid) res" where
  "identifier_try_from accepts error u = (if accepts u then Ok u else Err error)"

definition identifier_from_str ::
    "(str \<Rightarrow> uuid option) \<Rightarrow> (uuid \<Rightarrow> bool) \<Rightarrow> string \<Rightarrow> str \<Rightarrow> (string, uuid) res" where
  "identifier_from_str parse_uuid accepts error value =
    bind_res (ok_or (parse_uuid value) ''identifier is not a UUID'') (identifier_try_from accepts error)"

text \<open>Server identifiers (attachments, challenges, leases, issues, reports, uploads) and the client's
  submission identifier.\<close>

definition server_id_try_from :: "uuid \<Rightarrow> (string, uuid) res" where
  "server_id_try_from = identifier_try_from is_uuid_v7 ''identifier must be a UUIDv7''"

definition submission_id_try_from :: "uuid \<Rightarrow> (string, uuid) res" where
  "submission_id_try_from = identifier_try_from is_uuid ''identifier must be a UUID''"

lemma server_id_is_submission_id:
  "server_id_try_from u = Ok v \<Longrightarrow> submission_id_try_from u = Ok v"
  by (auto simp: server_id_try_from_def submission_id_try_from_def identifier_try_from_def
      is_uuid_v7_def split: if_splits)

lemma identifier_from_str_Ok:
  "identifier_from_str p acc e t = Ok u \<longleftrightarrow> p t = Some u \<and> acc u"
  by (auto simp: identifier_from_str_def identifier_try_from_def result_simps split: if_splits)

lemma nil_uuid_rejected: "submission_id_try_from 0 = Err ''identifier must be a UUID''"
  by (simp add: submission_id_try_from_def identifier_try_from_def is_uuid_def uuid_byte_def)

lemma uuid_v4_example:
  "submission_id_try_from 0x550e8400e29b41d4a716446655440000 = Ok 0x550e8400e29b41d4a716446655440000"
  "server_id_try_from 0x550e8400e29b41d4a716446655440000 = Err ''identifier must be a UUIDv7''"
  "submission_id_try_from 0x550e8400e29b41d4c716446655440000 = Err ''identifier must be a UUID''"
  by (simp_all add: submission_id_try_from_def server_id_try_from_def identifier_try_from_def
      is_uuid_v7_def is_uuid_def uuid_version_num_def uuid_byte_def drop_bit_eq_div)

end
