(* ===== verification/Transactions.thy ===== *)
theory Transactions
  imports Errors
begin

text \<open>
  A transaction is a function from a state of the tables to an error or a result with the new state.
  An error carries no state: the transaction is rolled back. The administration's tables and those of
  the public service are such states.
\<close>

type_synonym ('s, 'a) stx = "'s \<Rightarrow> ('a \<times> 's) result"

definition return_tx :: "'a \<Rightarrow> ('s, 'a) stx" where
  "return_tx a db = Ok (a, db)"

definition bind_tx :: "('s, 'a) stx \<Rightarrow> ('a \<Rightarrow> ('s, 'b) stx) \<Rightarrow> ('s, 'b) stx" where
  "bind_tx m f db = bind_res (m db) (\<lambda>(a, db'). f a db')"

text \<open>A read of the database, and a result that does not depend on it.\<close>

definition get_tx :: "('s \<Rightarrow> 'a) \<Rightarrow> ('s, 'a) stx" where
  "get_tx f db = Ok (f db, db)"

definition lift_tx :: "'a result \<Rightarrow> ('s, 'a) stx" where
  "lift_tx r db = bind_res r (\<lambda>a. Ok (a, db))"

fun for_tx :: "('x \<Rightarrow> ('s, unit) stx) \<Rightarrow> 'x list \<Rightarrow> ('s, unit) stx" where
  "for_tx f [] = return_tx ()"
| "for_tx f (x # xs) = bind_tx (f x) (\<lambda>_. for_tx f xs)"

definition when_tx :: "bool \<Rightarrow> ('s, unit) stx \<Rightarrow> ('s, unit) stx" where
  "when_tx b m = (if b then m else return_tx ())"

text \<open>What a caller sees: the result, and the database after the commit or the rollback.\<close>

definition run_tx :: "('s, 'a) stx \<Rightarrow> 's \<Rightarrow> 'a result \<times> 's" where
  "run_tx m db = (case m db of Inl e \<Rightarrow> (Err e, db) | Inr (a, db') \<Rightarrow> (Ok a, db'))"

lemma tx_simps [result_simps]:
  "return_tx a db = Ok (b, db') \<longleftrightarrow> b = a \<and> db' = db"
  "return_tx a db = Err e \<longleftrightarrow> False"
  "bind_tx m f db = Ok (b, db') \<longleftrightarrow> (\<exists>a db1. m db = Ok (a, db1) \<and> f a db1 = Ok (b, db'))"
  "bind_tx m f db = Err e \<longleftrightarrow> m db = Err e \<or> (\<exists>a db1. m db = Ok (a, db1) \<and> f a db1 = Err e)"
  "get_tx g db = Ok (c, db') \<longleftrightarrow> c = g db \<and> db' = db"
  "get_tx g db = Err e \<longleftrightarrow> False"
  "lift_tx r db = Ok (a, db') \<longleftrightarrow> r = Ok a \<and> db' = db"
  "lift_tx r db = Err e \<longleftrightarrow> r = Err e"
  by (auto simp: return_tx_def bind_tx_def get_tx_def lift_tx_def bind_res_eq_Ok bind_res_eq_Err)

lemmas tx_run = return_tx_def bind_tx_def get_tx_def lift_tx_def

text \<open>
  What a relation between the database before and after must satisfy to be proved statement by
  statement: that it is reflexive and transitive. Under it sequences, reads, checks and loops of
  related transactions are related.
\<close>

definition tx_respects :: "('s \<Rightarrow> 's \<Rightarrow> bool) \<Rightarrow> ('s, 'a) stx \<Rightarrow> bool" where
  "tx_respects R m \<longleftrightarrow> (\<forall>db a db'. m db = Ok (a, db') \<longrightarrow> R db db')"

lemma tx_respectsI [intro?]: "(\<And>db a db'. m db = Ok (a, db') \<Longrightarrow> R db db') \<Longrightarrow> tx_respects R m"
  by (simp add: tx_respects_def)

lemma tx_respectsD: "tx_respects R m \<Longrightarrow> m db = Ok (a, db') \<Longrightarrow> R db db'"
  by (simp add: tx_respects_def)

locale tx_relation =
  fixes R :: "'s \<Rightarrow> 's \<Rightarrow> bool"
  assumes refl: "R db db"
    and trans: "R db1 db2 \<Longrightarrow> R db2 db3 \<Longrightarrow> R db1 db3"
begin

lemma return_respects: "tx_respects R (return_tx a)"
  by (simp add: tx_respects_def result_simps refl)

lemma get_respects: "tx_respects R (get_tx f)"
  by (simp add: tx_respects_def result_simps refl)

lemma lift_respects: "tx_respects R (lift_tx r)"
  by (simp add: tx_respects_def result_simps refl)

lemma bind_respects:
  assumes "tx_respects R m" and "\<And>a. tx_respects R (f a)"
  shows "tx_respects R (bind_tx m f)"
  using assms by (fastforce simp: tx_respects_def result_simps intro: trans)

lemma for_respects:
  assumes "\<And>x. x \<in> set xs \<Longrightarrow> tx_respects R (f x)"
  shows "tx_respects R (for_tx f xs)"
  using assms by (induction xs) (auto intro: bind_respects return_respects)

lemma run_respects: "tx_respects R m \<Longrightarrow> R db (snd (run_tx m db))"
  by (auto simp: run_tx_def tx_respects_def refl split: sum.split)

end

section \<open>Programs\<close>

text \<open>
  Code that runs several transactions and other effects in turn: what was committed stays when a later
  step fails, so the state is there after an error too.
\<close>

type_synonym ('s, 'a) prog = "'s \<Rightarrow> 'a result \<times> 's"

definition return_prog :: "'a \<Rightarrow> ('s, 'a) prog" where
  "return_prog a s = (Ok a, s)"

definition lift_prog :: "'a result \<Rightarrow> ('s, 'a) prog" where
  "lift_prog r s = (r, s)"

definition get_prog :: "('s \<Rightarrow> 'a) \<Rightarrow> ('s, 'a) prog" where
  "get_prog f s = (Ok (f s), s)"

definition bind_prog :: "('s, 'a) prog \<Rightarrow> ('a \<Rightarrow> ('s, 'b) prog) \<Rightarrow> ('s, 'b) prog" where
  "bind_prog m f s = (case m s of (Inl e, s') \<Rightarrow> (Err e, s') | (Inr a, s') \<Rightarrow> f a s')"

lemma prog_simps [result_simps]:
  "return_prog a s = (r, s') \<longleftrightarrow> r = Ok a \<and> s' = s"
  "lift_prog q s = (r, s') \<longleftrightarrow> r = q \<and> s' = s"
  "get_prog g s = (r, s') \<longleftrightarrow> r = Ok (g s) \<and> s' = s"
  "bind_prog m f s = (Ok b, s') \<longleftrightarrow> (\<exists>a s1. m s = (Ok a, s1) \<and> f a s1 = (Ok b, s'))"
  "bind_prog m f s = (Err e, s') \<longleftrightarrow> m s = (Err e, s') \<or> (\<exists>a s1. m s = (Ok a, s1) \<and> f a s1 = (Err e, s'))"
  "run_tx t s = (Ok a, s') \<longleftrightarrow> t s = Ok (a, s')"
  "run_tx t s = (Err e, s') \<longleftrightarrow> t s = Err e \<and> s' = s"
  by (auto simp: return_prog_def lift_prog_def get_prog_def bind_prog_def run_tx_def
      split: prod.splits sum.splits)

lemma bind_lift_prog: "bind_prog (lift_prog r) f s = (case r of Inl e \<Rightarrow> (Err e, s) | Inr a \<Rightarrow> f a s)"
  by (simp add: bind_prog_def lift_prog_def split: sum.split)

lemma bind_get_prog: "bind_prog (get_prog g) f s = f (g s) s"
  by (simp add: bind_prog_def get_prog_def)

lemmas prog_run = return_prog_def lift_prog_def get_prog_def bind_prog_def run_tx_def

text \<open>A relation a program keeps whether it succeeds or fails.\<close>

definition prog_respects :: "('s \<Rightarrow> 's \<Rightarrow> bool) \<Rightarrow> ('s, 'a) prog \<Rightarrow> bool" where
  "prog_respects R m \<longleftrightarrow> (\<forall>s. R s (snd (m s)))"

lemma prog_respectsD: "prog_respects R m \<Longrightarrow> R s (snd (m s))"
  by (simp add: prog_respects_def)

context tx_relation begin

lemma run_prog_respects: "tx_respects R m \<Longrightarrow> prog_respects R (run_tx m)"
  by (simp add: prog_respects_def run_respects)

lemma return_prog_respects: "prog_respects R (return_prog a)"
  by (simp add: prog_respects_def return_prog_def refl)

lemma lift_prog_respects: "prog_respects R (lift_prog r)"
  by (simp add: prog_respects_def lift_prog_def refl)

lemma get_prog_respects: "prog_respects R (get_prog f)"
  by (simp add: prog_respects_def get_prog_def refl)

lemma bind_prog_respects:
  assumes "prog_respects R m" and "\<And>a. prog_respects R (f a)"
  shows "prog_respects R (bind_prog m f)"
  unfolding prog_respects_def bind_prog_def
proof
  fix s
  obtain r s1 where m: "m s = (r, s1)" by (cases "m s")
  have 1: "R s s1" using assms(1) m unfolding prog_respects_def by (metis snd_conv)
  show "R s (snd (case m s of (Inl e, s') \<Rightarrow> (Err e, s') | (Inr a, s') \<Rightarrow> f a s'))"
  proof (cases r)
    case (Inl e)
    then show ?thesis using 1 m by simp
  next
    case (Inr a)
    have "R s1 (snd (f a s1))" using assms(2) unfolding prog_respects_def by blast
    then show ?thesis using 1 m Inr trans by simp
  qed
qed

end

end
