(* ===== verification/Issue_Db.thy ===== *)
theory Issue_Db
  imports States Audit_Log Identifiers Transactions
begin

text \<open>
  The tables that reports and issues live in, with what the database itself does on a write: the
  primary keys, foreign keys, check constraints and unique indexes of \<open>src/migrations\<close>, and the three
  triggers that make a linked report follow its issue and drop the fix of a report that is no longer
  resolved by it. A table is the list of its rows; the order of the rows stands for the order in which
  a statement without \<open>ORDER BY\<close> meets them.

  The columns no operation of the model reads
  (\<open>updated_at\<close>, \<open>created_at\<close>, the client's version and build) are left out.
\<close>

section \<open>Rows\<close>

type_synonym report_id = uuid
type_synonym issue_id = uuid

record report_row =
  rpt_id :: report_id
  rpt_state :: report_state
  rpt_issue :: "issue_id option"
  rpt_storage :: storage_state
  rpt_source :: "str option"
  rpt_fix :: "report_fix option"

record issue_row =
  iss_id :: issue_id
  iss_title :: str
  iss_description :: str
  iss_state :: issue_state
  iss_resolved_at :: "int option"
  iss_merged_into :: "issue_id option"
  iss_repository :: str
  iss_number :: int
  iss_github_id :: "int option"
  iss_url :: str
  iss_link :: github_link_state
  iss_github_updated_at :: "int option"
  iss_reports_field :: "int option"
  iss_reports_link :: "str option"

record alias_row =
  als_issue :: issue_id
  als_repository :: str
  als_number :: int
  als_github_id :: "int option"
  als_url :: str

record duplicate_row =
  dup_source :: issue_id
  dup_github_id :: int
  dup_repository :: str
  dup_number :: int
  dup_installation :: int
  dup_lease :: "uuid option"
  dup_lease_expires :: "int option"
  dup_attempts :: int
  dup_next_attempt :: int

record source_limit_row =
  lim_client_key :: str
  lim_source_report :: "report_id option"
  lim_imposed_by :: int
  lim_expires :: "int option"
  lim_lifted_by :: "int option"

text \<open>The JSON details of an audit event, in the shapes the program writes.\<close>

datatype detail =
    DNull
  | DText str
  | DId uuid
  | DInt int
  | DBool bool
  | DList "detail list"
  | DObject "(string \<times> detail) list"

record audit_event =
  evt_actor :: "int option"
  evt_action :: audit_action
  evt_entity :: "uuid option"
  evt_details :: detail

record db =
  reports :: "report_row list"
  issues :: "issue_row list"
  aliases :: "alias_row list"
  duplicate_jobs :: "duplicate_row list"
  source_limits :: "source_limit_row list"
  events :: "audit_event list"
  clock :: int

type_synonym 'a tx = "(db, 'a) stx"

section \<open>Lookups\<close>

definition report_of :: "report_id \<Rightarrow> db \<Rightarrow> report_row option" where
  "report_of rid db = find (\<lambda>r. rpt_id r = rid) (reports db)"

text \<open>The row of a report whose files are stored, as every operation of the administration selects it.\<close>

definition ready_report :: "report_id \<Rightarrow> db \<Rightarrow> report_row option" where
  "ready_report rid db = find (\<lambda>r. rpt_id r = rid \<and> rpt_storage r = storage_state.Ready) (reports db)"

definition find_issue :: "issue_id \<Rightarrow> issue_row list \<Rightarrow> issue_row option" where
  "find_issue iid rows = find (\<lambda>i. iss_id i = iid) rows"

definition issue_state_of :: "issue_row list \<Rightarrow> issue_id \<Rightarrow> issue_state option" where
  "issue_state_of rows iid = map_option iss_state (find_issue iid rows)"

section \<open>Writes to the audit log\<close>

definition insert_audit_event ::
    "int option \<Rightarrow> audit_action \<Rightarrow> uuid option \<Rightarrow> detail \<Rightarrow> unit tx" where
  "insert_audit_event actor action entity_id details db =
    Ok ((), db\<lparr> events := events db @
      [\<lparr> evt_actor = actor, evt_action = action, evt_entity = entity_id, evt_details = details \<rparr>] \<rparr>)"

abbreviation DState :: "report_state \<Rightarrow> detail" where
  "DState s \<equiv> DText (lit (report_state_as_str s))"

abbreviation DIssueState :: "issue_state \<Rightarrow> detail" where
  "DIssueState s \<equiv> DText (lit (issue_state_as_str s))"

definition DIdOpt :: "uuid option \<Rightarrow> detail" where
  "DIdOpt x = (case x of None \<Rightarrow> DNull | Some u \<Rightarrow> DId u)"

section \<open>Writes to reports\<close>

text \<open>The trigger \<open>follow_issue_state_on_report\<close>: a linked report that is written confirmed or resolved
  takes the one its issue calls for.\<close>

definition follow_issue_state_on_report :: "issue_row list \<Rightarrow> report_row \<Rightarrow> report_row" where
  "follow_issue_state_on_report rows r =
    (case rpt_issue r of
      None \<Rightarrow> r
    | Some iid \<Rightarrow>
        if rpt_state r = report_state.Confirmed \<or> rpt_state r = report_state.Resolved
        then r\<lparr> rpt_state :=
          if issue_state_of rows iid = Some issue_state.Resolved then report_state.Resolved
          else report_state.Confirmed \<rparr>
        else r)"

text \<open>The trigger \<open>keep_fix_with_resolution\<close>, which fires after it.\<close>

definition drop_fix_of_unresolved_report :: "report_row \<Rightarrow> report_row" where
  "drop_fix_of_unresolved_report r =
    (if rpt_fix r \<noteq> None \<and> (rpt_state r \<noteq> report_state.Resolved \<or> rpt_issue r \<noteq> None)
     then r\<lparr> rpt_fix := None \<rparr> else r)"

definition before_report_write :: "issue_row list \<Rightarrow> report_row \<Rightarrow> report_row" where
  "before_report_write rows r = drop_fix_of_unresolved_report (follow_issue_state_on_report rows r)"

text \<open>The constraints \<open>reports_linked_state_valid\<close> and \<open>reports_fix_resolves_unlinked\<close> and the foreign
  key of the issue.\<close>

definition report_row_ok :: "issue_row list \<Rightarrow> report_row \<Rightarrow> bool" where
  "report_row_ok rows r \<longleftrightarrow>
    (rpt_issue r = None \<or> rpt_state r \<noteq> report_state.Triage) \<and>
    (rpt_fix r = None \<or> rpt_state r = report_state.Resolved \<and> rpt_issue r = None) \<and>
    (case rpt_issue r of None \<Rightarrow> True | Some iid \<Rightarrow> find_issue iid rows \<noteq> None)"

definition update_reports :: "(report_row \<Rightarrow> bool) \<Rightarrow> (report_row \<Rightarrow> report_row) \<Rightarrow> unit tx" where
  "update_reports P f db =
    (let write = (\<lambda>r. before_report_write (issues db) (f r));
         rows = map (\<lambda>r. if P r then write r else r) (reports db) in
     bind_res (fail_if (list_ex (\<lambda>r. P r \<and> \<not> report_row_ok (issues db) (write r)) (reports db))
       (Database ''reports: a constraint is violated'')) (\<lambda>_.
     Ok ((), db\<lparr> reports := rows \<rparr>)))"

text \<open>The reports of an issue move from one state to another with an event each, as the trigger
  \<open>follow_issue_state_on_issue\<close> makes them.\<close>

definition follow_event :: "report_state \<Rightarrow> report_state \<Rightarrow> report_row \<Rightarrow> unit tx" where
  "follow_event from to r =
    insert_audit_event None ReportUpdateState (Some (rpt_id r))
      (DObject [(''from'', DState from), (''to'', DState to), (''source'', DText (lit ''issue''))])"

definition move_issue_reports :: "issue_id \<Rightarrow> report_state \<Rightarrow> report_state \<Rightarrow> unit tx" where
  "move_issue_reports iid from to =
    bind_tx (get_tx (\<lambda>db. filter (\<lambda>r. rpt_issue r = Some iid \<and> rpt_state r = from) (reports db))) (\<lambda>changed.
    bind_tx (update_reports (\<lambda>r. rpt_issue r = Some iid \<and> rpt_state r = from)
      (\<lambda>r. r\<lparr> rpt_state := to \<rparr>)) (\<lambda>_.
    for_tx (follow_event from to) changed))"

definition follow_issue_state_on_issue :: "issue_row \<times> issue_row \<Rightarrow> unit tx" where
  "follow_issue_state_on_issue = (\<lambda>(old, new).
    if iss_state old \<noteq> iss_state new \<and>
      (iss_state new = issue_state.Resolved \<or> iss_state old = issue_state.Resolved)
    then if iss_state new = issue_state.Resolved
      then move_issue_reports (iss_id new) report_state.Confirmed report_state.Resolved
      else move_issue_reports (iss_id new) report_state.Resolved report_state.Confirmed
    else return_tx ())"

section \<open>Writes to issues\<close>

abbreviation lower :: "str \<Rightarrow> str" where
  "lower \<equiv> map to_ascii_lowercase"

definition is_active :: "issue_row \<Rightarrow> bool" where
  "is_active i \<longleftrightarrow> iss_merged_into i = None \<and> iss_state i \<noteq> issue_state.Rejected"

text \<open>The check constraints of one row.\<close>

definition issue_row_ok :: "issue_row \<Rightarrow> bool" where
  "issue_row_ok i \<longleftrightarrow>
    iss_merged_into i \<noteq> Some (iss_id i) \<and> 0 < iss_number i \<and>
    1 \<le> length (iss_title i) \<and> length (iss_title i) \<le> 256 \<and>
    length (iss_description i) \<le> 262144 \<and> length (iss_url i) \<le> 2048"

text \<open>The primary key, the foreign key of a merge and the unique indexes
  \<open>one_active_issue_per_github_issue\<close> and \<open>one_active_issue_per_github_id\<close>.\<close>

definition issue_keys_ok :: "issue_row list \<Rightarrow> bool" where
  "issue_keys_ok rows \<longleftrightarrow>
    distinct (map iss_id rows) \<and>
    list_all (\<lambda>i. case iss_merged_into i of None \<Rightarrow> True | Some t \<Rightarrow> find_issue t rows \<noteq> None) rows \<and>
    distinct (map (\<lambda>i. (lower (iss_repository i), iss_number i)) (filter is_active rows)) \<and>
    distinct (map iss_github_id (filter (\<lambda>i. is_active i \<and> iss_github_id i \<noteq> None) rows))"

definition store_issues :: "issue_row list \<Rightarrow> unit tx" where
  "store_issues rows db =
    bind_res (fail_if (\<not> list_all issue_row_ok rows \<or> \<not> issue_keys_ok rows)
      (Database ''issues: a constraint is violated'')) (\<lambda>_.
    Ok ((), db\<lparr> issues := rows \<rparr>))"

definition update_issues :: "(issue_row \<Rightarrow> bool) \<Rightarrow> (issue_row \<Rightarrow> issue_row) \<Rightarrow> unit tx" where
  "update_issues P f =
    bind_tx (get_tx issues) (\<lambda>old.
    bind_tx (store_issues (map (\<lambda>i. if P i then f i else i) old)) (\<lambda>_.
    for_tx follow_issue_state_on_issue (map (\<lambda>i. (i, f i)) (filter P old))))"

definition insert_issue :: "issue_row \<Rightarrow> unit tx" where
  "insert_issue i = bind_tx (get_tx issues) (\<lambda>old. store_issues (old @ [i]))"

text \<open>The primary key of the aliases.\<close>

definition insert_alias :: "alias_row \<Rightarrow> unit tx" where
  "insert_alias a db =
    bind_res (fail_if (list_ex (\<lambda>b. als_repository b = als_repository a \<and> als_number b = als_number a)
        (aliases db)) (Database ''issue_github_aliases_pkey'')) (\<lambda>_.
    Ok ((), db\<lparr> aliases := aliases db @ [a] \<rparr>))"

end
