(* ===== verification/Db_Laws.thy ===== *)
theory Db_Laws
  imports Issue_Db
begin

text \<open>
  What holds of the tables between operations, and what the audit log says of them. \<open>db_ok\<close> is the
  invariant the constraints and the triggers are there for; \<open>explains\<close> relates two databases when the
  events added between them account for the state and the issue of every report. Every write of
  \<open>Issue_Db\<close> is proved against both, so an operation is checked statement by statement.
\<close>

section \<open>The invariant\<close>

text \<open>A linked report is confirmed or resolved as its issue calls for, given the states of the issues.\<close>

definition follows :: "(issue_id \<Rightarrow> issue_state option) \<Rightarrow> report_row \<Rightarrow> bool" where
  "follows st r \<longleftrightarrow>
    (case rpt_issue r of
      None \<Rightarrow> True
    | Some iid \<Rightarrow>
        (rpt_state r = report_state.Confirmed \<longrightarrow> st iid \<noteq> Some issue_state.Resolved) \<and>
        (rpt_state r = report_state.Resolved \<longrightarrow> st iid = Some issue_state.Resolved))"

definition report_settled :: "issue_row list \<Rightarrow> report_row \<Rightarrow> bool" where
  "report_settled rows r \<longleftrightarrow>
    report_row_ok rows r \<and> (rpt_issue r \<noteq> None \<longrightarrow> rpt_storage r = storage_state.Ready)"

definition tables_ok :: "db \<Rightarrow> bool" where
  "tables_ok db \<longleftrightarrow>
    distinct (map rpt_id (reports db)) \<and> list_all (report_settled (issues db)) (reports db) \<and>
    list_all issue_row_ok (issues db) \<and> issue_keys_ok (issues db)"

definition db_ok :: "db \<Rightarrow> bool" where
  "db_ok db \<longleftrightarrow> tables_ok db \<and> list_all (follows (issue_state_of (issues db))) (reports db)"

definition keeps_ok :: "db \<Rightarrow> db \<Rightarrow> bool" where
  "keeps_ok db db' \<longleftrightarrow> (db_ok db \<longrightarrow> db_ok db')"

interpretation keeps_ok: tx_relation keeps_ok
  by standard (auto simp: keeps_ok_def)

section \<open>What the audit log explains\<close>

definition detail_get :: "string \<Rightarrow> detail \<Rightarrow> detail option" where
  "detail_get key d = (case d of DObject ms \<Rightarrow> map_of ms key | _ \<Rightarrow> None)"

text \<open>The state and the issue of a report after an event of the log, read off the event alone.\<close>

definition after_event ::
    "report_id \<Rightarrow> audit_event \<Rightarrow> report_state \<times> issue_id option \<Rightarrow> report_state \<times> issue_id option" where
  "after_event rid e = (\<lambda>(s, i).
    if evt_entity e \<noteq> Some rid then (s, i)
    else if evt_action e = ReportUpdateState then
      (case detail_get ''to'' (evt_details e) of
        Some (DText t) \<Rightarrow>
          (case text_enum_parse report_state_all report_state_as_str t of Some s' \<Rightarrow> (s', i) | None \<Rightarrow> (s, i))
      | _ \<Rightarrow> (s, i))
    else if evt_action e = ReportUpdateIssue then
      (case detail_get ''to'' (evt_details e) of
        Some (DId iid) \<Rightarrow> (s, Some iid)
      | Some DNull \<Rightarrow> (s, None)
      | _ \<Rightarrow> (s, i))
    else (s, i))"

definition replay ::
    "report_id \<Rightarrow> audit_event list \<Rightarrow> report_state \<times> issue_id option \<Rightarrow> report_state \<times> issue_id option" where
  "replay rid es v = fold (after_event rid) es v"

definition report_view :: "report_row \<Rightarrow> report_state \<times> issue_id option" where
  "report_view r = (rpt_state r, rpt_issue r)"

text \<open>The reports are the same rows, and the new events lead each from its old state and issue to its
  new ones.\<close>

definition explains :: "db \<Rightarrow> db \<Rightarrow> bool" where
  "explains db db' \<longleftrightarrow>
    (\<exists>new. events db' = events db @ new \<and>
      list_all2 (\<lambda>r r'. rpt_id r' = rpt_id r \<and> report_view r' = replay (rpt_id r) new (report_view r))
        (reports db) (reports db'))"

definition sound :: "db \<Rightarrow> db \<Rightarrow> bool" where
  "sound db db' \<longleftrightarrow> (db_ok db \<longrightarrow> db_ok db' \<and> explains db db')"

lemma replay_simps [simp]:
  "replay rid [] v = v"
  "replay rid (e # es) v = replay rid es (after_event rid e v)"
  "replay rid (es @ fs) v = replay rid fs (replay rid es v)"
  by (simp_all add: replay_def)

lemma explains_refl: "explains db db"
  by (auto simp: explains_def list_all2_refl intro!: exI [of _ "[]"] list.rel_refl)

lemma explains_trans: "explains db1 db2 \<Longrightarrow> explains db2 db3 \<Longrightarrow> explains db1 db3"
proof -
  assume "explains db1 db2" "explains db2 db3"
  then obtain n1 n2 where n: "events db2 = events db1 @ n1" "events db3 = events db2 @ n2"
    and r1: "list_all2 (\<lambda>r r'. rpt_id r' = rpt_id r \<and>
      report_view r' = replay (rpt_id r) n1 (report_view r)) (reports db1) (reports db2)"
    and r2: "list_all2 (\<lambda>r r'. rpt_id r' = rpt_id r \<and>
      report_view r' = replay (rpt_id r) n2 (report_view r)) (reports db2) (reports db3)"
    unfolding explains_def by blast
  have "list_all2 (\<lambda>r r'. rpt_id r' = rpt_id r \<and>
      report_view r' = replay (rpt_id r) (n1 @ n2) (report_view r)) (reports db1) (reports db3)"
    by (rule list_all2_trans [OF _ r1 r2]) simp
  with n show ?thesis unfolding explains_def by (intro exI [of _ "n1 @ n2"]) simp
qed

interpretation explains: tx_relation explains
  by standard (rule explains_refl, rule explains_trans)

interpretation sound: tx_relation sound
  by standard (auto simp: sound_def explains_refl intro: explains_trans)

lemma sound_keeps: "tx_respects sound m \<Longrightarrow> tx_respects keeps_ok m"
  by (auto simp: tx_respects_def sound_def keeps_ok_def)

section \<open>Lookups\<close>

lemma find_distinct:
  "distinct (map f xs) \<Longrightarrow> find (\<lambda>x. f x = k) xs = Some x \<longleftrightarrow> x \<in> set xs \<and> f x = k"
  by (induction xs) (auto simp: image_iff)

lemma find_Some_in: "find P xs = Some x \<Longrightarrow> x \<in> set xs \<and> P x"
  by (induction xs) (auto split: if_splits)

lemma find_issue_map:
  assumes "\<And>i. iss_id (f i) = iss_id i"
  shows "find_issue iid (map f rows) = map_option f (find_issue iid rows)"
  using assms by (induction rows) (auto simp: find_issue_def)

lemma find_issue_append:
  "find_issue iid (xs @ ys) = (case find_issue iid xs of None \<Rightarrow> find_issue iid ys | Some i \<Rightarrow> Some i)"
  by (induction xs) (auto simp: find_issue_def)

lemma ready_report_in:
  "ready_report rid db = Some r \<Longrightarrow>
    r \<in> set (reports db) \<and> rpt_id r = rid \<and> rpt_storage r = storage_state.Ready"
  by (auto simp: ready_report_def dest: find_Some_in)

lemma report_row_unique:
  "tables_ok db \<Longrightarrow> r \<in> set (reports db) \<Longrightarrow> s \<in> set (reports db) \<Longrightarrow> rpt_id r = rpt_id s \<Longrightarrow> r = s"
  by (auto simp: tables_ok_def distinct_map inj_on_def)

lemma db_ok_row:
  assumes "db_ok db" and "r \<in> set (reports db)"
  shows "report_row_ok (issues db) r" and "follows (issue_state_of (issues db)) r"
    and "rpt_issue r \<noteq> None \<Longrightarrow> rpt_storage r = storage_state.Ready"
  using assms by (auto simp: db_ok_def tables_ok_def list_all_iff report_settled_def)

section \<open>The writes to reports\<close>

lemma follow_on_report_simps [simp]:
  "rpt_id (follow_issue_state_on_report rows r) = rpt_id r"
  "rpt_issue (follow_issue_state_on_report rows r) = rpt_issue r"
  "rpt_storage (follow_issue_state_on_report rows r) = rpt_storage r"
  "rpt_source (follow_issue_state_on_report rows r) = rpt_source r"
  "rpt_fix (follow_issue_state_on_report rows r) = rpt_fix r"
  by (auto simp: follow_issue_state_on_report_def split: option.split)

lemma before_report_write_simps [simp]:
  "rpt_id (before_report_write rows r) = rpt_id r"
  "rpt_issue (before_report_write rows r) = rpt_issue r"
  "rpt_storage (before_report_write rows r) = rpt_storage r"
  "rpt_source (before_report_write rows r) = rpt_source r"
  by (simp_all add: before_report_write_def drop_fix_of_unresolved_report_def)

lemma before_report_write_state:
  "rpt_state (before_report_write rows r) = rpt_state (follow_issue_state_on_report rows r)"
  by (simp add: before_report_write_def drop_fix_of_unresolved_report_def)

lemma before_report_write_follows: "follows (issue_state_of rows) (before_report_write rows r)"
  by (auto simp: follows_def before_report_write_state follow_issue_state_on_report_def
      split: option.split)

text \<open>The triggers leave a report alone that follows its issue already.\<close>

lemma follow_on_report_id:
  "follows (issue_state_of rows) r \<Longrightarrow> follow_issue_state_on_report rows r = r"
  by (cases r) (auto simp: follows_def follow_issue_state_on_report_def split: option.splits)

lemma before_report_write_fix:
  "rpt_fix (before_report_write rows r) = None \<or>
    rpt_state (before_report_write rows r) = report_state.Resolved \<and> rpt_issue r = None"
  by (auto simp: before_report_write_def drop_fix_of_unresolved_report_def)

text \<open>So the only constraints an update can run into are those on the link.\<close>

lemma before_report_write_ok:
  "report_row_ok rows (before_report_write rows r) \<longleftrightarrow>
    (case rpt_issue r of None \<Rightarrow> True
      | Some iid \<Rightarrow> rpt_state r \<noteq> report_state.Triage \<and> find_issue iid rows \<noteq> None)"
  using before_report_write_fix [of rows r]
  by (auto simp: report_row_ok_def before_report_write_state follow_issue_state_on_report_def
      split: option.splits if_splits)

definition written_rows ::
    "(report_row \<Rightarrow> bool) \<Rightarrow> (report_row \<Rightarrow> report_row) \<Rightarrow> db \<Rightarrow> report_row list" where
  "written_rows P f db = map (\<lambda>r. if P r then before_report_write (issues db) (f r) else r) (reports db)"

lemma update_reports_Ok:
  "update_reports P f db = Ok (u, db') \<longleftrightarrow>
    (\<forall>r \<in> set (reports db). P r \<longrightarrow> report_row_ok (issues db) (before_report_write (issues db) (f r))) \<and>
    db' = db\<lparr> reports := written_rows P f db \<rparr>"
  by (auto simp: update_reports_def Let_def result_simps list_ex_iff written_rows_def)

lemma update_reports_Err:
  "update_reports P f db = Err e \<longleftrightarrow>
    (\<exists>r \<in> set (reports db). P r \<and> \<not> report_row_ok (issues db) (before_report_write (issues db) (f r))) \<and>
    e = Database ''reports: a constraint is violated''"
  by (auto simp: update_reports_def Let_def result_simps list_ex_iff)

lemma update_reports_keeps:
  assumes "\<And>r. rpt_id (f r) = rpt_id r" and "\<And>r. rpt_storage (f r) = rpt_storage r"
    and "\<And>r. r \<in> set (reports db) \<Longrightarrow> P r \<Longrightarrow> rpt_issue (f r) \<noteq> None \<Longrightarrow> rpt_storage r = storage_state.Ready"
    and "db_ok db" and "update_reports P f db = Ok (u, db')"
  shows "db_ok db'"
proof -
  have db': "db' = db\<lparr> reports := written_rows P f db \<rparr>"
    and ok: "\<And>r. r \<in> set (reports db) \<Longrightarrow> P r \<Longrightarrow>
      report_row_ok (issues db) (before_report_write (issues db) (f r))"
    using assms(5) by (auto simp: update_reports_Ok)
  have "map rpt_id (written_rows P f db) = map rpt_id (reports db)"
    by (simp add: written_rows_def assms(1) cong: if_cong)
  moreover have "report_settled (issues db) r \<and> follows (issue_state_of (issues db)) r"
    if "r \<in> set (written_rows P f db)" for r
    using that ok assms(2,3) db_ok_row [OF assms(4)]
    by (auto simp: written_rows_def report_settled_def before_report_write_follows split: if_splits)
  ultimately show ?thesis
    using assms(4) by (simp add: db' db_ok_def tables_ok_def list_all_iff)
qed

section \<open>The events\<close>

text \<open>Events that say nothing of the reports in the log's vocabulary, and blocks of events on one report.\<close>

definition add_events :: "audit_event list \<Rightarrow> db \<Rightarrow> db" where
  "add_events es db = db\<lparr> events := events db @ es \<rparr>"

lemma add_events_simps [simp]:
  "reports (add_events es db) = reports db"
  "issues (add_events es db) = issues db"
  "aliases (add_events es db) = aliases db"
  "duplicate_jobs (add_events es db) = duplicate_jobs db"
  "source_limits (add_events es db) = source_limits db"
  "clock (add_events es db) = clock db"
  "events (add_events es db) = events db @ es"
  "add_events [] db = db"
  "add_events fs (add_events es db) = add_events (es @ fs) db"
  by (simp_all add: add_events_def)

lemma db_ok_add_events [simp]: "db_ok (add_events es db) = db_ok db"
  by (simp add: db_ok_def tables_ok_def)

abbreviation event :: "int option \<Rightarrow> audit_action \<Rightarrow> uuid option \<Rightarrow> detail \<Rightarrow> audit_event" where
  "event actor action ent details \<equiv>
    \<lparr> evt_actor = actor, evt_action = action, evt_entity = ent, evt_details = details \<rparr>"

lemma insert_audit_event_Ok:
  "insert_audit_event actor action ent details db = Ok ((), add_events [event actor action ent details] db)"
  by (simp add: insert_audit_event_def add_events_def)

lemma for_tx_events:
  assumes "\<And>x db. x \<in> set xs \<Longrightarrow> f x db = Ok ((), add_events (es x) db)"
  shows "for_tx f xs db = Ok ((), add_events (concat (map es xs)) db)"
  using assms by (induction xs arbitrary: db) (auto simp: tx_run)

lemma after_event_other: "evt_entity e \<noteq> Some rid \<Longrightarrow> after_event rid e v = v"
  by (cases v) (simp add: after_event_def)

lemma after_event_silent:
  "evt_action e \<noteq> ReportUpdateState \<Longrightarrow> evt_action e \<noteq> ReportUpdateIssue \<Longrightarrow> after_event rid e v = v"
  by (cases v) (simp add: after_event_def)

lemma after_event_state [simp]:
  "after_event rid (event actor ReportUpdateState (Some rid)
    (DObject ((''from'', d) # (''to'', DState s) # ms))) v = (s, snd v)"
  by (cases v) (simp add: after_event_def detail_get_def report_state.parse_as_str)

lemmas after_event_states [simp] =
  after_event_state [where s = report_state.Triage, unfolded report_state_as_str.simps]
  after_event_state [where s = report_state.Confirmed, unfolded report_state_as_str.simps]
  after_event_state [where s = report_state.Resolved, unfolded report_state_as_str.simps]
  after_event_state [where s = report_state.Rejected, unfolded report_state_as_str.simps]

lemma after_event_link [simp]:
  "after_event rid (event actor ReportUpdateIssue (Some rid)
    (DObject ((''from'', d) # (''to'', DId iid) # ms))) v = (fst v, Some iid)"
  "after_event rid (event actor ReportUpdateIssue (Some rid)
    (DObject ((''from'', d) # (''to'', DNull) # ms))) v = (fst v, None)"
  by (cases v; simp add: after_event_def detail_get_def)+

lemma replay_other: "\<forall>e \<in> set es. evt_entity e \<noteq> Some rid \<Longrightarrow> replay rid es v = v"
  by (induction es arbitrary: v) (auto simp: after_event_other)

lemma silent_events_explained:
  assumes "\<forall>e \<in> set es. evt_action e \<noteq> ReportUpdateState \<and> evt_action e \<noteq> ReportUpdateIssue"
  shows "explains db (add_events es db)"
proof -
  have "replay rid es v = v" for rid v
    using assms by (induction es arbitrary: v) (auto simp: after_event_silent)
  then show ?thesis
    unfolding explains_def by (intro exI [of _ es]) (simp add: list.rel_refl)
qed

lemma silent_event_sound:
  "action \<noteq> ReportUpdateState \<Longrightarrow> action \<noteq> ReportUpdateIssue \<Longrightarrow>
    tx_respects sound (insert_audit_event actor action ent details)"
  by (auto simp: tx_respects_def sound_def insert_audit_event_Ok intro: silent_events_explained)

text \<open>Events on several reports, a block for each: the block of a report is what replays for it.\<close>

lemma replay_blocks:
  assumes "distinct (map rpt_id rows)" and "r \<in> set rows"
    and "\<And>x e. x \<in> set rows \<Longrightarrow> e \<in> set (es x) \<Longrightarrow> evt_entity e = Some (rpt_id x)"
  shows "replay (rpt_id r) (concat (map es rows)) v = replay (rpt_id r) (es r) v"
  using assms
proof (induction rows)
  case (Cons x rows)
  have others: "replay (rpt_id r) (concat (map es rows)) w = w" if "rpt_id r \<notin> rpt_id ` set rows" for w
  proof (rule replay_other, rule ballI)
    fix e assume "e \<in> set (concat (map es rows))"
    then obtain y where y: "y \<in> set rows" "e \<in> set (es y)" by auto
    then have "evt_entity e = Some (rpt_id y)" using Cons.prems(3) [of y e] by simp
    moreover have "rpt_id y \<noteq> rpt_id r" using that y(1) by (metis imageI)
    ultimately show "evt_entity e \<noteq> Some (rpt_id r)" by simp
  qed
  show ?case
  proof (cases "r = x")
    case True
    with Cons.prems(1) others show ?thesis by auto
  next
    case False
    then have "r \<in> set rows" using Cons.prems(2) by simp
    moreover from this have "rpt_id r \<noteq> rpt_id x"
      using Cons.prems(1) by (metis distinct.simps(2) image_set imageI list.map(2))
    then have "replay (rpt_id r) (es x) v = v"
      using Cons.prems(3) [of x] by (intro replay_other) auto
    ultimately show ?thesis using Cons by auto
  qed
qed simp

text \<open>An update with a block of events for each row it writes is explained, when the block replays to
  what the row becomes.\<close>

lemma update_with_events_explained:
  assumes ids: "distinct (map rpt_id (reports db))"
    and keep: "\<And>r. rpt_id (f r) = rpt_id r"
    and ents: "\<And>r e. e \<in> set (es r) \<Longrightarrow> evt_entity e = Some (rpt_id r)"
    and views: "\<And>r. r \<in> set (reports db) \<Longrightarrow> P r \<Longrightarrow>
      replay (rpt_id r) (es r) (report_view r) = report_view (before_report_write (issues db) (f r))"
  shows "explains db (add_events (concat (map es (filter P (reports db))))
    (db\<lparr> reports := written_rows P f db \<rparr>))"
proof -
  let ?new = "concat (map es (filter P (reports db)))"
  have d: "distinct (map rpt_id (filter P (reports db)))" using ids by (rule distinct_map_filter)
  have "replay (rpt_id r) ?new (report_view r) =
      report_view (if P r then before_report_write (issues db) (f r) else r)"
    if r: "r \<in> set (reports db)" for r
  proof (cases "P r")
    case True
    then have "replay (rpt_id r) ?new (report_view r) = replay (rpt_id r) (es r) (report_view r)"
      using r ents by (intro replay_blocks [OF d]) auto
    with True r views show ?thesis by simp
  next
    case False
    have "rpt_id x \<noteq> rpt_id r" if "x \<in> set (filter P (reports db))" for x
      using that r False ids by (auto simp: distinct_map inj_on_def)
    then have "replay (rpt_id r) ?new (report_view r) = report_view r"
      using ents by (intro replay_other) fastforce
    with False show ?thesis by simp
  qed
  then show ?thesis
    unfolding explains_def
    by (intro exI [of _ ?new])
      (simp add: written_rows_def list_all2_map2 keep list.rel_refl_strong cong: if_cong)
qed

section \<open>The writes to issues\<close>

definition move_events :: "report_state \<Rightarrow> report_state \<Rightarrow> report_row \<Rightarrow> audit_event list" where
  "move_events from to r =
    [event None ReportUpdateState (Some (rpt_id r))
      (DObject [(''from'', DState from), (''to'', DState to), (''source'', DText (lit ''issue''))])]"

definition moved_db :: "issue_id \<Rightarrow> report_state \<Rightarrow> report_state \<Rightarrow> db \<Rightarrow> db" where
  "moved_db iid from to db =
    add_events (concat (map (move_events from to)
        (filter (\<lambda>r. rpt_issue r = Some iid \<and> rpt_state r = from) (reports db))))
      (db\<lparr> reports := written_rows (\<lambda>r. rpt_issue r = Some iid \<and> rpt_state r = from)
        (\<lambda>r. r\<lparr> rpt_state := to \<rparr>) db \<rparr>)"

lemma moved_db_simps [simp]:
  "issues (moved_db iid from to db) = issues db"
  "aliases (moved_db iid from to db) = aliases db"
  "duplicate_jobs (moved_db iid from to db) = duplicate_jobs db"
  "source_limits (moved_db iid from to db) = source_limits db"
  "clock (moved_db iid from to db) = clock db"
  by (simp_all add: moved_db_def)

lemma tables_ok_linked:
  "tables_ok db \<Longrightarrow> r \<in> set (reports db) \<Longrightarrow> rpt_issue r = Some iid \<Longrightarrow> find_issue iid (issues db) \<noteq> None"
  by (auto simp: tables_ok_def list_all_iff report_settled_def report_row_ok_def)

lemma move_issue_reports_Ok:
  assumes "tables_ok db" and "to \<noteq> report_state.Triage"
  shows "move_issue_reports iid from to db = Ok ((), moved_db iid from to db)"
proof -
  let ?P = "\<lambda>r. rpt_issue r = Some iid \<and> rpt_state r = from"
  have "update_reports ?P (\<lambda>r. r\<lparr> rpt_state := to \<rparr>) db =
      Ok ((), db\<lparr> reports := written_rows ?P (\<lambda>r. r\<lparr> rpt_state := to \<rparr>) db \<rparr>)"
    using assms tables_ok_linked [OF assms(1)]
    by (auto simp: update_reports_Ok before_report_write_ok split: option.splits)
  then show ?thesis
    by (simp add: move_issue_reports_def tx_run moved_db_def
        for_tx_events [where es = "move_events from to"] follow_event_def move_events_def
        insert_audit_event_Ok)
qed

text \<open>What moving the reports of one issue does, seen from the states the reports followed before.\<close>

lemma moved_db_settles:
  assumes ok: "tables_ok db" and fol: "list_all (follows st) (reports db)"
    and to: "to = linked" and linked: "linked = (if issue_state_of (issues db) iid = Some issue_state.Resolved
      then report_state.Resolved else report_state.Confirmed)"
    and source: "from = (if st iid = Some issue_state.Resolved then report_state.Resolved
      else report_state.Confirmed)"
    and "from \<noteq> to"
  shows "tables_ok (moved_db iid from to db)"
    and "explains db (moved_db iid from to db)"
    and "list_all (follows (st(iid := issue_state_of (issues db) iid))) (reports (moved_db iid from to db))"
proof -
  let ?P = "\<lambda>r. rpt_issue r = Some iid \<and> rpt_state r = from"
  let ?f = "\<lambda>r. r\<lparr> rpt_state := to \<rparr>"
  have to_triage: "to \<noteq> report_state.Triage" using to linked by auto
  have written: "rpt_state (before_report_write (issues db) (?f r)) = to" if "rpt_issue r = Some iid" for r
    using that to linked
    by (auto simp: before_report_write_state follow_issue_state_on_report_def)
  have ids: "map rpt_id (written_rows ?P ?f db) = map rpt_id (reports db)"
    by (simp add: written_rows_def cong: if_cong)
  have settled: "report_settled (issues db) r'" if "r' \<in> set (written_rows ?P ?f db)" for r'
    using that ok tables_ok_linked [OF ok] to_triage
    by (auto simp: written_rows_def report_settled_def before_report_write_ok tables_ok_def list_all_iff)
  show "tables_ok (moved_db iid from to db)"
    using ok settled ids by (simp add: moved_db_def tables_ok_def list_all_iff)
  have "distinct (map rpt_id (reports db))" using ok by (simp add: tables_ok_def)
  then show "explains db (moved_db iid from to db)"
    unfolding moved_db_def
    by (rule update_with_events_explained) (auto simp: move_events_def written report_view_def)
  have fol': "follows (st(iid := issue_state_of (issues db) iid)) r'"
    if r': "r' \<in> set (written_rows ?P ?f db)" for r'
  proof -
    from r' obtain r where r: "r \<in> set (reports db)"
      and eq: "r' = (if ?P r then before_report_write (issues db) (?f r) else r)"
      by (auto simp: written_rows_def)
    have st: "follows st r" using fol r by (simp add: list_all_iff)
    show ?thesis
    proof (cases "?P r")
      case True
      then have "r' = before_report_write (issues db) (?f r)" using eq by simp
      then have "rpt_issue r' = Some iid" "rpt_state r' = to" using True written by simp_all
      then show ?thesis using to linked by (simp add: follows_def)
    next
      case False
      then have "r' = r" using eq by (simp only: if_not_P if_False)
      with st False source to linked assms(6) show ?thesis
        by (cases "rpt_issue r = Some iid"; cases "rpt_state r")
          (auto simp: follows_def split: option.splits if_splits)
    qed
  qed
  then show "list_all (follows (st(iid := issue_state_of (issues db) iid))) (reports (moved_db iid from to db))"
    by (simp add: moved_db_def list_all_iff)
qed

lemma follows_cong:
  "(st iid = Some issue_state.Resolved) = (x = Some issue_state.Resolved) \<Longrightarrow>
    follows (st(iid := x)) r = follows st r"
  by (auto simp: follows_def split: option.splits)

lemma follow_issue_step:
  assumes ok: "tables_ok db" and fol: "list_all (follows st) (reports db)"
    and ids: "iss_id old = iss_id new" and old: "st (iss_id new) = Some (iss_state old)"
    and new: "issue_state_of (issues db) (iss_id new) = Some (iss_state new)"
  obtains db' where "follow_issue_state_on_issue (old, new) db = Ok ((), db')"
    and "tables_ok db'" and "explains db db'" and "issues db' = issues db"
    and "list_all (follows (st(iss_id new := Some (iss_state new)))) (reports db')"
proof (cases "iss_state old \<noteq> iss_state new \<and>
    (iss_state new = issue_state.Resolved \<or> iss_state old = issue_state.Resolved)")
  case True
  define from_to where "from_to = (if iss_state new = issue_state.Resolved
    then (report_state.Confirmed, report_state.Resolved) else (report_state.Resolved, report_state.Confirmed))"
  let ?db' = "moved_db (iss_id new) (fst from_to) (snd from_to) db"
  have "follow_issue_state_on_issue (old, new) db = Ok ((), ?db')"
    using True move_issue_reports_Ok [OF ok]
    by (auto simp: follow_issue_state_on_issue_def from_to_def)
  moreover note moved_db_settles [OF ok fol refl, of "snd from_to" "iss_id new" "fst from_to"]
  ultimately show ?thesis
    using True old new by (intro that [of ?db']) (auto simp: from_to_def split: if_splits)
next
  case False
  then have "follow_issue_state_on_issue (old, new) db = Ok ((), db)"
    by (auto simp: follow_issue_state_on_issue_def return_tx_def)
  moreover have "list_all (follows (st(iss_id new := Some (iss_state new)))) (reports db)"
    using fol False old follows_cong [of st "iss_id new" "Some (iss_state new)"]
    by (auto simp: list_all_iff)
  ultimately show ?thesis using ok by (intro that [of db]) (auto simp: explains_refl)
qed

lemma follow_issues_loop:
  assumes "tables_ok db" and "list_all (follows st) (reports db)"
    and "distinct (map (iss_id \<circ> snd) ps)"
    and "\<And>old new. (old, new) \<in> set ps \<Longrightarrow> iss_id old = iss_id new \<and>
      st (iss_id new) = Some (iss_state old) \<and> issue_state_of (issues db) (iss_id new) = Some (iss_state new)"
  shows "\<exists>db'. for_tx follow_issue_state_on_issue ps db = Ok ((), db') \<and> tables_ok db' \<and> explains db db' \<and>
    issues db' = issues db \<and>
    list_all (follows (\<lambda>i. if i \<in> (iss_id \<circ> snd) ` set ps then issue_state_of (issues db) i else st i))
      (reports db')"
  using assms
proof (induction ps arbitrary: db st)
  case Nil
  then show ?case by (simp add: return_tx_def explains_refl)
next
  case (Cons p ps)
  obtain old new where p: "p = (old, new)" by (cases p)
  have hd: "iss_id old = iss_id new" "st (iss_id new) = Some (iss_state old)"
    "issue_state_of (issues db) (iss_id new) = Some (iss_state new)"
    using Cons.prems(4) [of old new] p by auto
  obtain db1 where db1: "follow_issue_state_on_issue (old, new) db = Ok ((), db1)" "tables_ok db1"
    "explains db db1" "issues db1 = issues db"
    "list_all (follows (st(iss_id new := Some (iss_state new)))) (reports db1)"
    using follow_issue_step [OF Cons.prems(1,2) hd] by blast
  have rest: "iss_id o2 = iss_id n2 \<and> (st(iss_id new := Some (iss_state new))) (iss_id n2) = Some (iss_state o2) \<and>
      issue_state_of (issues db1) (iss_id n2) = Some (iss_state n2)" if "(o2, n2) \<in> set ps" for o2 n2
  proof -
    have "iss_id n2 \<in> (iss_id \<circ> snd) ` set ps"
      using imageI [OF that, of "iss_id \<circ> snd"] by (simp only: comp_apply snd_conv)
    moreover have "iss_id new \<notin> (iss_id \<circ> snd) ` set ps" using Cons.prems(3) p by simp
    ultimately have "iss_id n2 \<noteq> iss_id new" by (metis (no_types))
    then show ?thesis using Cons.prems(4) [of o2 n2] that db1(4) by simp
  qed
  have "distinct (map (iss_id \<circ> snd) ps)" using Cons.prems(3) by (simp only: list.map distinct.simps)
  from Cons.IH [OF db1(2,5) this rest] obtain db2 where
    db2: "for_tx follow_issue_state_on_issue ps db1 = Ok ((), db2)" "tables_ok db2" "explains db1 db2"
      "issues db2 = issues db1"
      "list_all (follows (\<lambda>i. if i \<in> (iss_id \<circ> snd) ` set ps then issue_state_of (issues db1) i
        else (st(iss_id new := Some (iss_state new))) i)) (reports db2)"
    by blast
  have "(\<lambda>i. if i \<in> (iss_id \<circ> snd) ` set (p # ps) then issue_state_of (issues db) i else st i) =
    (\<lambda>i. if i \<in> (iss_id \<circ> snd) ` set ps then issue_state_of (issues db1) i
        else (st(iss_id new := Some (iss_state new))) i)"
    using hd(3) p db1(4) by (auto simp: fun_eq_iff)
  then have "list_all (follows (\<lambda>i. if i \<in> (iss_id \<circ> snd) ` set (p # ps) then issue_state_of (issues db) i
      else st i)) (reports db2)"
    using db2(5) by simp
  moreover have "for_tx follow_issue_state_on_issue (p # ps) db = Ok ((), db2)"
    using db1(1) db2(1) p by (simp add: bind_tx_def)
  moreover have "explains db db2" using db1(3) db2(3) by (rule explains_trans)
  moreover have "issues db2 = issues db" using db1(4) db2(4) by simp
  ultimately show ?case using db2(2) by blast
qed

definition issues_stored_ok :: "issue_row list \<Rightarrow> bool" where
  "issues_stored_ok rows \<longleftrightarrow> list_all issue_row_ok rows \<and> issue_keys_ok rows"

lemma store_issues_Ok:
  "store_issues rows db = (if issues_stored_ok rows then Ok ((), db\<lparr> issues := rows \<rparr>)
    else Err (Database ''issues: a constraint is violated''))"
  by (auto simp: store_issues_def issues_stored_ok_def fail_if_def)

text \<open>An update of issues that keeps their identifiers either violates a constraint of the table or
  ends in a database that is right again, its reports moved and the moves explained.\<close>

lemma update_issues_effect:
  assumes ok: "db_ok db" and keep: "\<And>i. iss_id (f i) = iss_id i"
    and stored: "issues_stored_ok (map (\<lambda>i. if P i then f i else i) (issues db))"
  obtains db' where "update_issues P f db = Ok ((), db')" and "db_ok db'" and "explains db db'"
    and "issues db' = map (\<lambda>i. if P i then f i else i) (issues db)"
proof -
  let ?rows = "map (\<lambda>i. if P i then f i else i) (issues db)"
  let ?db1 = "db\<lparr> issues := ?rows \<rparr>"
  let ?ps = "map (\<lambda>i. (i, f i)) (filter P (issues db))"
  have found: "find_issue iid ?rows = map_option (\<lambda>i. if P i then f i else i) (find_issue iid (issues db))" for iid
    by (rule find_issue_map) (simp add: keep)
  have ids: "distinct (map iss_id (issues db))" using ok by (simp add: db_ok_def tables_ok_def issue_keys_ok_def)
  have "report_settled ?rows r" if "r \<in> set (reports db)" for r
    using db_ok_row [OF ok that]
    by (auto simp: report_settled_def report_row_ok_def found split: option.splits)
  then have t: "tables_ok ?db1"
    using ok stored by (simp add: db_ok_def tables_ok_def issues_stored_ok_def list_all_iff)
  have d: "distinct (map (iss_id \<circ> snd) ?ps)"
    using ids by (simp add: comp_def keep distinct_map_filter)
  have fol: "list_all (follows (issue_state_of (issues db))) (reports ?db1)"
    using ok by (simp add: db_ok_def)
  have get: "find_issue (iss_id i) (issues db) = Some i" if "i \<in> set (issues db)" for i
    using that ids by (simp add: find_issue_def find_distinct)
  have pairs: "iss_id old = iss_id new \<and> issue_state_of (issues db) (iss_id new) = Some (iss_state old) \<and>
      issue_state_of (issues ?db1) (iss_id new) = Some (iss_state new)" if "(old, new) \<in> set ?ps" for old new
  proof -
    from that have new: "new = f old" "P old" "old \<in> set (issues db)" by auto
    then have "find_issue (iss_id old) ?rows = Some (f old)" using get found by simp
    with new get show ?thesis by (simp add: issue_state_of_def keep del: map_map)
  qed
  have rows1: "issues ?db1 = ?rows" by simp
  from follow_issues_loop [OF t fol d pairs, unfolded rows1] obtain db2 where
    db2: "for_tx follow_issue_state_on_issue ?ps ?db1 = Ok ((), db2)" "tables_ok db2" "explains ?db1 db2"
      "issues db2 = ?rows"
      "list_all (follows (\<lambda>i. if i \<in> (iss_id \<circ> snd) ` set ?ps then issue_state_of ?rows i
        else issue_state_of (issues db) i)) (reports db2)"
    by blast
  have "issue_state_of ?rows i = issue_state_of (issues db) i" if "i \<notin> (iss_id \<circ> snd) ` set ?ps" for i
  proof (cases "find_issue i (issues db)")
    case None
    then show ?thesis by (simp add: issue_state_of_def found)
  next
    case (Some x)
    then have x: "x \<in> set (issues db)" "iss_id x = i" by (auto simp: find_issue_def dest: find_Some_in)
    then have "\<not> P x" using that by (auto simp: image_iff keep)
    with Some show ?thesis by (simp add: issue_state_of_def found)
  qed
  then have "(\<lambda>i. if i \<in> (iss_id \<circ> snd) ` set ?ps then issue_state_of ?rows i
        else issue_state_of (issues db) i) = issue_state_of ?rows"
    by auto
  with db2 have "db_ok db2" by (simp add: db_ok_def)
  moreover have "explains db db2" using db2(3) by (simp add: explains_def)
  moreover have "update_issues P f db = Ok ((), db2)"
    using stored db2(1) by (simp add: update_issues_def tx_run store_issues_Ok)
  ultimately show ?thesis using db2(4) by (intro that)
qed

lemma update_issues_sound:
  assumes "\<And>i. iss_id (f i) = iss_id i"
  shows "tx_respects sound (update_issues P f)"
proof
  fix db u db'
  assume upd: "update_issues P f db = Ok (u, db')"
  show "sound db db'" unfolding sound_def
  proof
    assume ok: "db_ok db"
    have "issues_stored_ok (map (\<lambda>i. if P i then f i else i) (issues db))"
      using upd by (auto simp: update_issues_def result_simps store_issues_Ok split: if_splits)
    from update_issues_effect [OF ok assms this] upd show "db_ok db' \<and> explains db db'" by force
  qed
qed

lemma insert_issue_sound:
  "tx_respects sound (insert_issue i)"
proof
  fix db u db'
  assume ins: "insert_issue i db = Ok (u, db')"
  then have db': "db' = db\<lparr> issues := issues db @ [i] \<rparr>" and st: "issues_stored_ok (issues db @ [i])"
    by (auto simp: insert_issue_def tx_run store_issues_Ok split: if_splits)
  have fresh: "find_issue (iss_id i) (issues db) = None"
  proof (rule ccontr)
    assume "find_issue (iss_id i) (issues db) \<noteq> None"
    then obtain x where "find (\<lambda>j. iss_id j = iss_id i) (issues db) = Some x"
      unfolding find_issue_def by blast
    from find_Some_in [OF this] have "iss_id i \<in> iss_id ` set (issues db)" by (metis imageI)
    then show False using st by (simp add: issues_stored_ok_def issue_keys_ok_def)
  qed
  have found: "find_issue iid (issues db @ [i]) = find_issue iid (issues db)"
    if "find_issue iid (issues db) \<noteq> None" for iid
    using that by (auto simp: find_issue_append)
  show "sound db db'" unfolding sound_def
  proof
    assume ok: "db_ok db"
    have "report_settled (issues db @ [i]) r \<and> follows (issue_state_of (issues db @ [i])) r"
      if "r \<in> set (reports db)" for r
      using db_ok_row [OF ok that] found
      by (auto simp: report_settled_def report_row_ok_def follows_def issue_state_of_def split: option.splits)
    then have "db_ok db'"
      using ok st by (simp add: db' db_ok_def tables_ok_def issues_stored_ok_def list_all_iff)
    moreover have "explains db db'" by (simp add: explains_def db' list.rel_refl)
    ultimately show "db_ok db' \<and> explains db db'" ..
  qed
qed

lemma insert_alias_sound: "tx_respects sound (insert_alias a)"
  by (auto simp: tx_respects_def insert_alias_def result_simps sound_def explains_def db_ok_def
      tables_ok_def list.rel_refl)

end
