(* ===== verification/Report_Ops.thy ===== *)
theory Report_Ops
  imports Db_Laws
begin

text \<open>
  The operations of maintainers on reports: \<open>src/src/infrastructure/database/admin/reports.rs\<close> and the
  unlinking and rejecting of \<open>issues.rs\<close>. Each is a transaction over the tables of \<open>Issue_Db\<close>. The
  advisory lock and the row locks serialize them, so an operation runs on the database the previous one
  left; fetching a row that must exist and does not is a database error, as in \<open>sqlx\<close>.
\<close>

text \<open>\<open>in_lock_order\<close>: the distinct reports, sorted.\<close>

definition in_lock_order :: "report_id list \<Rightarrow> report_id list" where
  "in_lock_order ids = remdups_adj (sort ids)"

definition audit_report_state_change ::
    "report_id \<Rightarrow> int \<Rightarrow> report_state \<Rightarrow> report_state \<Rightarrow> str option \<Rightarrow> unit tx" where
  "audit_report_state_change rid actor from to reason =
    insert_audit_event (Some actor) ReportUpdateState (Some rid)
      (DObject ([(''from'', DState from), (''to'', DState to)] @
        (case reason of None \<Rightarrow> [] | Some r \<Rightarrow> [(''reason'', DText r)])))"

section \<open>Linking\<close>

text \<open>The state a report takes on an issue.\<close>

definition linked_state :: "issue_state \<Rightarrow> report_state" where
  "linked_state s = (if s = issue_state.Resolved then report_state.Resolved else report_state.Confirmed)"

definition link_report :: "report_id \<Rightarrow> issue_id \<Rightarrow> int \<Rightarrow> unit tx" where
  "link_report rid iid actor =
    bind_tx (get_tx (ready_report rid)) (\<lambda>row.
    bind_tx (lift_tx (ok_or row (NotFound ''Report not found''))) (\<lambda>previous.
    bind_tx (get_tx (\<lambda>db. issue_state_of (issues db) iid)) (\<lambda>state.
    bind_tx (lift_tx (ok_or state (Database ''no rows returned''))) (\<lambda>issue_state.
    let target = linked_state issue_state in
    if rpt_issue previous = Some iid \<and> rpt_state previous = target then return_tx ()
    else
      bind_tx (lift_tx (fail_if (rpt_issue previous \<noteq> None \<and> rpt_issue previous \<noteq> Some iid)
        (Conflict ''Unlink the report before adding it to another issue''))) (\<lambda>_.
      bind_tx (update_reports (\<lambda>r. rpt_id r = rid)
        (\<lambda>r. r\<lparr> rpt_issue := Some iid, rpt_state := target \<rparr>)) (\<lambda>_.
      bind_tx (when_tx (rpt_issue previous \<noteq> Some iid)
        (insert_audit_event (Some actor) ReportUpdateIssue (Some rid)
          (DObject [(''from'', DIdOpt (rpt_issue previous)), (''to'', DId iid)]))) (\<lambda>_.
      when_tx (rpt_state previous \<noteq> target)
        (audit_report_state_change rid actor (rpt_state previous) target None))))))))"

definition linked_elsewhere :: "report_id list \<Rightarrow> issue_id \<Rightarrow> db \<Rightarrow> bool" where
  "linked_elsewhere ids iid db \<longleftrightarrow>
    list_ex (\<lambda>r. rpt_id r \<in> set ids \<and> rpt_issue r \<noteq> None \<and> rpt_issue r \<noteq> Some iid) (reports db)"

definition link_reports :: "report_id list \<Rightarrow> issue_id \<Rightarrow> int \<Rightarrow> unit tx" where
  "link_reports report_ids iid actor =
    (let ids = in_lock_order report_ids in
     bind_tx (get_tx (linked_elsewhere ids iid)) (\<lambda>elsewhere.
     bind_tx (lift_tx (fail_if (1 < length ids \<and> elsewhere)
       (Conflict ''Unlink the selected reports that are on another issue before adding them''))) (\<lambda>_.
     for_tx (\<lambda>rid. link_report rid iid actor) ids)))"

definition assignable :: "issue_id \<Rightarrow> db \<Rightarrow> bool" where
  "assignable iid db \<longleftrightarrow> list_ex (\<lambda>i. iss_id i = iid \<and> iss_merged_into i = None \<and>
    iss_state i \<noteq> issue_state.Rejected) (issues db)"

definition assign_reports_to_issue :: "report_id list \<Rightarrow> issue_id \<Rightarrow> int \<Rightarrow> unit tx" where
  "assign_reports_to_issue ids iid actor =
    bind_tx (get_tx (assignable iid)) (\<lambda>available.
    bind_tx (lift_tx (fail_if (\<not> available)
      (InvalidRequest ''Issue is not available for report assignment''))) (\<lambda>_.
    link_reports ids iid actor))"

definition assign_report_to_issue :: "report_id \<Rightarrow> issue_id \<Rightarrow> int \<Rightarrow> unit tx" where
  "assign_report_to_issue rid = assign_reports_to_issue [rid]"

section \<open>Unlinking\<close>

definition unlink_report :: "report_id \<Rightarrow> issue_id \<Rightarrow> report_state \<Rightarrow> int \<Rightarrow> unit tx" where
  "unlink_report rid iid previous actor =
    bind_tx (update_reports
      (\<lambda>r. rpt_id r = rid \<and> rpt_issue r = Some iid \<and> rpt_storage r = storage_state.Ready)
      (\<lambda>r. r\<lparr> rpt_issue := None, rpt_state := report_state.Triage \<rparr>)) (\<lambda>_.
    bind_tx (insert_audit_event (Some actor) ReportUpdateIssue (Some rid)
      (DObject [(''from'', DId iid), (''to'', DNull)])) (\<lambda>_.
    when_tx (previous \<noteq> report_state.Triage)
      (audit_report_state_change rid actor previous report_state.Triage None)))"

definition unlink_report_from_issue :: "issue_id \<Rightarrow> report_id \<Rightarrow> int \<Rightarrow> unit tx" where
  "unlink_report_from_issue iid rid actor =
    bind_tx (get_tx (\<lambda>db. find_issue iid (issues db))) (\<lambda>issue.
    bind_tx (lift_tx (fail_if (issue = None) (NotFound ''Issue not found''))) (\<lambda>_.
    bind_tx (get_tx (\<lambda>db. find (\<lambda>r. rpt_id r = rid \<and> rpt_issue r = Some iid \<and>
      rpt_storage r = storage_state.Ready) (reports db))) (\<lambda>row.
    bind_tx (lift_tx (ok_or row (NotFound ''Assigned report not found''))) (\<lambda>previous.
    unlink_report rid iid (rpt_state previous) actor))))"

section \<open>One report's state\<close>

text \<open>Which moves a maintainer may ask for, given the state and the issue of the report.\<close>

definition check_move :: "report_state \<Rightarrow> report_state \<Rightarrow> issue_id option \<Rightarrow> unit result" where
  "check_move from to issue =
    (case (from, to, issue) of
      (_, report_state.Rejected, _) \<Rightarrow> Ok ()
    | (report_state.Rejected, report_state.Confirmed, None) \<Rightarrow>
        Err (InvalidRequest ''Link the report to an issue before confirming it'')
    | (report_state.Rejected, report_state.Triage, Some _) \<Rightarrow>
        Err (InvalidRequest ''Unlink the report before returning it to triage'')
    | (report_state.Rejected, report_state.Confirmed, Some _) \<Rightarrow> Ok ()
    | (report_state.Rejected, report_state.Triage, None) \<Rightarrow> Ok ()
    | (report_state.Resolved, report_state.Triage, None) \<Rightarrow> Ok ()
    | (_, report_state.Resolved, _) \<Rightarrow>
        Err (InvalidRequest ''Resolve the report with its issue, or with the pull request or commit that fixed it'')
    | _ \<Rightarrow> Err (InvalidRequest ''Only rejected reports can be restored''))"

text \<open>A confirmed report of a resolved issue is resolved, as the issue is.\<close>

definition settle_target :: "report_state \<Rightarrow> issue_id option \<Rightarrow> report_state tx" where
  "settle_target target issue =
    (case issue of
      Some iid \<Rightarrow>
        if target = report_state.Confirmed then
          bind_tx (get_tx (\<lambda>db. issue_state_of (issues db) iid)) (\<lambda>state.
          bind_tx (lift_tx (ok_or state (Database ''no rows returned''))) (\<lambda>s.
          return_tx (if s = issue_state.Resolved then report_state.Resolved else target)))
        else return_tx target
    | None \<Rightarrow> return_tx target)"

definition set_report_state ::
    "report_id \<Rightarrow> report_state \<Rightarrow> int \<Rightarrow> str option \<Rightarrow> report_state option tx" where
  "set_report_state rid target actor reason =
    bind_tx (get_tx (ready_report rid)) (\<lambda>row.
    bind_tx (lift_tx (ok_or row (NotFound ''Report not found''))) (\<lambda>previous.
    if rpt_state previous = target then return_tx None
    else
      bind_tx (lift_tx (check_move (rpt_state previous) target (rpt_issue previous))) (\<lambda>_.
      bind_tx (settle_target target (rpt_issue previous)) (\<lambda>to.
      bind_tx (update_reports (\<lambda>r. rpt_id r = rid) (\<lambda>r. r\<lparr> rpt_state := to \<rparr>)) (\<lambda>_.
      bind_tx (audit_report_state_change rid actor (rpt_state previous) to reason) (\<lambda>_.
      return_tx (Some (rpt_state previous))))))))"

section \<open>Several reports at once\<close>

text \<open>The ready reports of a selection, in the order of their identifiers.\<close>

definition select_reports :: "report_id list \<Rightarrow> db \<Rightarrow> report_row list" where
  "select_reports ids db =
    sort_key rpt_id (filter (\<lambda>r. rpt_id r \<in> set ids \<and> rpt_storage r = storage_state.Ready) (reports db))"

fun collect :: "('a \<Rightarrow> 'b option result) \<Rightarrow> 'a list \<Rightarrow> 'b list result" where
  "collect f [] = Ok []"
| "collect f (x # xs) =
    bind_res (f x) (\<lambda>c. bind_res (collect f xs) (\<lambda>cs. Ok (case c of None \<Rightarrow> cs | Some b \<Rightarrow> b # cs)))"

definition fix_change :: "report_fix \<Rightarrow> report_row \<Rightarrow> (report_id \<times> report_state) option result" where
  "fix_change fx r =
    bind_res (fail_if (rpt_issue r \<noteq> None)
      (InvalidRequest ''A report on an issue is resolved with its issue'')) (\<lambda>_.
    case rpt_state r of
      report_state.Rejected \<Rightarrow> Err (InvalidRequest ''Restore rejected reports before resolving them'')
    | report_state.Resolved \<Rightarrow>
        if map_option fix_kind (rpt_fix r) = Some (fix_kind fx) \<and>
          map_option fix_reference (rpt_fix r) = Some (fix_reference fx)
        then Ok None else Ok (Some (rpt_id r, rpt_state r))
    | _ \<Rightarrow> Ok (Some (rpt_id r, rpt_state r)))"

definition apply_fix :: "report_fix \<Rightarrow> int \<Rightarrow> report_id \<times> report_state \<Rightarrow> unit tx" where
  "apply_fix fx actor = (\<lambda>(rid, previous).
    bind_tx (update_reports (\<lambda>r. rpt_id r = rid)
      (\<lambda>r. r\<lparr> rpt_state := report_state.Resolved, rpt_fix := Some fx \<rparr>)) (\<lambda>_.
    insert_audit_event (Some actor) ReportUpdateState (Some rid)
      (DObject [(''from'', DState previous), (''to'', DState report_state.Resolved),
        (''fix'', DObject [(''kind'', DText (lit (report_fix_kind_as_str (fix_kind fx)))),
          (''reference'', DText (fix_reference fx)), (''url'', DText (fix_url fx))])])))"

definition resolve_reports_with_fix :: "report_id list \<Rightarrow> report_fix \<Rightarrow> int \<Rightarrow> nat tx" where
  "resolve_reports_with_fix report_ids fx actor =
    (let ids = in_lock_order report_ids in
     bind_tx (get_tx (select_reports ids)) (\<lambda>rows.
     bind_tx (lift_tx (fail_if (length rows \<noteq> length ids) (NotFound ''Report not found''))) (\<lambda>_.
     bind_tx (lift_tx (collect (fix_change fx) rows)) (\<lambda>changes.
     bind_tx (for_tx (apply_fix fx actor) changes) (\<lambda>_.
     return_tx (length changes))))))"

datatype change = ToState report_state | ToUnlinked issue_id

definition plan_change ::
    "report_state_action \<Rightarrow> issue_row list \<Rightarrow> report_row \<Rightarrow> (report_row \<times> change) option result" where
  "plan_change action rows r =
    (case action of
      report_state_action.Reject \<Rightarrow>
        Ok (if rpt_state r \<noteq> report_state.Rejected then Some (r, ToState report_state.Rejected) else None)
    | report_state_action.Confirm \<Rightarrow>
        if rpt_state r = report_state.Confirmed \<or> rpt_state r = report_state.Resolved then Ok None
        else (case (rpt_state r, rpt_issue r) of
          (report_state.Rejected, Some iid) \<Rightarrow>
            Ok (Some (r, ToState (if issue_state_of rows iid = Some issue_state.Resolved
              then report_state.Resolved else report_state.Confirmed)))
        | _ \<Rightarrow> Err (InvalidRequest ''Add the selected reports to an issue to confirm them''))
    | report_state_action.ReturnToTriage \<Rightarrow>
        (case rpt_issue r of
          Some iid \<Rightarrow> Ok (Some (r, ToUnlinked iid))
        | None \<Rightarrow>
            if rpt_state r = report_state.Triage then Ok None
            else if rpt_state r = report_state.Rejected \<or> rpt_state r = report_state.Resolved
            then Ok (Some (r, ToState report_state.Triage))
            else Err (InvalidRequest ''Only linked, rejected, or resolved reports can return to triage'')))"

definition apply_change :: "int \<Rightarrow> str option \<Rightarrow> report_row \<times> change \<Rightarrow> unit tx" where
  "apply_change actor reason = (\<lambda>(r, c).
    case c of
      ToState target \<Rightarrow>
        bind_tx (update_reports (\<lambda>row. rpt_id row = rpt_id r) (\<lambda>row. row\<lparr> rpt_state := target \<rparr>)) (\<lambda>_.
        audit_report_state_change (rpt_id r) actor (rpt_state r) target reason)
    | ToUnlinked iid \<Rightarrow> unlink_report (rpt_id r) iid (rpt_state r) actor)"

definition apply_report_state_action ::
    "report_id list \<Rightarrow> report_state_action \<Rightarrow> int \<Rightarrow> str option \<Rightarrow> nat tx" where
  "apply_report_state_action report_ids action actor reason =
    (let ids = in_lock_order report_ids in
     bind_tx (get_tx (\<lambda>db. (select_reports ids db, issues db))) (\<lambda>(rows, issue_rows).
     bind_tx (lift_tx (fail_if (length rows \<noteq> length ids) (NotFound ''Report not found''))) (\<lambda>_.
     bind_tx (lift_tx (collect (plan_change action issue_rows) rows)) (\<lambda>changes.
     bind_tx (for_tx (apply_change actor reason) changes) (\<lambda>_.
     return_tx (length changes))))))"

section \<open>Blocking the source of a report\<close>

definition block_limit :: "str \<Rightarrow> report_id \<Rightarrow> int \<Rightarrow> source_limit_row list \<Rightarrow> source_limit_row list" where
  "block_limit key rid actor rows =
    (let row = \<lparr> lim_client_key = key, lim_source_report = Some rid, lim_imposed_by = actor,
       lim_expires = None, lim_lifted_by = None \<rparr> in
     if list_ex (\<lambda>l. lim_client_key l = key) rows
     then map (\<lambda>l. if lim_client_key l = key then row else l) rows
     else rows @ [row])"

definition block_rejects :: "str \<Rightarrow> report_row \<Rightarrow> bool" where
  "block_rejects key r \<longleftrightarrow> rpt_source r = Some key \<and> rpt_state r = report_state.Triage \<and>
    rpt_storage r = storage_state.Ready"

definition block_event :: "int \<Rightarrow> report_row \<Rightarrow> unit tx" where
  "block_event actor r =
    insert_audit_event (Some actor) ReportUpdateState (Some (rpt_id r))
      (DObject [(''from'', DState report_state.Triage), (''to'', DState report_state.Rejected),
        (''reason'', DText (lit ''source_blocked''))])"

definition reject_triage_of_source :: "str \<Rightarrow> int \<Rightarrow> nat tx" where
  "reject_triage_of_source key actor =
    bind_tx (get_tx (\<lambda>db. filter (block_rejects key) (reports db))) (\<lambda>rejected.
    bind_tx (update_reports (block_rejects key) (\<lambda>r. r\<lparr> rpt_state := report_state.Rejected \<rparr>)) (\<lambda>_.
    bind_tx (for_tx (block_event actor) rejected) (\<lambda>_.
    return_tx (length rejected))))"

definition set_source_limits :: "(source_limit_row list \<Rightarrow> source_limit_row list) \<Rightarrow> unit tx" where
  "set_source_limits f db = Ok ((), db\<lparr> source_limits := f (source_limits db) \<rparr>)"

definition block_report_source :: "report_id \<Rightarrow> int \<Rightarrow> bool \<Rightarrow> nat tx" where
  "block_report_source rid actor remove_triage_reports =
    bind_tx (get_tx (\<lambda>db. find (\<lambda>r. rpt_id r = rid \<and> rpt_storage r = storage_state.Ready \<and>
      rpt_source r \<noteq> None) (reports db))) (\<lambda>row.
    bind_tx (lift_tx (ok_or row (NotFound ''Report not found''))) (\<lambda>r.
    bind_tx (lift_tx (ok_or (rpt_source r)
      (InvalidRequest ''This report has no submission source identifier''))) (\<lambda>key.
    bind_tx (set_source_limits (block_limit key rid actor)) (\<lambda>_.
    bind_tx (if remove_triage_reports then reject_triage_of_source key actor else return_tx 0) (\<lambda>n.
    bind_tx (insert_audit_event (Some actor) SubmissionSourceUpdateState (Some rid)
      (DObject [(''from'', DText (lit ''allowed'')), (''to'', DText (lit ''blocked'')),
        (''triage_reports_rejected'', DInt (int n))])) (\<lambda>_.
    return_tx n))))))"

definition is_in_force :: "int \<Rightarrow> source_limit_row \<Rightarrow> bool" where
  "is_in_force now l \<longleftrightarrow> lim_lifted_by l = None \<and>
    (case lim_expires l of None \<Rightarrow> True | Some t \<Rightarrow> now < t)"

text \<open>The key to unblock: the source the report still carries, or the limit imposed through it. A
  subquery that finds two rows is a database error.\<close>

definition blocked_key :: "report_id \<Rightarrow> db \<Rightarrow> str option result" where
  "blocked_key rid db =
    (case Option.bind (report_of rid db) rpt_source of
      Some key \<Rightarrow> Ok (Some key)
    | None \<Rightarrow>
        (case filter (\<lambda>l. lim_source_report l = Some rid \<and> lim_lifted_by l = None) (source_limits db) of
          [] \<Rightarrow> Ok None
        | [l] \<Rightarrow> Ok (Some (lim_client_key l))
        | _ \<Rightarrow> Err (Database ''more than one row returned by a subquery'')))"

definition unblock_report_source :: "report_id \<Rightarrow> int \<Rightarrow> unit tx" where
  "unblock_report_source rid actor =
    bind_tx (get_tx (blocked_key rid)) (\<lambda>r.
    bind_tx (lift_tx r) (\<lambda>key.
    bind_tx (get_tx (\<lambda>db. (clock db, filter (\<lambda>l. key = Some (lim_client_key l) \<and>
      is_in_force (clock db) l) (source_limits db)))) (\<lambda>(now, hit).
    bind_tx (set_source_limits (map (\<lambda>l. if key = Some (lim_client_key l) \<and> is_in_force now l
      then l\<lparr> lim_lifted_by := Some actor \<rparr> else l))) (\<lambda>_.
    bind_tx (lift_tx (fail_if (length hit \<noteq> 1) (InvalidRequest ''Submission source is not blocked''))) (\<lambda>_.
    insert_audit_event (Some actor) SubmissionSourceUpdateState (Some rid)
      (DObject [(''from'', DText (lit ''blocked'')), (''to'', DText (lit ''allowed''))]))))))"

section \<open>Rejecting an issue\<close>

text \<open>The issues merged into an issue, directly or through others: the recursive query, cut off after
  as many rounds as there are rows.\<close>

fun merged_sources :: "nat \<Rightarrow> issue_row list \<Rightarrow> issue_id list \<Rightarrow> issue_id list" where
  "merged_sources 0 rows into = []"
| "merged_sources (Suc n) rows into =
    (let next_ids = map iss_id (filter (\<lambda>i. case iss_merged_into i of None \<Rightarrow> False
        | Some t \<Rightarrow> t \<in> set into) rows) in
     if next_ids = [] then [] else next_ids @ merged_sources n rows next_ids)"

definition reject_event :: "int \<Rightarrow> report_state \<Rightarrow> bool \<Rightarrow> issue_id \<Rightarrow> report_row \<Rightarrow> unit tx" where
  "reject_event actor target keep_link iid r =
    bind_tx (when_tx (\<not> keep_link) (insert_audit_event (Some actor) ReportUpdateIssue (Some (rpt_id r))
      (DObject [(''from'', DId iid), (''to'', DNull)]))) (\<lambda>_.
    when_tx (rpt_state r \<noteq> target) (insert_audit_event (Some actor) ReportUpdateState (Some (rpt_id r))
      (DObject [(''from'', DState (rpt_state r)), (''to'', DState target)])))"

definition reject_issue_reports :: "issue_id \<Rightarrow> int \<Rightarrow> bool \<Rightarrow> nat tx" where
  "reject_issue_reports iid actor keep_link =
    (let target = (if keep_link then report_state.Rejected else report_state.Triage) in
     bind_tx (get_tx (\<lambda>db. filter (\<lambda>r. rpt_issue r = Some iid) (reports db))) (\<lambda>previous.
     bind_tx (update_reports (\<lambda>r. rpt_issue r = Some iid)
       (\<lambda>r. r\<lparr> rpt_issue := if keep_link then rpt_issue r else None, rpt_state := target \<rparr>)) (\<lambda>_.
     bind_tx (for_tx (reject_event actor target keep_link iid) previous) (\<lambda>_.
     return_tx (length previous)))))"

definition reject_issue :: "issue_id \<Rightarrow> int \<Rightarrow> issue_report_action \<Rightarrow> nat tx" where
  "reject_issue iid actor report_action =
    bind_tx (get_tx (\<lambda>db. find (\<lambda>i. iss_id i = iid \<and> iss_state i \<noteq> issue_state.Rejected) (issues db))) (\<lambda>row.
    bind_tx (lift_tx (ok_or row (NotFound ''Issue not found''))) (\<lambda>issue.
    bind_tx (update_issues (\<lambda>i. iss_id i = iid \<and> iss_state i \<noteq> issue_state.Rejected)
      (\<lambda>i. i\<lparr> iss_state := issue_state.Rejected \<rparr>)) (\<lambda>_.
    bind_tx (get_tx (\<lambda>db. let sources = merged_sources (length (issues db)) (issues db) [iid] in
      (sources, length (filter (\<lambda>i. iss_id i \<in> set sources \<and> iss_state i \<noteq> issue_state.Rejected)
        (issues db))))) (\<lambda>(sources, n).
    bind_tx (update_issues (\<lambda>i. iss_id i \<in> set sources \<and> iss_state i \<noteq> issue_state.Rejected)
      (\<lambda>i. i\<lparr> iss_state := issue_state.Rejected \<rparr>)) (\<lambda>_.
    bind_tx (reject_issue_reports iid actor (report_action = issue_report_action.Reject)) (\<lambda>updated.
    bind_tx (insert_audit_event (Some actor) IssueUpdateState (Some iid)
      (DObject [(''from'', DIssueState (iss_state issue)), (''to'', DIssueState issue_state.Rejected),
        (''report_action'', DText (lit (issue_report_action_as_str report_action))),
        (''reports_updated'', DInt (int updated)), (''merged_sources_rejected'', DInt (int n))])) (\<lambda>_.
    return_tx updated)))))))"

section \<open>The operations are sound\<close>

lemma when_tx_event:
  "when_tx b (insert_audit_event actor action ent details) db =
    Ok ((), add_events (if b then [event actor action ent details] else []) db)"
  by (simp add: when_tx_def insert_audit_event_Ok return_tx_def)

definition reason_member :: "str option \<Rightarrow> (string \<times> detail) list" where
  "reason_member reason = (case reason of None \<Rightarrow> [] | Some r \<Rightarrow> [(''reason'', DText r)])"

abbreviation state_event ::
    "report_id \<Rightarrow> int \<Rightarrow> report_state \<Rightarrow> report_state \<Rightarrow> str option \<Rightarrow> audit_event" where
  "state_event rid actor old to reason \<equiv> event (Some actor) ReportUpdateState (Some rid)
    (DObject ((''from'', DState old) # (''to'', DState to) # reason_member reason))"

lemma audit_state_eq:
  "audit_report_state_change rid actor old to reason =
    insert_audit_event (Some actor) ReportUpdateState (Some rid)
      (DObject ((''from'', DState old) # (''to'', DState to) # reason_member reason))"
  by (simp add: audit_report_state_change_def reason_member_def)

lemmas event_writes = insert_audit_event_Ok audit_state_eq when_tx_event

lemma filter_key_single:
  "distinct (map f xs) \<Longrightarrow> x \<in> set xs \<Longrightarrow> filter (\<lambda>y. f y = f x) xs = [x]"
proof (induction xs)
  case (Cons a xs)
  show ?case
  proof (cases "a = x")
    case True
    with Cons.prems(1) have "\<forall>y \<in> set xs. f y \<noteq> f x" by (auto simp: image_iff)
    with True show ?thesis by (simp add: filter_False)
  next
    case False
    with Cons.prems have "x \<in> set xs" "f a \<noteq> f x" by (auto simp: image_iff)
    with Cons show ?thesis by simp
  qed
qed simp

text \<open>One row is written, and a block of events on it replays to what it becomes.\<close>

lemma row_update_sound:
  assumes ok: "db_ok db" and p: "p \<in> set (reports db)" and ready: "rpt_storage p = storage_state.Ready"
    and keep: "\<And>r. rpt_id (f r) = rpt_id r" "\<And>r. rpt_storage (f r) = rpt_storage r"
    and hit: "\<And>r. P r \<Longrightarrow> rpt_id r = rpt_id p" and at: "P p"
    and upd: "update_reports P f db = Ok (u, db1)"
    and ents: "\<forall>e \<in> set es. evt_entity e = Some (rpt_id p)"
    and view: "replay (rpt_id p) es (report_view p) = report_view (before_report_write (issues db) (f p))"
  shows "db_ok (add_events es db1) \<and> explains db (add_events es db1)"
proof
  have ids: "distinct (map rpt_id (reports db))" using ok by (simp add: db_ok_def tables_ok_def)
  have tab: "tables_ok db" using ok by (simp add: db_ok_def)
  have only: "P r \<Longrightarrow> r \<in> set (reports db) \<Longrightarrow> r = p" for r
    using report_row_unique [OF tab _ p] hit by blast
  have "P r = (rpt_id r = rpt_id p)" if "r \<in> set (reports db)" for r
    using hit at report_row_unique [OF tab that p] by blast
  then have "filter P (reports db) = filter (\<lambda>r. rpt_id r = rpt_id p) (reports db)"
    by (intro filter_cong) simp_all
  then have single: "filter P (reports db) = [p]" using filter_key_single [OF ids p] by simp
  show "db_ok (add_events es db1)"
    using update_reports_keeps [OF keep _ ok upd] only ready by (auto simp: keep)
  let ?es = "\<lambda>r. if rpt_id r = rpt_id p then es else []"
  have "explains db (add_events (concat (map ?es (filter P (reports db))))
      (db\<lparr> reports := written_rows P f db \<rparr>))"
  proof (rule update_with_events_explained [OF ids keep(1)])
    show "evt_entity e = Some (rpt_id r)" if "e \<in> set (?es r)" for r e
      using that ents by (auto split: if_splits)
    show "replay (rpt_id r) (?es r) (report_view r) = report_view (before_report_write (issues db) (f r))"
      if "r \<in> set (reports db)" "P r" for r
      using only [OF that(2,1)] view by simp
  qed
  with single upd show "explains db (add_events es db1)" by (simp add: update_reports_Ok)
qed

lemma linked_state_written:
  assumes "issue_state_of rows iid = Some s" and "rpt_issue r = Some iid" and "rpt_state r = linked_state s"
  shows "rpt_state (before_report_write rows r) = linked_state s"
  using assms by (auto simp: before_report_write_state follow_issue_state_on_report_def linked_state_def)

lemma link_report_sound: "tx_respects sound (link_report rid iid actor)"
proof
  fix db u db'
  assume run: "link_report rid iid actor db = Ok (u, db')"
  from run obtain p where p: "ready_report rid db = Some p"
    by (auto simp: link_report_def result_simps)
  from run p obtain s where s: "issue_state_of (issues db) iid = Some s"
    by (auto simp: link_report_def tx_run bind_res_eq_Ok ok_or_eq_Ok)
  let ?f = "\<lambda>r. r\<lparr> rpt_issue := Some iid, rpt_state := linked_state s \<rparr>"
  let ?es = "(if rpt_issue p \<noteq> Some iid then [event (Some actor) ReportUpdateIssue (Some rid)
      (DObject [(''from'', DIdOpt (rpt_issue p)), (''to'', DId iid)])] else []) @
    (if rpt_state p \<noteq> linked_state s then [state_event rid actor (rpt_state p) (linked_state s) None] else [])"
  note pin = ready_report_in [OF p]
  show "sound db db'" unfolding sound_def
  proof
    assume ok: "db_ok db"
    show "db_ok db' \<and> explains db db'"
    proof (cases "rpt_issue p = Some iid \<and> rpt_state p = linked_state s")
      case True
      with run p s have "db' = db" by (simp add: link_report_def tx_run Let_def)
      with ok show ?thesis by (simp add: explains_refl)
    next
      case False
      with run p s obtain db1 where upd: "update_reports (\<lambda>r. rpt_id r = rid) ?f db = Ok ((), db1)"
        and db': "db' = add_events ?es db1"
        unfolding link_report_def
        by (auto simp: tx_run Let_def bind_res_eq_Ok fail_if_eq_Ok event_writes split: if_splits)
      have "rpt_state (before_report_write (issues db) (?f p)) = linked_state s"
        by (rule linked_state_written [OF s]) simp_all
      then have "replay (rpt_id p) ?es (report_view p) = report_view (before_report_write (issues db) (?f p))"
        using pin by (auto simp: report_view_def)
      moreover have "\<forall>e \<in> set ?es. evt_entity e = Some (rpt_id p)" using pin by auto
      ultimately show ?thesis
        unfolding db' using pin by (intro row_update_sound [OF ok _ _ _ _ _ _ upd]) auto
    qed
  qed
qed

lemma link_reports_sound: "tx_respects sound (link_reports ids iid actor)"
  unfolding link_reports_def Let_def
  by (intro sound.bind_respects sound.get_respects sound.lift_respects sound.for_respects link_report_sound)

lemma assign_reports_sound: "tx_respects sound (assign_reports_to_issue ids iid actor)"
  unfolding assign_reports_to_issue_def
  by (intro sound.bind_respects sound.get_respects sound.lift_respects link_reports_sound)

text \<open>The same, with the update known to pass the constraints.\<close>

definition one_row :: "report_row \<Rightarrow> (report_row \<Rightarrow> report_row) \<Rightarrow> db \<Rightarrow> db" where
  "one_row p f db = db\<lparr> reports := map (\<lambda>r. if rpt_id r = rpt_id p
    then before_report_write (issues db) (f r) else r) (reports db) \<rparr>"

lemma one_row_simps [simp]:
  "issues (one_row p f db) = issues db"
  "aliases (one_row p f db) = aliases db"
  "source_limits (one_row p f db) = source_limits db"
  "events (one_row p f db) = events db"
  by (simp_all add: one_row_def)

lemma one_row_update:
  assumes ok: "db_ok db" and p: "p \<in> set (reports db)"
    and hit: "\<And>r. P r \<Longrightarrow> rpt_id r = rpt_id p" and at: "P p"
    and fits: "report_row_ok (issues db) (before_report_write (issues db) (f p))"
  shows "update_reports P f db = Ok ((), one_row p f db)"
proof -
  have tab: "tables_ok db" using ok by (simp add: db_ok_def)
  have iff: "P r = (rpt_id r = rpt_id p)" if "r \<in> set (reports db)" for r
    using hit at report_row_unique [OF tab that p] by blast
  have "written_rows P f db = reports (one_row p f db)"
    using iff by (simp add: written_rows_def one_row_def)
  moreover have "report_row_ok (issues db) (before_report_write (issues db) (f r))"
    if "r \<in> set (reports db)" "P r" for r
    using report_row_unique [OF tab that(1) p] iff that fits by simp
  ultimately show ?thesis by (simp add: update_reports_Ok one_row_def)
qed

text \<open>What every step of a loop over rows does: it writes its row, adds events that explain it, and
  leaves the issues alone.\<close>

definition row_step :: "report_row \<Rightarrow> (report_row \<Rightarrow> report_row) \<Rightarrow> db \<Rightarrow> db \<Rightarrow> bool" where
  "row_step p g db db' \<longleftrightarrow> db_ok db' \<and> explains db db' \<and> issues db' = issues db \<and>
    reports db' = map (\<lambda>r. if rpt_id r = rpt_id p then g r else r) (reports db)"

lemma row_step_one_row:
  assumes "db_ok db" and "p \<in> set (reports db)" and "rpt_storage p = storage_state.Ready"
    and "\<And>r. rpt_id (f r) = rpt_id r" "\<And>r. rpt_storage (f r) = rpt_storage r"
    and "report_row_ok (issues db) (before_report_write (issues db) (f p))"
    and "\<forall>e \<in> set es. evt_entity e = Some (rpt_id p)"
    and "replay (rpt_id p) es (report_view p) = report_view (before_report_write (issues db) (f p))"
    and "before_report_write (issues db) (f p) = g p"
  shows "row_step p g db (add_events es (one_row p f db))"
proof -
  have upd: "update_reports (\<lambda>r. rpt_id r = rpt_id p) f db = Ok ((), one_row p f db)"
    by (rule one_row_update [OF assms(1,2)]) (use assms(6) in auto)
  have tab: "tables_ok db" using assms(1) by (simp add: db_ok_def)
  have "reports (one_row p f db) = map (\<lambda>r. if rpt_id r = rpt_id p then g r else r) (reports db)"
    using report_row_unique [OF tab _ assms(2)] assms(9) by (auto simp: one_row_def)
  with row_update_sound [OF assms(1-5) _ _ upd assms(7,8)] show ?thesis by (simp add: row_step_def)
qed

lemma for_rows:
  assumes step: "\<And>x db. db_ok db \<Longrightarrow> key x \<in> set (reports db) \<Longrightarrow> Q (issues db) x \<Longrightarrow>
      \<exists>db'. f x db = Ok ((), db') \<and> row_step (key x) (new (issues db) x) db db'"
    and keep: "\<And>rows x r. rpt_id (new rows x r) = rpt_id r"
    and "distinct (map (rpt_id \<circ> key) xs)" and "db_ok db"
    and "\<And>x. x \<in> set xs \<Longrightarrow> key x \<in> set (reports db) \<and> Q (issues db) x"
  shows "\<exists>db'. for_tx f xs db = Ok ((), db') \<and> db_ok db' \<and> explains db db' \<and> issues db' = issues db \<and>
    reports db' = map (\<lambda>r. case find (\<lambda>x. rpt_id (key x) = rpt_id r) xs of
      None \<Rightarrow> r | Some x \<Rightarrow> new (issues db) x r) (reports db)"
  using assms(3-)
proof (induction xs arbitrary: db)
  case Nil
  then show ?case by (simp add: return_tx_def explains_refl)
next
  case (Cons x xs)
  from step [OF Cons.prems(2)] Cons.prems(3) [of x] obtain db1 where
    db1: "f x db = Ok ((), db1)" "row_step (key x) (new (issues db) x) db db1"
    by auto
  have others: "key y \<in> set (reports db1)" if "y \<in> set xs" for y
  proof -
    have "rpt_id (key y) \<noteq> rpt_id (key x)"
      using imageI [OF that, of "rpt_id \<circ> key"] Cons.prems(1) by auto
    then show ?thesis
      using Cons.prems(3) [of y] that db1(2) by (auto simp: row_step_def image_iff intro!: bexI)
  qed
  have d: "distinct (map (rpt_id \<circ> key) xs)" using Cons.prems(1) by (simp only: list.map distinct.simps)
  have ok1: "db_ok db1" and iss1: "issues db1 = issues db" and ex1: "explains db db1"
    using db1(2) by (simp_all add: row_step_def)
  have "key y \<in> set (reports db1) \<and> Q (issues db1) y" if "y \<in> set xs" for y
    using others [OF that] iss1 Cons.prems(3) [of y] that by simp
  from Cons.IH [OF d ok1 this] obtain db2 where
    db2: "for_tx f xs db1 = Ok ((), db2)" "db_ok db2" "explains db1 db2" "issues db2 = issues db1"
      "reports db2 = map (\<lambda>r. case find (\<lambda>x. rpt_id (key x) = rpt_id r) xs of
        None \<Rightarrow> r | Some x \<Rightarrow> new (issues db1) x r) (reports db1)"
    by blast
  have not_later: "find (\<lambda>y. rpt_id (key y) = rpt_id (key x)) xs = None"
    using Cons.prems(1) by (auto simp: find_None_iff image_iff)
  have "reports db2 = map (\<lambda>r. case find (\<lambda>x. rpt_id (key x) = rpt_id r) (x # xs) of
      None \<Rightarrow> r | Some x \<Rightarrow> new (issues db) x r) (reports db)"
    using db2(5) [unfolded iss1] db1(2) keep not_later by (auto simp: row_step_def)
  moreover have "for_tx f (x # xs) db = Ok ((), db2)" using db1(1) db2(1) by (simp add: bind_tx_def)
  moreover have "explains db db2" using ex1 db2(3) by (rule explains_trans)
  ultimately show ?case using db2(2,4) iss1 by (intro exI [of _ db2]) simp
qed

section \<open>State actions on several reports\<close>

text \<open>What an action makes of a report it may be applied to.\<close>

definition with_state :: "report_state \<Rightarrow> report_row \<Rightarrow> report_row" where
  "with_state s r = drop_fix_of_unresolved_report (r\<lparr> rpt_state := s \<rparr>)"

definition triaged :: "report_row \<Rightarrow> report_row" where
  "triaged r = drop_fix_of_unresolved_report (r\<lparr> rpt_issue := None, rpt_state := report_state.Triage \<rparr>)"

definition changed_row :: "change \<Rightarrow> report_row \<Rightarrow> report_row" where
  "changed_row c r = (case c of ToState s \<Rightarrow> with_state s r | ToUnlinked _ \<Rightarrow> triaged r)"

definition change_fits :: "issue_row list \<Rightarrow> report_row \<times> change \<Rightarrow> bool" where
  "change_fits rows = (\<lambda>(r, c). rpt_storage r = storage_state.Ready \<and>
    (case c of
      ToState s \<Rightarrow> s \<noteq> rpt_state r \<and> follows (issue_state_of rows) (r\<lparr> rpt_state := s \<rparr>) \<and>
        (rpt_issue r \<noteq> None \<longrightarrow> s \<noteq> report_state.Triage)
    | ToUnlinked iid \<Rightarrow> rpt_issue r = Some iid))"

lemma changed_row_simps [simp]:
  "rpt_id (changed_row c r) = rpt_id r"
  "rpt_storage (changed_row c r) = rpt_storage r"
  "rpt_source (changed_row c r) = rpt_source r"
  by (auto simp: changed_row_def with_state_def triaged_def drop_fix_of_unresolved_report_def
      split: change.split)

lemma changed_row_eq:
  "changed_row (ToState s) = with_state s"
  "changed_row (ToUnlinked iid) = triaged"
  by (simp_all add: changed_row_def fun_eq_iff)

lemma before_write_followed:
  "follows (issue_state_of rows) r \<Longrightarrow> before_report_write rows r = drop_fix_of_unresolved_report r"
  by (simp add: before_report_write_def follow_on_report_id)

lemma report_view_drop_fix [simp]:
  "report_view (drop_fix_of_unresolved_report r) = report_view r"
  by (simp add: report_view_def drop_fix_of_unresolved_report_def)

lemma unlink_report_step:
  assumes ok: "db_ok db" and p: "p \<in> set (reports db)" and ready: "rpt_storage p = storage_state.Ready"
    and linked: "rpt_issue p = Some iid"
  shows "\<exists>db'. unlink_report (rpt_id p) iid (rpt_state p) actor db = Ok ((), db') \<and>
    row_step p triaged db db'"
proof -
  let ?f = "\<lambda>r. r\<lparr> rpt_issue := None, rpt_state := report_state.Triage \<rparr>"
  let ?es = "event (Some actor) ReportUpdateIssue (Some (rpt_id p))
      (DObject [(''from'', DId iid), (''to'', DNull)]) #
    (if rpt_state p \<noteq> report_state.Triage
     then [state_event (rpt_id p) actor (rpt_state p) report_state.Triage None] else [])"
  have fol: "follows (issue_state_of (issues db)) (?f p)" by (simp add: follows_def)
  have written: "before_report_write (issues db) (?f p) = triaged p"
    unfolding before_write_followed [OF fol] triaged_def ..
  have fits: "report_row_ok (issues db) (before_report_write (issues db) (?f p))"
    by (simp add: before_report_write_ok)
  have upd: "update_reports (\<lambda>r. rpt_id r = rpt_id p \<and> rpt_issue r = Some iid \<and>
      rpt_storage r = storage_state.Ready) ?f db = Ok ((), one_row p ?f db)"
    by (rule one_row_update [OF ok p]) (use linked ready fits in auto)
  have "row_step p triaged db (add_events ?es (one_row p ?f db))"
  proof (rule row_step_one_row [OF ok p ready])
    show "report_row_ok (issues db) (before_report_write (issues db) (?f p))" by (rule fits)
    show "replay (rpt_id p) ?es (report_view p) = report_view (before_report_write (issues db) (?f p))"
      unfolding written triaged_def report_view_drop_fix by (auto simp: report_view_def)
  qed (auto simp: written)
  moreover have "unlink_report (rpt_id p) iid (rpt_state p) actor db =
      Ok ((), add_events ?es (one_row p ?f db))"
    by (simp add: unlink_report_def tx_run upd event_writes)
  ultimately show ?thesis by blast
qed

lemma set_state_step:
  assumes ok: "db_ok db" and p: "p \<in> set (reports db)"
    and fits: "change_fits (issues db) (p, ToState s)"
  shows "\<exists>db'. bind_tx (update_reports (\<lambda>r. rpt_id r = rpt_id p) (\<lambda>r. r\<lparr> rpt_state := s \<rparr>))
      (\<lambda>_. audit_report_state_change (rpt_id p) actor (rpt_state p) s reason) db = Ok ((), db') \<and>
    row_step p (with_state s) db db'"
proof -
  let ?f = "\<lambda>r. r\<lparr> rpt_state := s \<rparr>"
  let ?es = "[state_event (rpt_id p) actor (rpt_state p) s reason]"
  have f: "rpt_storage p = storage_state.Ready" "follows (issue_state_of (issues db)) (?f p)"
    "rpt_issue p \<noteq> None \<longrightarrow> s \<noteq> report_state.Triage"
    using fits by (simp_all add: change_fits_def)
  have written: "before_report_write (issues db) (?f p) = with_state s p"
    unfolding before_write_followed [OF f(2)] with_state_def ..
  have "case rpt_issue p of None \<Rightarrow> True | Some iid \<Rightarrow> find_issue iid (issues db) \<noteq> None"
    using db_ok_row(1) [OF ok p] by (simp add: report_row_ok_def)
  then have row: "report_row_ok (issues db) (before_report_write (issues db) (?f p))"
    using f(3) by (auto simp: before_report_write_ok split: option.splits)
  have upd: "update_reports (\<lambda>r. rpt_id r = rpt_id p) ?f db = Ok ((), one_row p ?f db)"
    by (rule one_row_update [OF ok p]) (use row in auto)
  have "row_step p (with_state s) db (add_events ?es (one_row p ?f db))"
  proof (rule row_step_one_row [OF ok p f(1)])
    show "report_row_ok (issues db) (before_report_write (issues db) (?f p))" by (rule row)
    show "replay (rpt_id p) ?es (report_view p) = report_view (before_report_write (issues db) (?f p))"
      unfolding written with_state_def report_view_drop_fix by (auto simp: report_view_def)
  qed (auto simp: written)
  then show ?thesis by (simp add: tx_run upd event_writes)
qed

lemma apply_change_step:
  assumes "db_ok db" and "fst x \<in> set (reports db)" and "change_fits (issues db) x"
  shows "\<exists>db'. apply_change actor reason x db = Ok ((), db') \<and>
    row_step (fst x) (changed_row (snd x)) db db'"
proof (cases x)
  case (Pair r c)
  show ?thesis
  proof (cases c)
    case (ToState s)
    with Pair assms show ?thesis
      using set_state_step [of db r s actor reason] by (simp add: apply_change_def changed_row_eq)
  next
    case (ToUnlinked iid)
    with Pair assms show ?thesis
      using unlink_report_step [of db r iid actor]
      by (simp add: apply_change_def changed_row_eq change_fits_def)
  qed
qed

section \<open>Selections\<close>

lemma distinct_remdups_adj_sorted: "sorted xs \<Longrightarrow> distinct (remdups_adj xs)"
  by (induction xs rule: remdups_adj.induct) auto

lemma in_lock_order_props:
  "set (in_lock_order ids) = set ids" "distinct (in_lock_order ids)" "sorted (in_lock_order ids)"
  by (simp_all add: in_lock_order_def distinct_remdups_adj_sorted sorted_remdups_adj)

lemma select_reports_set:
  "set (select_reports ids db) =
    {r \<in> set (reports db). rpt_id r \<in> set ids \<and> rpt_storage r = storage_state.Ready}"
  by (auto simp: select_reports_def)

lemma select_reports_distinct:
  assumes "tables_ok db"
  shows "distinct (map rpt_id (select_reports ids db))"
proof -
  let ?rows = "filter (\<lambda>r. rpt_id r \<in> set ids \<and> rpt_storage r = storage_state.Ready) (reports db)"
  have "distinct (map rpt_id ?rows)" using assms by (simp add: tables_ok_def distinct_map_filter)
  then have d: "distinct ?rows" "inj_on rpt_id (set ?rows)" by (simp_all only: distinct_map)
  then show ?thesis by (simp add: select_reports_def distinct_map)
qed

lemma ready_report_iff:
  assumes "tables_ok db"
  shows "ready_report rid db = Some r \<longleftrightarrow>
    r \<in> set (reports db) \<and> rpt_id r = rid \<and> rpt_storage r = storage_state.Ready"
proof
  assume r: "r \<in> set (reports db) \<and> rpt_id r = rid \<and> rpt_storage r = storage_state.Ready"
  then have "ready_report rid db \<noteq> None" by (auto simp: ready_report_def find_None_iff)
  then obtain s where s: "ready_report rid db = Some s" by blast
  from ready_report_in [OF s] r have "s = r" by (intro report_row_unique [OF assms]) simp_all
  with s show "ready_report rid db = Some r" by simp
qed (rule ready_report_in)

text \<open>The count of the selected rows tells whether one of the reports is missing.\<close>

lemma select_reports_complete:
  assumes tab: "tables_ok db" and "distinct ids"
  shows "length (select_reports ids db) = length ids \<longleftrightarrow> (\<forall>rid \<in> set ids. ready_report rid db \<noteq> None)"
proof -
  let ?S = "rpt_id ` set (select_reports ids db)"
  have "length (select_reports ids db) = card ?S"
    using select_reports_distinct [OF tab] by (metis distinct_card image_set length_map)
  moreover have "length ids = card (set ids)" using assms(2) by (simp add: distinct_card)
  moreover have sub: "?S \<subseteq> set ids" by (auto simp: select_reports_set)
  moreover have "card ?S = card (set ids) \<longleftrightarrow> ?S = set ids"
    using sub by (metis List.finite_set card_subset_eq)
  moreover have "?S = set ids \<longleftrightarrow> (\<forall>rid \<in> set ids. rid \<in> ?S)" using sub by blast
  moreover have "rid \<in> ?S \<longleftrightarrow> ready_report rid db \<noteq> None" if "rid \<in> set ids" for rid
    using that ready_report_iff [OF tab, of rid] by (auto simp: select_reports_set image_iff)
  ultimately show ?thesis by auto
qed

lemma collect_Ok:
  "collect f xs = Ok ys \<Longrightarrow>
    (\<forall>x \<in> set xs. \<exists>c. f x = Ok c) \<and> ys = List.map_filter (\<lambda>x. case f x of Inl _ \<Rightarrow> None | Inr c \<Rightarrow> c) xs"
  by (induction xs arbitrary: ys)
    (auto simp: bind_res_eq_Ok List.map_filter_simps split: option.splits)

lemma collect_Err: "collect f xs = Err e \<Longrightarrow> \<exists>x \<in> set xs. f x = Err e"
  by (induction xs) (auto simp: bind_res_eq_Err bind_res_eq_Ok)

lemma set_map_filter_eq: "set (List.map_filter g xs) = {y. \<exists>x \<in> set xs. g x = Some y}"
  by (induction xs) (auto simp: List.map_filter_simps split: option.splits)

lemma map_filter_keyed:
  assumes "\<And>x y. x \<in> set xs \<Longrightarrow> g x = Some y \<Longrightarrow> fst y = x" and "distinct (map k xs)"
  shows "distinct (map (k \<circ> fst) (List.map_filter g xs))"
    and "find (\<lambda>y. k (fst y) = key) (List.map_filter g xs) =
      Option.bind (find (\<lambda>x. k x = key) xs) g"
proof -
  have sub: "(k \<circ> fst) ` set (List.map_filter g zs) \<subseteq> k ` set zs"
    if "\<And>x y. x \<in> set zs \<Longrightarrow> g x = Some y \<Longrightarrow> fst y = x" for zs
    using that by (fastforce simp: set_map_filter_eq)
  show "distinct (map (k \<circ> fst) (List.map_filter g xs))"
    using assms
  proof (induction xs)
    case (Cons x xs)
    have IH: "distinct (map (k \<circ> fst) (List.map_filter g xs))"
      by (rule Cons.IH) (use Cons.prems in auto)
    have "(k \<circ> fst) ` set (List.map_filter g xs) \<subseteq> k ` set xs"
      by (rule sub) (use Cons.prems(1) in auto)
    then have "k x \<notin> (k \<circ> fst) ` set (List.map_filter g xs)" using Cons.prems(2) by auto
    with IH Cons.prems(1) [of x] show ?case
      by (auto simp: List.map_filter_simps comp_def split: option.split)
  qed (simp add: List.map_filter_simps)
  show "find (\<lambda>y. k (fst y) = key) (List.map_filter g xs) = Option.bind (find (\<lambda>x. k x = key) xs) g"
    using assms
  proof (induction xs)
    case (Cons x xs)
    have IH: "find (\<lambda>y. k (fst y) = key) (List.map_filter g xs) =
      Option.bind (find (\<lambda>x. k x = key) xs) g"
      by (rule Cons.IH) (use Cons.prems in auto)
    show ?case
    proof (cases "g x")
      case None
      have "find (\<lambda>x. k x = key) xs = None" if "k x = key"
        using that Cons.prems(2) by (auto simp: find_None_iff image_iff)
      with None IH show ?thesis by (auto simp: List.map_filter_simps)
    next
      case (Some y)
      then have "fst y = x" using Cons.prems(1) by simp
      with Some IH show ?thesis by (auto simp: List.map_filter_simps)
    qed
  qed (simp add: List.map_filter_simps)
qed

lemma map_filter_cong: "(\<And>x. x \<in> set xs \<Longrightarrow> g x = h x) \<Longrightarrow> List.map_filter g xs = List.map_filter h xs"
  by (induction xs) (auto simp: List.map_filter_simps split: option.split)

lemma map_filter_pair:
  "map snd (List.map_filter (\<lambda>x. map_option (Pair x) (g x)) xs) = List.map_filter g xs"
  by (induction xs) (auto simp: List.map_filter_simps split: option.split)

lemma for_tx_map: "for_tx f (map h xs) db = for_tx (\<lambda>x. f (h x)) xs db"
  by (induction xs arbitrary: db) (auto simp: bind_tx_def intro!: arg_cong2 [where f = bind_res])

lemma selected_member:
  "tables_ok db \<Longrightarrow> rid \<in> set ids \<Longrightarrow> ready_report rid db = Some r \<Longrightarrow>
    r \<in> set (select_reports (in_lock_order ids) db)"
  using ready_report_in [of rid db r] by (simp add: select_reports_set in_lock_order_props)

lemma find_selected:
  assumes tab: "tables_ok db" and all: "\<forall>rid \<in> set ids. ready_report rid db \<noteq> None"
    and r: "r \<in> set (reports db)"
  shows "find (\<lambda>x. rpt_id x = rpt_id r) (select_reports (in_lock_order ids) db) =
    (if rpt_id r \<in> set ids then Some r else None)"
proof (cases "rpt_id r \<in> set ids")
  case True
  with all obtain s where s: "ready_report (rpt_id r) db = Some s" by auto
  from ready_report_in [OF s] r have "s = r" by (intro report_row_unique [OF tab]) simp_all
  with selected_member [OF tab True s] True show ?thesis
    by (simp add: find_distinct [OF select_reports_distinct [OF tab]])
next
  case False
  then show ?thesis by (auto simp: find_None_iff select_reports_set in_lock_order_props)
qed

text \<open>A loop over the selected rows that need a change: each needs a step for its own row, and together
  they make a pass over the table.\<close>

lemma for_selected:
  assumes ok: "db_ok db" and all: "\<forall>rid \<in> set ids. ready_report rid db \<noteq> None"
    and step: "\<And>r b d. db_ok d \<Longrightarrow> r \<in> set (reports d) \<Longrightarrow> Q (issues d) r b \<Longrightarrow>
      \<exists>d'. f (r, b) d = Ok ((), d') \<and> row_step r (new b) d d'"
    and keep: "\<And>b r. rpt_id (new b r) = rpt_id r"
    and fits: "\<And>r b. r \<in> set (reports db) \<Longrightarrow> rpt_storage r = storage_state.Ready \<Longrightarrow> g r = Some b \<Longrightarrow>
      Q (issues db) r b"
  shows "\<exists>db'. for_tx f (List.map_filter (\<lambda>r. map_option (Pair r) (g r))
      (select_reports (in_lock_order ids) db)) db = Ok ((), db') \<and>
    db_ok db' \<and> explains db db' \<and> issues db' = issues db \<and>
    reports db' = map (\<lambda>r. if rpt_id r \<in> set ids then (case g r of None \<Rightarrow> r | Some b \<Rightarrow> new b r) else r)
      (reports db)"
proof -
  let ?rows = "select_reports (in_lock_order ids) db"
  let ?h = "\<lambda>r. map_option (Pair r) (g r)"
  let ?ps = "List.map_filter ?h ?rows"
  have tab: "tables_ok db" using ok by (simp add: db_ok_def)
  note keyed = map_filter_keyed [of ?rows ?h rpt_id, OF _ select_reports_distinct [OF tab]]
  have d: "distinct (map (rpt_id \<circ> fst) ?ps)" by (rule keyed(1)) auto
  have members: "fst x \<in> set (reports db) \<and> Q (issues db) (fst x) (snd x)" if "x \<in> set ?ps" for x
    using that fits by (auto simp: set_map_filter_eq select_reports_set)
  have "\<exists>d'. f x d = Ok ((), d') \<and> row_step (fst x) (new (snd x)) d d'"
    if "db_ok d" "fst x \<in> set (reports d)" "Q (issues d) (fst x) (snd x)" for x d
    using step [OF that] by simp
  from for_rows [where f = f and key = fst and Q = "\<lambda>rows x. Q rows (fst x) (snd x)"
      and new = "\<lambda>_ x. new (snd x)", OF this keep d ok members]
  obtain db' where db': "for_tx f ?ps db = Ok ((), db')" "db_ok db'" "explains db db'" "issues db' = issues db"
    and rows': "reports db' = map (\<lambda>r. case find (\<lambda>x. rpt_id (fst x) = rpt_id r) ?ps of
      None \<Rightarrow> r | Some x \<Rightarrow> new (snd x) r) (reports db)"
    by blast
  have "find (\<lambda>x. rpt_id (fst x) = rpt_id r) ?ps = (if rpt_id r \<in> set ids then ?h r else None)"
    if "r \<in> set (reports db)" for r
    using keyed(2) [of "rpt_id r"] find_selected [OF tab all that] by auto
  then have "reports db' = map (\<lambda>r. if rpt_id r \<in> set ids
      then (case g r of None \<Rightarrow> r | Some b \<Rightarrow> new b r) else r) (reports db)"
    unfolding rows' by (auto split: option.split)
  with db' show ?thesis by blast
qed

lemma plan_change_fits:
  assumes ok: "db_ok db" and r: "r \<in> set (reports db)" "rpt_storage r = storage_state.Ready"
    and plan: "plan_change action (issues db) r = Ok (Some x)"
  shows "fst x = r \<and> change_fits (issues db) x"
proof -
  have fol: "follows (issue_state_of (issues db)) r" and row: "report_row_ok (issues db) r"
    using db_ok_row [OF ok r(1)] by simp_all
  show ?thesis
    using plan fol row r(2)
    by (cases action; cases "rpt_state r"; cases "rpt_issue r")
      (auto simp: plan_change_def change_fits_def follows_def report_row_ok_def split: if_splits)
qed

text \<open>What the action makes of a selected report.\<close>

definition action_row :: "report_state_action \<Rightarrow> issue_row list \<Rightarrow> report_row \<Rightarrow> report_row" where
  "action_row action rows r =
    (case plan_change action rows r of Inr (Some x) \<Rightarrow> changed_row (snd x) r | _ \<Rightarrow> r)"

definition action_db ::
    "report_id list \<Rightarrow> report_state_action \<Rightarrow> db \<Rightarrow> db \<Rightarrow> bool" where
  "action_db ids action db db' \<longleftrightarrow> db_ok db' \<and> explains db db' \<and> issues db' = issues db \<and>
    reports db' = map (\<lambda>r. if rpt_id r \<in> set ids then action_row action (issues db) r else r) (reports db)"

lemma apply_action_cases:
  assumes ok: "db_ok db"
  shows "case apply_report_state_action ids action actor reason db of
      Inl e \<Rightarrow> (\<exists>rid \<in> set ids. ready_report rid db = None) \<and> e = NotFound ''Report not found'' \<or>
        (\<exists>rid \<in> set ids. \<exists>r. ready_report rid db = Some r \<and> plan_change action (issues db) r = Err e)
    | Inr (n, db') \<Rightarrow> (\<forall>rid \<in> set ids. \<exists>r c. ready_report rid db = Some r \<and>
        plan_change action (issues db) r = Ok c) \<and> action_db ids action db db'"
proof -
  let ?ids = "in_lock_order ids"
  let ?rows = "select_reports ?ids db"
  let ?plan = "plan_change action (issues db)"
  let ?g = "\<lambda>x. case ?plan x of Inl _ \<Rightarrow> None | Inr c \<Rightarrow> c"
  have tab: "tables_ok db" using ok by (simp add: db_ok_def)
  note complete = select_reports_complete [OF tab in_lock_order_props(2), of ids]
  show ?thesis
  proof (cases "length ?rows = length ?ids")
    case False
    then have "\<exists>rid \<in> set ids. ready_report rid db = None"
      using complete by (auto simp: in_lock_order_props)
    with False show ?thesis
      by (simp add: apply_report_state_action_def Let_def tx_run)
  next
    case True
    then have all: "\<forall>rid \<in> set ids. ready_report rid db \<noteq> None"
      using complete by (auto simp: in_lock_order_props)
    show ?thesis
    proof (cases "collect ?plan ?rows")
      case (Inl e)
      then obtain r where "r \<in> set ?rows" "?plan r = Err e" using collect_Err by blast
      then have "\<exists>rid \<in> set ids. \<exists>r. ready_report rid db = Some r \<and> ?plan r = Err e"
        using ready_report_iff [OF tab] by (auto simp: select_reports_set in_lock_order_props)
      with True Inl show ?thesis
        by (simp add: apply_report_state_action_def Let_def tx_run)
    next
      case (Inr changes)
      have ch: "changes = List.map_filter ?g ?rows" and okc: "\<forall>x \<in> set ?rows. \<exists>c. ?plan x = Ok c"
        using collect_Ok [OF Inr] by simp_all
      have fits: "fst x = r \<and> change_fits (issues db) x"
        if "r \<in> set (reports db)" "rpt_storage r = storage_state.Ready" "?g r = Some x" for r x
        using that plan_change_fits [OF ok that(1,2), of action x] by (auto split: sum.splits)
      let ?k = "\<lambda>r. map_option snd (?g r)"
      have changes: "changes = List.map_filter (\<lambda>r. map_option (Pair r) (?k r)) ?rows"
        unfolding ch using fits
        by (intro map_filter_cong) (force simp: select_reports_set option.map_comp comp_def
            intro: option.map_ident_strong [symmetric])
      have step: "\<exists>d'. apply_change actor reason (r, c) d = Ok ((), d') \<and> row_step r (changed_row c) d d'"
        if "db_ok d" "r \<in> set (reports d)" "change_fits (issues d) (r, c)" for r c d
        using apply_change_step [of d "(r, c)" actor reason] that by simp
      from for_selected [where f = "apply_change actor reason" and g = ?k and new = changed_row
          and Q = "\<lambda>rows r c. change_fits rows (r, c)", OF ok all step] obtain db' where
        run: "for_tx (apply_change actor reason) changes db = Ok ((), db')"
        and db': "db_ok db'" "explains db db'" "issues db' = issues db"
        and rows': "reports db' = map (\<lambda>r. if rpt_id r \<in> set ids
          then (case ?k r of None \<Rightarrow> r | Some c \<Rightarrow> changed_row c r) else r) (reports db)"
        unfolding changes using fits by force
      have "(case ?k r of None \<Rightarrow> r | Some c \<Rightarrow> changed_row c r) = action_row action (issues db) r" for r
        by (auto simp: action_row_def split: sum.split option.split)
      then have "action_db ids action db db'" using db' rows' by (simp add: action_db_def)
      moreover have "\<forall>rid \<in> set ids. \<exists>r c. ready_report rid db = Some r \<and> ?plan r = Ok c"
      proof
        fix rid assume rid: "rid \<in> set ids"
        with all obtain r where r: "ready_report rid db = Some r" by auto
        from selected_member [OF tab rid r] okc r show "\<exists>r c. ready_report rid db = Some r \<and> ?plan r = Ok c" by blast
      qed
      ultimately show ?thesis
        using True Inr run by (simp add: apply_report_state_action_def Let_def tx_run)
    qed
  qed
qed

definition action_goal :: "report_state_action \<Rightarrow> report_row \<Rightarrow> bool" where
  "action_goal action r =
    (case action of
      report_state_action.Reject \<Rightarrow> rpt_state r = report_state.Rejected
    | report_state_action.Confirm \<Rightarrow> rpt_state r = report_state.Confirmed \<or> rpt_state r = report_state.Resolved
    | report_state_action.ReturnToTriage \<Rightarrow> rpt_state r = report_state.Triage \<and> rpt_issue r = None)"

lemma action_row_goal:
  "plan_change action rows r = Ok c \<Longrightarrow> action_goal action (action_row action rows r)"
  by (cases action; cases "rpt_state r"; cases "rpt_issue r")
    (auto simp: plan_change_def action_row_def action_goal_def changed_row_def with_state_def triaged_def
      drop_fix_of_unresolved_report_def split: if_splits)

lemma action_row_simps [simp]:
  "rpt_id (action_row action rows r) = rpt_id r"
  "rpt_storage (action_row action rows r) = rpt_storage r"
  by (simp_all add: action_row_def split: sum.split option.split)

lemma filter_untouched:
  assumes "\<And>r. rpt_id (g r) = rpt_id r"
  shows "filter (\<lambda>r. rpt_id r \<notin> S) (map (\<lambda>r. if rpt_id r \<in> S then g r else r) rows) =
    filter (\<lambda>r. rpt_id r \<notin> S) rows"
  by (induction rows) (simp_all add: assms)

lemma db_ok_tables: "db_ok db \<Longrightarrow> tables_ok db"
  by (simp add: db_ok_def)

text \<open>Three reports and two issues: one in triage, one confirmed on an open issue, one rejected on a
  resolved one.\<close>

definition sample_issue :: "issue_id \<Rightarrow> int \<Rightarrow> issue_state \<Rightarrow> github_link_state \<Rightarrow> issue_row" where
  "sample_issue iid n s l = \<lparr> iss_id = iid, iss_title = lit ''Crash'', iss_description = [],
    iss_state = s, iss_resolved_at = None, iss_merged_into = None,
    iss_repository = lit ''LadybirdBrowser/ladybird'', iss_number = n, iss_github_id = Some n,
    iss_url = lit ''https://github.com/LadybirdBrowser/ladybird/issues/1'', iss_link = l,
    iss_github_updated_at = None, iss_reports_field = None, iss_reports_link = None \<rparr>"

definition sample_report :: "report_id \<Rightarrow> report_state \<Rightarrow> issue_id option \<Rightarrow> report_row" where
  "sample_report rid s i = \<lparr> rpt_id = rid, rpt_state = s, rpt_issue = i,
    rpt_storage = storage_state.Ready, rpt_source = Some (lit ''source''), rpt_fix = None \<rparr>"

definition sample_db :: db where
  "sample_db = \<lparr>
    reports = [sample_report 1 report_state.Triage None,
      sample_report 2 report_state.Confirmed (Some 11),
      sample_report 3 report_state.Rejected (Some 12)],
    issues = [sample_issue 11 1 issue_state.Unresolved github_link_state.Open,
      sample_issue 12 2 issue_state.Resolved github_link_state.Closed],
    aliases = [], duplicate_jobs = [], source_limits = [], events = [], clock = 0 \<rparr>"

lemmas db_eval = sample_db_def sample_issue_def sample_report_def tx_run Let_def find_issue_def
  issue_state_of_def ready_report_def report_of_def in_lock_order_def select_reports_def
  update_reports_def before_report_write_def follow_issue_state_on_report_def
  drop_fix_of_unresolved_report_def report_row_ok_def when_tx_def insert_audit_event_def
  audit_report_state_change_def

lemma sample_db_ok: "db_ok sample_db"
  by (simp add: db_eval db_ok_def tables_ok_def report_settled_def follows_def issue_row_ok_def
      issue_keys_ok_def is_active_def to_ascii_lowercase_def is_ascii_upper_def)

lemma sample_reject_runs:
  "\<exists>n db'. apply_report_state_action [2, 1] report_state_action.Reject 7 None sample_db = Ok (n, db')"
  by (simp add: apply_report_state_action_def plan_change_def apply_change_def db_eval)

text \<open>A bulk action on reports takes every selected report where the action leads: rejected ones are
  rejected, confirmed ones are confirmed or resolved as their issue calls for, and the ones sent back are
  in triage and on no issue. The database stays consistent, the audit log accounts for every change, and
  no other report and no issue is touched.\<close>

theorem bulk_action_goal:
  assumes "db_ok db" and "apply_report_state_action ids action actor reason db = Ok (n, db')"
  shows "(\<forall>rid \<in> set ids. \<exists>r. ready_report rid db' = Some r \<and> action_goal action r)
    \<and> db_ok db' \<and> explains db db' \<and> issues db' = issues db
    \<and> filter (\<lambda>r. rpt_id r \<notin> set ids) (reports db') = filter (\<lambda>r. rpt_id r \<notin> set ids) (reports db)"
proof -
  have each: "\<forall>rid \<in> set ids. \<exists>r c. ready_report rid db = Some r \<and> plan_change action (issues db) r = Ok c"
    and db': "action_db ids action db db'"
    using apply_action_cases [OF assms(1), of ids action actor reason] assms(2) by simp_all
  have "\<exists>r'. ready_report rid db' = Some r' \<and> action_goal action r'" if rid: "rid \<in> set ids" for rid
  proof -
    from each rid obtain r c where r: "ready_report rid db = Some r"
      and plan: "plan_change action (issues db) r = Ok c" by blast
    have "ready_report rid db' = Some (action_row action (issues db) r)"
      using db' ready_report_in [OF r] rid
      by (subst ready_report_iff) (auto simp: action_db_def db_ok_tables image_iff intro!: bexI [of _ r])
    with action_row_goal [OF plan] show ?thesis by blast
  qed
  moreover have "filter (\<lambda>r. rpt_id r \<notin> set ids) (reports db') = filter (\<lambda>r. rpt_id r \<notin> set ids) (reports db)"
    using db' by (simp add: action_db_def filter_untouched)
  ultimately show ?thesis using db' by (simp add: action_db_def)
qed

theorem bulk_action_goal_witness:
  "\<exists>n db'. apply_report_state_action [2, 1] report_state_action.Reject 7 None sample_db = Ok (n, db') \<and>
    (\<forall>rid \<in> {1, 2}. \<exists>r. ready_report rid db' = Some r \<and> rpt_state r = report_state.Rejected)"
proof -
  from sample_reject_runs obtain n db' where run:
    "apply_report_state_action [2, 1] report_state_action.Reject 7 None sample_db = Ok (n, db')" by blast
  from bulk_action_goal [OF sample_db_ok run] run show ?thesis
    by (intro exI [of _ n] exI [of _ db']) (simp add: action_goal_def)
qed



section \<open>The other operations\<close>

lemma check_move_target:
  "check_move old to i = Ok u \<Longrightarrow> old \<noteq> to \<Longrightarrow>
    to = report_state.Rejected \<or> (to = report_state.Triage \<and> i = None) \<or>
    (to = report_state.Confirmed \<and> i \<noteq> None \<and> old = report_state.Rejected)"
  by (cases old; cases to; cases i) (auto simp: check_move_def)

lemma settle_target_Ok:
  "settle_target t i db = Ok (s, db') \<Longrightarrow> db' = db \<and>
    (s = t \<and> (t = report_state.Confirmed \<and> i \<noteq> None \<longrightarrow>
        issue_state_of (issues db) (the i) \<noteq> Some issue_state.Resolved) \<or>
      s = report_state.Resolved \<and> t = report_state.Confirmed \<and> i \<noteq> None \<and>
        issue_state_of (issues db) (the i) = Some issue_state.Resolved)"
  by (auto simp: settle_target_def result_simps split: option.splits if_splits)

lemma row_step_sound: "row_step p g db db' \<Longrightarrow> sound db db'"
  by (simp add: row_step_def sound_def)

lemma set_report_state_sound: "tx_respects sound (set_report_state rid target actor reason)"
proof
  fix db u db'
  assume run: "set_report_state rid target actor reason db = Ok (u, db')"
  then obtain p where p: "ready_report rid db = Some p"
    by (auto simp: set_report_state_def result_simps)
  note pin = ready_report_in [OF p]
  show "sound db db'"
  proof (cases "rpt_state p = target")
    case True
    with run p show ?thesis by (simp add: set_report_state_def tx_run sound_def explains_refl)
  next
    case False
    with run p obtain s where move: "check_move (rpt_state p) target (rpt_issue p) = Ok ()"
      and s: "settle_target target (rpt_issue p) db = Ok (s, db)"
      and upd: "bind_tx (update_reports (\<lambda>r. rpt_id r = rid) (\<lambda>r. r\<lparr> rpt_state := s \<rparr>))
        (\<lambda>_. audit_report_state_change rid actor (rpt_state p) s reason) db = Ok ((), db')"
      by (fastforce simp: set_report_state_def tx_run bind_res_eq_Ok dest: settle_target_Ok)
    show ?thesis unfolding sound_def
    proof
      assume ok: "db_ok db"
      have "change_fits (issues db) (p, ToState s)"
        using check_move_target [OF move False] settle_target_Ok [OF s] pin False
        by (auto simp: change_fits_def follows_def split: option.splits)
      from set_state_step [OF ok _ this, of actor reason] pin upd
      show "db_ok db' \<and> explains db db'" by (auto simp: row_step_def)
    qed
  qed
qed

lemma unlink_report_from_issue_sound: "tx_respects sound (unlink_report_from_issue iid rid actor)"
proof
  fix db u db'
  assume run: "unlink_report_from_issue iid rid actor db = Ok (u, db')"
  then obtain p where p: "find (\<lambda>r. rpt_id r = rid \<and> rpt_issue r = Some iid \<and>
      rpt_storage r = storage_state.Ready) (reports db) = Some p"
    and unlink: "unlink_report rid iid (rpt_state p) actor db = Ok ((), db')"
    by (auto simp: unlink_report_from_issue_def result_simps)
  from find_Some_in [OF p] have pin: "p \<in> set (reports db)" "rpt_id p = rid" "rpt_issue p = Some iid"
    "rpt_storage p = storage_state.Ready" by auto
  show "sound db db'" unfolding sound_def
  proof
    assume "db_ok db"
    from unlink_report_step [OF this pin(1,4,3), of actor] unlink pin(2)
    show "db_ok db' \<and> explains db db'" by (auto simp: row_step_def)
  qed
qed

text \<open>An update of many rows with the events that belong to it, all in one statement.\<close>

lemma bulk_update_sound:
  assumes ok: "db_ok db" and keep: "\<And>r. rpt_id (f r) = rpt_id r" "\<And>r. rpt_storage (f r) = rpt_storage r"
    and ready: "\<And>r. r \<in> set (reports db) \<Longrightarrow> P r \<Longrightarrow> rpt_issue (f r) \<noteq> None \<Longrightarrow>
      rpt_storage r = storage_state.Ready"
    and upd: "update_reports P f db = Ok (u, db1)"
    and ents: "\<And>r e. e \<in> set (es r) \<Longrightarrow> evt_entity e = Some (rpt_id r)"
    and views: "\<And>r. r \<in> set (reports db) \<Longrightarrow> P r \<Longrightarrow>
      replay (rpt_id r) (es r) (report_view r) = report_view (before_report_write (issues db) (f r))"
  shows "db_ok (add_events (concat (map es (filter P (reports db)))) db1) \<and>
    explains db (add_events (concat (map es (filter P (reports db)))) db1)"
proof
  show "db_ok (add_events (concat (map es (filter P (reports db)))) db1)"
    using update_reports_keeps [OF keep ready ok upd] by simp
  have "distinct (map rpt_id (reports db))" using ok by (simp add: db_ok_def tables_ok_def)
  from update_with_events_explained [of db f es P, OF this keep(1) ents views] upd
  show "explains db (add_events (concat (map es (filter P (reports db)))) db1)"
    by (simp add: update_reports_Ok)
qed

definition reject_events :: "int \<Rightarrow> report_state \<Rightarrow> bool \<Rightarrow> issue_id \<Rightarrow> report_row \<Rightarrow> audit_event list" where
  "reject_events actor target keep_link iid r =
    (if keep_link then [] else [event (Some actor) ReportUpdateIssue (Some (rpt_id r))
      (DObject [(''from'', DId iid), (''to'', DNull)])]) @
    (if rpt_state r \<noteq> target then [event (Some actor) ReportUpdateState (Some (rpt_id r))
      (DObject [(''from'', DState (rpt_state r)), (''to'', DState target)])] else [])"

lemma reject_event_Ok:
  "reject_event actor target keep_link iid r db = Ok ((), add_events (reject_events actor target keep_link iid r) db)"
  by (simp add: reject_event_def reject_events_def tx_run event_writes)

lemma reject_issue_reports_sound: "tx_respects sound (reject_issue_reports iid actor keep_link)"
proof
  fix db u db'
  assume run: "reject_issue_reports iid actor keep_link db = Ok (u, db')"
  let ?t = "if keep_link then report_state.Rejected else report_state.Triage"
  let ?P = "\<lambda>r. rpt_issue r = Some iid"
  let ?f = "\<lambda>r. r\<lparr> rpt_issue := if keep_link then rpt_issue r else None, rpt_state := ?t \<rparr>"
  let ?es = "reject_events actor ?t keep_link iid"
  from run obtain db1 where upd: "update_reports ?P ?f db = Ok ((), db1)"
    and db': "db' = add_events (concat (map ?es (filter ?P (reports db)))) db1"
    by (auto simp: reject_issue_reports_def tx_run Let_def bind_res_eq_Ok
        for_tx_events [where es = ?es, OF reject_event_Ok])
  show "sound db db'" unfolding sound_def db'
  proof
    assume ok: "db_ok db"
    show "db_ok (add_events (concat (map ?es (filter ?P (reports db)))) db1) \<and>
      explains db (add_events (concat (map ?es (filter ?P (reports db)))) db1)"
    proof (rule bulk_update_sound [OF ok _ _ _ upd])
      show "replay (rpt_id r) (?es r) (report_view r) = report_view (before_report_write (issues db) (?f r))"
        if "?P r" for r
        using that by (auto simp: reject_events_def report_view_def before_report_write_state
            follow_issue_state_on_report_def)
      show "rpt_storage r = storage_state.Ready" if "r \<in> set (reports db)" "?P r" for r
        using db_ok_row(3) [OF ok that(1)] that(2) by simp
    qed (auto simp: reject_events_def split: if_splits)
  qed
qed

lemma reject_issue_sound: "tx_respects sound (reject_issue iid actor report_action)"
  unfolding reject_issue_def
  by (intro sound.bind_respects sound.get_respects sound.lift_respects sound.return_respects
      update_issues_sound reject_issue_reports_sound silent_event_sound)
    (auto simp: sound.bind_respects split: prod.split intro!: sound.bind_respects sound.return_respects
      update_issues_sound reject_issue_reports_sound silent_event_sound)

definition block_events :: "int \<Rightarrow> report_row \<Rightarrow> audit_event list" where
  "block_events actor r = [event (Some actor) ReportUpdateState (Some (rpt_id r))
    (DObject [(''from'', DState report_state.Triage), (''to'', DState report_state.Rejected),
      (''reason'', DText (lit ''source_blocked''))])]"

lemma reject_triage_of_source_sound: "tx_respects sound (reject_triage_of_source key actor)"
proof
  fix db u db'
  assume run: "reject_triage_of_source key actor db = Ok (u, db')"
  let ?f = "\<lambda>r. r\<lparr> rpt_state := report_state.Rejected \<rparr>"
  have ev: "block_event actor r d = Ok ((), add_events (block_events actor r) d)" for r d
    by (simp add: block_event_def block_events_def insert_audit_event_Ok)
  from run obtain db1 where upd: "update_reports (block_rejects key) ?f db = Ok ((), db1)"
    and db': "db' = add_events (concat (map (block_events actor) (filter (block_rejects key) (reports db)))) db1"
    by (auto simp: reject_triage_of_source_def tx_run bind_res_eq_Ok
        for_tx_events [where es = "block_events actor", OF ev])
  show "sound db db'" unfolding sound_def db'
  proof
    assume ok: "db_ok db"
    show "db_ok (add_events (concat (map (block_events actor) (filter (block_rejects key) (reports db)))) db1) \<and>
      explains db (add_events (concat (map (block_events actor) (filter (block_rejects key) (reports db)))) db1)"
    proof (rule bulk_update_sound [OF ok _ _ _ upd])
      show "replay (rpt_id r) (block_events actor r) (report_view r) =
          report_view (before_report_write (issues db) (?f r))"
        if "r \<in> set (reports db)" "block_rejects key r" for r
        by (simp add: block_events_def report_view_def before_report_write_state
            follow_issue_state_on_report_def split: option.split)
    qed (auto simp: block_events_def block_rejects_def)
  qed
qed

lemma set_source_limits_sound: "tx_respects sound (set_source_limits f)"
  by (auto simp: tx_respects_def set_source_limits_def sound_def explains_def db_ok_def tables_ok_def
      list.rel_refl)

lemma block_report_source_sound: "tx_respects sound (block_report_source rid actor remove)"
  unfolding block_report_source_def
  by (intro sound.bind_respects sound.get_respects sound.lift_respects sound.return_respects
      set_source_limits_sound silent_event_sound)
    (auto intro: reject_triage_of_source_sound sound.return_respects)

lemma unblock_report_source_sound: "tx_respects sound (unblock_report_source rid actor)"
  unfolding unblock_report_source_def
  by (intro sound.bind_respects sound.get_respects sound.lift_respects)
    (auto split: prod.split intro!: sound.bind_respects sound.lift_respects set_source_limits_sound
      silent_event_sound)

section \<open>Resolving with a fix\<close>

definition fixed_row :: "report_fix \<Rightarrow> report_row \<Rightarrow> report_row" where
  "fixed_row fx r = r\<lparr> rpt_state := report_state.Resolved, rpt_fix := Some fx \<rparr>"

lemma apply_fix_step:
  assumes ok: "db_ok db" and p: "p \<in> set (reports db)"
    and ready: "rpt_storage p = storage_state.Ready" and free: "rpt_issue p = None"
  shows "\<exists>db'. apply_fix fx actor (rpt_id p, rpt_state p) db = Ok ((), db') \<and> row_step p (fixed_row fx) db db'"
proof -
  let ?f = "\<lambda>r. r\<lparr> rpt_state := report_state.Resolved, rpt_fix := Some fx \<rparr>"
  let ?es = "[event (Some actor) ReportUpdateState (Some (rpt_id p))
    (DObject [(''from'', DState (rpt_state p)), (''to'', DState report_state.Resolved),
      (''fix'', DObject [(''kind'', DText (lit (report_fix_kind_as_str (fix_kind fx)))),
        (''reference'', DText (fix_reference fx)), (''url'', DText (fix_url fx))])])]"
  have fol: "follows (issue_state_of (issues db)) (?f p)" using free by (simp add: follows_def)
  have written: "before_report_write (issues db) (?f p) = fixed_row fx p"
    using free by (simp add: before_write_followed [OF fol] drop_fix_of_unresolved_report_def fixed_row_def)
  have row: "report_row_ok (issues db) (before_report_write (issues db) (?f p))"
    using free by (simp add: before_report_write_ok)
  have upd: "update_reports (\<lambda>r. rpt_id r = rpt_id p) ?f db = Ok ((), one_row p ?f db)"
    by (rule one_row_update [OF ok p]) (use row in auto)
  have "row_step p (fixed_row fx) db (add_events ?es (one_row p ?f db))"
  proof (rule row_step_one_row [OF ok p ready])
    show "report_row_ok (issues db) (before_report_write (issues db) (?f p))" by (rule row)
    show "replay (rpt_id p) ?es (report_view p) = report_view (before_report_write (issues db) (?f p))"
      unfolding written by (simp add: fixed_row_def report_view_def)
  qed (auto simp: written)
  then show ?thesis by (simp add: apply_fix_def tx_run upd event_writes)
qed

lemma fix_change_Ok:
  "fix_change fx r = Ok c \<Longrightarrow> rpt_issue r = None \<and> rpt_state r \<noteq> report_state.Rejected \<and>
    (c = Some (rpt_id r, rpt_state r) \<or> c = None \<and> rpt_state r = report_state.Resolved \<and>
      (\<exists>g. rpt_fix r = Some g \<and> fix_kind g = fix_kind fx \<and> fix_reference g = fix_reference fx))"
  by (cases "rpt_state r"; cases "rpt_fix r") (auto simp: fix_change_def result_simps split: if_splits)

lemma fix_change_Err: "fix_change fx r = Err e \<Longrightarrow> status e = 400"
  by (cases "rpt_state r") (auto simp: fix_change_def result_simps split: if_splits)

lemma resolve_reports_with_fix_cases:
  assumes ok: "db_ok db"
  shows "case resolve_reports_with_fix ids fx actor db of
      Inl e \<Rightarrow> status e \<in> {400, 404}
    | Inr (n, db') \<Rightarrow> db_ok db' \<and> explains db db' \<and> issues db' = issues db \<and>
        (\<forall>rid \<in> set ids. \<exists>r c. ready_report rid db = Some r \<and> fix_change fx r = Ok c) \<and>
        reports db' = map (\<lambda>r. if rpt_id r \<in> set ids \<and> fix_change fx r \<noteq> Ok None
          then fixed_row fx r else r) (reports db)"
proof -
  let ?ids = "in_lock_order ids"
  let ?rows = "select_reports ?ids db"
  let ?g = "\<lambda>r. case fix_change fx r of Inl _ \<Rightarrow> None | Inr c \<Rightarrow> c"
  have tab: "tables_ok db" using ok by (rule db_ok_tables)
  note complete = select_reports_complete [OF tab in_lock_order_props(2), of ids]
  show ?thesis
  proof (cases "length ?rows = length ?ids")
    case False
    then show ?thesis by (simp add: resolve_reports_with_fix_def Let_def tx_run)
  next
    case len: True
    then have all: "\<forall>rid \<in> set ids. ready_report rid db \<noteq> None"
      using complete by (auto simp: in_lock_order_props)
    show ?thesis
    proof (cases "collect (fix_change fx) ?rows")
      case (Inl e)
      then obtain r where "fix_change fx r = Err e" using collect_Err by blast
      from fix_change_Err [OF this] len Inl show ?thesis
        by (simp add: resolve_reports_with_fix_def Let_def tx_run)
    next
      case (Inr changes)
      have okc: "\<forall>x \<in> set ?rows. \<exists>c. fix_change fx x = Ok c" and ch: "changes = List.map_filter ?g ?rows"
        using collect_Ok [OF Inr] by simp_all
      let ?Q = "\<lambda>(_ :: issue_row list) r c. rpt_storage r = storage_state.Ready \<and> rpt_issue r = None \<and>
        c = (rpt_id r, rpt_state r)"
      have step: "\<exists>d'. apply_fix fx actor (snd (r, c)) d = Ok ((), d') \<and> row_step r (fixed_row fx) d d'"
        if "db_ok d" "r \<in> set (reports d)" "?Q (issues d) r c" for r c d
        using apply_fix_step [of d r fx actor] that by simp
      have fits: "?Q (issues db) r c"
        if "r \<in> set (reports db)" "rpt_storage r = storage_state.Ready" "?g r = Some c" for r c
        using that fix_change_Ok [of fx r "Some c"] by (auto split: sum.splits)
      have loop: "for_tx (\<lambda>x. apply_fix fx actor (snd x)) (List.map_filter (\<lambda>r. map_option (Pair r) (?g r)) ?rows) db =
          for_tx (apply_fix fx actor) changes db"
        unfolding for_tx_map [symmetric] map_filter_pair ch [symmetric] ..
      have keep: "rpt_id (fixed_row fx r) = rpt_id r" for r by (simp add: fixed_row_def)
      from for_selected [where f = "\<lambda>x. apply_fix fx actor (snd x)" and g = ?g and new = "\<lambda>_. fixed_row fx"
          and Q = ?Q, OF ok all step keep fits] obtain db' where
        run: "for_tx (apply_fix fx actor) changes db = Ok ((), db')"
        and db': "db_ok db'" "explains db db'" "issues db' = issues db"
        and rows': "reports db' = map (\<lambda>r. if rpt_id r \<in> set ids
          then (case ?g r of None \<Rightarrow> r | Some _ \<Rightarrow> fixed_row fx r) else r) (reports db)"
        unfolding loop by blast
      have each: "\<exists>r c. ready_report rid db = Some r \<and> fix_change fx r = Ok c" if rid: "rid \<in> set ids" for rid
      proof -
        from all rid obtain r where r: "ready_report rid db = Some r" by auto
        from selected_member [OF tab rid r] okc r show ?thesis by blast
      qed
      have "\<exists>c. fix_change fx r = Ok c" if "r \<in> set (reports db)" "rpt_id r \<in> set ids" for r
      proof -
        from each [OF that(2)] obtain q c where q: "ready_report (rpt_id r) db = Some q" "fix_change fx q = Ok c"
          by blast
        from ready_report_in [OF q(1)] that(1) have "q = r" by (intro report_row_unique [OF tab]) simp_all
        with q(2) show ?thesis by blast
      qed
      then have "reports db' = map (\<lambda>r. if rpt_id r \<in> set ids \<and> fix_change fx r \<noteq> Ok None
          then fixed_row fx r else r) (reports db)"
        unfolding rows' by (fastforce split: sum.split option.split)
      with each len Inr run db' show ?thesis
        by (simp add: resolve_reports_with_fix_def Let_def tx_run)
    qed
  qed
qed

lemma resolve_reports_with_fix_sound: "tx_respects sound (resolve_reports_with_fix ids fx actor)"
proof
  fix db n db'
  assume "resolve_reports_with_fix ids fx actor db = Ok (n, db')"
  then show "sound db db'"
    using resolve_reports_with_fix_cases [of db ids fx actor] by (auto simp: sound_def)
qed

lemma apply_report_state_action_sound: "tx_respects sound (apply_report_state_action ids action actor reason)"
proof
  fix db n db'
  assume "apply_report_state_action ids action actor reason db = Ok (n, db')"
  then show "sound db db'"
    using apply_action_cases [of db ids action actor reason] by (auto simp: sound_def action_db_def)
qed

text \<open>Resolving reports with a fix leaves each of them resolved by that fix and on no issue, and
  touches no other report. A report that is linked or rejected makes the whole request fail, so none of
  them is resolved behind its issue or out of a rejection.\<close>

theorem resolve_with_fix_outcome:
  assumes "db_ok db" and "resolve_reports_with_fix ids fx actor db = Ok (n, db')"
  shows "(\<forall>rid \<in> set ids. \<exists>r g. ready_report rid db' = Some r \<and> rpt_state r = report_state.Resolved \<and>
      rpt_issue r = None \<and> rpt_fix r = Some g \<and> fix_kind g = fix_kind fx \<and>
      fix_reference g = fix_reference fx)
    \<and> (\<forall>rid \<in> set ids. \<exists>r. ready_report rid db = Some r \<and> rpt_issue r = None \<and>
      rpt_state r \<noteq> report_state.Rejected)
    \<and> db_ok db' \<and> explains db db'
    \<and> filter (\<lambda>r. rpt_id r \<notin> set ids) (reports db') = filter (\<lambda>r. rpt_id r \<notin> set ids) (reports db)"
proof -
  let ?new = "\<lambda>r. if fix_change fx r \<noteq> Ok None then fixed_row fx r else r"
  from resolve_reports_with_fix_cases [OF assms(1), of ids fx actor] assms(2)
  have db': "db_ok db'" "explains db db'"
    and each: "\<forall>rid \<in> set ids. \<exists>r c. ready_report rid db = Some r \<and> fix_change fx r = Ok c"
    and rows: "reports db' = map (\<lambda>r. if rpt_id r \<in> set ids then ?new r else r) (reports db)"
    by (auto cong: if_cong)
  have id: "rpt_id (?new r) = rpt_id r" for r by (simp add: fixed_row_def)
  have "\<exists>r g. ready_report rid db' = Some r \<and> rpt_state r = report_state.Resolved \<and>
      rpt_issue r = None \<and> rpt_fix r = Some g \<and> fix_kind g = fix_kind fx \<and> fix_reference g = fix_reference fx"
    if rid: "rid \<in> set ids" for rid
  proof -
    from each rid obtain r c where r: "ready_report rid db = Some r" and c: "fix_change fx r = Ok c" by blast
    have "ready_report rid db' = Some (?new r)"
      using ready_report_in [OF r] rid rows id
      by (subst ready_report_iff [OF db_ok_tables [OF db'(1)]])
        (auto simp: fixed_row_def image_iff intro!: bexI [of _ r])
    with fix_change_Ok [OF c] c show ?thesis by (auto simp: fixed_row_def)
  qed
  moreover have "filter (\<lambda>r. rpt_id r \<notin> set ids) (reports db') = filter (\<lambda>r. rpt_id r \<notin> set ids) (reports db)"
    unfolding rows by (rule filter_untouched [OF id])
  ultimately show ?thesis using db' each by (blast dest: fix_change_Ok)
qed

definition sample_fix :: report_fix where
  "sample_fix = \<lparr> fix_kind = report_fix_kind.PullRequest, fix_reference = lit ''42'',
    fix_title = lit ''Fix the crash'', fix_url = lit ''https://github.com/x/y/pull/42'' \<rparr>"

theorem resolve_with_fix_outcome_witness:
  "\<exists>db'. resolve_reports_with_fix [1] sample_fix 7 sample_db = Ok (1, db') \<and> db_ok db' \<and>
    (\<exists>r. ready_report 1 db' = Some r \<and> rpt_state r = report_state.Resolved)"
proof -
  have "\<exists>db'. resolve_reports_with_fix [1] sample_fix 7 sample_db = Ok (1, db')"
    by (simp add: resolve_reports_with_fix_def fix_change_def apply_fix_def db_eval)
  then obtain db' where run: "resolve_reports_with_fix [1] sample_fix 7 sample_db = Ok (1, db')" by blast
  from resolve_with_fix_outcome [OF sample_db_ok run] run show ?thesis by auto
qed

section \<open>Linking, seen from outside\<close>

definition linked_row :: "issue_state \<Rightarrow> issue_id \<Rightarrow> report_row \<Rightarrow> report_row" where
  "linked_row s iid r =
    drop_fix_of_unresolved_report (r\<lparr> rpt_issue := Some iid, rpt_state := linked_state s \<rparr>)"

lemma linked_row_simps [simp]:
  "rpt_id (linked_row s iid r) = rpt_id r"
  "rpt_storage (linked_row s iid r) = rpt_storage r"
  "rpt_issue (linked_row s iid r) = Some iid"
  "rpt_state (linked_row s iid r) = linked_state s"
  by (simp_all add: linked_row_def drop_fix_of_unresolved_report_def)

definition linkable :: "issue_id \<Rightarrow> report_row \<Rightarrow> bool" where
  "linkable iid r \<longleftrightarrow> rpt_issue r = None \<or> rpt_issue r = Some iid"

lemma link_report_step:
  assumes ok: "db_ok db" and r: "ready_report rid db = Some p" and free: "linkable iid p"
    and s: "issue_state_of (issues db) iid = Some s"
  shows "\<exists>db'. link_report rid iid actor db = Ok ((), db') \<and> row_step p (linked_row s iid) db db'"
proof -
  note pin = ready_report_in [OF r]
  let ?f = "\<lambda>r. r\<lparr> rpt_issue := Some iid, rpt_state := linked_state s \<rparr>"
  let ?es = "(if rpt_issue p \<noteq> Some iid then [event (Some actor) ReportUpdateIssue (Some rid)
      (DObject [(''from'', DIdOpt (rpt_issue p)), (''to'', DId iid)])] else []) @
    (if rpt_state p \<noteq> linked_state s then [state_event rid actor (rpt_state p) (linked_state s) None] else [])"
  have fol: "follows (issue_state_of (issues db)) (?f p)"
    using s by (simp add: follows_def linked_state_def)
  have written: "before_report_write (issues db) (?f p) = linked_row s iid p"
    unfolding before_write_followed [OF fol] linked_row_def ..
  have exists: "find_issue iid (issues db) \<noteq> None" using s by (auto simp: issue_state_of_def)
  have row: "report_row_ok (issues db) (before_report_write (issues db) (?f p))"
    using exists by (simp add: before_report_write_ok linked_state_def)
  show ?thesis
  proof (cases "rpt_issue p = Some iid \<and> rpt_state p = linked_state s")
    case True
    have "rpt_fix p = None" using db_ok_row(1) [OF ok conjunct1 [OF pin]] True by (simp add: report_row_ok_def)
    with True have "linked_row s iid p = p" by (cases p) (simp add: linked_row_def drop_fix_of_unresolved_report_def)
    then have "map (\<lambda>r. if rpt_id r = rpt_id p then linked_row s iid r else r) (reports db) = reports db"
      using report_row_unique [OF db_ok_tables [OF ok] _ conjunct1 [OF pin]] by (intro map_idI) auto
    then have "row_step p (linked_row s iid) db db" using ok by (simp add: row_step_def explains_refl)
    moreover have "link_report rid iid actor db = Ok ((), db)"
      using True r s by (simp add: link_report_def tx_run Let_def)
    ultimately show ?thesis by blast
  next
    case False
    have upd: "update_reports (\<lambda>r. rpt_id r = rid) ?f db = Ok ((), one_row p ?f db)"
      by (rule one_row_update [OF ok]) (use pin row in auto)
    have "row_step p (linked_row s iid) db (add_events ?es (one_row p ?f db))"
    proof (rule row_step_one_row [OF ok])
      show "report_row_ok (issues db) (before_report_write (issues db) (?f p))" by (rule row)
      show "replay (rpt_id p) ?es (report_view p) = report_view (before_report_write (issues db) (?f p))"
        unfolding written using pin by (auto simp: report_view_def)
    qed (use pin in \<open>auto simp: written\<close>)
    moreover have "link_report rid iid actor db = Ok ((), add_events ?es (one_row p ?f db))"
      using False r s free upd
      by (auto simp: link_report_def tx_run Let_def linkable_def event_writes)
    ultimately show ?thesis by blast
  qed
qed

lemma find_untouched:
  "x \<noteq> rid \<Longrightarrow> (\<And>r. rpt_id (g r) = rpt_id r) \<Longrightarrow>
    find (\<lambda>r. rpt_id r = x \<and> Q r) (map (\<lambda>r. if rpt_id r = rid then g r else r) rows) =
    find (\<lambda>r. rpt_id r = x \<and> Q r) rows"
  by (induction rows) auto

lemma link_report_Ok:
  assumes "link_report rid iid actor db = Ok (u, db')"
  shows "\<exists>p. ready_report rid db = Some p \<and> linkable iid p"
proof -
  from assms obtain p where p: "ready_report rid db = Some p" by (auto simp: link_report_def result_simps)
  from assms p obtain s where s: "issue_state_of (issues db) iid = Some s"
    by (auto simp: link_report_def tx_run bind_res_eq_Ok ok_or_eq_Ok)
  from assms p s have "linkable iid p"
    by (auto simp: link_report_def tx_run Let_def bind_res_eq_Ok fail_if_eq_Ok linkable_def split: if_splits)
  with p show ?thesis by blast
qed

lemma link_report_Err:
  assumes ok: "db_ok db" and s: "issue_state_of (issues db) iid = Some s"
    and err: "link_report rid iid actor db = Err e"
  shows "status e \<in> {404, 409}"
proof (cases "ready_report rid db")
  case None
  with err have "e = NotFound ''Report not found''" by (simp add: link_report_def tx_run)
  then show ?thesis by simp
next
  case (Some p)
  have "\<not> linkable iid p"
  proof
    assume "linkable iid p"
    from link_report_step [OF ok Some this s, of actor] err show False by simp
  qed
  with Some s err show ?thesis by (auto simp: link_report_def tx_run Let_def linkable_def fail_if_def)
qed

lemma link_loop:
  assumes "db_ok db" and "issue_state_of (issues db) iid = Some s" and "distinct ids"
  shows "case for_tx (\<lambda>rid. link_report rid iid actor) ids db of
      Inl e \<Rightarrow> status e \<in> {404, 409} \<and> \<not> (\<forall>rid \<in> set ids. \<exists>r. ready_report rid db = Some r \<and> linkable iid r)
    | Inr (_, db') \<Rightarrow> (\<forall>rid \<in> set ids. \<exists>r. ready_report rid db = Some r \<and> linkable iid r) \<and>
        db_ok db' \<and> explains db db' \<and> issues db' = issues db \<and>
        reports db' = map (\<lambda>r. if rpt_id r \<in> set ids then linked_row s iid r else r) (reports db)"
  using assms
proof (induction ids arbitrary: db)
  case Nil
  then show ?case by (simp add: return_tx_def explains_refl)
next
  case (Cons rid ids)
  show ?case
  proof (cases "link_report rid iid actor db")
    case (Inl e)
    have "\<not> (\<exists>r. ready_report rid db = Some r \<and> linkable iid r)"
    proof
      assume "\<exists>r. ready_report rid db = Some r \<and> linkable iid r"
      then obtain r where "ready_report rid db = Some r" "linkable iid r" by blast
      from link_report_step [OF Cons.prems(1) this Cons.prems(2), of actor] Inl show False by simp
    qed
    with link_report_Err [OF Cons.prems(1,2) Inl] Inl show ?thesis by (auto simp: tx_run)
  next
    case (Inr x)
    then obtain u db1 where run: "link_report rid iid actor db = Ok (u, db1)" by (cases x) auto
    from link_report_Ok [OF run] obtain p where p: "ready_report rid db = Some p" "linkable iid p" by blast
    from link_report_step [OF Cons.prems(1) p Cons.prems(2), of actor] run
    have step: "row_step p (linked_row s iid) db db1" by auto
    note pin = ready_report_in [OF p(1)]
    have ok1: "db_ok db1" and iss: "issues db1 = issues db" and ex: "explains db db1"
      and rows: "reports db1 = map (\<lambda>r. if rpt_id r = rid then linked_row s iid r else r) (reports db)"
      using step pin by (simp_all add: row_step_def)
    have same: "ready_report x db1 = ready_report x db" if "x \<noteq> rid" for x
      unfolding ready_report_def rows using that by (intro find_untouched) simp_all
    have "distinct ids" "rid \<notin> set ids" using Cons.prems(3) by simp_all
    note IH = Cons.IH [OF ok1 _ this(1), unfolded iss, OF Cons.prems(2)]
    have conds: "(\<forall>x \<in> set ids. \<exists>r. ready_report x db1 = Some r \<and> linkable iid r) =
        (\<forall>x \<in> set ids. \<exists>r. ready_report x db = Some r \<and> linkable iid r)"
    proof (rule ball_cong [OF refl])
      fix x assume "x \<in> set ids"
      with \<open>rid \<notin> set ids\<close> have "x \<noteq> rid" by auto
      from same [OF this] show "(\<exists>r. ready_report x db1 = Some r \<and> linkable iid r) =
        (\<exists>r. ready_report x db = Some r \<and> linkable iid r)" by simp
    qed
    show ?thesis
    proof (cases "for_tx (\<lambda>rid. link_report rid iid actor) ids db1")
      case (Inl e)
      with IH conds run show ?thesis by (auto simp: tx_run)
    next
      case (Inr y)
      then obtain v db2 where y: "y = (v, db2)" by (cases y)
      have "reports db2 = map (\<lambda>r. if rpt_id r \<in> set (rid # ids) then linked_row s iid r else r) (reports db)"
        using IH Inr y \<open>rid \<notin> set ids\<close> by (auto simp: rows)
      moreover have "explains db db2" using IH Inr y ex by (auto intro: explains_trans)
      ultimately show ?thesis using IH Inr y conds p run by (auto simp: tx_run iss)
    qed
  qed
qed

lemma assignable_iff:
  assumes "tables_ok db"
  shows "assignable iid db \<longleftrightarrow> (\<exists>i. find_issue iid (issues db) = Some i \<and> is_active i)"
proof -
  have "distinct (map iss_id (issues db))" using assms by (simp add: tables_ok_def issue_keys_ok_def)
  then show ?thesis
    by (auto simp: assignable_def list_ex_iff find_issue_def find_distinct is_active_def)
qed

lemma assign_reports_cases:
  assumes ok: "db_ok db"
  shows "case assign_reports_to_issue ids iid actor db of
      Inl e \<Rightarrow> status e \<in> {400, 404, 409} \<and> \<not> (assignable iid db \<and>
        (\<forall>rid \<in> set ids. \<exists>r. ready_report rid db = Some r \<and> linkable iid r))
    | Inr (_, db') \<Rightarrow> assignable iid db \<and> (\<forall>rid \<in> set ids. \<exists>r. ready_report rid db = Some r \<and> linkable iid r) \<and>
        db_ok db' \<and> explains db db' \<and> issues db' = issues db \<and>
        (\<exists>s. issue_state_of (issues db) iid = Some s \<and>
          reports db' = map (\<lambda>r. if rpt_id r \<in> set ids then linked_row s iid r else r) (reports db))"
proof (cases "assignable iid db")
  case False
  then show ?thesis by (simp add: assign_reports_to_issue_def tx_run)
next
  case True
  have tab: "tables_ok db" using ok by (rule db_ok_tables)
  from True assignable_iff [OF tab] obtain s where s: "issue_state_of (issues db) iid = Some s"
    by (auto simp: issue_state_of_def)
  let ?ids = "in_lock_order ids"
  note loop = link_loop [OF ok s in_lock_order_props(2), of ids actor, unfolded in_lock_order_props(1)]
  show ?thesis
  proof (cases "1 < length ?ids \<and> linked_elsewhere ?ids iid db")
    case elsewhere: True
    then obtain r where r: "r \<in> set (reports db)" "rpt_id r \<in> set ids" "\<not> linkable iid r"
      by (auto simp: linked_elsewhere_def list_ex_iff in_lock_order_props linkable_def)
    have "\<not> (\<exists>q. ready_report (rpt_id r) db = Some q \<and> linkable iid q)"
      using r report_row_unique [OF tab r(1)] by (auto dest!: ready_report_in) metis
    with r(2) True elsewhere show ?thesis
      by (auto simp: assign_reports_to_issue_def link_reports_def tx_run Let_def)
  next
    case False
    then have "fail_if (1 < length ?ids \<and> linked_elsewhere ?ids iid db) e = Ok ()" for e :: app_error
      by (simp add: fail_if_def)
    with True have run: "assign_reports_to_issue ids iid actor db = for_tx (\<lambda>rid. link_report rid iid actor) ?ids db"
      by (simp add: assign_reports_to_issue_def link_reports_def tx_run Let_def)
    show ?thesis unfolding run using loop True s by (auto split: sum.splits)
  qed
qed

text \<open>Adding reports to an issue succeeds exactly when the issue is neither rejected nor merged away
  and every selected report is stored and free or already on that issue; then all of them are on it,
  confirmed while it is open and resolved once it is, none keeps a fix of its own, and nothing else
  changes. Otherwise the request is answered with a client error and none of them is linked.\<close>

theorem assign_reports_outcome:
  assumes "db_ok db"
  shows "case assign_reports_to_issue ids iid actor db of
      Inl e \<Rightarrow> status e \<in> {400, 404, 409} \<and> \<not> (assignable iid db \<and>
        (\<forall>rid \<in> set ids. \<exists>r. ready_report rid db = Some r \<and> linkable iid r))
    | Inr (_, db') \<Rightarrow> assignable iid db \<and> db_ok db' \<and> explains db db' \<and> issues db' = issues db \<and>
        (\<forall>rid \<in> set ids. \<exists>r s. ready_report rid db' = Some r \<and> rpt_issue r = Some iid \<and>
          issue_state_of (issues db) iid = Some s \<and> rpt_state r = linked_state s \<and> rpt_fix r = None) \<and>
        filter (\<lambda>r. rpt_id r \<notin> set ids) (reports db') = filter (\<lambda>r. rpt_id r \<notin> set ids) (reports db)"
proof (cases "assign_reports_to_issue ids iid actor db")
  case (Inl e)
  then show ?thesis using assign_reports_cases [OF assms, where ids = ids and iid = iid and actor = actor] by simp
next
  case (Inr x)
  obtain u db' where x: "x = (u, db')" by (cases x)
  from assign_reports_cases [OF assms, where ids = ids and iid = iid and actor = actor] Inr x obtain s where
    s: "issue_state_of (issues db) iid = Some s"
    and all: "\<forall>rid \<in> set ids. \<exists>r. ready_report rid db = Some r \<and> linkable iid r"
    and db': "assignable iid db" "db_ok db'" "explains db db'" "issues db' = issues db"
    and rows: "reports db' = map (\<lambda>r. if rpt_id r \<in> set ids then linked_row s iid r else r) (reports db)"
    by auto
  have "\<exists>r. ready_report rid db' = Some r \<and> rpt_issue r = Some iid \<and> rpt_state r = linked_state s \<and>
      rpt_fix r = None" if rid: "rid \<in> set ids" for rid
  proof -
    from all rid obtain r where r: "ready_report rid db = Some r" by blast
    have get: "ready_report rid db' = Some (linked_row s iid r)"
      using ready_report_in [OF r] rid rows
      by (subst ready_report_iff [OF db_ok_tables [OF db'(2)]]) (auto simp: image_iff intro!: bexI [of _ r])
    from db_ok_row(1) [OF db'(2) conjunct1 [OF ready_report_in [OF get]]]
    have "rpt_fix (linked_row s iid r) = None" by (simp add: report_row_ok_def)
    with get show ?thesis by simp
  qed
  moreover have "filter (\<lambda>r. rpt_id r \<notin> set ids) (reports db') = filter (\<lambda>r. rpt_id r \<notin> set ids) (reports db)"
    unfolding rows by (rule filter_untouched) simp
  ultimately show ?thesis using Inr x s db' by auto
qed

theorem assign_reports_outcome_witness:
  "\<exists>db'. assign_reports_to_issue [1, 2] 11 7 sample_db = Ok ((), db') \<and>
    (\<exists>r. ready_report 1 db' = Some r \<and> rpt_issue r = Some 11 \<and> rpt_state r = report_state.Confirmed)"
proof -
  have "\<exists>db'. assign_reports_to_issue [1, 2] 11 7 sample_db = Ok ((), db')"
    by (simp add: assign_reports_to_issue_def assignable_def link_reports_def linked_elsewhere_def
        link_report_def linked_state_def DIdOpt_def db_eval)
  then obtain db' where run: "assign_reports_to_issue [1, 2] 11 7 sample_db = Ok ((), db')" by blast
  from assign_reports_outcome [OF sample_db_ok, where ids = "[1, 2]" and iid = 11 and actor = 7] run show ?thesis
    by (auto simp: linked_state_def db_eval)
qed

section \<open>Rejecting an issue, seen from outside\<close>

lemma merged_sources_none:
  "list_all (\<lambda>i. iss_merged_into i = None) rows \<Longrightarrow> merged_sources n rows ids = []"
  by (cases n) (auto simp: list_all_iff filter_empty_conv)

lemma update_issues_state:
  assumes "db_ok db" and "\<And>i. iss_id (f i) = iss_id i" and "update_issues P f db = Ok (u, db')"
  shows "db_ok db' \<and> issues db' = map (\<lambda>i. if P i then f i else i) (issues db)"
proof -
  have "issues_stored_ok (map (\<lambda>i. if P i then f i else i) (issues db))"
    using assms(3) by (auto simp: update_issues_def result_simps store_issues_Ok split: if_splits)
  from update_issues_effect [OF assms(1,2) this] assms(3) show ?thesis by force
qed

text \<open>C21: Rejecting an issue takes it out of the tracker with its reports: when it succeeds the issue is
  rejected, and its reports are either rejected with it or, if the maintainer chose so, on no issue and in
  triage; no report stays confirmed or resolved on a rejected issue through it.\<close>

theorem reject_issue_outcome:
  assumes "db_ok db" and "reject_issue iid actor act db = Ok (n, db')"
  shows "db_ok db' \<and> explains db db' \<and> issue_state_of (issues db') iid = Some issue_state.Rejected
    \<and> (\<forall>r \<in> set (reports db'). rpt_issue r = Some iid \<longrightarrow>
        act = issue_report_action.Reject \<and> rpt_state r = report_state.Rejected)"
proof -
  let ?rej = "\<lambda>i. i\<lparr> iss_state := issue_state.Rejected \<rparr>"
  let ?keep = "act = issue_report_action.Reject"
  let ?f = "\<lambda>r. r\<lparr> rpt_issue := if ?keep then rpt_issue r else None,
    rpt_state := if ?keep then report_state.Rejected else report_state.Triage \<rparr>"
  from assms(2) obtain row db1 S db2 db3 db4 es where
    row: "find (\<lambda>i. iss_id i = iid \<and> iss_state i \<noteq> issue_state.Rejected) (issues db) = Some row"
    and u1: "update_issues (\<lambda>i. iss_id i = iid \<and> iss_state i \<noteq> issue_state.Rejected) ?rej db = Ok ((), db1)"
    and u2: "update_issues (\<lambda>i. iss_id i \<in> set S \<and> iss_state i \<noteq> issue_state.Rejected) ?rej db1 = Ok ((), db2)"
    and u3: "update_reports (\<lambda>r. rpt_issue r = Some iid) ?f db2 = Ok ((), db3)"
    and u4: "db' = add_events es db3"
    unfolding reject_issue_def reject_issue_reports_def
    by (auto simp: result_simps tx_run Let_def insert_audit_event_Ok bind_res_eq_Ok
        for_tx_events [OF reject_event_Ok])
  have s1: "db_ok db1" "issues db1 = map (\<lambda>i. if iss_id i = iid \<and> iss_state i \<noteq> issue_state.Rejected
      then ?rej i else i) (issues db)"
    using update_issues_state [OF assms(1) _ u1] by simp_all
  have s2: "issues db2 = map (\<lambda>i. if iss_id i \<in> set S \<and> iss_state i \<noteq> issue_state.Rejected
      then ?rej i else i) (issues db1)"
    using update_issues_state [OF s1(1) _ u2] by simp
  have "issues db' = issues db2" using u3 u4 by (simp add: update_reports_Ok)
  moreover obtain x where x: "find_issue iid (issues db) = Some x"
    using find_Some_in [OF row] find_None_iff [of "\<lambda>i. iss_id i = iid" "issues db"]
    unfolding find_issue_def by blast
  have "find_issue iid (issues db1) =
      Some (if iss_id x = iid \<and> iss_state x \<noteq> issue_state.Rejected then ?rej x else x)"
    unfolding s1(2) by (subst find_issue_map) (simp_all add: x)
  then obtain y where y: "find_issue iid (issues db1) = Some y" "iss_state y = issue_state.Rejected"
    using x by (auto simp: find_issue_def dest: find_Some_in)
  then have "find_issue iid (issues db2) = Some y"
    unfolding s2 by (subst find_issue_map) simp_all
  ultimately have "issue_state_of (issues db') iid = Some issue_state.Rejected"
    using y(2) by (simp add: issue_state_of_def)
  moreover have "?keep \<and> rpt_state r = report_state.Rejected"
    if "r \<in> set (reports db')" "rpt_issue r = Some iid" for r
  proof -
    from that u3 u4 obtain q where q: "q \<in> set (reports db2)"
      "r = (if rpt_issue q = Some iid then before_report_write (issues db2) (?f q) else q)"
      by (auto simp: update_reports_Ok written_rows_def)
    with that(2) show ?thesis
      by (auto simp: before_report_write_state follow_issue_state_on_report_def split: if_splits)
  qed
  moreover have "sound db db'" using reject_issue_sound assms(2) by (rule tx_respectsD)
  ultimately show ?thesis using assms(1) by (simp add: sound_def)
qed

theorem reject_issue_outcome_witness:
  "\<exists>db'. reject_issue 11 7 issue_report_action.Unlink sample_db = Ok (1, db') \<and>
    issue_state_of (issues db') 11 = Some issue_state.Rejected"
proof -
  have "\<exists>db'. reject_issue 11 7 issue_report_action.Unlink sample_db = Ok (1, db')"
    by (simp add: reject_issue_def reject_issue_reports_def reject_event_def update_issues_def
        store_issues_def issue_row_ok_def issue_keys_ok_def is_active_def follow_issue_state_on_issue_def
        to_ascii_lowercase_def is_ascii_upper_def merged_sources_none db_eval)
  then obtain db' where run: "reject_issue 11 7 issue_report_action.Unlink sample_db = Ok (1, db')" by blast
  from reject_issue_outcome [OF sample_db_ok run] run show ?thesis by blast
qed

end
