(* ===== verification/Github_Sync.thy ===== *)
theory Github_Sync
  imports Report_Ops Configuration
begin

text \<open>
  How a tracked issue follows its GitHub issue: \<open>github_sync.rs\<close>, \<open>github_duplicates.rs\<close> and the
  assignment to a GitHub issue of \<open>issues.rs\<close>, over the tables of \<open>Issue_Db\<close>. The URL parser is the
  \<open>url\<close> crate's and is a parameter, as is the identifier a new issue is given. \<open>clock\<close> counts seconds.
  PostgreSQL's \<open>lower\<close> is applied to repository names, which are ASCII, so it is the ASCII lower case.
\<close>

section \<open>What GitHub says of an issue\<close>

datatype github_issue_state = Open | Closed

primrec github_issue_state_as_str :: "github_issue_state \<Rightarrow> string" where
  "github_issue_state_as_str github_issue_state.Open = ''open''"
| "github_issue_state_as_str github_issue_state.Closed = ''closed''"

primrec link_state_from :: "github_issue_state \<Rightarrow> github_link_state" where
  "link_state_from github_issue_state.Open = github_link_state.Open"
| "link_state_from github_issue_state.Closed = github_link_state.Closed"

record github_issue =
  gh_id :: int
  gh_number :: int
  gh_title :: str
  gh_body :: "str option"
  gh_html_url :: str
  gh_state :: github_issue_state
  gh_updated_at :: int
  gh_state_reason :: "str option"

definition gh_description :: "github_issue \<Rightarrow> str" where
  "gh_description g = (case gh_body g of None \<Rightarrow> [] | Some b \<Rightarrow> b)"

abbreviation (input) I64_MAX :: nat where
  "I64_MAX \<equiv> 9223372036854775807"

definition gh_repository :: "(str \<Rightarrow> url option) \<Rightarrow> github_issue \<Rightarrow> str option" where
  "gh_repository parse_url g =
    Option.bind (parse_url (gh_html_url g)) (\<lambda>u.
      if url_scheme u \<noteq> lit ''https'' \<or> url_host_str u \<noteq> Some (lit ''github.com'') then None
      else Option.bind (url_path_segments u) (\<lambda>segments.
        (case segments of
          [owner, name, kind, number] \<Rightarrow>
            if kind \<noteq> lit ''issues'' then None
            else Option.bind (parse_signed I64_MAX number) (\<lambda>n.
              if n \<noteq> gh_number g then None else Some (owner @ lit ''/'' @ name))
        | _ \<Rightarrow> None)))"

definition belongs_to_repository :: "(str \<Rightarrow> url option) \<Rightarrow> github_issue \<Rightarrow> str \<Rightarrow> bool" where
  "belongs_to_repository parse_url g repo =
    (case gh_repository parse_url g of None \<Rightarrow> False | Some r \<Rightarrow> lower r = lower repo)"

definition validate_issue_text :: "str \<Rightarrow> str \<Rightarrow> unit result" where
  "validate_issue_text title description =
    bind_res (fail_if (trim title = [] \<or> 256 < length title)
      (InvalidRequest ''Issue title must be 1 to 256 characters'')) (\<lambda>_.
    fail_if (262144 < length description) (InvalidRequest ''Issue description is too large''))"

section \<open>Following GitHub\<close>

definition tracks :: "int option \<Rightarrow> str \<Rightarrow> int \<Rightarrow> issue_row \<Rightarrow> bool" where
  "tracks gid repo number i \<longleftrightarrow>
    (gid \<noteq> None \<and> iss_github_id i = gid) \<or>
    (lower (iss_repository i) = lower repo \<and> iss_number i = number)"

text \<open>The row to update: by GitHub's identifier first, else by repository and number.\<close>

definition tracked_issue :: "int option \<Rightarrow> str \<Rightarrow> int \<Rightarrow> issue_row list \<Rightarrow> issue_row option" where
  "tracked_issue gid repo number rows =
    (let hits = filter (\<lambda>i. iss_state i \<noteq> issue_state.Rejected \<and> tracks gid repo number i) rows in
     case find (\<lambda>i. gid \<noteq> None \<and> iss_github_id i = gid) hits of
       Some i \<Rightarrow> Some i
     | None \<Rightarrow> (case hits of [] \<Rightarrow> None | i # _ \<Rightarrow> Some i))"

definition set_duplicate_jobs :: "(duplicate_row list \<Rightarrow> duplicate_row list) \<Rightarrow> unit tx" where
  "set_duplicate_jobs f db = Ok ((), db\<lparr> duplicate_jobs := f (duplicate_jobs db) \<rparr>)"

definition queue_duplicate :: "duplicate_row \<Rightarrow> duplicate_row list \<Rightarrow> duplicate_row list" where
  "queue_duplicate job rows =
    (if list_ex (\<lambda>j. dup_source j = dup_source job) rows
     then map (\<lambda>j. if dup_source j = dup_source job then job else j) rows
     else rows @ [job])"

text \<open>A webhook that closes an issue as a duplicate queues a job, and any other one drops it.\<close>

definition sync_duplicate_job :: "issue_id \<Rightarrow> str \<Rightarrow> github_issue \<Rightarrow> int option \<Rightarrow> unit tx" where
  "sync_duplicate_job iid repo g installation_id =
    (if gh_state g = github_issue_state.Closed \<and> gh_state_reason g = Some (lit ''duplicate'') then
       (case installation_id of
         None \<Rightarrow> return_tx ()
       | Some installation \<Rightarrow>
           bind_tx (get_tx clock) (\<lambda>now.
           set_duplicate_jobs (queue_duplicate
             \<lparr> dup_source = iid, dup_github_id = gh_id g, dup_repository = repo,
               dup_number = gh_number g, dup_installation = installation, dup_lease = None,
               dup_lease_expires = None, dup_attempts = 0, dup_next_attempt = now \<rparr>)))
     else set_duplicate_jobs (filter (\<lambda>j. dup_source j \<noteq> iid)))"

definition synced_row :: "github_issue \<Rightarrow> github_link_state \<Rightarrow> int \<Rightarrow> issue_row \<Rightarrow> issue_row" where
  "synced_row g link now i =
    i\<lparr> iss_github_id := Some (gh_id g), iss_title := gh_title g, iss_description := gh_description g,
      iss_url := gh_html_url g, iss_link := link, iss_state := tracking link,
      iss_github_updated_at := Some (gh_updated_at g),
      iss_resolved_at :=
        (case link of
          github_link_state.Open \<Rightarrow> None
        | github_link_state.Closed \<Rightarrow>
            (case iss_resolved_at i of None \<Rightarrow> Some now | Some t \<Rightarrow> Some t)
        | _ \<Rightarrow> iss_resolved_at i) \<rparr>"

abbreviation DLink :: "github_link_state \<Rightarrow> detail" where
  "DLink l \<equiv> DText (lit (github_link_state_as_str l))"

definition sync_details :: "github_sync_source \<Rightarrow> github_issue \<Rightarrow> github_link_state \<Rightarrow> issue_row \<Rightarrow> detail" where
  "sync_details source g link row =
    DObject [(''source'', DText (lit (github_sync_source_as_str source))),
      (''state'', DObject [(''from'', DLink (iss_link row)), (''to'', DLink link)]),
      (''title_changed'', DBool (iss_title row \<noteq> gh_title g)),
      (''description_changed'', DBool (iss_description row \<noteq> gh_description g)),
      (''url_changed'', DBool (iss_url row \<noteq> gh_html_url g))]"

definition apply_sync ::
    "str \<Rightarrow> github_issue \<Rightarrow> int option \<Rightarrow> github_sync_source \<Rightarrow> int option \<Rightarrow> github_link_state \<Rightarrow>
      issue_row \<Rightarrow> issue_id option tx" where
  "apply_sync repo g actor source installation_id link row =
    bind_tx (when_tx (source = github_sync_source.Webhook)
      (sync_duplicate_job (iss_id row) repo g installation_id)) (\<lambda>_.
    bind_tx (get_tx clock) (\<lambda>now.
    bind_tx (update_issues (\<lambda>i. iss_id i = iss_id row) (synced_row g link now)) (\<lambda>_.
    bind_tx (when_tx (iss_link row \<noteq> link \<or> iss_title row \<noteq> gh_title g \<or>
        iss_description row \<noteq> gh_description g \<or> iss_url row \<noteq> gh_html_url g)
      (insert_audit_event actor IssueSyncGithub (Some (iss_id row)) (sync_details source g link row))) (\<lambda>_.
    return_tx (Some (iss_id row))))))"

definition sync_github_issue_with_installation ::
    "(str \<Rightarrow> url option) \<Rightarrow> str \<Rightarrow> github_issue \<Rightarrow> int option \<Rightarrow> github_sync_source \<Rightarrow> int option \<Rightarrow>
      issue_id option tx" where
  "sync_github_issue_with_installation parse_url repo g actor source installation_id =
    bind_tx (lift_tx (validate_issue_text (gh_title g) (gh_description g))) (\<lambda>_.
    bind_tx (lift_tx (ok_or (gh_repository parse_url g)
      (InvalidRequest ''GitHub returned an invalid issue URL''))) (\<lambda>current_repository.
    bind_tx (get_tx (\<lambda>db. tracked_issue (Some (gh_id g)) repo (gh_number g) (issues db))) (\<lambda>found.
    case found of
      None \<Rightarrow> return_tx None
    | Some row \<Rightarrow>
        let link = (if lower current_repository = lower (iss_repository row) then link_state_from (gh_state g)
          else github_link_state.Moved) in
        bind_tx (lift_tx (fail_if (iss_github_id row \<noteq> None \<and> iss_github_id row \<noteq> Some (gh_id g))
          (Conflict ''GitHub issue identity changed''))) (\<lambda>_.
        if (case iss_github_updated_at row of None \<Rightarrow> False | Some t \<Rightarrow> gh_updated_at g < t)
        then return_tx (Some (iss_id row))
        else if source = github_sync_source.Webhook \<and> is_gone (iss_link row)
        then return_tx (Some (iss_id row))
        else apply_sync repo g actor source installation_id link row))))"

definition sync_github_issue ::
    "(str \<Rightarrow> url option) \<Rightarrow> str \<Rightarrow> github_issue \<Rightarrow> int option \<Rightarrow> github_sync_source \<Rightarrow> issue_id option tx" where
  "sync_github_issue parse_url repo g actor source =
    sync_github_issue_with_installation parse_url repo g actor source None"

definition mark_github_issue_unavailable ::
    "str \<Rightarrow> int \<Rightarrow> int option \<Rightarrow> github_link_state \<Rightarrow> github_sync_source \<Rightarrow> issue_id option tx" where
  "mark_github_issue_unavailable repo number github_id state source =
    bind_tx (lift_tx (fail_if (\<not> is_unreachable state) (InvalidRequest ''Invalid GitHub link state''))) (\<lambda>_.
    bind_tx (get_tx (\<lambda>db. tracked_issue github_id repo number (issues db))) (\<lambda>found.
    case found of
      None \<Rightarrow> return_tx None
    | Some row \<Rightarrow>
        bind_tx (lift_tx (fail_if (github_id \<noteq> None \<and> iss_github_id row \<noteq> None \<and>
            iss_github_id row \<noteq> github_id) (Conflict ''GitHub issue identity changed''))) (\<lambda>_.
        bind_tx (update_issues (\<lambda>i. iss_id i = iss_id row)
          (\<lambda>i. i\<lparr> iss_github_id := (case iss_github_id i of None \<Rightarrow> github_id | Some x \<Rightarrow> Some x),
            iss_link := state, iss_state := tracking state \<rparr>)) (\<lambda>_.
        bind_tx (when_tx (iss_link row \<noteq> state)
          (insert_audit_event None IssueSyncGithub (Some (iss_id row))
            (DObject [(''source'', DText (lit (github_sync_source_as_str source))),
              (''state'', DObject [(''from'', DLink (iss_link row)), (''to'', DLink state)])]))) (\<lambda>_.
        return_tx (Some (iss_id row)))))))"

definition record_github_reports_link :: "issue_id \<Rightarrow> int option \<Rightarrow> int \<Rightarrow> str \<Rightarrow> unit tx" where
  "record_github_reports_link iid github_issue_id field_id link =
    (let hit = (\<lambda>i. iss_id i = iid \<and> iss_github_id i = github_issue_id \<and> is_active i) in
     bind_tx (get_tx (\<lambda>db. length (filter hit (issues db)))) (\<lambda>n.
     bind_tx (update_issues hit (\<lambda>i. i\<lparr> iss_reports_field := Some field_id, iss_reports_link := Some link \<rparr>)) (\<lambda>_.
     lift_tx (fail_if (n \<noteq> 1) (Conflict ''GitHub issue link changed during sync'')))))"

section \<open>Pointing an issue at another GitHub issue\<close>

definition already_linked :: "issue_id \<Rightarrow> str \<Rightarrow> github_issue \<Rightarrow> db \<Rightarrow> bool" where
  "already_linked iid repo g db \<longleftrightarrow>
    list_ex (\<lambda>i. iss_id i \<noteq> iid \<and> iss_state i \<noteq> issue_state.Rejected \<and>
      tracks (Some (gh_id g)) repo (gh_number g) i) (issues db) \<or>
    list_ex (\<lambda>a. list_ex (\<lambda>i. iss_id i = als_issue a \<and> iss_state i \<noteq> issue_state.Rejected) (issues db) \<and>
      ((lower (als_repository a) = lower repo \<and> als_number a = gh_number g) \<or>
        als_github_id a = Some (gh_id g))) (aliases db)"

definition replaced_row :: "str \<Rightarrow> github_issue \<Rightarrow> int \<Rightarrow> issue_row \<Rightarrow> issue_row" where
  "replaced_row repo g now i =
    i\<lparr> iss_repository := repo, iss_number := gh_number g, iss_github_id := Some (gh_id g),
      iss_url := gh_html_url g, iss_title := gh_title g, iss_description := gh_description g,
      iss_link := link_state_from (gh_state g),
      iss_state := (if gh_state g = github_issue_state.Closed then issue_state.Resolved
        else issue_state.Unresolved),
      iss_github_updated_at := Some (gh_updated_at g),
      iss_reports_field := None, iss_reports_link := None,
      iss_resolved_at := (if gh_state g = github_issue_state.Closed
        then (case iss_resolved_at i of None \<Rightarrow> Some now | Some t \<Rightarrow> Some t) else None) \<rparr>"

definition replace_github_issue ::
    "(str \<Rightarrow> url option) \<Rightarrow> issue_id \<Rightarrow> str \<Rightarrow> github_issue \<Rightarrow> int \<Rightarrow> unit tx" where
  "replace_github_issue parse_url iid repo g actor =
    bind_tx (lift_tx (fail_if (\<not> belongs_to_repository parse_url g repo)
      (InvalidRequest ''Replacement issue must be in the configured repository''))) (\<lambda>_.
    bind_tx (lift_tx (validate_issue_text (gh_title g) (gh_description g))) (\<lambda>_.
    bind_tx (get_tx (\<lambda>db. find (\<lambda>i. iss_id i = iid \<and> is_active i) (issues db))) (\<lambda>row.
    bind_tx (lift_tx (ok_or row (NotFound ''Issue not found''))) (\<lambda>current.
    bind_tx (lift_tx (fail_if (\<not> is_unreachable (iss_link current))
      (Conflict ''Current GitHub issue is still available''))) (\<lambda>_.
    bind_tx (lift_tx (fail_if (lower (iss_repository current) = lower repo \<and>
        iss_number current = gh_number g) (Conflict ''This GitHub issue is already linked''))) (\<lambda>_.
    bind_tx (get_tx (already_linked iid repo g)) (\<lambda>linked.
    bind_tx (lift_tx (fail_if linked (Conflict ''Replacement GitHub issue is already tracked''))) (\<lambda>_.
    bind_tx (insert_alias \<lparr> als_issue = iid, als_repository = iss_repository current,
      als_number = iss_number current, als_github_id = iss_github_id current, als_url = iss_url current \<rparr>) (\<lambda>_.
    bind_tx (get_tx clock) (\<lambda>now.
    bind_tx (update_issues (\<lambda>i. iss_id i = iid) (replaced_row repo g now)) (\<lambda>_.
    insert_audit_event (Some actor) IssueUpdateGithubLink (Some iid)
      (DObject [(''from'', DObject [(''repository'', DText (iss_repository current)),
          (''number'', DInt (iss_number current)), (''url'', DText (iss_url current))]),
        (''to'', DObject [(''repository'', DText repo), (''number'', DInt (gh_number g)),
          (''url'', DText (gh_html_url g))])]))))))))))))"

section \<open>Where a merge leads\<close>

text \<open>The recursive query that follows \<open>merged_into\<close>, at most sixteen steps from where it starts, through
  the issues it may pass. It gives the last issue and how far it is.\<close>

fun follow_merges :: "nat \<Rightarrow> (issue_row \<Rightarrow> bool) \<Rightarrow> issue_row list \<Rightarrow> nat \<Rightarrow> issue_row \<Rightarrow> (issue_id \<times> nat) option" where
  "follow_merges fuel passes rows depth i =
    (case iss_merged_into i of
      None \<Rightarrow> Some (iss_id i, depth)
    | Some t \<Rightarrow>
        (case fuel of
          0 \<Rightarrow> None
        | Suc n \<Rightarrow>
            (case find_issue t rows of
              None \<Rightarrow> None
            | Some j \<Rightarrow> if passes j then follow_merges n passes rows (depth + 1) j else None)))"

declare follow_merges.simps [simp del]

text \<open>\<open>ORDER BY depth DESC LIMIT 1\<close>.\<close>

definition deepest :: "(issue_id \<times> nat) list \<Rightarrow> issue_id option" where
  "deepest ends = (case sort_key (\<lambda>(_, d). - int d) ends of [] \<Rightarrow> None | (i, _) # _ \<Rightarrow> Some i)"

abbreviation MERGE_DEPTH :: nat where
  "MERGE_DEPTH \<equiv> 16"

section \<open>Duplicates\<close>

record duplicate_job =
  job_source :: issue_id
  job_github_id :: int
  job_repository :: str
  job_number :: int
  job_installation :: int
  job_lease :: uuid
  job_attempts :: int

text \<open>The job that is due, and not leased, the longest.\<close>

definition due_duplicate :: "int \<Rightarrow> duplicate_row list \<Rightarrow> duplicate_row option" where
  "due_duplicate now rows =
    (case sort_key dup_next_attempt (filter (\<lambda>j. dup_next_attempt j \<le> now \<and>
        (case dup_lease_expires j of None \<Rightarrow> True | Some t \<Rightarrow> t < now)) rows) of
      [] \<Rightarrow> None | j # _ \<Rightarrow> Some j)"

definition leased_row :: "uuid \<Rightarrow> int \<Rightarrow> duplicate_row \<Rightarrow> duplicate_row" where
  "leased_row lease now j = j\<lparr> dup_lease := Some lease, dup_lease_expires := Some (now + 120),
    dup_attempts := dup_attempts j + 1 \<rparr>"

definition claim_github_duplicate :: "uuid \<Rightarrow> duplicate_job option tx" where
  "claim_github_duplicate lease =
    bind_tx (get_tx (\<lambda>db. (clock db, due_duplicate (clock db) (duplicate_jobs db)))) (\<lambda>(now, due).
    case due of
      None \<Rightarrow> return_tx None
    | Some j \<Rightarrow>
        bind_tx (set_duplicate_jobs (map (\<lambda>k. if dup_source k = dup_source j then leased_row lease now k else k))) (\<lambda>_.
        return_tx (Some \<lparr> job_source = dup_source j, job_github_id = dup_github_id j,
          job_repository = dup_repository j, job_number = dup_number j,
          job_installation = dup_installation j, job_lease = lease,
          job_attempts = dup_attempts j + 1 \<rparr>)))"

text \<open>The delay of a retry in seconds: thirty, doubled with each attempt, an hour at most.\<close>

definition retry_delay :: "int \<Rightarrow> int" where
  "retry_delay attempts = min (30 * 2 ^ nat (max 1 (min 8 attempts))) 3600"

definition retry_github_duplicate :: "duplicate_job \<Rightarrow> unit tx" where
  "retry_github_duplicate job =
    bind_tx (get_tx clock) (\<lambda>now.
    set_duplicate_jobs (map (\<lambda>j. if dup_source j = job_source job \<and> dup_lease j = Some (job_lease job)
      then j\<lparr> dup_lease := None, dup_lease_expires := None,
        dup_next_attempt := now + retry_delay (job_attempts job) \<rparr> else j)))"

definition tracked_root :: "str \<Rightarrow> github_issue \<Rightarrow> issue_row list \<Rightarrow> issue_id option" where
  "tracked_root repo g rows =
    deepest (List.map_filter (follow_merges MERGE_DEPTH (\<lambda>_. True) rows 0)
      (filter (\<lambda>i. iss_state i \<noteq> issue_state.Rejected \<and> tracks (Some (gh_id g)) repo (gh_number g) i) rows))"

definition destination_row :: "str \<Rightarrow> github_issue \<Rightarrow> int \<Rightarrow> issue_row \<Rightarrow> issue_row" where
  "destination_row repo g now i =
    i\<lparr> iss_title := gh_title g, iss_description := gh_description g, iss_url := gh_html_url g,
      iss_repository := repo, iss_number := gh_number g, iss_github_id := Some (gh_id g),
      iss_link := link_state_from (gh_state g), iss_github_updated_at := Some (gh_updated_at g),
      iss_state := (if gh_state g = github_issue_state.Closed then issue_state.Resolved
        else issue_state.Unresolved),
      iss_resolved_at := (if gh_state g = github_issue_state.Closed
        then (case iss_resolved_at i of None \<Rightarrow> Some now | Some t \<Rightarrow> Some t) else None) \<rparr>"

definition new_issue :: "issue_id \<Rightarrow> str \<Rightarrow> str \<Rightarrow> github_issue \<Rightarrow> github_link_state \<Rightarrow> issue_state \<Rightarrow> int option \<Rightarrow> issue_row" where
  "new_issue iid title repo g link state resolved_at =
    \<lparr> iss_id = iid, iss_title = title, iss_description = gh_description g, iss_state = state,
      iss_resolved_at = resolved_at, iss_merged_into = None, iss_repository = repo,
      iss_number = gh_number g, iss_github_id = Some (gh_id g), iss_url = gh_html_url g,
      iss_link = link, iss_github_updated_at = Some (gh_updated_at g), iss_reports_field = None,
      iss_reports_link = None \<rparr>"

definition ensure_destination :: "issue_id \<Rightarrow> issue_id \<Rightarrow> str \<Rightarrow> github_issue \<Rightarrow> issue_id tx" where
  "ensure_destination fresh source repo g =
    bind_tx (get_tx (\<lambda>db. (clock db, tracked_root repo g (issues db)))) (\<lambda>(now, existing).
    case existing of
      Some iid \<Rightarrow>
        bind_tx (lift_tx (fail_if (iid = source)
          (Conflict ''Duplicate target points back to the source issue''))) (\<lambda>_.
        bind_tx (update_issues (\<lambda>i. iss_id i = iid \<and>
            (case iss_github_updated_at i of None \<Rightarrow> True | Some t \<Rightarrow> t \<le> gh_updated_at g))
          (destination_row repo g now)) (\<lambda>_.
        return_tx iid))
    | None \<Rightarrow>
        let link = link_state_from (gh_state g); state = tracking link in
        bind_tx (insert_issue (new_issue fresh (gh_title g) repo g link state
          (if state = issue_state.Resolved then Some now else None))) (\<lambda>_.
        bind_tx (insert_audit_event None IssueCreate (Some fresh)
          (DObject [(''source'', DText (lit ''github_duplicate'')), (''github_number'', DInt (gh_number g))])) (\<lambda>_.
        return_tx fresh)))"

text \<open>The job is still about the issue: it has the GitHub issue the job was queued for, closed, and has not
  been merged.\<close>

definition source_is_current :: "duplicate_job \<Rightarrow> issue_row option \<Rightarrow> bool" where
  "source_is_current job row =
    (case row of
      None \<Rightarrow> False
    | Some i \<Rightarrow> iss_github_id i = Some (job_github_id job) \<and> iss_link i = github_link_state.Closed \<and>
        iss_merged_into i = None)"

definition moved_event :: "issue_id \<Rightarrow> issue_id \<Rightarrow> report_row \<Rightarrow> unit tx" where
  "moved_event source destination r =
    insert_audit_event None ReportUpdateIssue (Some (rpt_id r))
      (DObject [(''from'', DId source), (''to'', DId destination)])"

definition merge_issue :: "issue_id \<Rightarrow> issue_id \<Rightarrow> int \<Rightarrow> unit tx" where
  "merge_issue source destination number =
    bind_tx (get_tx (\<lambda>db. filter (\<lambda>r. rpt_issue r = Some source) (reports db))) (\<lambda>moved.
    bind_tx (update_reports (\<lambda>r. rpt_issue r = Some source)
      (\<lambda>r. r\<lparr> rpt_issue := Some destination, rpt_state := report_state.Confirmed \<rparr>)) (\<lambda>_.
    bind_tx (for_tx (moved_event source destination) moved) (\<lambda>_.
    bind_tx (get_tx clock) (\<lambda>now.
    bind_tx (update_issues (\<lambda>i. iss_id i = source)
      (\<lambda>i. i\<lparr> iss_merged_into := Some destination, iss_state := issue_state.Resolved,
        iss_resolved_at := (case iss_resolved_at i of None \<Rightarrow> Some now | Some t \<Rightarrow> Some t) \<rparr>)) (\<lambda>_.
    insert_audit_event None IssueMerge (Some source)
      (DObject [(''source'', DText (lit ''github_duplicate'')), (''into'', DId destination),
        (''github_number'', DInt number)]))))))"

definition check_canonical :: "(str \<Rightarrow> url option) \<Rightarrow> github_issue option \<Rightarrow> str result" where
  "check_canonical parse_url canonical =
    (case canonical of
      None \<Rightarrow> Ok []
    | Some g \<Rightarrow>
        bind_res (validate_issue_text (gh_title g) (gh_description g)) (\<lambda>_.
        ok_or (gh_repository parse_url g) (InvalidRequest ''GitHub returned an invalid duplicate target URL'')))"

definition duplicate_destination ::
    "issue_id \<Rightarrow> duplicate_job \<Rightarrow> str \<Rightarrow> github_issue option \<Rightarrow> issue_row option \<Rightarrow> issue_id option tx" where
  "duplicate_destination fresh job repo canonical row =
    (case (source_is_current job row, canonical) of
      (True, Some g) \<Rightarrow>
        bind_tx (lift_tx (fail_if (gh_id g = job_github_id job) (Conflict ''GitHub issue duplicates itself''))) (\<lambda>_.
        bind_tx (ensure_destination fresh (job_source job) repo g) (\<lambda>d.
        return_tx (Some d)))
    | _ \<Rightarrow> return_tx None)"

definition finish_github_duplicate ::
    "(str \<Rightarrow> url option) \<Rightarrow> issue_id \<Rightarrow> duplicate_job \<Rightarrow> github_issue option \<Rightarrow> issue_id option tx" where
  "finish_github_duplicate parse_url fresh job canonical =
    bind_tx (lift_tx (check_canonical parse_url canonical)) (\<lambda>repo.
    bind_tx (get_tx (\<lambda>db. list_ex (\<lambda>j. dup_source j = job_source job \<and> dup_lease j = Some (job_lease job))
      (duplicate_jobs db))) (\<lambda>lease_matches.
    if \<not> lease_matches then return_tx None
    else
      bind_tx (get_tx (\<lambda>db. find_issue (job_source job) (issues db))) (\<lambda>row.
      bind_tx (duplicate_destination fresh job repo canonical row) (\<lambda>destination.
      bind_tx (case destination of
          None \<Rightarrow> return_tx ()
        | Some d \<Rightarrow> merge_issue (job_source job) d (job_number job)) (\<lambda>_.
      bind_tx (set_duplicate_jobs (filter (\<lambda>j. \<not> (dup_source j = job_source job \<and>
        dup_lease j = Some (job_lease job))))) (\<lambda>_.
      return_tx destination))))))"

section \<open>Assigning reports to a GitHub issue\<close>

definition assignment_target :: "str \<Rightarrow> github_issue \<Rightarrow> db \<Rightarrow> issue_id option" where
  "assignment_target repo g db =
    (let live = (\<lambda>i. iss_state i \<noteq> issue_state.Rejected);
         direct = filter (\<lambda>i. live i \<and> tracks (Some (gh_id g)) repo (gh_number g) i) (issues db);
         aliased = List.map_filter (\<lambda>a. Option.bind (find_issue (als_issue a) (issues db))
           (\<lambda>i. if live i then Some i else None))
           (filter (\<lambda>a. (lower (als_repository a) = lower repo \<and> als_number a = gh_number g) \<or>
             als_github_id a = Some (gh_id g)) (aliases db))
     in deepest (List.map_filter (follow_merges MERGE_DEPTH live (issues db) 0) (direct @ aliased)))"

definition issue_create_details :: "github_issue \<Rightarrow> report_id list \<Rightarrow> detail" where
  "issue_create_details g ids =
    DObject [(''github_number'', DInt (gh_number g)), (''github_url'', DText (gh_html_url g)),
      (if length ids = 1 then (''report_id'', DId (hd ids)) else (''report_ids'', DList (map DId ids)))]"

definition assignment_issue :: "issue_id \<Rightarrow> github_issue \<Rightarrow> report_id list \<Rightarrow> str \<Rightarrow> int \<Rightarrow> (issue_id \<times> bool) tx" where
  "assignment_issue fresh g ids repo actor =
    bind_tx (get_tx (assignment_target repo g)) (\<lambda>existing.
    case existing of
      Some iid \<Rightarrow>
        bind_tx (get_tx (\<lambda>db. find (\<lambda>i. iss_id i = iid \<and> iss_state i \<noteq> issue_state.Rejected) (issues db))) (\<lambda>row.
        bind_tx (lift_tx (ok_or row (Database ''no rows returned''))) (\<lambda>i.
        bind_tx (lift_tx (fail_if (\<not> (iss_resolved_at i = None \<and>
            (iss_link i = github_link_state.Open \<or> iss_link i = github_link_state.Unknown)))
          (Conflict ''Tracked issue is not open''))) (\<lambda>_.
        return_tx (iid, False))))
    | None \<Rightarrow>
        bind_tx (insert_issue (new_issue fresh (trim (gh_title g)) repo g github_link_state.Open
          issue_state.Unresolved None)) (\<lambda>_.
        bind_tx (insert_audit_event (Some actor) IssueCreate (Some fresh) (issue_create_details g ids)) (\<lambda>_.
        return_tx (fresh, True))))"

text \<open>The checks, the sync in a transaction of its own, and the assignment in another. A failure of the
  assignment leaves what the sync committed.\<close>

definition assign_reports_to_github_issue ::
    "(str \<Rightarrow> url option) \<Rightarrow> issue_id \<Rightarrow> github_issue \<Rightarrow> report_id list \<Rightarrow> str \<Rightarrow> int \<Rightarrow>
      db \<Rightarrow> (issue_id \<times> bool) result \<times> db" where
  "assign_reports_to_github_issue parse_url fresh g report_ids repo actor db =
    (let ids = in_lock_order report_ids;
         checks = bind_res (fail_if (ids = []) (InvalidRequest ''Select a report'')) (\<lambda>_.
           bind_res (validate_issue_text (gh_title g) (gh_description g)) (\<lambda>_.
           fail_if (gh_state g \<noteq> github_issue_state.Open \<or> \<not> belongs_to_repository parse_url g repo)
             (Conflict ''GitHub issue is not open in this repository''))) in
     case checks of
       Inl e \<Rightarrow> (Err e, db)
     | Inr _ \<Rightarrow>
         (case run_tx (sync_github_issue parse_url repo g (Some actor) github_sync_source.Assignment) db of
           (Inl e, db1) \<Rightarrow> (Err e, db1)
         | (Inr _, db1) \<Rightarrow>
             run_tx (bind_tx (assignment_issue fresh g ids repo actor) (\<lambda>(iid, created).
               bind_tx (link_reports ids iid actor) (\<lambda>_.
               return_tx (iid, created)))) db1))"

section \<open>Every write keeps the tables right\<close>

lemma event_keeps: "tx_respects keeps_ok (insert_audit_event actor action ent details)"
  by (simp add: tx_respects_def keeps_ok_def insert_audit_event_Ok)

lemma set_duplicate_jobs_sound: "tx_respects sound (set_duplicate_jobs f)"
  by (auto simp: tx_respects_def set_duplicate_jobs_def sound_def explains_def db_ok_def tables_ok_def
      list.rel_refl)

lemma when_respects:
  "tx_relation R \<Longrightarrow> tx_respects R m \<Longrightarrow> tx_respects R (when_tx b m)"
  by (simp add: when_tx_def tx_relation.return_respects)

lemmas sound_when = when_respects [OF sound.tx_relation_axioms]

lemma sync_duplicate_job_sound: "tx_respects sound (sync_duplicate_job iid repo g inst)"
  unfolding sync_duplicate_job_def
  by (auto split: option.split intro!: set_duplicate_jobs_sound sound.return_respects sound.bind_respects
      sound.get_respects)

lemma synced_row_id [simp]:
  "iss_id (synced_row g link now i) = iss_id i"
  "iss_merged_into (synced_row g link now i) = iss_merged_into i"
  by (simp_all add: synced_row_def)

lemma apply_sync_sound: "tx_respects sound (apply_sync repo g actor source inst link row)"
  unfolding apply_sync_def
  by (intro sound.bind_respects sound_when sync_duplicate_job_sound sound.get_respects
      update_issues_sound silent_event_sound sound.return_respects) simp_all

lemma sync_github_issue_sound:
  "tx_respects sound (sync_github_issue_with_installation parse_url repo g actor source inst)"
  unfolding sync_github_issue_with_installation_def Let_def
  by (auto split: option.split intro!: sound.bind_respects sound.lift_respects sound.get_respects
      sound.return_respects apply_sync_sound)

lemma mark_github_issue_unavailable_sound:
  "tx_respects sound (mark_github_issue_unavailable repo number gid state source)"
  unfolding mark_github_issue_unavailable_def
  by (auto split: option.split intro!: sound.bind_respects sound.lift_respects sound.get_respects
      sound.return_respects sound_when update_issues_sound silent_event_sound)

lemma record_github_reports_link_sound: "tx_respects sound (record_github_reports_link iid gid field link)"
  unfolding record_github_reports_link_def Let_def
  by (auto intro!: sound.bind_respects sound.lift_respects sound.get_respects update_issues_sound)

lemma replaced_row_id [simp]:
  "iss_id (replaced_row repo g now i) = iss_id i"
  "iss_merged_into (replaced_row repo g now i) = iss_merged_into i"
  by (simp_all add: replaced_row_def)

lemma replace_github_issue_sound: "tx_respects sound (replace_github_issue parse_url iid repo g actor)"
  unfolding replace_github_issue_def
  by (intro sound.bind_respects sound.lift_respects sound.get_respects insert_alias_sound
      update_issues_sound silent_event_sound) simp_all

lemma destination_row_id [simp]:
  "iss_id (destination_row repo g now i) = iss_id i"
  "iss_merged_into (destination_row repo g now i) = iss_merged_into i"
  by (simp_all add: destination_row_def)

lemma ensure_destination_sound: "tx_respects sound (ensure_destination fresh source repo g)"
  unfolding ensure_destination_def Let_def
  by (auto split: option.split prod.split intro!: sound.bind_respects sound.lift_respects sound.get_respects
      sound.return_respects update_issues_sound insert_issue_sound silent_event_sound)

lemma assignment_issue_sound: "tx_respects sound (assignment_issue fresh g ids repo actor)"
  unfolding assignment_issue_def
  by (auto split: option.split intro!: sound.bind_respects sound.lift_respects sound.get_respects
      sound.return_respects insert_issue_sound silent_event_sound)

lemma assign_reports_to_github_issue_sound:
  "sound db (snd (assign_reports_to_github_issue parse_url fresh g ids repo actor db))"
proof -
  have sync: "sound db (snd (run_tx (sync_github_issue parse_url repo g (Some actor)
      github_sync_source.Assignment) db))"
    unfolding sync_github_issue_def by (intro sound.run_respects sync_github_issue_sound)
  have link: "sound d (snd (run_tx (bind_tx (assignment_issue fresh g (in_lock_order ids) repo actor)
      (\<lambda>(iid, created). bind_tx (link_reports (in_lock_order ids) iid actor)
        (\<lambda>_. return_tx (iid, created)))) d))" for d
    by (auto split: prod.split intro!: sound.run_respects sound.bind_respects assignment_issue_sound
        link_reports_sound sound.return_respects)
  show ?thesis
    unfolding assign_reports_to_github_issue_def Let_def
    using sync link by (auto split: sum.split prod.split intro: sound.refl sound.trans)
qed

lemma claim_github_duplicate_sound: "tx_respects sound (claim_github_duplicate lease)"
  unfolding claim_github_duplicate_def
  by (auto split: option.split prod.split intro!: sound.bind_respects sound.get_respects sound.return_respects
      set_duplicate_jobs_sound)

lemma retry_github_duplicate_sound: "tx_respects sound (retry_github_duplicate job)"
  unfolding retry_github_duplicate_def
  by (intro sound.bind_respects sound.get_respects set_duplicate_jobs_sound)

text \<open>The merge itself keeps the tables right. It is the one write whose events do not account for what
  it does to the reports.\<close>

lemma merge_reports_keeps:
  "tx_respects keeps_ok (update_reports (\<lambda>r. rpt_issue r = Some source)
    (\<lambda>r. r\<lparr> rpt_issue := Some destination, rpt_state := s \<rparr>))"
proof
  fix db u db'
  assume upd: "update_reports (\<lambda>r. rpt_issue r = Some source)
    (\<lambda>r. r\<lparr> rpt_issue := Some destination, rpt_state := s \<rparr>) db = Ok (u, db')"
  show "keeps_ok db db'" unfolding keeps_ok_def
  proof
    assume ok: "db_ok db"
    show "db_ok db'"
      by (rule update_reports_keeps [OF _ _ _ ok upd]) (auto dest: db_ok_row(3) [OF ok])
  qed
qed

lemma merge_issue_keeps: "tx_respects keeps_ok (merge_issue source destination number)"
  unfolding merge_issue_def
  by (intro keeps_ok.bind_respects keeps_ok.get_respects merge_reports_keeps keeps_ok.for_respects
      event_keeps sound_keeps [OF update_issues_sound]) (simp_all add: moved_event_def event_keeps)

lemma duplicate_destination_sound: "tx_respects sound (duplicate_destination fresh job repo canonical row)"
  unfolding duplicate_destination_def
  by (auto split: option.split bool.split intro!: sound.bind_respects sound.lift_respects
      sound.return_respects ensure_destination_sound)

lemma finish_github_duplicate_keeps: "tx_respects keeps_ok (finish_github_duplicate parse_url fresh job canonical)"
  unfolding finish_github_duplicate_def
  by (auto split: option.split intro!: keeps_ok.bind_respects keeps_ok.get_respects keeps_ok.lift_respects
      keeps_ok.return_respects merge_issue_keeps sound_keeps [OF duplicate_destination_sound]
      sound_keeps [OF set_duplicate_jobs_sound])

end
