(* ===== verification/Stack_Match.thy ===== *)
theory Stack_Match
  imports Report_Ops
begin

text \<open>
  What the stack index does to the tracker, \<open>match_indexed_report\<close> of
  \<open>src/src/infrastructure/database/admin/stack_signatures.rs\<close>: a report whose signature one open issue has
  is put on that issue, in the name of no maintainer. The reports that share the signature are an argument;
  \<open>Stack_Index\<close> finds them.
\<close>

section \<open>The match\<close>

text \<open>The issues a report with the signature can go to, by the reports that already are on them; the
  statement stops at two.\<close>

definition open_for_match :: "issue_row \<Rightarrow> bool" where
  "open_for_match i \<longleftrightarrow>
    iss_state i \<noteq> issue_state.Rejected \<and> iss_merged_into i = None \<and> iss_resolved_at i = None \<and>
    iss_link i = github_link_state.Open"

definition matching_issue :: "report_id set \<Rightarrow> issue_row list \<Rightarrow> report_row \<Rightarrow> issue_id option" where
  "matching_issue same rows r =
    (if rpt_id r \<in> same \<and> rpt_storage r = storage_state.Ready \<and> rpt_state r = report_state.Confirmed
     then Option.bind (rpt_issue r) (\<lambda>iid. Option.bind (find_issue iid rows)
       (\<lambda>i. if open_for_match i then Some iid else None))
     else None)"

definition matching_issues :: "report_id set \<Rightarrow> db \<Rightarrow> issue_id list" where
  "matching_issues same db = take 2 (remdups (List.map_filter (matching_issue same (issues db)) (reports db)))"

definition matchable :: "report_id \<Rightarrow> report_row \<Rightarrow> bool" where
  "matchable rid r \<longleftrightarrow> rpt_id r = rid \<and> rpt_issue r = None \<and> rpt_state r \<noteq> report_state.Rejected \<and>
    rpt_storage r = storage_state.Ready"

text \<open>The update that finds no row writes no event.\<close>

definition assign_matched_report :: "report_id \<Rightarrow> issue_id \<Rightarrow> str \<Rightarrow> unit tx" where
  "assign_matched_report rid iid fingerprint =
    bind_tx (get_tx (report_of rid)) (\<lambda>previous.
    bind_tx (get_tx (\<lambda>db. list_ex (matchable rid) (reports db))) (\<lambda>assigned.
    bind_tx (update_reports (matchable rid)
      (\<lambda>r. r\<lparr> rpt_issue := Some iid, rpt_state := report_state.Confirmed \<rparr>)) (\<lambda>_.
    when_tx assigned
      (bind_tx (insert_audit_event None ReportUpdateIssue (Some rid)
        (DObject [(''from'', DNull), (''to'', DId iid), (''source'', DText (lit ''stack_signature'')),
          (''signature'', DText fingerprint)])) (\<lambda>_.
       case previous of
         None \<Rightarrow> return_tx ()
       | Some p \<Rightarrow> when_tx (rpt_state p \<noteq> report_state.Confirmed)
           (insert_audit_event None ReportUpdateState (Some rid)
             (DObject [(''from'', DState (rpt_state p)), (''to'', DState report_state.Confirmed),
               (''source'', DText (lit ''stack_signature''))])))))))"

datatype match_outcome = On_issue issue_id | Ambiguous | Unmatched

definition match_report :: "report_id \<Rightarrow> report_id set \<Rightarrow> str \<Rightarrow> match_outcome tx" where
  "match_report rid same fingerprint =
    bind_tx (get_tx (matching_issues same)) (\<lambda>matches.
    case matches of
      [] \<Rightarrow> return_tx Unmatched
    | [iid] \<Rightarrow> bind_tx (assign_matched_report rid iid fingerprint) (\<lambda>_. return_tx (On_issue iid))
    | _ \<Rightarrow> return_tx Ambiguous)"

section \<open>What it keeps\<close>

lemma matching_issues_open:
  assumes "iid \<in> set (matching_issues same db)" "db_ok db"
  shows "\<exists>i. find_issue iid (issues db) = Some i \<and> open_for_match i \<and> iss_state i \<noteq> issue_state.Resolved"
proof -
  obtain r where r: "r \<in> set (reports db)" "matching_issue same (issues db) r = Some iid"
    using assms(1) by (auto simp: matching_issues_def map_filter_def dest!: in_set_takeD)
  then obtain i where i: "rpt_issue r = Some iid" "rpt_state r = report_state.Confirmed"
    "find_issue iid (issues db) = Some i" "open_for_match i"
    by (auto simp: matching_issue_def bind_eq_Some_conv split: if_splits)
  have "follows (issue_state_of (issues db)) r"
    using assms(2) r(1) by (simp add: db_ok_def list_all_iff)
  then show ?thesis using i by (auto simp: follows_def issue_state_of_def)
qed

lemma report_of_unique:
  assumes "db_ok db" "p \<in> set (reports db)"
  shows "report_of (rpt_id p) db = Some p"
proof (cases "report_of (rpt_id p) db")
  case None
  then show ?thesis using assms(2) by (auto simp: report_of_def find_None_iff)
next
  case (Some q)
  then have "q \<in> set (reports db)" "rpt_id q = rpt_id p" by (auto simp: report_of_def dest: find_Some_in)
  then show ?thesis using Some report_row_unique [OF db_ok_tables [OF assms(1)] _ assms(2)] by blast
qed

lemma assign_matched_step:
  assumes ok: "db_ok db" and p: "p \<in> set (reports db)" "matchable rid p"
    and s: "issue_state_of (issues db) iid = Some s" "s \<noteq> issue_state.Resolved"
  shows "\<exists>db'. assign_matched_report rid iid fingerprint db = Ok ((), db') \<and> row_step p (linked_row s iid) db db'"
proof -
  have id: "rpt_id p = rid" and free: "rpt_issue p = None" "rpt_state p \<noteq> report_state.Rejected"
    "rpt_storage p = storage_state.Ready" using p(2) by (auto simp: matchable_def)
  have target: "linked_state s = report_state.Confirmed" using s(2) by (simp add: linked_state_def)
  let ?f = "\<lambda>r. r\<lparr> rpt_issue := Some iid, rpt_state := report_state.Confirmed \<rparr>"
  let ?es = "event None ReportUpdateIssue (Some rid) (DObject [(''from'', DNull), (''to'', DId iid),
      (''source'', DText (lit ''stack_signature'')), (''signature'', DText fingerprint)]) #
    (if rpt_state p \<noteq> report_state.Confirmed then [event None ReportUpdateState (Some rid)
      (DObject [(''from'', DState (rpt_state p)), (''to'', DState report_state.Confirmed),
        (''source'', DText (lit ''stack_signature''))])] else [])"
  have fol: "follows (issue_state_of (issues db)) (?f p)" using s by (simp add: follows_def)
  have written: "before_report_write (issues db) (?f p) = linked_row s iid p"
    unfolding before_write_followed [OF fol] linked_row_def target ..
  have exists: "find_issue iid (issues db) \<noteq> None" using s(1) by (auto simp: issue_state_of_def)
  have row: "report_row_ok (issues db) (before_report_write (issues db) (?f p))"
    using exists by (simp add: before_report_write_ok)
  have upd: "update_reports (matchable rid) ?f db = Ok ((), one_row p ?f db)"
    by (rule one_row_update [OF ok p(1)]) (use p id row in \<open>auto simp: matchable_def\<close>)
  have "row_step p (linked_row s iid) db (add_events ?es (one_row p ?f db))"
  proof (rule row_step_one_row [OF ok p(1) free(3)])
    show "report_row_ok (issues db) (before_report_write (issues db) (?f p))" by (rule row)
    show "replay (rpt_id p) ?es (report_view p) = report_view (before_report_write (issues db) (?f p))"
      unfolding written using id free target by (auto simp: report_view_def)
  qed (use id in \<open>auto simp: written\<close>)
  moreover have prev: "report_of rid db = Some p"
    using report_of_unique [OF ok p(1)] id by simp
  moreover have "list_ex (matchable rid) (reports db)" using p by (auto simp: list_ex_iff)
  then have "assign_matched_report rid iid fingerprint db = Ok ((), add_events ?es (one_row p ?f db))"
    using upd prev by (simp add: assign_matched_report_def tx_run event_writes when_tx_def add_events_def)
  ultimately show ?thesis by blast
qed

lemma nothing_matched:
  assumes "\<not> list_ex (matchable rid) (reports db)"
  shows "assign_matched_report rid iid fingerprint db = Ok ((), db)"
proof -
  have "\<not> matchable rid r" if "r \<in> set (reports db)" for r using assms that by (auto simp: list_ex_iff)
  then have "update_reports (matchable rid) f db = Ok ((), db)" for f
    by (auto simp: update_reports_def Let_def list_ex_iff fail_if_def cong: map_cong)
  then show ?thesis using assms by (simp add: assign_matched_report_def tx_run when_tx_def)
qed

lemma assigned_rows:
  assumes "db_ok db" "issue_state_of (issues db) iid = Some st" "st \<noteq> issue_state.Resolved"
  shows "\<exists>db'. assign_matched_report rid iid fingerprint db = Ok ((), db') \<and> issues db' = issues db \<and>
    reports db' = map (\<lambda>r. if matchable rid r
      then drop_fix_of_unresolved_report (r\<lparr> rpt_issue := Some iid, rpt_state := report_state.Confirmed \<rparr>) else r)
      (reports db)"
proof (cases "list_ex (matchable rid) (reports db)")
  case True
  then obtain p where p: "p \<in> set (reports db)" "matchable rid p" by (auto simp: list_ex_iff)
  obtain db' where db': "assign_matched_report rid iid fingerprint db = Ok ((), db')" "row_step p (linked_row st iid) db db'"
    using assign_matched_step [OF assms(1) p assms(2,3)] by blast
  have "matchable rid r \<longleftrightarrow> rpt_id r = rpt_id p" if "r \<in> set (reports db)" for r
    using report_row_unique [OF db_ok_tables [OF assms(1)] that p(1)] p(2) by (auto simp: matchable_def)
  then show ?thesis
    using db' assms(3) by (auto simp: row_step_def linked_row_def linked_state_def)
next
  case False
  then have "map (\<lambda>r. if matchable rid r then g r else r) (reports db) = reports db" for g
    by (auto simp: list_ex_iff intro: map_idI)
  then show ?thesis using nothing_matched [OF False] by simp
qed

text \<open>What a match does, on every branch; it never fails.\<close>

lemma match_report_cases:
  assumes "db_ok db"
  shows "\<exists>out db'. match_report rid same fingerprint db = Ok (out, db') \<and>
    (db' = db \<or> (\<exists>iid p s. out = On_issue iid \<and> p \<in> set (reports db) \<and> matchable rid p \<and>
      issue_state_of (issues db) iid = Some s \<and> row_step p (linked_row s iid) db db'))"
proof (cases "\<exists>iid. matching_issues same db = [iid]")
  case True
  then obtain iid where m: "matching_issues same db = [iid]" by blast
  then have "iid \<in> set (matching_issues same db)" by simp
  then obtain i where i: "find_issue iid (issues db) = Some i" "iss_state i \<noteq> issue_state.Resolved"
    using matching_issues_open [OF _ assms] by blast
  then have s: "issue_state_of (issues db) iid = Some (iss_state i)" by (simp add: issue_state_of_def)
  show ?thesis
  proof (cases "list_ex (matchable rid) (reports db)")
    case True
    then obtain p where p: "p \<in> set (reports db)" "matchable rid p" by (auto simp: list_ex_iff)
    show ?thesis
      using assign_matched_step [OF assms p s i(2), of fingerprint] m p s by (auto simp: match_report_def tx_run)
  next
    case False
    then show ?thesis using m nothing_matched by (auto simp: match_report_def tx_run)
  qed
next
  case False
  then have "\<exists>out. match_report rid same fingerprint db = Ok (out, db)"
    by (auto simp: match_report_def tx_run split: list.split)
  then show ?thesis by blast
qed

lemma match_report_sound: "tx_respects sound (match_report rid same fingerprint)"
proof
  fix db out db' assume run: "match_report rid same fingerprint db = Ok (out, db')"
  show "sound db db'" unfolding sound_def
  proof
    assume ok: "db_ok db"
    show "db_ok db' \<and> explains db db'"
      using match_report_cases [OF ok, of rid same fingerprint] run ok by (auto simp: row_step_def explains_refl)
  qed
qed

end
