(* ===== verification/Tracker.thy ===== *)
theory Tracker
  imports Github_Sync Stack_Match
begin

text \<open>
  The tracker as a state machine: every committed transaction of the administration on reports and issues
  is a step. What every step keeps is kept by every run, in whatever order the requests, the webhooks and
  the worker's jobs arrive. The stack index that puts a new report on the issue of its signature is a step too.
  The submission and the expiry of reports add and delete rows; \<open>Ingestion\<close> models the first, and they are
  not steps here.
\<close>

section \<open>Steps\<close>

text \<open>The steps the audit log accounts for.\<close>

inductive logged_step :: "db \<Rightarrow> db \<Rightarrow> bool" where
  assign: "assign_reports_to_issue ids iid actor db = Ok (u, db') \<Longrightarrow> logged_step db db'"
| unlink: "unlink_report_from_issue iid rid actor db = Ok (u, db') \<Longrightarrow> logged_step db db'"
| set_state: "set_report_state rid target actor reason db = Ok (s, db') \<Longrightarrow> logged_step db db'"
| resolve: "resolve_reports_with_fix ids fx actor db = Ok (n, db') \<Longrightarrow> logged_step db db'"
| act_on: "apply_report_state_action ids action actor reason db = Ok (n, db') \<Longrightarrow> logged_step db db'"
| block: "block_report_source rid actor remove db = Ok (n, db') \<Longrightarrow> logged_step db db'"
| unblock: "unblock_report_source rid actor db = Ok (u, db') \<Longrightarrow> logged_step db db'"
| reject: "reject_issue iid actor act db = Ok (n, db') \<Longrightarrow> logged_step db db'"
| github_assign: "assign_reports_to_github_issue parse_url fresh g ids repo actor db = (r, db') \<Longrightarrow>
    logged_step db db'"
| sync: "sync_github_issue_with_installation parse_url repo g actor_opt source inst db = Ok (x, db') \<Longrightarrow>
    logged_step db db'"
| unavailable: "mark_github_issue_unavailable repo number gid state source db = Ok (x, db') \<Longrightarrow>
    logged_step db db'"
| replace: "replace_github_issue parse_url iid repo g actor db = Ok (u, db') \<Longrightarrow> logged_step db db'"
| reports_link: "record_github_reports_link iid gid field link db = Ok (u, db') \<Longrightarrow> logged_step db db'"
| claim: "claim_github_duplicate lease db = Ok (job, db') \<Longrightarrow> logged_step db db'"
| retry: "retry_github_duplicate job db = Ok (u, db') \<Longrightarrow> logged_step db db'"
| stack_match: "match_report rid same fingerprint db = Ok (x, db') \<Longrightarrow> logged_step db db'"
| tick: "logged_step db (db\<lparr> clock := clock db + int d \<rparr>)"

inductive step :: "db \<Rightarrow> db \<Rightarrow> bool" where
  logged: "logged_step db db' \<Longrightarrow> step db db'"
| merge: "finish_github_duplicate parse_url fresh job canonical db = Ok (x, db') \<Longrightarrow> step db db'"

inductive_cases stepE: "step db db'"

lemma assign_github_sound_eq:
  "assign_reports_to_github_issue parse_url fresh g ids repo actor db = (r, db') \<Longrightarrow> sound db db'"
  by (metis assign_reports_to_github_issue_sound snd_conv)

lemma tick_sound: "sound db (db\<lparr> clock := c \<rparr>)"
  by (simp add: sound_def db_ok_def tables_ok_def explains_def list.rel_refl)

lemma logged_step_sound: "logged_step db db' \<Longrightarrow> sound db db'"
  by (induction rule: logged_step.induct)
    (erule tx_respectsD [OF assign_reports_sound] tx_respectsD [OF unlink_report_from_issue_sound]
      tx_respectsD [OF set_report_state_sound] tx_respectsD [OF resolve_reports_with_fix_sound]
      tx_respectsD [OF apply_report_state_action_sound] tx_respectsD [OF block_report_source_sound]
      tx_respectsD [OF unblock_report_source_sound] tx_respectsD [OF reject_issue_sound]
      assign_github_sound_eq tx_respectsD [OF sync_github_issue_sound]
      tx_respectsD [OF mark_github_issue_unavailable_sound] tx_respectsD [OF replace_github_issue_sound]
      tx_respectsD [OF record_github_reports_link_sound] tx_respectsD [OF claim_github_duplicate_sound]
      tx_respectsD [OF retry_github_duplicate_sound] tx_respectsD [OF match_report_sound] | rule tick_sound)+

section \<open>Merges\<close>

definition merge_edges :: "issue_row list \<Rightarrow> (issue_id \<times> issue_id) set" where
  "merge_edges rows = {(a, b). \<exists>i \<in> set rows. iss_id i = a \<and> iss_merged_into i = Some b}"

definition same_issues :: "db \<Rightarrow> db \<Rightarrow> bool" where
  "same_issues db db' \<longleftrightarrow> issues db' = issues db"

definition same_merges :: "db \<Rightarrow> db \<Rightarrow> bool" where
  "same_merges db db' \<longleftrightarrow> merge_edges (issues db') = merge_edges (issues db)"

interpretation same_issues: tx_relation same_issues
  by standard (simp_all add: same_issues_def)

interpretation same_merges: tx_relation same_merges
  by standard (simp_all add: same_merges_def)

lemma same_issues_merges: "tx_respects same_issues m \<Longrightarrow> tx_respects same_merges m"
  by (auto simp: tx_respects_def same_issues_def same_merges_def)

lemma update_reports_issues: "tx_respects same_issues (update_reports P f)"
  by (auto simp: tx_respects_def same_issues_def update_reports_Ok)

lemma event_issues: "tx_respects same_issues (insert_audit_event actor action ent details)"
  by (simp add: tx_respects_def same_issues_def insert_audit_event_Ok)

lemma set_jobs_issues: "tx_respects same_issues (set_duplicate_jobs f)"
  by (simp add: tx_respects_def same_issues_def set_duplicate_jobs_def)

lemma set_limits_issues: "tx_respects same_issues (set_source_limits f)"
  by (simp add: tx_respects_def same_issues_def set_source_limits_def)

lemma insert_alias_issues: "tx_respects same_issues (insert_alias a)"
  by (auto simp: tx_respects_def same_issues_def insert_alias_def result_simps)

lemma when_issues: "tx_respects same_issues m \<Longrightarrow> tx_respects same_issues (when_tx b m)"
  by (rule when_respects [OF same_issues.tx_relation_axioms])

lemmas same_issues_intros =
  same_issues.bind_respects same_issues.get_respects same_issues.lift_respects same_issues.return_respects
  same_issues.for_respects update_reports_issues event_issues set_jobs_issues set_limits_issues
  insert_alias_issues when_issues

lemma audit_issues: "tx_respects same_issues (audit_report_state_change rid actor old to reason)"
  by (simp add: audit_state_eq event_issues)

lemma follow_issues: "tx_respects same_issues (follow_issue_state_on_issue p)"
  by (auto simp: follow_issue_state_on_issue_def move_issue_reports_def follow_event_def
      intro!: same_issues_intros split: prod.split)

lemma update_issues_rows:
  "update_issues P f db = Ok (u, db') \<Longrightarrow> issues db' = map (\<lambda>i. if P i then f i else i) (issues db)"
  using tx_respectsD [OF same_issues.for_respects [OF follow_issues]]
  by (fastforce simp: update_issues_def result_simps store_issues_Ok same_issues_def split: if_splits)

lemma merge_edges_map_iff:
  assumes "\<And>i. iss_id (h i) = iss_id i"
  shows "(a, b) \<in> merge_edges (map h rows) \<longleftrightarrow>
    (\<exists>i \<in> set rows. iss_id i = a \<and> iss_merged_into (h i) = Some b)"
  by (auto simp: merge_edges_def assms)

lemma merge_edges_map:
  assumes "\<And>i. iss_id (g i) = iss_id i" and "\<And>i. iss_merged_into (g i) = iss_merged_into i"
  shows "merge_edges (map g rows) = merge_edges rows"
  by (auto simp: merge_edges_def assms)

lemma update_issues_merges:
  assumes "\<And>i. iss_id (f i) = iss_id i" and "\<And>i. iss_merged_into (f i) = iss_merged_into i"
  shows "tx_respects same_merges (update_issues P f)"
proof
  fix db u db'
  assume "update_issues P f db = Ok (u, db')"
  from update_issues_rows [OF this] show "same_merges db db'"
    by (simp add: same_merges_def merge_edges_map assms)
qed

lemma insert_issue_merges: "iss_merged_into i = None \<Longrightarrow> tx_respects same_merges (insert_issue i)"
  by (auto simp: tx_respects_def insert_issue_def result_simps store_issues_Ok same_merges_def
      merge_edges_def split: if_splits)

lemma when_merges: "tx_respects same_merges m \<Longrightarrow> tx_respects same_merges (when_tx b m)"
  by (rule when_respects [OF same_merges.tx_relation_axioms])

lemmas same_merges_intros =
  same_merges.bind_respects same_merges.get_respects same_merges.lift_respects same_merges.return_respects
  same_merges.for_respects update_issues_merges insert_issue_merges when_merges
  same_issues_merges [OF update_reports_issues] same_issues_merges [OF event_issues]
  same_issues_merges [OF set_jobs_issues] same_issues_merges [OF set_limits_issues]
  same_issues_merges [OF insert_alias_issues] same_issues_merges [OF audit_issues]

lemma link_reports_merges: "tx_respects same_merges (link_reports ids iid actor)"
  unfolding link_reports_def link_report_def Let_def
  by (auto intro!: same_merges_intros)

lemma assign_merges: "tx_respects same_merges (assign_reports_to_issue ids iid actor)"
  unfolding assign_reports_to_issue_def by (intro same_merges_intros link_reports_merges)

lemma unlink_merges: "tx_respects same_merges (unlink_report_from_issue iid rid actor)"
  unfolding unlink_report_from_issue_def unlink_report_def by (intro same_merges_intros)

lemma set_state_merges: "tx_respects same_merges (set_report_state rid target actor reason)"
  unfolding set_report_state_def settle_target_def
  by (auto intro!: same_merges_intros split: option.split)

lemma resolve_merges: "tx_respects same_merges (resolve_reports_with_fix ids fx actor)"
  unfolding resolve_reports_with_fix_def apply_fix_def Let_def
  by (auto intro!: same_merges_intros split: prod.split)

lemma act_on_merges: "tx_respects same_merges (apply_report_state_action ids action actor reason)"
  unfolding apply_report_state_action_def apply_change_def unlink_report_def Let_def
  by (auto intro!: same_merges_intros split: prod.split change.split)

lemma block_merges: "tx_respects same_merges (block_report_source rid actor remove)"
  unfolding block_report_source_def reject_triage_of_source_def block_event_def
  by (auto intro!: same_merges_intros)

lemma unblock_merges: "tx_respects same_merges (unblock_report_source rid actor)"
  unfolding unblock_report_source_def by (auto intro!: same_merges_intros split: prod.split)

lemma reject_merges: "tx_respects same_merges (reject_issue iid actor act)"
  unfolding reject_issue_def reject_issue_reports_def reject_event_def Let_def
  by (auto intro!: same_merges_intros split: prod.split)

lemma sync_merges: "tx_respects same_merges (sync_github_issue_with_installation parse_url repo g actor_opt source inst)"
  unfolding sync_github_issue_with_installation_def apply_sync_def sync_duplicate_job_def Let_def
  by (auto intro!: same_merges_intros split: option.split)

lemma unavailable_merges: "tx_respects same_merges (mark_github_issue_unavailable repo number gid state source)"
  unfolding mark_github_issue_unavailable_def by (auto intro!: same_merges_intros split: option.split)

lemma replace_merges: "tx_respects same_merges (replace_github_issue parse_url iid repo g actor)"
  unfolding replace_github_issue_def by (intro same_merges_intros) simp_all

lemma reports_link_merges: "tx_respects same_merges (record_github_reports_link iid gid field link)"
  unfolding record_github_reports_link_def Let_def by (auto intro!: same_merges_intros)

lemma claim_merges: "tx_respects same_merges (claim_github_duplicate lease)"
  unfolding claim_github_duplicate_def by (auto intro!: same_merges_intros split: option.split prod.split)

lemma retry_merges: "tx_respects same_merges (retry_github_duplicate job)"
  unfolding retry_github_duplicate_def by (intro same_merges_intros)

lemma stack_match_merges: "tx_respects same_merges (match_report rid same fingerprint)"
  unfolding match_report_def assign_matched_report_def
  by (auto split: list.split option.split intro!: same_merges_intros)

lemma assignment_issue_merges: "tx_respects same_merges (assignment_issue fresh g ids repo actor)"
  unfolding assignment_issue_def
  by (auto split: option.split intro!: same_merges_intros simp: new_issue_def)

lemma assign_github_merges:
  assumes "assign_reports_to_github_issue parse_url fresh g ids repo actor db = (r, db')"
  shows "same_merges db db'"
proof -
  have sync: "same_merges db (snd (run_tx (sync_github_issue parse_url repo g (Some actor)
      github_sync_source.Assignment) db))"
    unfolding sync_github_issue_def by (intro same_merges.run_respects sync_merges)
  have link: "same_merges d (snd (run_tx (bind_tx (assignment_issue fresh g (in_lock_order ids) repo actor)
      (\<lambda>(iid, created). bind_tx (link_reports (in_lock_order ids) iid actor)
        (\<lambda>_. return_tx (iid, created)))) d))" for d
    by (auto split: prod.split intro!: same_merges.run_respects same_merges.bind_respects
        assignment_issue_merges link_reports_merges same_merges.return_respects)
  have "same_merges db (snd (assign_reports_to_github_issue parse_url fresh g ids repo actor db))"
    unfolding assign_reports_to_github_issue_def Let_def
    using sync link by (auto split: sum.split prod.split intro: same_merges.refl same_merges.trans)
  with assms show ?thesis by simp
qed

lemma logged_step_merges: "logged_step db db' \<Longrightarrow> same_merges db db'"
  by (induction rule: logged_step.induct)
    (erule tx_respectsD [OF assign_merges]
      tx_respectsD [OF unlink_merges]
      tx_respectsD [OF set_state_merges]
      tx_respectsD [OF resolve_merges]
      tx_respectsD [OF act_on_merges]
      tx_respectsD [OF block_merges]
      tx_respectsD [OF unblock_merges]
      tx_respectsD [OF reject_merges]
      tx_respectsD [OF sync_merges]
      tx_respectsD [OF unavailable_merges]
      tx_respectsD [OF replace_merges]
      tx_respectsD [OF reports_link_merges]
      tx_respectsD [OF claim_merges]
      tx_respectsD [OF retry_merges] tx_respectsD [OF stack_match_merges] assign_github_merges
      | simp add: same_merges_def)+

section \<open>The merge of a duplicate\<close>

lemma follow_merges_root:
  "follow_merges fuel passes rows depth i = Some (x, d) \<Longrightarrow> i \<in> set rows \<Longrightarrow>
    \<exists>j \<in> set rows. iss_id j = x \<and> iss_merged_into j = None"
proof (induction fuel arbitrary: depth i)
  case 0
  then show ?case by (auto simp: follow_merges.simps [of 0] split: option.splits)
next
  case (Suc n)
  then show ?case
    by (auto simp: follow_merges.simps [of "Suc n"] find_issue_def split: option.splits if_splits
        dest: find_Some_in)
qed

lemma deepest_in: "deepest ends = Some x \<Longrightarrow> \<exists>d. (x, d) \<in> set ends"
proof -
  assume "deepest ends = Some x"
  then obtain d rest where "sort_key (\<lambda>(_, d). - int d) ends = (x, d) # rest"
    by (auto simp: deepest_def split: list.splits)
  then have "(x, d) \<in> set (sort_key (\<lambda>(_, d). - int d) ends)" by simp
  then show ?thesis by auto
qed

lemma tracked_root_root:
  assumes "tracked_root repo g rows = Some x"
  shows "\<exists>j \<in> set rows. iss_id j = x \<and> iss_merged_into j = None"
proof -
  from deepest_in [OF assms [unfolded tracked_root_def]] obtain d i where
    "i \<in> set rows" "follow_merges MERGE_DEPTH (\<lambda>_. True) rows 0 i = Some (x, d)"
    by (auto simp: set_map_filter_eq)
  then show ?thesis using follow_merges_root by blast
qed

text \<open>The destination of a merge: an issue other than the source that has not been merged itself.\<close>

lemma ensure_destination_root:
  assumes src: "find_issue source (issues db) = Some s"
    and run: "ensure_destination fresh source repo g db = Ok (d, db')"
  shows "d \<noteq> source \<and> same_merges db db' \<and> (\<exists>j \<in> set (issues db'). iss_id j = d \<and> iss_merged_into j = None)"
proof (cases "tracked_root repo g (issues db)")
  case (Some x)
  let ?P = "\<lambda>i. iss_id i = x \<and> (case iss_github_updated_at i of None \<Rightarrow> True | Some t \<Rightarrow> t \<le> gh_updated_at g)"
  from run Some have d: "d = x" "x \<noteq> source"
    and upd: "update_issues ?P (destination_row repo g (clock db)) db = Ok ((), db')"
    by (auto simp: ensure_destination_def tx_run bind_res_eq_Ok fail_if_eq_Ok)
  have "tx_respects same_merges (update_issues ?P (destination_row repo g (clock db)))"
    by (rule update_issues_merges) simp_all
  moreover from tracked_root_root [OF Some] obtain j where
    j: "j \<in> set (issues db)" "iss_id j = x" "iss_merged_into j = None" by blast
  moreover have "(if ?P j then destination_row repo g (clock db) j else j) \<in> set (issues db')"
    unfolding update_issues_rows [OF upd] set_map using j(1) by (rule imageI)
  ultimately show ?thesis
    using d tx_respectsD [of same_merges "update_issues ?P (destination_row repo g (clock db))" db "()" db'] upd
    by (intro conjI bexI [of _ "if ?P j then destination_row repo g (clock db) j else j"]) auto
next
  case None
  let ?i = "new_issue fresh (gh_title g) repo g (link_state_from (gh_state g)) (tracking (link_state_from (gh_state g)))
    (if tracking (link_state_from (gh_state g)) = issue_state.Resolved then Some (clock db) else None)"
  from run None obtain db1 es where d: "d = fresh" and ins: "insert_issue ?i db = Ok ((), db1)"
    and db': "db' = add_events es db1"
    by (auto simp: ensure_destination_def tx_run bind_res_eq_Ok Let_def insert_audit_event_Ok)
  have rows: "issues db' = issues db @ [?i]" and keys: "issues_stored_ok (issues db @ [?i])"
    using ins db' by (auto simp: insert_issue_def tx_run store_issues_Ok split: if_splits)
  from src have "s \<in> set (issues db)" "iss_id s = source" by (auto simp: find_issue_def dest: find_Some_in)
  then have "source \<noteq> fresh"
    using keys by (auto simp: issues_stored_ok_def issue_keys_ok_def new_issue_def image_iff)
  moreover have "same_merges db db'" by (auto simp: same_merges_def merge_edges_def rows new_issue_def)
  ultimately show ?thesis using d by (simp add: rows new_issue_def)
qed

lemma source_stays_root:
  assumes "find_issue source (issues db) = Some s" and "iss_merged_into s = None"
    and run: "ensure_destination fresh source repo g db = Ok (d, db')"
  shows "\<exists>s1. find_issue source (issues db') = Some s1 \<and> iss_merged_into s1 = None"
proof (cases "tracked_root repo g (issues db)")
  case (Some x)
  let ?P = "\<lambda>i. iss_id i = x \<and> (case iss_github_updated_at i of None \<Rightarrow> True | Some t \<Rightarrow> t \<le> gh_updated_at g)"
  from run Some have upd: "update_issues ?P (destination_row repo g (clock db)) db = Ok ((), db')"
    by (auto simp: ensure_destination_def tx_run bind_res_eq_Ok fail_if_eq_Ok)
  have "find_issue source (issues db') =
      map_option (\<lambda>i. if ?P i then destination_row repo g (clock db) i else i) (find_issue source (issues db))"
    unfolding update_issues_rows [OF upd] by (rule find_issue_map) simp
  with assms show ?thesis by simp
next
  case None
  with run have "\<exists>i. issues db' = issues db @ [i]"
    by (auto simp: ensure_destination_def tx_run bind_res_eq_Ok Let_def insert_audit_event_Ok
        insert_issue_def store_issues_Ok split: if_splits)
  with assms show ?thesis by (auto simp: find_issue_append)
qed

lemma duplicate_destination_merges:
  "tx_respects same_merges (duplicate_destination fresh job repo canonical row)"
  unfolding duplicate_destination_def ensure_destination_def Let_def
  by (auto split: option.split bool.split prod.split simp: new_issue_def intro!: same_merges_intros)

lemma merge_issue_edges:
  assumes ok: "db_ok db" and run: "merge_issue source d number db = Ok (u, db')"
    and src: "find_issue source (issues db) = Some s" "iss_merged_into s = None"
  shows "merge_edges (issues db') = insert (source, d) (merge_edges (issues db))"
proof -
  let ?f = "\<lambda>now i. i\<lparr> iss_merged_into := Some d, iss_state := issue_state.Resolved,
    iss_resolved_at := (case iss_resolved_at i of None \<Rightarrow> Some now | Some t \<Rightarrow> Some t) \<rparr>"
  from run obtain moved db1 db2 now es db3 where
    u1: "update_reports (\<lambda>r. rpt_issue r = Some source)
      (\<lambda>r. r\<lparr> rpt_issue := Some d, rpt_state := report_state.Confirmed \<rparr>) db = Ok ((), db1)"
    and u2: "for_tx (moved_event source d) moved db1 = Ok ((), db2)"
    and u3: "update_issues (\<lambda>i. iss_id i = source) (?f now) db2 = Ok ((), db3)"
    and db': "db' = add_events es db3"
    unfolding merge_issue_def by (auto simp: result_simps insert_audit_event_Ok)
  have "issues db2 = issues db"
    using tx_respectsD [OF update_reports_issues u1]
      tx_respectsD [OF same_issues.for_respects [OF event_issues] u2 [unfolded moved_event_def]]
    by (simp add: same_issues_def)
  with update_issues_rows [OF u3] db'
  have rows: "issues db' = map (\<lambda>i. if iss_id i = source then ?f now i else i) (issues db)" by simp
  have ids: "distinct (map iss_id (issues db))" using ok by (simp add: db_ok_def tables_ok_def issue_keys_ok_def)
  have only: "i = s" if "i \<in> set (issues db)" "iss_id i = source" for i
    using src(1) that ids unfolding find_issue_def
    by (metis find_distinct option.inject)
  from src(1) have "s \<in> set (issues db)" "iss_id s = source" by (auto simp: find_issue_def dest: find_Some_in)
  then have s_in: "\<exists>i \<in> set (issues db). iss_id i = source" by blast
  have "(a, b) \<in> merge_edges (issues db') \<longleftrightarrow> (a, b) = (source, d) \<or> (a, b) \<in> merge_edges (issues db)" for a b
  proof (cases "a = source")
    case True
    have "iss_merged_into i = None" if "i \<in> set (issues db)" "iss_id i = source" for i
      using only [OF that] src(2) by simp
    then have "(a, b) \<notin> merge_edges (issues db)" using True by (auto simp: merge_edges_def)
    moreover have "(a, b) \<in> merge_edges (issues db') \<longleftrightarrow> b = d"
      using True s_in by (auto simp: rows merge_edges_map_iff)
    ultimately show ?thesis using True by simp
  next
    case False
    then show ?thesis by (auto simp: rows merge_edges_map_iff merge_edges_def)
  qed
  then show ?thesis by (intro set_eqI) (simp only: split_paired_all insert_iff)
qed

definition drop_job :: "duplicate_job \<Rightarrow> db \<Rightarrow> db" where
  "drop_job job db = db\<lparr> duplicate_jobs := filter (\<lambda>j. \<not> (dup_source j = job_source job \<and>
    dup_lease j = Some (job_lease job))) (duplicate_jobs db) \<rparr>"

lemma drop_job_simps [simp]:
  "reports (drop_job job db) = reports db" "issues (drop_job job db) = issues db"
  "events (drop_job job db) = events db"
  by (simp_all add: drop_job_def)

lemma finish_duplicate_None:
  "finish_github_duplicate parse_url fresh job canonical db = Ok (None, db') \<Longrightarrow>
    db' = db \<or> (\<exists>repo db1. duplicate_destination fresh job repo canonical
      (find_issue (job_source job) (issues db)) db = Ok (None, db1) \<and> db' = drop_job job db1)"
  by (auto simp: finish_github_duplicate_def result_simps set_duplicate_jobs_def drop_job_def
      split: if_splits option.splits)

lemma finish_duplicate_Some:
  assumes "finish_github_duplicate parse_url fresh job canonical db = Ok (Some d, db')"
  obtains repo g s db1 db2 where "find_issue (job_source job) (issues db) = Some s"
    and "iss_merged_into s = None" and "canonical = Some g"
    and "ensure_destination fresh (job_source job) repo g db = Ok (d, db1)"
    and "merge_issue (job_source job) d (job_number job) db1 = Ok ((), db2)" and "db' = drop_job job db2"
proof -
  from assms obtain repo db1 db2 where
    dest: "duplicate_destination fresh job repo canonical (find_issue (job_source job) (issues db)) db =
      Ok (Some d, db1)"
    and rest: "merge_issue (job_source job) d (job_number job) db1 = Ok ((), db2)" "db' = drop_job job db2"
    by (auto simp: finish_github_duplicate_def result_simps set_duplicate_jobs_def drop_job_def split: if_splits)
  from dest obtain s g where "find_issue (job_source job) (issues db) = Some s" "iss_merged_into s = None"
    "canonical = Some g" "ensure_destination fresh (job_source job) repo g db = Ok (d, db1)"
    by (auto simp: duplicate_destination_def result_simps source_is_current_def split: bool.splits option.splits)
  with rest that show ?thesis by blast
qed

lemma finish_duplicate_acyclic:
  assumes ok: "db_ok db" and acyc: "acyclic (merge_edges (issues db))"
    and run: "finish_github_duplicate parse_url fresh job canonical db = Ok (x, db')"
  shows "acyclic (merge_edges (issues db'))"
proof (cases x)
  case None
  with finish_duplicate_None run have "same_merges db db'"
    using tx_respectsD [OF duplicate_destination_merges] by (fastforce simp: same_merges_def)
  with acyc show ?thesis by (simp add: same_merges_def)
next
  case (Some d)
  from finish_duplicate_Some [OF run [unfolded Some]] obtain repo g s db1 db2 where
    s: "find_issue (job_source job) (issues db) = Some s" "iss_merged_into s = None"
    and dest: "ensure_destination fresh (job_source job) repo g db = Ok (d, db1)"
    and merge: "merge_issue (job_source job) d (job_number job) db1 = Ok ((), db2)"
    and db': "db' = drop_job job db2"
    by metis
  have ok1: "db_ok db1"
    using tx_respectsD [OF ensure_destination_sound dest] ok by (simp add: sound_def)
  from ensure_destination_root [OF s(1) dest] have d: "d \<noteq> job_source job" "same_merges db db1"
    "\<exists>j \<in> set (issues db1). iss_id j = d \<and> iss_merged_into j = None" by auto
  have "distinct (map iss_id (issues db1))"
    using ok1 by (simp add: db_ok_def tables_ok_def issue_keys_ok_def)
  then have no_out: "(d, y) \<notin> merge_edges (issues db1)" for y
    using d(3) by (auto simp: merge_edges_def distinct_map inj_on_def)
  from source_stays_root [OF s dest] obtain s1 where
    s1: "find_issue (job_source job) (issues db1) = Some s1" "iss_merged_into s1 = None" by blast
  have "(d, job_source job) \<notin> (merge_edges (issues db1))\<^sup>*"
    using no_out d(1) by (auto elim: converse_rtranclE)
  then have "acyclic (insert (job_source job, d) (merge_edges (issues db1)))"
    using acyc d(2) by (simp add: acyclic_insert same_merges_def)
  with merge_issue_edges [OF ok1 merge s1] db' show ?thesis by simp
qed

section \<open>Every run\<close>

definition tracker_ok :: "db \<Rightarrow> bool" where
  "tracker_ok db \<longleftrightarrow> db_ok db \<and> acyclic (merge_edges (issues db))"

lemma step_ok: "step db db' \<Longrightarrow> tracker_ok db \<Longrightarrow> tracker_ok db'"
proof (erule stepE)
  assume "logged_step db db'" "tracker_ok db"
  then show "tracker_ok db'"
    using logged_step_sound [of db db'] logged_step_merges [of db db']
    by (simp add: tracker_ok_def sound_def same_merges_def)
next
  fix parse_url fresh job canonical x
  assume run: "finish_github_duplicate parse_url fresh job canonical db = Ok (x, db')" and ok: "tracker_ok db"
  then have "db_ok db'"
    using tx_respectsD [OF finish_github_duplicate_keeps run] by (simp add: tracker_ok_def keeps_ok_def)
  with finish_duplicate_acyclic [OF _ _ run] ok show "tracker_ok db'" by (simp add: tracker_ok_def)
qed

lemma run_ok: "step\<^sup>*\<^sup>* db db' \<Longrightarrow> tracker_ok db \<Longrightarrow> tracker_ok db'"
  by (induction rule: rtranclp_induct) (auto intro: step_ok)

text \<open>C1: Whatever maintainers, webhooks and the duplicate worker do, in any order: a linked report is
  never in triage, it is resolved exactly when its issue is unless it was rejected or is waiting as
  confirmed on an unresolved one, a fix is kept only by a resolved report on no issue, no issue is
  tracked twice, and following merges never runs in a circle.\<close>

theorem tracker_invariant:
  assumes "step\<^sup>*\<^sup>* db db'" and "tracker_ok db"
  shows "(\<forall>r \<in> set (reports db'). \<forall>iid. rpt_issue r = Some iid \<longrightarrow>
      rpt_state r \<noteq> report_state.Triage \<and> find_issue iid (issues db') \<noteq> None \<and>
      (rpt_state r = report_state.Resolved \<longrightarrow> issue_state_of (issues db') iid = Some issue_state.Resolved) \<and>
      (rpt_state r = report_state.Confirmed \<longrightarrow> issue_state_of (issues db') iid \<noteq> Some issue_state.Resolved))
    \<and> (\<forall>r \<in> set (reports db'). rpt_fix r \<noteq> None \<longrightarrow> rpt_state r = report_state.Resolved \<and> rpt_issue r = None)
    \<and> distinct (map (\<lambda>i. (lower (iss_repository i), iss_number i)) (filter is_active (issues db')))
    \<and> acyclic (merge_edges (issues db'))"
proof -
  have ok: "db_ok db'" and acyc: "acyclic (merge_edges (issues db'))"
    using run_ok [OF assms] by (simp_all add: tracker_ok_def)
  have "rpt_state r \<noteq> report_state.Triage \<and> find_issue iid (issues db') \<noteq> None \<and>
      (rpt_state r = report_state.Resolved \<longrightarrow> issue_state_of (issues db') iid = Some issue_state.Resolved) \<and>
      (rpt_state r = report_state.Confirmed \<longrightarrow> issue_state_of (issues db') iid \<noteq> Some issue_state.Resolved)"
    if "r \<in> set (reports db')" "rpt_issue r = Some iid" for r iid
    using db_ok_row(1,2) [OF ok that(1)] that(2) by (simp add: report_row_ok_def follows_def)
  moreover have "rpt_state r = report_state.Resolved \<and> rpt_issue r = None"
    if "r \<in> set (reports db')" "rpt_fix r \<noteq> None" for r
    using db_ok_row(1) [OF ok that(1)] that(2) by (simp add: report_row_ok_def)
  ultimately show ?thesis
    using ok acyc by (simp add: db_ok_def tables_ok_def issue_keys_ok_def)
qed

lemma sample_tracker_ok: "tracker_ok sample_db"
proof -
  have "merge_edges (issues sample_db) = {}"
    by (auto simp: merge_edges_def sample_db_def sample_issue_def)
  then show ?thesis by (simp add: tracker_ok_def sample_db_ok acyclic_def)
qed

lemma sample_step:
  "\<exists>db'. logged_step sample_db db' \<and>
    (\<exists>n. apply_report_state_action [2, 1] report_state_action.Reject 7 None sample_db = Ok (n, db'))"
  using sample_reject_runs by (blast intro: logged_step.act_on)

theorem tracker_invariant_witness:
  "\<exists>db' n. apply_report_state_action [2, 1] report_state_action.Reject 7 None sample_db = Ok (n, db') \<and>
    acyclic (merge_edges (issues db'))"
proof -
  from sample_step obtain db' n where step: "logged_step sample_db db'"
    and run: "apply_report_state_action [2, 1] report_state_action.Reject 7 None sample_db = Ok (n, db')"
    by blast
  from tracker_invariant [OF r_into_rtranclp [where r = step, OF step.logged [OF step]] sample_tracker_ok] run
  show ?thesis by blast
qed



section \<open>What a merge does to rejected reports\<close>

definition links :: "db \<Rightarrow> (report_id \<times> issue_id option) list" where
  "links db = map (\<lambda>r. (rpt_id r, rpt_issue r)) (reports db)"

definition same_links :: "db \<Rightarrow> db \<Rightarrow> bool" where
  "same_links db db' \<longleftrightarrow> links db' = links db"

interpretation same_links: tx_relation same_links
  by standard (simp_all add: same_links_def)

lemma event_links: "tx_respects same_links (insert_audit_event actor action ent details)"
  by (simp add: tx_respects_def same_links_def links_def insert_audit_event_Ok)

lemma update_reports_links:
  assumes "\<And>r. rpt_id (f r) = rpt_id r" and "\<And>r. rpt_issue (f r) = rpt_issue r"
  shows "tx_respects same_links (update_reports P f)"
  by (auto simp: tx_respects_def same_links_def links_def update_reports_Ok written_rows_def assms)

lemma update_issues_links: "tx_respects same_links (update_issues P f)"
proof -
  have "tx_respects same_links (store_issues rows)" for rows
    by (simp add: tx_respects_def store_issues_Ok same_links_def links_def)
  moreover have "tx_respects same_links (follow_issue_state_on_issue p)" for p
    by (cases p) (auto simp: follow_issue_state_on_issue_def move_issue_reports_def follow_event_def
        intro!: same_links.bind_respects same_links.get_respects same_links.return_respects
        same_links.for_respects update_reports_links event_links)
  ultimately show ?thesis
    unfolding update_issues_def
    by (intro same_links.bind_respects same_links.get_respects same_links.for_respects)
qed

lemma ensure_destination_links: "tx_respects same_links (ensure_destination fresh source repo g)"
proof -
  have "tx_respects same_links (insert_issue i)" for i
    by (auto simp: tx_respects_def insert_issue_def tx_run store_issues_Ok same_links_def links_def
        split: if_splits)
  then show ?thesis
    unfolding ensure_destination_def Let_def
    by (auto split: option.split prod.split intro!: same_links.bind_respects same_links.get_respects
        same_links.lift_respects same_links.return_respects update_issues_links event_links)
qed

text \<open>An issue that no report is on can change its state without touching a report.\<close>

lemma update_issue_unlinked:
  assumes free: "\<forall>r \<in> set (reports db). rpt_issue r \<noteq> Some iid" and keep: "\<And>i. iss_id (f i) = iss_id i"
    and run: "update_issues (\<lambda>i. iss_id i = iid) f db = Ok (u, db')"
  shows "reports db' = reports db"
proof -
  have move: "reports d' = reports d" if "move_issue_reports iid old new d = Ok (v, d')"
    "\<forall>r \<in> set (reports d). rpt_issue r \<noteq> Some iid" for old new d d' and v :: unit
  proof -
    have "filter (\<lambda>r. rpt_issue r = Some iid \<and> rpt_state r = old) (reports d) = []"
      using that(2) by (auto simp: filter_empty_conv)
    moreover have "written_rows (\<lambda>r. rpt_issue r = Some iid \<and> rpt_state r = old) g d = reports d" for g
      using that(2) by (auto simp: written_rows_def intro: map_idI)
    ultimately show ?thesis
      using that(1) by (auto simp: move_issue_reports_def result_simps update_reports_Ok)
  qed
  have loop: "reports d' = reports d" if "for_tx follow_issue_state_on_issue ps d = Ok (v, d')"
    "\<forall>p \<in> set ps. iss_id (snd p) = iid" "\<forall>r \<in> set (reports d). rpt_issue r \<noteq> Some iid"
    for ps d d' and v :: unit
    using that
  proof (induction ps arbitrary: d)
    case (Cons p ps)
    then obtain d1 where d1: "follow_issue_state_on_issue p d = Ok ((), d1)"
      "for_tx follow_issue_state_on_issue ps d1 = Ok (v, d')" by (auto simp: result_simps)
    have "reports d1 = reports d"
      using d1(1) Cons.prems(2,3) move [of _ _ d "()" d1]
      by (cases p) (auto simp: follow_issue_state_on_issue_def result_simps split: if_splits)
    with Cons d1(2) show ?case by simp
  qed (simp add: result_simps)
  let ?d = "db\<lparr> issues := map (\<lambda>i. if iss_id i = iid then f i else i) (issues db) \<rparr>"
  from run have "for_tx follow_issue_state_on_issue
      (map (\<lambda>i. (i, f i)) (filter (\<lambda>i. iss_id i = iid) (issues db))) ?d = Ok (u, db')"
    by (auto simp: update_issues_def result_simps store_issues_Ok split: if_splits)
  from loop [OF this] free keep show ?thesis by auto
qed

lemma merge_issue_rows:
  assumes "source \<noteq> d" and "merge_issue source d number db = Ok (u, db')"
  shows "reports db' = map (\<lambda>r. if rpt_issue r = Some source then before_report_write (issues db)
    (r\<lparr> rpt_issue := Some d, rpt_state := report_state.Confirmed \<rparr>) else r) (reports db)"
proof -
  let ?f = "\<lambda>r. r\<lparr> rpt_issue := Some d, rpt_state := report_state.Confirmed \<rparr>"
  let ?g = "\<lambda>now i. i\<lparr> iss_merged_into := Some d, iss_state := issue_state.Resolved,
    iss_resolved_at := (case iss_resolved_at i of None \<Rightarrow> Some now | Some t \<Rightarrow> Some t) \<rparr>"
  from assms(2) obtain moved db1 db2 now es db3 where
    u1: "update_reports (\<lambda>r. rpt_issue r = Some source) ?f db = Ok ((), db1)"
    and u2: "for_tx (moved_event source d) moved db1 = Ok ((), db2)"
    and u3: "update_issues (\<lambda>i. iss_id i = source) (?g now) db2 = Ok ((), db3)"
    and db': "db' = add_events es db3"
    unfolding merge_issue_def by (auto simp: result_simps insert_audit_event_Ok)
  have rows1: "reports db1 = map (\<lambda>r. if rpt_issue r = Some source
      then before_report_write (issues db) (?f r) else r) (reports db)"
    using u1 by (simp add: update_reports_Ok written_rows_def)
  have ev: "moved_event source d r x = Ok ((), add_events [event None ReportUpdateIssue (Some (rpt_id r))
      (DObject [(''from'', DId source), (''to'', DId d)])] x)" for r x
    by (simp add: moved_event_def insert_audit_event_Ok)
  have rows2: "reports db2 = reports db1"
    using u2 by (simp add: for_tx_events [OF ev]) (metis add_events_simps(1))
  have "\<forall>r \<in> set (reports db2). rpt_issue r \<noteq> Some source" unfolding rows2 rows1 using assms(1) by auto
  from update_issue_unlinked [OF this _ u3] show ?thesis by (simp add: db' rows2 rows1)
qed

text \<open>C22: When the duplicate worker merges an issue into another, every report of the issue follows,
  whatever its state was: it ends on the destination, confirmed or resolved. No other report changes its
  link, and the destination is never the issue itself.\<close>

theorem duplicate_merge_moves_reports:
  assumes run: "finish_github_duplicate parse_url fresh job canonical db = Ok (Some d, db')"
  shows "d \<noteq> job_source job
    \<and> links db' = map (\<lambda>(rid, i). (rid, if i = Some (job_source job) then Some d else i)) (links db)
    \<and> (\<forall>r \<in> set (reports db). rpt_issue r = Some (job_source job) \<longrightarrow>
        (\<exists>r' \<in> set (reports db'). rpt_id r' = rpt_id r \<and> rpt_issue r' = Some d \<and>
          (rpt_state r' = report_state.Confirmed \<or> rpt_state r' = report_state.Resolved)))"
proof -
  let ?s = "job_source job"
  let ?f = "\<lambda>r. r\<lparr> rpt_issue := Some d, rpt_state := report_state.Confirmed \<rparr>"
  from finish_duplicate_Some [OF run] obtain repo g s db1 db2 where
    s: "find_issue ?s (issues db) = Some s" and dest: "ensure_destination fresh ?s repo g db = Ok (d, db1)"
    and merge: "merge_issue ?s d (job_number job) db1 = Ok ((), db2)" and db': "db' = drop_job job db2"
    by metis
  have d: "?s \<noteq> d" using ensure_destination_root [OF s dest] by auto
  have l1: "links db1 = links db" using tx_respectsD [OF ensure_destination_links dest] by (simp add: same_links_def)
  have rows: "reports db' = map (\<lambda>r. if rpt_issue r = Some ?s
      then before_report_write (issues db1) (?f r) else r) (reports db1)"
    using merge_issue_rows [OF d merge] by (simp add: db')
  have "links db' = map (\<lambda>(rid, i). (rid, if i = Some ?s then Some d else i)) (links db1)"
    by (simp add: links_def rows)
  moreover have "\<exists>r' \<in> set (reports db'). rpt_id r' = rpt_id r \<and> rpt_issue r' = Some d \<and>
      (rpt_state r' = report_state.Confirmed \<or> rpt_state r' = report_state.Resolved)"
    if r: "r \<in> set (reports db)" "rpt_issue r = Some ?s" for r
  proof -
    from r have "(rpt_id r, Some ?s) \<in> set (links db)" by (force simp: links_def)
    then obtain q where q: "q \<in> set (reports db1)" "rpt_id q = rpt_id r" "rpt_issue q = Some ?s"
      unfolding l1 [symmetric] by (auto simp: links_def)
    then have "before_report_write (issues db1) (?f q) \<in> set (reports db')"
      unfolding rows by (auto simp: image_iff intro!: bexI [of _ q])
    then show ?thesis
      using q(2) by (intro bexI [of _ "before_report_write (issues db1) (?f q)"])
        (auto simp: before_report_write_state follow_issue_state_on_report_def)
  qed
  ultimately show ?thesis using d l1 by auto
qed

text \<open>An issue that GitHub closed as a duplicate, with a report on it and the job leased, and the issue
  it is a duplicate of.\<close>

definition duplicate_db :: db where
  "duplicate_db = sample_db\<lparr>
    reports := [sample_report 2 report_state.Resolved (Some 11)],
    issues := [sample_issue 11 1 issue_state.Resolved github_link_state.Closed,
      sample_issue 12 2 issue_state.Unresolved github_link_state.Open],
    duplicate_jobs := [\<lparr> dup_source = 11, dup_github_id = 1, dup_repository = lit ''LadybirdBrowser/ladybird'',
      dup_number = 1, dup_installation = 5, dup_lease = Some 99, dup_lease_expires = Some 120,
      dup_attempts = 1, dup_next_attempt = 0 \<rparr>] \<rparr>"

definition sample_job :: duplicate_job where
  "sample_job = \<lparr> job_source = 11, job_github_id = 1, job_repository = lit ''LadybirdBrowser/ladybird'',
    job_number = 1, job_installation = 5, job_lease = 99, job_attempts = 1 \<rparr>"

definition sample_canonical :: github_issue where
  "sample_canonical = \<lparr> gh_id = 2, gh_number = 2, gh_title = lit ''Crash'', gh_body = None,
    gh_html_url = lit ''https://github.com/LadybirdBrowser/ladybird/issues/2'',
    gh_state = github_issue_state.Open, gh_updated_at = 0, gh_state_reason = None \<rparr>"

text \<open>The parse of that one address, and of no other.\<close>

definition sample_parse_url :: "str \<Rightarrow> url option" where
  "sample_parse_url s =
    (if s = gh_html_url sample_canonical then Some
      \<lparr> url_scheme = lit ''https'', url_host_str = Some (lit ''github.com''),
        url_path = lit ''/LadybirdBrowser/ladybird/issues/2'',
        url_path_segments = Some [lit ''LadybirdBrowser'', lit ''ladybird'', lit ''issues'', lit ''2''],
        url_query = None, url_fragment = None, url_username = [], url_password = None \<rparr>
     else None)"

lemma sample_canonical_repository:
  "gh_repository sample_parse_url sample_canonical = Some (lit ''LadybirdBrowser/ladybird'')"
  by (simp add: gh_repository_def sample_parse_url_def sample_canonical_def text_eval)

lemma sample_canonical_text:
  "validate_issue_text (gh_title sample_canonical) (gh_description sample_canonical) = Ok ()"
  by (simp add: validate_issue_text_def sample_canonical_def gh_description_def text_eval)

lemma follow_merges_here:
  "iss_merged_into i = None \<Longrightarrow> follow_merges n passes rows depth i = Some (iss_id i, depth)"
  by (simp add: follow_merges.simps [of n])

lemmas issue_eval = update_issues_def store_issues_def issue_row_ok_def issue_keys_ok_def is_active_def
  follow_issue_state_on_issue_def move_issue_reports_def follow_event_def to_ascii_lowercase_def
  is_ascii_upper_def insert_issue_def
lemmas finish_eval = finish_github_duplicate_def check_canonical_def sample_canonical_text
  sample_canonical_repository duplicate_destination_def source_is_current_def ensure_destination_def
  tracked_root_def tracks_def deepest_def List.map_filter_simps follow_merges_here merge_issue_def
  moved_event_def set_duplicate_jobs_def

definition rejected_db :: db where
  "rejected_db = duplicate_db\<lparr>
    reports := [sample_report 2 report_state.Rejected (Some 11)],
    issues := [sample_issue 11 1 issue_state.Rejected github_link_state.Closed,
      sample_issue 12 2 issue_state.Unresolved github_link_state.Open] \<rparr>"

lemma reject_duplicate_runs:
  "\<exists>es. reject_issue 11 7 issue_report_action.Reject duplicate_db = Ok (1, rejected_db\<lparr> events := es \<rparr>)"
  by (simp add: reject_issue_def reject_issue_reports_def reject_event_def merged_sources_none
      duplicate_db_def rejected_db_def issue_eval db_eval)

lemma finish_after_reject:
  "\<exists>db2. finish_github_duplicate sample_parse_url 20 sample_job (Some sample_canonical)
      (rejected_db\<lparr> events := es \<rparr>) = Ok (Some 12, db2) \<and>
    issue_state_of (issues db2) 11 = Some issue_state.Resolved \<and>
    ready_report 2 db2 = Some (sample_report 2 report_state.Confirmed (Some 12))"
  by (simp add: finish_eval)
    (simp add: finish_eval new_issue_def sample_job_def sample_canonical_def rejected_db_def duplicate_db_def issue_eval db_eval
      destination_row_def gh_description_def)

theorem duplicate_merge_moves_reports_witness:
  "\<exists>db2. finish_github_duplicate sample_parse_url 20 sample_job (Some sample_canonical) rejected_db = Ok (Some 12, db2) \<and>
    (\<exists>r \<in> set (reports db2). rpt_id r = 2 \<and> rpt_issue r = Some 12)"
proof -
  from finish_after_reject [of "[]"] obtain db2 where
    run: "finish_github_duplicate sample_parse_url 20 sample_job (Some sample_canonical) rejected_db = Ok (Some 12, db2)"
    by (auto simp: rejected_db_def duplicate_db_def sample_db_def)
  from duplicate_merge_moves_reports [OF run] have
    "\<forall>r \<in> set (reports rejected_db). rpt_issue r = Some 11 \<longrightarrow>
      (\<exists>r' \<in> set (reports db2). rpt_id r' = rpt_id r \<and> rpt_issue r' = Some 12)"
    by (fastforce simp: sample_job_def)
  then have "\<exists>r \<in> set (reports db2). rpt_id r = 2 \<and> rpt_issue r = Some 12"
    by (simp add: rejected_db_def duplicate_db_def sample_report_def)
  with run show ?thesis by blast
qed

text \<open>A merge undoes a maintainer's rejection: an issue and its reports that were rejected while its
  duplicate job was under way come back, the issue resolved and the report confirmed on the destination,
  although rejected issues are left alone by every other operation.\<close>

theorem merge_undoes_rejection:
  "\<exists>db1 db2. reject_issue 11 7 issue_report_action.Reject duplicate_db = Ok (1, db1)
    \<and> issue_state_of (issues db1) 11 = Some issue_state.Rejected
    \<and> ready_report 2 db1 = Some (sample_report 2 report_state.Rejected (Some 11))
    \<and> finish_github_duplicate sample_parse_url 20 sample_job (Some sample_canonical) db1 = Ok (Some 12, db2)
    \<and> issue_state_of (issues db2) 11 = Some issue_state.Resolved
    \<and> ready_report 2 db2 = Some (sample_report 2 report_state.Confirmed (Some 12))"
proof -
  from reject_duplicate_runs obtain es where
    rej: "reject_issue 11 7 issue_report_action.Reject duplicate_db = Ok (1, rejected_db\<lparr> events := es \<rparr>)" by blast
  have "issue_state_of (issues (rejected_db\<lparr> events := es \<rparr>)) 11 = Some issue_state.Rejected"
    "ready_report 2 (rejected_db\<lparr> events := es \<rparr>) = Some (sample_report 2 report_state.Rejected (Some 11))"
    by (simp_all add: rejected_db_def duplicate_db_def db_eval)
  with rej finish_after_reject [of es] show ?thesis by blast
qed

section \<open>An alias in the way\<close>

text \<open>An issue whose GitHub issue is gone can never be pointed at another one while an alias holds its
  present number: the request passes every check and then fails on the key of the aliases, as an internal
  error, and leaves the database as it was. The alias of a rejected issue is enough, though the check for
  tracked issues does not count it.\<close>

theorem replace_blocked_by_alias:
  assumes "belongs_to_repository parse_url g repo"
    and "validate_issue_text (gh_title g) (gh_description g) = Ok ()"
    and "find (\<lambda>i. iss_id i = iid \<and> is_active i) (issues db) = Some current"
    and "is_unreachable (iss_link current)"
    and "\<not> (lower (iss_repository current) = lower repo \<and> iss_number current = gh_number g)"
    and "\<not> already_linked iid repo g db"
    and "a \<in> set (aliases db)" and "als_repository a = iss_repository current"
    and "als_number a = iss_number current"
  shows "run_tx (replace_github_issue parse_url iid repo g actor) db =
      (Err (Database ''issue_github_aliases_pkey''), db)
    \<and> status (Database ''issue_github_aliases_pkey'') = 503"
proof -
  have "list_ex (\<lambda>b. als_repository b = iss_repository current \<and> als_number b = iss_number current) (aliases db)"
    using assms(7-9) by (auto simp: list_ex_iff)
  moreover have "fail_if (lower (iss_repository current) = lower repo \<and> iss_number current = gh_number g) e = Ok ()"
    for e :: app_error
    using assms(5) by (simp add: fail_if_def)
  ultimately have "replace_github_issue parse_url iid repo g actor db =
      Err (Database ''issue_github_aliases_pkey'')"
    using assms(1-4,6) by (simp add: replace_github_issue_def tx_run insert_alias_def)
  then show ?thesis by (simp add: run_tx_def)
qed

definition alias_db :: db where
  "alias_db = sample_db\<lparr>
    issues := [sample_issue 11 7 issue_state.Rejected github_link_state.Open,
      sample_issue 12 1 issue_state.NeedsAttention github_link_state.Missing],
    aliases := [\<lparr> als_issue = 11, als_repository = lit ''LadybirdBrowser/ladybird'', als_number = 1,
      als_github_id = Some 8, als_url = [] \<rparr>] \<rparr>"

theorem replace_blocked_by_alias_witness:
  "run_tx (replace_github_issue sample_parse_url 12 (lit ''LadybirdBrowser/ladybird'') sample_canonical 7) alias_db =
    (Err (Database ''issue_github_aliases_pkey''), alias_db)"
proof -
  have active: "find (\<lambda>i. iss_id i = 12 \<and> is_active i) (issues alias_db) =
      Some (sample_issue 12 1 issue_state.NeedsAttention github_link_state.Missing)"
    by (simp add: alias_db_def sample_issue_def is_active_def)
  have "\<not> already_linked 12 (lit ''LadybirdBrowser/ladybird'') sample_canonical alias_db"
    by (simp add: already_linked_def alias_db_def sample_issue_def sample_canonical_def tracks_def)
  then show ?thesis
    by (intro conjunct1 [OF replace_blocked_by_alias [OF _ _ active, where a = "hd (aliases alias_db)"]])
      (simp_all add: belongs_to_repository_def sample_canonical_repository sample_canonical_text alias_db_def
        sample_issue_def sample_canonical_def [THEN arg_cong, of gh_number])
qed

end
