(* ===== verification/Manifest.thy ===== *)
theory Manifest
  imports Diagnostic_Fields Identifiers
begin

text \<open>
  \<open>src/src/domain/report.rs\<close>: the manifest a client submits and its validation. The running total of
  the attachment sizes is a \<open>u64\<close> with \<open>checked_add\<close>; \<open>limits.submission_bytes as u64\<close> is exact because
  \<open>usize\<close> is 64 bits.
\<close>

record attachment_manifest =
  attachment_id :: attachment_reference
  attachment_name :: str
  attachment_media :: attachment_media_type
  attachment_size :: nat
  attachment_sha256 :: str

record 'num report_manifest =
  protocol :: nat
  submission_id :: uuid
  report_kind :: report_kind
  client_version :: str
  build :: str
  manifest_fields :: "'num diagnostic_field list"
  attachments :: "attachment_manifest list"

definition is_lower_hex :: "uchar \<Rightarrow> bool" where
  "is_lower_hex c \<longleftrightarrow> is_ascii_digit c \<or> (97 \<le> c \<and> c \<le> 102)"

definition is_sha256_hex :: "str \<Rightarrow> bool" where
  "is_sha256_hex v \<longleftrightarrow> byte_len v = 64 \<and> list_all is_lower_hex v"

definition validate_attachment_name :: "str \<Rightarrow> unit result" where
  "validate_attachment_name name =
    (let valid = name \<noteq> [] \<and> byte_len name \<le> 128 \<and>
           \<not> list_ex (\<lambda>c. is_control c \<or> c = 47 \<or> c = 92) name
     in fail_if (\<not> valid) (InvalidRequest ''Invalid attachment name''))"

definition u64_checked_add :: "nat \<Rightarrow> nat \<Rightarrow> nat option" where
  "u64_checked_add a b = (if a + b \<le> u64_max then Some (a + b) else None)"

text \<open>The loop over the attachments: the references seen and the total so far.\<close>

fun validate_attachments_loop ::
    "ingestion_limits \<Rightarrow> attachment_reference set \<Rightarrow> nat \<Rightarrow> attachment_manifest list \<Rightarrow>
     (attachment_reference set \<times> nat) result" where
  "validate_attachments_loop l references sz [] = Ok (references, sz)"
| "validate_attachments_loop l references sz (a # as) =
    bind_res (fail_if (attachment_id a \<in> references) (InvalidRequest ''Duplicate attachment reference'')) (\<lambda>_.
    bind_res (validate_attachment_name (attachment_name a)) (\<lambda>_.
    bind_res (fail_if (attachment_bytes l < attachment_size a) (InvalidRequest ''Attachment is too large'')) (\<lambda>_.
    bind_res (fail_if (\<not> is_sha256_hex (attachment_sha256 a)) (InvalidRequest ''Invalid attachment digest'')) (\<lambda>_.
    bind_res (ok_or (u64_checked_add sz (attachment_size a)) (InvalidRequest ''Attachments are too large''))
      (\<lambda>sz'. validate_attachments_loop l (insert (attachment_id a) references) sz' as)))))"

definition validate_attachments ::
    "ingestion_limits \<Rightarrow> attachment_manifest list \<Rightarrow> attachment_reference set result" where
  "validate_attachments l as =
    bind_res (validate_attachments_loop l {} 0 as) (\<lambda>(references, sz).
    bind_res (fail_if (submission_bytes l < sz) (InvalidRequest ''Attachments are too large''))
      (\<lambda>_. Ok references))"

definition validate_manifest ::
    "(str \<rightharpoonup> field_definition) \<Rightarrow> ingestion_limits \<Rightarrow> 'num report_manifest \<Rightarrow> unit result" where
  "validate_manifest definitions l m =
    bind_res (fail_if (protocol m \<noteq> 1) (InvalidRequest ''Unsupported report protocol'')) (\<lambda>_.
    bind_res (fail_if (client_version m = [] \<or> 256 < byte_len (client_version m))
      (InvalidRequest ''Invalid client version'')) (\<lambda>_.
    bind_res (fail_if (1024 < byte_len (build m)) (InvalidRequest ''Build description is too large'')) (\<lambda>_.
    bind_res (fail_if (maximum_attachments l < length (attachments m))
      (InvalidRequest ''Too many attachments'')) (\<lambda>_.
    bind_res (validate_attachments l (attachments m)) (\<lambda>references.
    validate_fields (manifest_fields m) references definitions l)))))"

section \<open>What the checks establish\<close>

definition attachment_ok :: "ingestion_limits \<Rightarrow> attachment_manifest \<Rightarrow> bool" where
  "attachment_ok l a \<longleftrightarrow>
    attachment_name a \<noteq> [] \<and> byte_len (attachment_name a) \<le> 128 \<and>
    (\<forall>c \<in> set (attachment_name a). \<not> is_control c \<and> c \<noteq> 47 \<and> c \<noteq> 92) \<and>
    attachment_size a \<le> attachment_bytes l \<and>
    is_sha256_hex (attachment_sha256 a)"

lemma is_sha256_hex_length: "is_sha256_hex v \<Longrightarrow> length v = 64"
proof -
  have "c < 128" if "is_lower_hex c" for c
    using that by (auto simp: is_lower_hex_def is_ascii_digit_def)
  then show "is_sha256_hex v \<Longrightarrow> length v = 64"
    using byte_len_list_all [of is_lower_hex v] by (simp add: is_sha256_hex_def)
qed

lemma attachment_name_Ok:
  "validate_attachment_name n = Ok () \<longleftrightarrow>
    n \<noteq> [] \<and> byte_len n \<le> 128 \<and> (\<forall>c \<in> set n. \<not> is_control c \<and> c \<noteq> 47 \<and> c \<noteq> 92)"
  by (auto simp: validate_attachment_name_def fail_if_eq_Ok list_ex_iff)

lemma u64_checked_add_Some: "u64_checked_add a b = Some c \<longleftrightarrow> c = a + b \<and> a + b \<le> u64_max"
  by (auto simp: u64_checked_add_def)

lemma validate_attachments_loop_Ok:
  assumes "sz \<le> u64_max"
  shows "validate_attachments_loop l references sz as = Ok (references', sz') \<longleftrightarrow>
    distinct (map attachment_id as) \<and> references \<inter> attachment_id ` set as = {} \<and>
    (\<forall>a \<in> set as. attachment_ok l a) \<and>
    references' = references \<union> attachment_id ` set as \<and>
    sz' = sz + sum_list (map attachment_size as) \<and> sz' \<le> u64_max"
  using assms
proof (induction as arbitrary: references sz)
  case Nil
  then show ?case by auto
next
  case (Cons a as)
  have IH: "validate_attachments_loop l (insert (attachment_id a) references) (sz + attachment_size a) as =
      Ok (references', sz') \<longleftrightarrow>
    distinct (map attachment_id as) \<and> insert (attachment_id a) references \<inter> attachment_id ` set as = {} \<and>
    (\<forall>a \<in> set as. attachment_ok l a) \<and>
    references' = insert (attachment_id a) references \<union> attachment_id ` set as \<and>
    sz' = sz + attachment_size a + sum_list (map attachment_size as) \<and> sz' \<le> u64_max"
    if "sz + attachment_size a \<le> u64_max"
    using Cons.IH that by simp
  show ?case
  proof (cases "sz + attachment_size a \<le> u64_max")
    case True
    then show ?thesis
      using IH [OF True]
      by (auto simp: bind_res_eq_Ok fail_if_eq_Ok ok_or_eq_Ok u64_checked_add_Some attachment_name_Ok
          attachment_ok_def not_less)
  next
    case False
    then show ?thesis
      by (auto simp: bind_res_eq_Ok fail_if_eq_Ok ok_or_eq_Ok u64_checked_add_Some)
  qed
qed

lemma validate_attachments_Ok:
  assumes "submission_bytes l \<le> u64_max"
  shows "validate_attachments l as = Ok references \<longleftrightarrow>
    distinct (map attachment_id as) \<and> (\<forall>a \<in> set as. attachment_ok l a) \<and>
    sum_list (map attachment_size as) \<le> submission_bytes l \<and>
    references = attachment_id ` set as"
  using assms
  by (auto simp: validate_attachments_def bind_res_eq_Ok fail_if_eq_Ok validate_attachments_loop_Ok)

text \<open>C29: A manifest is accepted exactly when it keeps every rule of the protocol: protocol 1, a client
  version of 1 to 256 bytes, a build text of at most 1024 bytes, attachments within their count with
  distinct references, safe names, lowercase digests and sizes that fit one by one and together (the
  64-bit total never overflows on an accepted manifest), and fields within their count with distinct
  well-formed keys, the defined kinds, texts within their byte limits and only references to the
  manifest's own attachments.\<close>

theorem validate_manifest_Ok:
  assumes "submission_bytes l \<le> u64_max"
  shows "validate_manifest definitions l m = Ok () \<longleftrightarrow>
    protocol m = 1 \<and> client_version m \<noteq> [] \<and> byte_len (client_version m) \<le> 256 \<and>
    byte_len (build m) \<le> 1024 \<and>
    length (attachments m) \<le> maximum_attachments l \<and>
    distinct (map attachment_id (attachments m)) \<and>
    (\<forall>a \<in> set (attachments m). attachment_ok l a) \<and>
    sum_list (map attachment_size (attachments m)) \<le> submission_bytes l \<and>
    length (manifest_fields m) \<le> maximum_fields l \<and>
    distinct (map field_key (manifest_fields m)) \<and>
    (\<forall>f \<in> set (manifest_fields m).
      field_ok (attachment_id ` set (attachments m)) definitions l f)"
  by (auto simp: validate_manifest_def bind_res_eq_Ok fail_if_eq_Ok validate_attachments_Ok [OF assms]
      validate_fields_Ok not_less)

definition example_manifest :: "nat report_manifest" where
  "example_manifest =
    \<lparr> protocol = 1, submission_id = 0, report_kind = Crash, client_version = lit ''1.0'', build = [],
      manifest_fields = [\<lparr>field_key = lit ''stack'', field_value = field_value.StackTrace (lit ''frame'')\<rparr>],
      attachments = [] \<rparr>"

theorem validate_manifest_Ok_witness:
  "validate_manifest (\<lambda>_. None) ingestion_limits_default example_manifest = Ok ()"
proof -
  have "submission_bytes ingestion_limits_default \<le> u64_max"
    by (simp add: ingestion_limits_default_def)
  from validate_manifest_Ok [OF this, of "\<lambda>_. None" example_manifest] show ?thesis
    by (simp add: example_manifest_def ingestion_limits_default_def field_ok_def is_valid_field_key_def
        is_key_char_def text_eval)
qed

end
