(* ===== verification/Proof_Of_Work.thy ===== *)
theory Proof_Of_Work
  imports Rust_Str Errors Identifiers Utf8
begin

text \<open>
  \<open>src/src/domain/proof_of_work.rs\<close>: the signed challenge a client works on and the test of its proof.
  Base64, HMAC-SHA-256, SHA-256, hexadecimal encoding and the JSON codec of the claims belong to other
  crates and are arguments; the facts on them are stated where a theorem needs them. \<open>u32\<close> and \<open>u64\<close>
  are words, a byte string is a list of numbers.
\<close>

record challenge_claims =
  claims_version :: "32 word"
  claims_id :: uuid
  manifest_digest :: str
  expires_at_unix :: int
  claims_expected_work :: "64 word"

definition sign_challenge ::
    "(challenge_claims \<Rightarrow> nat list) \<Rightarrow> (nat list \<Rightarrow> str) \<Rightarrow> ('key \<Rightarrow> nat list \<Rightarrow> nat list) \<Rightarrow>
      'key \<Rightarrow> challenge_claims \<Rightarrow> str" where
  "sign_challenge to_json b64_encode hmac key claims =
    (let payload = to_json claims;
         encoded_payload = b64_encode payload;
         signature = b64_encode (hmac key (utf8 encoded_payload))
     in encoded_payload @ lit ''.'' @ signature)"

definition invalid_token :: app_error where
  "invalid_token = InvalidRequest ''Invalid challenge token''"

definition verify_challenge ::
    "(nat list \<Rightarrow> challenge_claims option) \<Rightarrow> (str \<Rightarrow> nat list option) \<Rightarrow> ('key \<Rightarrow> nat list \<Rightarrow> nat list) \<Rightarrow>
      'key \<Rightarrow> str \<Rightarrow> challenge_claims result" where
  "verify_challenge from_json b64_decode hmac key token =
    bind_res (fail_if (byte_len token > 2048) invalid_token) (\<lambda>_.
    bind_res (ok_or (split_once 46 token) invalid_token) (\<lambda>(encoded_payload, encoded_signature).
    bind_res (ok_or (b64_decode encoded_signature) invalid_token) (\<lambda>signature.
    bind_res (fail_if (signature \<noteq> hmac key (utf8 encoded_payload)) invalid_token) (\<lambda>_.
    bind_res (ok_or (b64_decode encoded_payload) invalid_token) (\<lambda>payload.
    ok_or (from_json payload) invalid_token)))))"

text \<open>\<open>to_le_bytes\<close> and \<open>from_be_bytes\<close> of a \<open>u64\<close>.\<close>

definition to_le_bytes :: "64 word \<Rightarrow> nat list" where
  "to_le_bytes w = map (\<lambda>i. unat (take_bit 8 (drop_bit (8 * i) w))) [0..<8]"

definition from_be_bytes :: "nat list \<Rightarrow> 64 word" where
  "from_be_bytes bytes = foldl (\<lambda>w b. push_bit 8 w + of_nat b) 0 bytes"

definition proof_prefix :: "(nat list \<Rightarrow> nat list) \<Rightarrow> str \<Rightarrow> 64 word \<Rightarrow> 64 word" where
  "proof_prefix sha256 token nonce =
    (let seed = sha256 (utf8 token);
         candidate = sha256 (take 32 seed @ to_le_bytes nonce)
     in from_be_bytes (take 8 candidate))"

definition proof_is_valid :: "(nat list \<Rightarrow> nat list) \<Rightarrow> str \<Rightarrow> 64 word \<Rightarrow> 64 word \<Rightarrow> bool" where
  "proof_is_valid sha256 token nonce expected_work \<longleftrightarrow>
    (if expected_work = 0 then False
     else
       let target = (- 1) div expected_work
       in proof_prefix sha256 token nonce \<le> target)"

definition sha256_hex :: "(nat list \<Rightarrow> nat list) \<Rightarrow> (nat list \<Rightarrow> str) \<Rightarrow> nat list \<Rightarrow> str" where
  "sha256_hex sha256 hex_encode bytes = hex_encode (sha256 bytes)"

section \<open>Tokens\<close>

lemma verify_challenge_Ok:
  "verify_challenge from_json b64_decode hmac key token = Ok claims \<longleftrightarrow>
    byte_len token \<le> 2048 \<and>
    (\<exists>p s payload. token = p @ lit ''.'' @ s \<and> 46 \<notin> set p \<and>
      b64_decode s = Some (hmac key (utf8 p)) \<and> b64_decode p = Some payload \<and>
      from_json payload = Some claims)"
  by (auto simp: verify_challenge_def result_simps split_once_Some lit_def not_less split: prod.splits)

lemma verify_challenge_Err:
  "verify_challenge from_json b64_decode hmac key token = Err e \<Longrightarrow> e = invalid_token"
  by (auto simp: verify_challenge_def result_simps split: prod.splits)

lemma split_once_sign_challenge:
  assumes "\<And>b. 46 \<notin> set (b64_encode b)"
  shows "split_once 46 (sign_challenge to_json b64_encode hmac key claims) =
    Some (b64_encode (to_json claims), b64_encode (hmac key (utf8 (b64_encode (to_json claims)))))"
  using assms by (simp add: sign_challenge_def split_once_Some lit_def Let_def)

text \<open>A challenge the server signed is the challenge it reads back: with a codec that decodes what it
  encodes and never uses the dot, verifying a signed token under the same key gives the claims that were
  signed when the token has at most 2048 bytes, and the one error of an invalid token when it is longer.\<close>

theorem challenge_token_roundtrip:
  assumes json: "\<And>c. from_json (to_json c) = Some c"
    and base64: "\<And>b. b64_decode (b64_encode b) = Some b" "\<And>b. 46 \<notin> set (b64_encode b)"
  shows "verify_challenge from_json b64_decode hmac key
      (sign_challenge to_json b64_encode hmac key claims) =
    (if byte_len (sign_challenge to_json b64_encode hmac key claims) \<le> 2048 then Ok claims
     else Err (InvalidRequest ''Invalid challenge token''))"
  by (simp add: verify_challenge_def split_once_sign_challenge [OF base64(2)] json base64(1)
      invalid_token_def)

text \<open>A toy codec that meets the hypotheses: bytes shifted past the dot, and the claims as a list.\<close>

definition example_b64_encode :: "nat list \<Rightarrow> str" where
  "example_b64_encode bytes = map (\<lambda>b. b + 47) bytes"

definition example_b64_decode :: "str \<Rightarrow> nat list option" where
  "example_b64_decode s = (if list_all (\<lambda>c. 47 \<le> c) s then Some (map (\<lambda>c. c - 47) s) else None)"

definition example_to_json :: "challenge_claims \<Rightarrow> nat list" where
  "example_to_json c =
    [unat (claims_version c), unat (claims_id c), unat (claims_expected_work c),
     (if expires_at_unix c < 0 then 1 else 0), nat \<bar>expires_at_unix c\<bar>] @ manifest_digest c"

definition example_from_json :: "nat list \<Rightarrow> challenge_claims option" where
  "example_from_json bytes =
    (case bytes of v # i # w # s # e # d \<Rightarrow>
       Some \<lparr> claims_version = of_nat v, claims_id = of_nat i, manifest_digest = d,
         expires_at_unix = (if s = 1 then - int e else int e), claims_expected_work = of_nat w \<rparr>
     | _ \<Rightarrow> None)"

definition example_hmac :: "nat \<Rightarrow> nat list \<Rightarrow> nat list" where
  "example_hmac key bytes = [(key + sum_list bytes) mod 256]"

definition example_claims :: challenge_claims where
  "example_claims =
    \<lparr> claims_version = 1, claims_id = 5, manifest_digest = lit ''00'', expires_at_unix = 1800000000,
      claims_expected_work = 10 \<rparr>"

lemma example_json: "example_from_json (example_to_json c) = Some c"
  by (cases c) (simp add: example_from_json_def example_to_json_def)

lemma example_b64: "example_b64_decode (example_b64_encode b) = Some b" "46 \<notin> set (example_b64_encode b)"
  by (auto simp: example_b64_decode_def example_b64_encode_def list_all_iff comp_def)

lemma example_token_short:
  "byte_len (sign_challenge example_to_json example_b64_encode example_hmac 7 example_claims) \<le> 2048"
  by (simp add: sign_challenge_def example_to_json_def example_b64_encode_def example_hmac_def
      example_claims_def utf8_len_def lit_def Let_def)

theorem challenge_token_roundtrip_witness:
  "verify_challenge example_from_json example_b64_decode example_hmac 7
    (sign_challenge example_to_json example_b64_encode example_hmac 7 example_claims) = Ok example_claims"
  using challenge_token_roundtrip [where from_json = example_from_json and to_json = example_to_json
      and b64_decode = example_b64_decode and b64_encode = example_b64_encode and hmac = example_hmac
      and key = 7 and claims = example_claims, OF example_json example_b64]
  by (simp only: example_token_short if_True)

text \<open>C34: No token is accepted without the MAC of its payload under the server's key: an accepted token
  has at most 2048 bytes and is a payload, its first dot, and a text that decodes to that MAC, and the
  claims are those the payload encodes.\<close>

theorem accepted_token_is_authentic:
  assumes "verify_challenge from_json b64_decode hmac key token = Ok claims"
  shows "byte_len token \<le> 2048 \<and> (\<exists>p s. split_once 46 token = Some (p, s) \<and>
    b64_decode s = Some (hmac key (utf8 p)) \<and>
    Option.bind (b64_decode p) from_json = Some claims)"
proof -
  from assms obtain p s payload where *: "byte_len token \<le> 2048" "token = p @ lit ''.'' @ s"
    "46 \<notin> set p" "b64_decode s = Some (hmac key (utf8 p))" "b64_decode p = Some payload"
    "from_json payload = Some claims"
    unfolding verify_challenge_Ok by blast
  then have "split_once 46 token = Some (p, s)" by (simp add: split_once_Some lit_def)
  with * show ?thesis by simp
qed

lemma example_token_accepted:
  "verify_challenge example_from_json example_b64_decode example_hmac 7
    (sign_challenge example_to_json example_b64_encode example_hmac 7 example_claims) = Ok example_claims"
  using example_token_short
  by (simp add: verify_challenge_def split_once_sign_challenge [OF example_b64(2)] example_b64
      example_json)

theorem accepted_token_is_authentic_witness:
  "\<exists>p s. split_once 46 (sign_challenge example_to_json example_b64_encode example_hmac 7 example_claims) =
      Some (p, s) \<and> example_b64_decode s = Some (example_hmac 7 (utf8 p)) \<and>
    Option.bind (example_b64_decode p) example_from_json = Some example_claims"
  using accepted_token_is_authentic [OF example_token_accepted] by (rule conjunct2)

section \<open>Proofs\<close>

lemma length_to_le_bytes [simp]: "length (to_le_bytes w) = 8"
  by (simp add: to_le_bytes_def)

lemma div_le_iff_mult: "0 < w \<Longrightarrow> p \<le> m div w \<longleftrightarrow> p * w \<le> (m :: nat)"
  by (simp add: less_eq_div_iff_mult_less_eq)

lemma meets_target_iff:
  fixes p w :: "64 word"
  assumes "w \<noteq> 0"
  shows "p \<le> (- 1) div w \<longleftrightarrow> unat p * unat w \<le> u64_max"
proof -
  have "0 < unat w" using assms by (simp add: unat_gt_0)
  moreover have "unat ((- 1 :: 64 word) div w) = u64_max div unat w"
    by (simp add: unat_div unsigned_minus_1_eq_mask mask_eq_exp_minus_1)
  ultimately show ?thesis by (simp add: word_le_nat_alt div_le_iff_mult)
qed

text \<open>The target is exact: a proof is valid if and only if some work is expected and the prefix of
  the digest times the expected work still fits in 64 bits, so the test by division accepts exactly the
  fraction \<open>1 / expected_work\<close> of the prefixes and no proof serves a work of zero.\<close>

theorem proof_is_valid_iff:
  "proof_is_valid sha256 token nonce work \<longleftrightarrow>
    work \<noteq> 0 \<and> unat (proof_prefix sha256 token nonce) * unat work < 2 ^ 64"
proof (cases "work = 0")
  case False
  then show ?thesis
    using meets_target_iff [OF False, of "proof_prefix sha256 token nonce"]
    by (simp add: proof_is_valid_def) arith
qed (simp add: proof_is_valid_def)

lemma proof_antitone:
  "proof_is_valid sha256 token nonce work \<Longrightarrow> 0 < work' \<Longrightarrow> work' \<le> work \<Longrightarrow>
    proof_is_valid sha256 token nonce work'"
proof -
  assume *: "proof_is_valid sha256 token nonce work" "0 < work'" "work' \<le> work"
  let ?p = "unat (proof_prefix sha256 token nonce)"
  have ne: "work \<noteq> 0" using *(1) by (auto simp: proof_is_valid_def)
  have "?p * unat work' \<le> ?p * unat work" using *(3) by (simp add: word_le_nat_alt)
  also have "\<dots> \<le> u64_max"
    using * meets_target_iff [OF ne] by (auto simp: proof_is_valid_def split: if_splits)
  finally show ?thesis
    using *(2) meets_target_iff [of work' "proof_prefix sha256 token nonce"]
    by (auto simp: proof_is_valid_def)
qed

end
