(* ===== verification/Ingest_Db.thy ===== *)
theory Ingest_Db
  imports Complex_Main Db_Laws Manifest Proof_Of_Work Stack_Trace "HOL-Library.AList"
begin

text \<open>
  The tables the public service works on and the database functions it may call, as they are in
  \<open>src/migrations\<close>: challenges, submitted reports, upload leases, rate buckets and the queue of Discord
  notifications. The row of a report is in two parts: what the administration reads is a row of
  \<open>reports\<close> in the tracker's tables, and what the submission brought is a row of \<open>submissions\<close> with the
  same identifier. \<open>now()\<close> is the tracker's clock, in seconds.

  The check constraints on what a client controls are kept: the lengths, the size of an attachment, the
  form of keys and digests, and that a PostgreSQL text or JSON text holds no zero character.
\<close>

section \<open>Rows\<close>

record 'num stored_field =
  stored_key :: str
  stored_kind :: str
  stored_value :: "'num json"
  stored_recognized :: bool

record stored_attachment =
  stored_id :: uuid
  stored_reference :: str
  stored_name :: str
  stored_media_type :: str
  stored_size :: nat
  stored_sha256 :: str

record signature_row =
  sig_version :: int
  sig_fingerprint :: "str option"
  sig_matched :: "int option"

record 'num submission_row =
  sub_report :: report_id
  sub_submission :: uuid
  sub_digest :: str
  sub_kind :: str
  sub_version :: str
  sub_build :: str
  sub_staging :: uuid
  sub_created :: int
  sub_expires :: "int option"
  sub_fields :: "'num stored_field list"
  sub_attachments :: "stored_attachment list"
  sub_auto_match :: bool
  sub_signature :: "signature_row option"

record challenge_row =
  chl_id :: uuid
  chl_digest :: str
  chl_token_hash :: str
  chl_expires :: int
  chl_report :: "report_id option"

record upload_lease_row =
  lse_id :: uuid
  lse_key :: str
  lse_expires :: int

record bucket_row =
  bkt_tokens :: rat
  bkt_updated :: rat
  bkt_expires :: rat

record notification_row =
  ntf_report :: report_id
  ntf_attempts :: int
  ntf_failure :: "str option"
  ntf_status :: "int option"
  ntf_created :: int
  ntf_delivered :: "int option"

record 'num ingest_db =
  tracker :: db
  submissions :: "'num submission_row list"
  challenges :: "challenge_row list"
  upload_leases :: "upload_lease_row list"
  buckets :: "(str \<times> bucket_row) list"
  notifications :: "notification_row list"

type_synonym ('num, 'a) itx = "('num ingest_db, 'a) stx"

abbreviation now :: "'num ingest_db \<Rightarrow> int" where
  "now s \<equiv> clock (tracker s)"

section \<open>Challenges\<close>

definition insert_challenge :: "uuid \<Rightarrow> str \<Rightarrow> str \<Rightarrow> int \<Rightarrow> ('num, unit) itx" where
  "insert_challenge challenge_id digest signed_token_hash challenge_expires_at s =
    bind_res (fail_if (list_ex (\<lambda>c. chl_id c = challenge_id) (challenges s)) (Database ''challenges_pkey'')) (\<lambda>_.
    bind_res (fail_if (\<not> is_uuid_v7 challenge_id \<or> \<not> is_sha256_hex digest \<or> length signed_token_hash \<noteq> 64)
      (Database ''challenges: a constraint is violated'')) (\<lambda>_.
    Ok ((), s\<lparr> challenges := challenges s @
      [\<lparr> chl_id = challenge_id, chl_digest = digest, chl_token_hash = signed_token_hash,
         chl_expires = challenge_expires_at, chl_report = None \<rparr>] \<rparr>)))"

definition open_challenge :: "uuid \<Rightarrow> str \<Rightarrow> str \<Rightarrow> int \<Rightarrow> challenge_row \<Rightarrow> bool" where
  "open_challenge challenge_id digest signed_token_hash time c \<longleftrightarrow>
    chl_id c = challenge_id \<and> chl_digest c = digest \<and> chl_token_hash c = signed_token_hash \<and>
    chl_report c = None \<and> time < chl_expires c"

section \<open>Reports\<close>

datatype accept_result =
    Accepted_row report_id
  | Existing_row report_id
  | Submission_conflict report_id
  | Challenge_rejected
  | Invalid_payload

definition no_nul :: "str \<Rightarrow> bool" where
  "no_nul t \<longleftrightarrow> 0 \<notin> set t"

primrec json_storable :: "'num json \<Rightarrow> bool" where
  "json_storable (JsonString t) = no_nul t"
| "json_storable (JsonNumber n) = True"
| "json_storable (JsonBool b) = True"

definition field_row_ok :: "'num stored_field \<Rightarrow> bool" where
  "field_row_ok f \<longleftrightarrow>
    1 \<le> length (stored_key f) \<and> length (stored_key f) \<le> 64 \<and> list_all is_key_char (stored_key f) \<and>
    json_storable (stored_value f)"

definition attachment_row_ok :: "stored_attachment \<Rightarrow> bool" where
  "attachment_row_ok a \<longleftrightarrow>
    is_uuid_v7 (stored_id a) \<and>
    1 \<le> length (stored_reference a) \<and> length (stored_reference a) \<le> 64 \<and>
    list_all is_reference_char (stored_reference a) \<and>
    no_nul (stored_name a) \<and> 1 \<le> length (stored_name a) \<and> length (stored_name a) \<le> 128 \<and>
    stored_size a \<le> 67108864 \<and> is_sha256_hex (stored_sha256 a)"

definition submission_row_ok :: "'num submission_row \<Rightarrow> bool" where
  "submission_row_ok r \<longleftrightarrow>
    is_uuid_v7 (sub_report r) \<and> is_uuid (sub_submission r) \<and> is_uuid_v7 (sub_staging r) \<and>
    is_sha256_hex (sub_digest r) \<and> no_nul (sub_version r) \<and> no_nul (sub_build r) \<and>
    1 \<le> length (sub_version r) \<and> length (sub_version r) \<le> 256 \<and> length (sub_build r) \<le> 1024 \<and>
    list_all field_row_ok (sub_fields r) \<and> distinct (map stored_key (sub_fields r)) \<and>
    list_all attachment_row_ok (sub_attachments r) \<and>
    distinct (map stored_reference (sub_attachments r)) \<and> distinct (map stored_id (sub_attachments r))"

text \<open>The unique columns of the tables a submission writes to.\<close>

definition submission_keys_ok :: "'num submission_row list \<Rightarrow> bool" where
  "submission_keys_ok table \<longleftrightarrow>
    distinct (map sub_report table) \<and> distinct (map sub_submission table) \<and> distinct (map sub_staging table) \<and>
    distinct (concat (map (\<lambda>r. map stored_id (sub_attachments r)) table))"

definition new_report_row :: "report_id \<Rightarrow> str option \<Rightarrow> report_row" where
  "new_report_row rid source_key =
    \<lparr> rpt_id = rid, rpt_state = report_state.Triage, rpt_issue = None,
      rpt_storage = storage_state.PendingFiles, rpt_source = source_key, rpt_fix = None \<rparr>"

text \<open>The inserts of an accepted submission, with the use of its challenge and its audit event. A
  submission whose row breaks a constraint fails as a whole.\<close>

definition insert_report :: "uuid \<Rightarrow> str option \<Rightarrow> 'num submission_row \<Rightarrow> ('num, unit) itx" where
  "insert_report challenge_id source_key row s =
    bind_res (fail_if (\<not> submission_row_ok row \<or> \<not> submission_keys_ok (submissions s @ [row]) \<or>
        report_of (sub_report row) (tracker s) \<noteq> None \<or>
        (case source_key of None \<Rightarrow> False | Some k \<Rightarrow> \<not> is_sha256_hex k))
      (Database ''reports: a constraint is violated'')) (\<lambda>_.
    Ok ((), s\<lparr>
      tracker := (tracker s)\<lparr>
        reports := reports (tracker s) @ [new_report_row (sub_report row) source_key],
        events := events (tracker s) @ [\<lparr> evt_actor = None, evt_action = ReportSubmitted,
          evt_entity = Some (sub_report row), evt_details = DObject [(''kind'', DText (sub_kind row))] \<rparr>] \<rparr>,
      submissions := submissions s @ [row],
      challenges := map (\<lambda>c. if chl_id c = challenge_id then c\<lparr> chl_report := Some (sub_report row) \<rparr> else c)
        (challenges s) \<rparr>))"

definition accept_report_row ::
    "uuid \<Rightarrow> str \<Rightarrow> str option \<Rightarrow> 'num submission_row \<Rightarrow> ('num, accept_result) itx" where
  "accept_report_row challenge_id signed_token_hash source_key row s =
    (case find (\<lambda>r. sub_submission r = sub_submission row) (submissions s) of
      Some existing_report \<Rightarrow>
        if sub_digest existing_report = sub_digest row then Ok (Existing_row (sub_report existing_report), s)
        else Ok (Submission_conflict (sub_report existing_report), s)
    | None \<Rightarrow>
        if \<not> list_ex (open_challenge challenge_id (sub_digest row) signed_token_hash (now s)) (challenges s)
        then Ok (Challenge_rejected, s)
        else if length (sub_fields row) > 256 \<or> length (sub_attachments row) > 16
        then Ok (Invalid_payload, s)
        else bind_res (insert_report challenge_id source_key row s) (\<lambda>(_, s').
          Ok (Accepted_row (sub_report row), s')))"

definition configure_report_retention :: "report_id \<Rightarrow> int \<Rightarrow> ('num, unit) itx" where
  "configure_report_retention report days s =
    bind_res (fail_if (days < 30 \<or> days > 36500) (Database ''invalid report retention'')) (\<lambda>_.
    Ok ((), s\<lparr> submissions := map (\<lambda>r. if sub_report r = report \<and> sub_expires r = None
      then r\<lparr> sub_expires := Some (sub_created r + days * 86400) \<rparr> else r) (submissions s) \<rparr>))"

text \<open>The state of the files of a report is a column of its row in the tracker.\<close>

definition storage_of :: "'num ingest_db \<Rightarrow> report_id \<Rightarrow> storage_state option" where
  "storage_of s rid = map_option rpt_storage (report_of rid (tracker s))"

definition accept_stack_signature :: "report_id \<Rightarrow> int \<Rightarrow> str option \<Rightarrow> ('num, unit) itx" where
  "accept_stack_signature report version print s =
    (if storage_of s report = Some storage_state.PendingFiles
     then bind_res (fail_if (list_ex (\<lambda>r. sub_report r = report \<and> sub_signature r \<noteq> None) (submissions s))
         (Database ''report_stack_signatures_pkey'')) (\<lambda>_.
       Ok ((), s\<lparr> submissions := map (\<lambda>r. if sub_report r = report
         then r\<lparr> sub_signature := Some \<lparr> sig_version = version, sig_fingerprint = print, sig_matched = None \<rparr> \<rparr> else r) (submissions s) \<rparr>))
     else Ok ((), s))"

record report_receipt =
  receipt_report :: report_id
  receipt_digest_matches :: bool
  receipt_storage :: storage_state
  receipt_staging :: uuid

definition find_report_receipt :: "uuid \<Rightarrow> str \<Rightarrow> 'num ingest_db \<Rightarrow> report_receipt option" where
  "find_report_receipt submission digest s =
    Option.bind (find (\<lambda>r. sub_submission r = submission) (submissions s)) (\<lambda>r.
    map_option (\<lambda>st. \<lparr> receipt_report = sub_report r, receipt_digest_matches = (sub_digest r = digest),
        receipt_storage = st, receipt_staging = sub_staging r \<rparr>)
      (storage_of s (sub_report r)))"

text \<open>The trigger \<open>enqueue_discord_report_after_storage_ready\<close>.\<close>

definition enqueue_notification :: "int \<Rightarrow> report_id \<Rightarrow> notification_row list \<Rightarrow> notification_row list" where
  "enqueue_notification time rid table =
    (if list_ex (\<lambda>n. ntf_report n = rid) table then table
     else table @ [\<lparr> ntf_report = rid, ntf_attempts = 0, ntf_failure = None, ntf_status = None,
       ntf_created = time, ntf_delivered = None \<rparr>])"

definition mark_report_storage_ready :: "report_id \<Rightarrow> uuid \<Rightarrow> ('num, bool) itx" where
  "mark_report_storage_ready report upload_staging_id s =
    (if storage_of s report = Some storage_state.PendingFiles \<and>
       list_ex (\<lambda>r. sub_report r = report \<and> sub_staging r = upload_staging_id) (submissions s)
     then Ok (True, s\<lparr>
       tracker := (tracker s)\<lparr> reports := map (\<lambda>r. if rpt_id r = report
         then r\<lparr> rpt_storage := storage_state.Ready \<rparr> else r) (reports (tracker s)) \<rparr>,
       notifications := enqueue_notification (now s) report (notifications s) \<rparr>)
     else Ok (False, s))"

text \<open>The oldest hundred reports that still wait for their files; rows are kept in the order they were
  accepted.\<close>

definition pending_report_storage :: "'num ingest_db \<Rightarrow> (report_id \<times> uuid) list" where
  "pending_report_storage s =
    take 100 (map (\<lambda>r. (sub_report r, sub_staging r))
      (filter (\<lambda>r. storage_of s (sub_report r) = Some storage_state.PendingFiles) (submissions s)))"

definition staging_upload_is_referenced :: "uuid \<Rightarrow> 'num ingest_db \<Rightarrow> bool" where
  "staging_upload_is_referenced upload_staging_id s \<longleftrightarrow>
    list_ex (\<lambda>r. sub_staging r = upload_staging_id) (submissions s)"

section \<open>Upload leases\<close>

definition acquire_lease :: "uuid \<Rightarrow> str \<Rightarrow> int \<Rightarrow> int \<Rightarrow> int \<Rightarrow> ('num, bool) itx" where
  "acquire_lease lease_id client_key per_client_limit global_limit lifetime_seconds s =
    (let live = filter (\<lambda>l. \<not> lse_expires l < now s) (upload_leases s);
         s' = s\<lparr> upload_leases := live \<rparr> in
     if int (length live) \<ge> global_limit then Ok (False, s')
     else if int (length (filter (\<lambda>l. lse_key l = client_key) live)) \<ge> per_client_limit then Ok (False, s')
     else bind_res (fail_if (list_ex (\<lambda>l. lse_id l = lease_id) live) (Database ''upload_leases_pkey'')) (\<lambda>_.
       Ok (True, s\<lparr> upload_leases := live @ [\<lparr> lse_id = lease_id, lse_key = client_key,
         lse_expires = now s + lifetime_seconds \<rparr>] \<rparr>)))"

definition release_lease :: "uuid \<Rightarrow> ('num, unit) itx" where
  "release_lease lease_id s =
    Ok ((), s\<lparr> upload_leases := filter (\<lambda>l. lse_id l \<noteq> lease_id) (upload_leases s) \<rparr>)"

section \<open>Rate limits\<close>

text \<open>The token bucket, at the wall-clock time \<open>t\<close> in seconds (\<open>clock_timestamp()\<close>, not the start of the
  transaction). Rational numbers stand for double precision ones.\<close>

definition available_tokens :: "rat \<Rightarrow> rat \<Rightarrow> rat \<Rightarrow> rat \<Rightarrow> bucket_row \<Rightarrow> rat" where
  "available_tokens t refill_count refill_seconds capacity b =
    min capacity (bkt_tokens b + max 0 (t - bkt_updated b) * refill_count / refill_seconds)"

definition new_bucket :: "rat \<Rightarrow> rat \<Rightarrow> bucket_row" where
  "new_bucket t capacity = \<lparr> bkt_tokens = capacity, bkt_updated = t, bkt_expires = t + 7200 \<rparr>"

definition take_token :: "rat \<Rightarrow> rat \<Rightarrow> rat \<Rightarrow> rat \<Rightarrow> bucket_row option \<Rightarrow> bool \<times> bucket_row" where
  "take_token t refill_count refill_seconds capacity stored =
    (let b = (case stored of None \<Rightarrow> new_bucket t capacity | Some b \<Rightarrow> b);
         available = available_tokens t refill_count refill_seconds capacity b
     in (available \<ge> 1,
         \<lparr> bkt_tokens = max 0 (available - 1), bkt_updated = t, bkt_expires = t + 7200 \<rparr>))"

definition consume_rate_limit :: "rat \<Rightarrow> str \<Rightarrow> rat \<Rightarrow> rat \<Rightarrow> rat \<Rightarrow> ('num, bool) itx" where
  "consume_rate_limit t key refill_count refill_seconds capacity s =
    (let (accepted, b) = take_token t refill_count refill_seconds capacity (map_of (buckets s) key)
     in Ok (accepted, s\<lparr> buckets := AList.update key b (buckets s) \<rparr>))"

definition source_has_active_rate_limit :: "str \<Rightarrow> 'num ingest_db \<Rightarrow> bool" where
  "source_has_active_rate_limit candidate_client_key s \<longleftrightarrow>
    list_ex (\<lambda>l. lim_client_key l = candidate_client_key \<and> lim_lifted_by l = None \<and>
      (case lim_expires l of None \<Rightarrow> True | Some e \<Rightarrow> now s < e)) (source_limits (tracker s))"

section \<open>The sweep\<close>

record sweep_result =
  challenges_deleted :: nat
  rate_buckets_deleted :: nat
  upload_leases_deleted :: nat

definition sweep_expired_ingestion_state :: "('num, sweep_result) itx" where
  "sweep_expired_ingestion_state s =
    Ok (\<lparr> challenges_deleted = length (filter (\<lambda>c. chl_expires c \<le> now s) (challenges s)),
          rate_buckets_deleted = length (filter (\<lambda>(_, b). bkt_expires b \<le> of_int (now s)) (buckets s)),
          upload_leases_deleted = length (filter (\<lambda>l. lse_expires l \<le> now s) (upload_leases s)) \<rparr>,
        s\<lparr> challenges := filter (\<lambda>c. \<not> chl_expires c \<le> now s) (challenges s),
           buckets := filter (\<lambda>(_, b). \<not> bkt_expires b \<le> of_int (now s)) (buckets s),
           upload_leases := filter (\<lambda>l. \<not> lse_expires l \<le> now s) (upload_leases s) \<rparr>)"

end
