(* ===== verification/Attachment_Store.thy ===== *)
theory Attachment_Store
  imports Manifest Transactions Utf8 "HOL-Library.AList"
begin

text \<open>
  \<open>src/src/infrastructure/attachments/filesystem.rs\<close>: the directories attachments are staged and kept in,
  the writer that bounds and checks an upload, and the validation of what was written. A directory is the
  list of its files by name; the root holds the staging directories by upload and the report directories
  by report. Gzip, the PNG decoder, SHA-256 and the printing and parsing of identifiers are arguments.
  What can fail without a cause in the model, a disk that does not answer, is left out.
\<close>

type_synonym bytes = "nat list"
type_synonym directory = "(str \<times> bytes) list"

record staging_dir =
  staged_modified :: int
  staged_files :: directory

record file_store =
  staging_dirs :: "(uuid \<times> staging_dir) list"
  report_dirs :: "(uuid \<times> directory) list"
  free_space :: nat

section \<open>Directories\<close>

definition begin_staging :: "int \<Rightarrow> uuid \<Rightarrow> (file_store, unit) prog" where
  "begin_staging time upload_id fs =
    (case map_of (staging_dirs fs) upload_id of
      Some d \<Rightarrow> (Err (Conflict ''Upload staging area already exists''), fs)
    | None \<Rightarrow> (Ok (), fs\<lparr> staging_dirs := AList.update upload_id
        \<lparr> staged_modified = time, staged_files = [] \<rparr> (staging_dirs fs) \<rparr>))"

definition finalize_upload :: "uuid \<Rightarrow> uuid \<Rightarrow> (file_store, unit) prog" where
  "finalize_upload upload_id rid fs =
    (if map_of (report_dirs fs) rid \<noteq> None then
       (if map_of (staging_dirs fs) upload_id = None then (Ok (), fs)
        else (Err (Conflict ''Report attachment directory already exists''), fs))
     else
       (case map_of (staging_dirs fs) upload_id of
         None \<Rightarrow> (Err (Io ''No such file or directory''), fs)
       | Some d \<Rightarrow> (Ok (), fs\<lparr> staging_dirs := AList.delete upload_id (staging_dirs fs),
           report_dirs := AList.update rid (staged_files d) (report_dirs fs) \<rparr>)))"

definition remove_staging :: "uuid \<Rightarrow> (file_store, unit) prog" where
  "remove_staging upload_id fs = (Ok (), fs\<lparr> staging_dirs := AList.delete upload_id (staging_dirs fs) \<rparr>)"

definition remove_report_files :: "uuid \<Rightarrow> (file_store, unit) prog" where
  "remove_report_files rid fs = (Ok (), fs\<lparr> report_dirs := AList.delete rid (report_dirs fs) \<rparr>)"

definition stale_staging_uploads :: "int \<Rightarrow> file_store \<Rightarrow> uuid list" where
  "stale_staging_uploads older_than fs =
    map fst (filter (\<lambda>(_, d). staged_modified d \<le> older_than) (staging_dirs fs))"

definition path_for_storage_key ::
    "(str \<Rightarrow> uuid option) \<Rightarrow> str \<Rightarrow> (uuid \<times> str) result" where
  "path_for_storage_key parse_id storage_key =
    (case split_char 47 storage_key of
      [root, rtext, aid] \<Rightarrow>
        (case (parse_id rtext, parse_id aid) of
          (Some rid, Some _) \<Rightarrow>
            if root = lit ''reports'' then Ok (rid, aid)
            else Err (Internal ''invalid attachment storage key'')
        | _ \<Rightarrow> Err (Internal ''invalid attachment storage key''))
    | _ \<Rightarrow> Err (Internal ''invalid attachment storage key''))"

section \<open>The writer of one attachment\<close>

record attachment_writer =
  wtr_upload :: uuid
  wtr_path :: str
  wtr_maximum :: nat
  wtr_written :: nat
  wtr_bytes :: bytes

definition set_staged_file :: "uuid \<Rightarrow> str \<Rightarrow> bytes \<Rightarrow> file_store \<Rightarrow> file_store" where
  "set_staged_file upload_id path content fs =
    (case map_of (staging_dirs fs) upload_id of
      None \<Rightarrow> fs
    | Some d \<Rightarrow> fs\<lparr> staging_dirs := AList.update upload_id
        (d\<lparr> staged_files := AList.update path content (staged_files d) \<rparr>) (staging_dirs fs) \<rparr>)"

definition create_writer :: "(uuid \<Rightarrow> str) \<Rightarrow> uuid \<Rightarrow> uuid \<Rightarrow> nat \<Rightarrow> (file_store, attachment_writer) prog" where
  "create_writer show_id upload_id aid maximum_bytes fs =
    (case map_of (staging_dirs fs) upload_id of
      None \<Rightarrow> (Err (Io ''No such file or directory''), fs)
    | Some d \<Rightarrow>
        if map_of (staged_files d) (show_id aid) \<noteq> None then (Err (Io ''File exists''), fs)
        else (Ok \<lparr> wtr_upload = upload_id, wtr_path = show_id aid, wtr_maximum = maximum_bytes,
            wtr_written = 0, wtr_bytes = [] \<rparr>,
          set_staged_file upload_id (show_id aid) [] fs))"

definition attachment_write :: "attachment_writer \<Rightarrow> bytes \<Rightarrow> (file_store, attachment_writer) prog" where
  "attachment_write w chunk =
    bind_prog (lift_prog (ok_or (u64_checked_add (wtr_written w) (length chunk)) PayloadTooLarge)) (\<lambda>new_size.
    bind_prog (lift_prog (fail_if (new_size > wtr_maximum w) PayloadTooLarge)) (\<lambda>_ fs.
    let content = wtr_bytes w @ chunk in
    (Ok (w\<lparr> wtr_written := new_size, wtr_bytes := content \<rparr>),
      set_staged_file (wtr_upload w) (wtr_path w) content fs)))"

definition remove_staged_file :: "uuid \<Rightarrow> str \<Rightarrow> file_store \<Rightarrow> file_store" where
  "remove_staged_file upload_id path fs =
    (case map_of (staging_dirs fs) upload_id of
      None \<Rightarrow> fs
    | Some d \<Rightarrow> fs\<lparr> staging_dirs := AList.update upload_id
        (d\<lparr> staged_files := AList.delete path (staged_files d) \<rparr>) (staging_dirs fs) \<rparr>)"

definition attachment_finish ::
    "(bytes \<Rightarrow> str) \<Rightarrow> attachment_writer \<Rightarrow> nat \<Rightarrow> str \<Rightarrow> (file_store, unit) prog" where
  "attachment_finish sha_hex w expected_size expected_digest fs =
    (let actual_digest = sha_hex (wtr_bytes w) in
     if wtr_written w \<noteq> expected_size \<or> actual_digest \<noteq> expected_digest
     then (Err (InvalidRequest ''Attachment size or digest does not match its manifest''),
       remove_staged_file (wtr_upload w) (wtr_path w) fs)
     else (Ok (), fs))"

section \<open>UTF-8 and compression\<close>

text \<open>\<open>std::str::from_utf8\<close>: decoding that accepts only the encodings of scalar values.\<close>

definition is_scalar :: "uchar \<Rightarrow> bool" where
  "is_scalar c \<longleftrightarrow> c < 55296 \<or> (57344 \<le> c \<and> c < 1114112)"

lemma utf8_next_shorter: "utf8_next bs = Some (c, r) \<Longrightarrow> length r < length bs"
  by (cases bs) (auto split: if_splits list.splits)

function from_utf8 :: "bytes \<Rightarrow> str option" where
  "from_utf8 bs =
    (if bs = [] then Some []
     else case utf8_next bs of
       None \<Rightarrow> None
     | Some (c, r) \<Rightarrow>
         if is_scalar c \<and> bs = utf8_char c @ r then map_option (Cons c) (from_utf8 r) else None)"
  by pat_completeness auto

termination
  by (relation "measure length") (auto dest: utf8_next_shorter)

declare from_utf8.simps [simp del]

lemma from_utf8_Some: "from_utf8 bs = Some s \<longleftrightarrow> bs = utf8 s \<and> list_all is_scalar s"
proof (induction bs arbitrary: s rule: from_utf8.induct)
  case (1 bs)
  show ?case
  proof (cases "bs = []")
    case True
    then show ?thesis by (cases s) (auto simp: from_utf8.simps)
  next
    case ne: False
    show ?thesis
    proof (cases s)
      case Nil
      then show ?thesis using ne by (subst from_utf8.simps) (auto split: option.splits)
    next
      case (Cons c t)
      have undo: "is_scalar c \<Longrightarrow> utf8_next (utf8_char c @ r) = Some (c, r)" for c r
        by (rule utf8_next_char) (auto simp: is_scalar_def)
      show ?thesis
      proof
        assume "from_utf8 bs = Some s"
        then obtain r where "utf8_next bs = Some (c, r)" "is_scalar c" "bs = utf8_char c @ r" "from_utf8 r = Some t"
          using ne Cons by (subst (asm) from_utf8.simps) (auto split: option.splits if_splits prod.splits)
        then show "bs = utf8 s \<and> list_all is_scalar s" using "1.IH" [of "(c, r)" c r t] ne Cons undo by auto
      next
        assume *: "bs = utf8 s \<and> list_all is_scalar s"
        then have nx: "utf8_next bs = Some (c, utf8 t)" "is_scalar c" "bs = utf8_char c @ utf8 t"
          using Cons undo by auto
        have "from_utf8 (utf8 t) = Some t"
          using "1.IH" [of "(c, utf8 t)" c "utf8 t" t] ne nx * Cons by auto
        then show "from_utf8 bs = Some s" using ne nx Cons by (subst from_utf8.simps) simp
      qed
    qed
  qed
qed

definition validate_utf8_text :: "bytes \<Rightarrow> nat \<Rightarrow> unit result" where
  "validate_utf8_text content maximum_bytes =
    fail_if (length content > maximum_bytes \<or> from_utf8 content = None)
      (InvalidRequest ''Text attachment is not valid bounded UTF-8'')"

definition GZIP_MAGIC :: bytes where
  "GZIP_MAGIC = [31, 139]"

abbreviation (input) MAXIMUM_ATTACHMENT_BYTES :: nat where
  "MAXIMUM_ATTACHMENT_BYTES \<equiv> 67108864"

definition is_gzip :: "bytes \<Rightarrow> bool" where
  "is_gzip content \<longleftrightarrow> prefix GZIP_MAGIC content"

text \<open>The decoder reads at most so many bytes of output, or fails on a damaged file.\<close>

definition read_uncompressed :: "(nat \<Rightarrow> bytes \<Rightarrow> bytes result) \<Rightarrow> bytes \<Rightarrow> bytes result" where
  "read_uncompressed gunzip content =
    (if \<not> is_gzip content then Ok content
     else
       bind_res (gunzip (MAXIMUM_ATTACHMENT_BYTES + 1) content) (\<lambda>uncompressed.
       bind_res (fail_if (length uncompressed > MAXIMUM_ATTACHMENT_BYTES)
         (Internal ''stored attachment is larger than an attachment may be'')) (\<lambda>_.
       Ok uncompressed)))"

text \<open>The new content, and whether the file was plain. The file beside it that is renamed over it is not
  seen by a reader.\<close>

definition compress_in_place :: "(bytes \<Rightarrow> bytes) \<Rightarrow> bytes \<Rightarrow> bool \<times> bytes" where
  "compress_in_place gzip content = (if is_gzip content then (False, content) else (True, gzip content))"

text \<open>\<open>compress_stored_text\<close>: a file that is gone is left alone.\<close>

definition compress_stored_text ::
    "(str \<Rightarrow> uuid option) \<Rightarrow> (bytes \<Rightarrow> bytes) \<Rightarrow> str \<Rightarrow> (file_store, bool) prog" where
  "compress_stored_text parse_id gzip storage_key fs =
    (case path_for_storage_key parse_id storage_key of
      Inl e \<Rightarrow> (Err e, fs)
    | Inr (rid, name) \<Rightarrow>
        (case map_of (report_dirs fs) rid of
          None \<Rightarrow> (Ok False, fs)
        | Some d \<Rightarrow>
            (case map_of d name of
              None \<Rightarrow> (Ok False, fs)
            | Some content \<Rightarrow>
                let (changed, content') = compress_in_place gzip content in
                (Ok changed, fs\<lparr> report_dirs := AList.update rid (AList.update name content' d) (report_dirs fs) \<rparr>))))"

definition read_attachment ::
    "(str \<Rightarrow> uuid option) \<Rightarrow> (nat \<Rightarrow> bytes \<Rightarrow> bytes result) \<Rightarrow> str \<Rightarrow> file_store \<Rightarrow> bytes result" where
  "read_attachment parse_id gunzip storage_key fs =
    bind_res (path_for_storage_key parse_id storage_key) (\<lambda>(rid, name).
    bind_res (ok_or (Option.bind (map_of (report_dirs fs) rid) (\<lambda>d. map_of d name))
      (Io ''No such file or directory'')) (read_uncompressed gunzip))"

section \<open>Validation of a staged upload\<close>

text \<open>What the PNG decoder reports of a file: its header, the size of the decoded frame, and whether the
  pixel data and the end of the file decode.\<close>

record png_info =
  png_width :: nat
  png_height :: nat
  png_animated :: bool
  png_buffer_size :: "nat option"
  png_frame_decodes :: bool
  png_ends_well :: bool

definition u64_checked_mul :: "nat \<Rightarrow> nat \<Rightarrow> nat option" where
  "u64_checked_mul a b = (if a * b \<le> u64_max then Some (a * b) else None)"

definition validate_png :: "(nat \<Rightarrow> bytes \<Rightarrow> png_info option) \<Rightarrow> bytes \<Rightarrow> nat \<Rightarrow> nat \<Rightarrow> unit result" where
  "validate_png read_info content maximum_pixels maximum_decoded_bytes =
    bind_res (ok_or (read_info maximum_decoded_bytes content) (InvalidRequest ''Invalid PNG attachment'')) (\<lambda>info.
    bind_res (ok_or (u64_checked_mul (png_width info) (png_height info))
      (InvalidRequest ''PNG dimensions are too large'')) (\<lambda>pixels.
    bind_res (fail_if (png_width info = 0 \<or> png_height info = 0 \<or> pixels > maximum_pixels \<or> png_animated info)
      (InvalidRequest ''PNG dimensions or animation are not supported'')) (\<lambda>_.
    bind_res (ok_or (png_buffer_size info) (InvalidRequest ''PNG output is too large'')) (\<lambda>buffer_size.
    bind_res (fail_if (buffer_size > maximum_decoded_bytes) (InvalidRequest ''PNG output is too large'')) (\<lambda>_.
    bind_res (fail_if (\<not> png_frame_decodes info) (InvalidRequest ''Invalid PNG pixel data'')) (\<lambda>_.
    fail_if (\<not> png_ends_well info) (InvalidRequest ''Invalid PNG ending'')))))))"

abbreviation (input) PNG_VALIDATION_MEMORY_UNIT :: nat where
  "PNG_VALIDATION_MEMORY_UNIT \<equiv> 1048576"

abbreviation (input) PNG_VALIDATION_MEMORY_BUDGET :: nat where
  "PNG_VALIDATION_MEMORY_BUDGET \<equiv> 134217728"

text \<open>The permits one decoder takes of the semaphore, and all permits there are.\<close>

definition memory_permits :: "ingestion_limits \<Rightarrow> nat" where
  "memory_permits l =
    (png_decoded_bytes l + (PNG_VALIDATION_MEMORY_UNIT - 1)) div PNG_VALIDATION_MEMORY_UNIT mod 2 ^ 32"

definition all_permits :: nat where
  "all_permits = PNG_VALIDATION_MEMORY_BUDGET div PNG_VALIDATION_MEMORY_UNIT"

text \<open>The content the file is left with.\<close>

definition validate_attachment_file ::
    "(nat \<Rightarrow> bytes \<Rightarrow> png_info option) \<Rightarrow> (bytes \<Rightarrow> bytes) \<Rightarrow> bytes \<Rightarrow> attachment_manifest \<Rightarrow>
      ingestion_limits \<Rightarrow> bytes result" where
  "validate_attachment_file read_info gzip content a l =
    (case attachment_media a of
      PlainText \<Rightarrow>
        bind_res (validate_utf8_text content (attachment_bytes l)) (\<lambda>_. Ok (snd (compress_in_place gzip content)))
    | Png \<Rightarrow>
        bind_res (validate_png read_info content (png_pixels l) (png_decoded_bytes l)) (\<lambda>_. Ok content))"

text \<open>\<open>attachment_ids[&id]\<close> panics on a reference that is not there.\<close>

fun validate_staged_files ::
    "(nat \<Rightarrow> bytes \<Rightarrow> png_info option) \<Rightarrow> (bytes \<Rightarrow> bytes) \<Rightarrow> (uuid \<Rightarrow> str) \<Rightarrow>
      (attachment_reference \<rightharpoonup> uuid) \<Rightarrow> ingestion_limits \<Rightarrow> attachment_manifest list \<Rightarrow> directory \<Rightarrow> directory result" where
  "validate_staged_files read_info gzip show_id ids l [] d = Ok d"
| "validate_staged_files read_info gzip show_id ids l (a # as) d =
    bind_res (ok_or (ids (attachment_id a)) (Internal ''panic: no entry found for key'')) (\<lambda>aid.
    bind_res (ok_or (map_of d (show_id aid)) (Io ''No such file or directory'')) (\<lambda>content.
    bind_res (validate_attachment_file read_info gzip content a l) (\<lambda>content'.
    validate_staged_files read_info gzip show_id ids l as (AList.update (show_id aid) content' d))))"

definition validate_staging ::
    "(nat \<Rightarrow> bytes \<Rightarrow> png_info option) \<Rightarrow> (bytes \<Rightarrow> bytes) \<Rightarrow> (uuid \<Rightarrow> str) \<Rightarrow> (str \<Rightarrow> uuid option) \<Rightarrow>
      uuid \<Rightarrow> attachment_manifest list \<Rightarrow> (attachment_reference \<rightharpoonup> uuid) \<Rightarrow> ingestion_limits \<Rightarrow>
      (file_store, unit) prog" where
  "validate_staging read_info gzip show_id parse_id upload_id as ids l fs =
    (case map_of (staging_dirs fs) upload_id of
      None \<Rightarrow> (Err (Io ''No such file or directory''), fs)
    | Some d \<Rightarrow>
        (case validate_staged_files read_info gzip show_id ids l as (staged_files d) of
          Inl e \<Rightarrow> (Err e, fs)
        | Inr files \<Rightarrow>
            let validated_ids = set (List.map_filter (\<lambda>a. ids (attachment_id a)) as);
                expected = (\<lambda>(name, _). case parse_id name of None \<Rightarrow> False | Some u \<Rightarrow> u \<in> validated_ids) in
            (if list_all expected files then Ok () else Err (InvalidRequest ''Unexpected staged attachment''),
              fs\<lparr> staging_dirs := AList.update upload_id (d\<lparr> staged_files := files \<rparr>) (staging_dirs fs) \<rparr>)))"

section \<open>What is read back\<close>

lemma utf8_char_head: "hd (utf8_char c) < 128 \<or> 192 \<le> hd (utf8_char c)"
  by (simp add: utf8_char_def)

lemma utf8_not_gzip: "\<not> is_gzip (utf8 s)"
proof
  assume "is_gzip (utf8 s)"
  then obtain r where r: "utf8 s = 31 # 139 # r" by (auto simp: is_gzip_def GZIP_MAGIC_def prefix_def)
  then obtain c t where s: "s = c # t" by (cases s) auto
  have "hd (utf8_char c) = 31" using r s utf8_char_not_Nil [of c] by (metis hd_append list.sel(1) utf8_simps(2))
  then have "utf8_char c = [31]" by (simp add: utf8_char_def split: if_splits)
  then have t: "utf8 t = 139 # r" using r s by simp
  then obtain d u where "t = d # u" by (cases t) auto
  then have "hd (utf8_char d) = 139" using t utf8_char_not_Nil [of d] by (metis hd_append list.sel(1) utf8_simps(2))
  then show False using utf8_char_head [of d] by simp
qed

text \<open>C31: A text attachment is read back as it was uploaded, stored plain or compressed: a file that passed
  validation never looks like gzip, so it is compressed exactly once, and both the plain and the compressed
  file read as the uploaded bytes, with a gzip that decodes what it encodes and files of at most 64 MiB.\<close>

theorem stored_text_reads_back:
  assumes gzip: "is_gzip (gzip content)" "\<And>n. gunzip n (gzip content) = Ok (take n content)"
    and valid: "validate_utf8_text content maximum_bytes = Ok ()" and small: "length content \<le> 67108864"
  shows "read_uncompressed gunzip content = Ok content \<and>
    compress_in_place gzip content = (True, gzip content) \<and>
    read_uncompressed gunzip (gzip content) = Ok content \<and>
    compress_in_place gzip (gzip content) = (False, gzip content)"
proof -
  have "\<not> is_gzip content"
    using valid utf8_not_gzip by (auto simp: validate_utf8_text_def result_simps from_utf8_Some)
  then show ?thesis using gzip small by (simp add: read_uncompressed_def compress_in_place_def)
qed

definition example_gzip :: "bytes \<Rightarrow> bytes" where
  "example_gzip content = GZIP_MAGIC @ content"

definition example_gunzip :: "nat \<Rightarrow> bytes \<Rightarrow> bytes result" where
  "example_gunzip n content = Ok (take n (drop 2 content))"

theorem stored_text_reads_back_witness:
  "read_uncompressed example_gunzip [115, 116] = Ok [115, 116] \<and>
    compress_in_place example_gzip [115, 116] = (True, example_gzip [115, 116]) \<and>
    read_uncompressed example_gunzip (example_gzip [115, 116]) = Ok [115, 116] \<and>
    compress_in_place example_gzip (example_gzip [115, 116]) = (False, example_gzip [115, 116])"
proof (rule stored_text_reads_back)
  have "from_utf8 [115, 116] = Some [115, 116]" by (simp add: from_utf8_Some is_scalar_def utf8_char_def)
  then show "validate_utf8_text [115, 116] 64 = Ok ()" by (simp add: validate_utf8_text_def)
qed (simp_all add: example_gzip_def example_gunzip_def is_gzip_def GZIP_MAGIC_def)

text \<open>The decoders of validated images stay within their memory: under a validated configuration one
  decoder takes at least the permits its output needs and at most half of all permits, so two of the largest
  can run at once and no request for permits can wait for more than there are.\<close>

theorem png_memory_within_budget:
  assumes "validate_payload_limits c = Ok ()"
  shows "png_decoded_bytes (limits c) \<le> memory_permits (limits c) * 1048576 \<and>
    1 \<le> memory_permits (limits c) \<and> 2 * memory_permits (limits c) \<le> all_permits"
proof -
  have bounds: "0 < png_decoded_bytes (limits c)" "png_decoded_bytes (limits c) \<le> 67108864"
    using assms by (auto simp: validate_payload_limits_def Let_def fail_if_eq_Ok)
  let ?p = "(png_decoded_bytes (limits c) + 1048575) div 1048576"
  have "?p \<le> (67108864 + 1048575) div 1048576" using bounds by (intro div_le_mono) simp
  then have le: "?p \<le> 64" by simp
  then have "memory_permits (limits c) = ?p" by (simp add: memory_permits_def)
  moreover have "png_decoded_bytes (limits c) \<le> ?p * 1048576" "1 \<le> ?p" using bounds by simp_all
  ultimately show ?thesis using le by (simp add: all_permits_def)
qed

lemma default_payload_limits: "validate_payload_limits runtime_configuration_default = Ok ()"
  by (simp add: validate_payload_limits_def runtime_configuration_default_def ingestion_limits_default_def)

theorem png_memory_within_budget_witness: "2 * memory_permits (limits runtime_configuration_default) \<le> all_permits"
  using png_memory_within_budget [OF default_payload_limits] by blast

end
