(* ===== verification/Ingestion.thy ===== *)
theory Ingestion
  imports Ingest_Db Attachment_Store
begin

text \<open>
  The submission of a report: \<open>src/src/infrastructure/database/ingest.rs\<close> (the transaction that accepts a
  report), \<open>src/src/application/report_ingestion.rs\<close> and the submission handler of
  \<open>src/src/web/public/handlers.rs\<close>. The state is the database and the attachment store. An accepted
  submission goes through steps that can be cut between any two of them, by the upload deadline or by a
  crash, so the service is a step function on its phases.

  The libraries' functions the service calls are collected in the record \<open>external\<close>; identifiers and the
  times of the clock are arguments.
\<close>

section \<open>What the service calls\<close>

record ('num, 'key) external =
  ext_from_json :: "bytes \<Rightarrow> challenge_claims option"
  ext_to_json :: "challenge_claims \<Rightarrow> bytes"
  ext_b64_decode :: "str \<Rightarrow> bytes option"
  ext_b64_encode :: "bytes \<Rightarrow> str"
  ext_hmac :: "'key \<Rightarrow> bytes \<Rightarrow> bytes"
  ext_sha256 :: "bytes \<Rightarrow> bytes"
  ext_hex :: "bytes \<Rightarrow> str"
  ext_manifest_from_json :: "bytes \<Rightarrow> 'num report_manifest option"
  ext_alnum :: "uchar \<Rightarrow> bool"
  ext_lowercase :: "str \<Rightarrow> str"
  ext_show_id :: "uuid \<Rightarrow> str"
  ext_parse_id :: "str \<Rightarrow> uuid option"
  ext_png :: "nat \<Rightarrow> bytes \<Rightarrow> png_info option"
  ext_gzip :: "bytes \<Rightarrow> bytes"

definition sha_hex :: "('num, 'key) external \<Rightarrow> bytes \<Rightarrow> str" where
  "sha_hex ext = sha256_hex (ext_sha256 ext) (ext_hex ext)"

record 'num service =
  database :: "'num ingest_db"
  store :: file_store

definition on_database :: "('num, 'a) itx \<Rightarrow> ('num service, 'a) prog" where
  "on_database t s = (case run_tx t (database s) of (r, d) \<Rightarrow> (r, s\<lparr> database := d \<rparr>))"

definition on_store :: "(file_store, 'a) prog \<Rightarrow> ('num service, 'a) prog" where
  "on_store m s = (case m (store s) of (r, fs) \<Rightarrow> (r, s\<lparr> store := fs \<rparr>))"

section \<open>Accepting a report in the database\<close>

datatype accept_outcome = Accepted report_id | Existing report_receipt

record 'num accept_request =
  req_claims :: challenge_claims
  req_token_hash :: str
  req_manifest :: "'num report_manifest"
  req_attachment_ids :: "attachment_reference \<rightharpoonup> uuid"
  req_upload :: uuid
  req_source_key :: str
  req_definitions :: "str \<rightharpoonup> field_definition"
  req_retention_days :: nat

definition store_field :: "(str \<rightharpoonup> field_definition) \<Rightarrow> 'num diagnostic_field \<Rightarrow> 'num stored_field" where
  "store_field definitions f =
    \<lparr> stored_key = field_key f, stored_kind = lit (field_kind_as_str (field_value_kind (field_value f))),
      stored_value = json_value (field_value f), stored_recognized = (definitions (field_key f) \<noteq> None) \<rparr>"

text \<open>\<open>attachment_ids[&id]\<close>: the map is built from the manifest, so every reference is in it.\<close>

definition store_attachment :: "(attachment_reference \<rightharpoonup> uuid) \<Rightarrow> attachment_manifest \<Rightarrow> stored_attachment" where
  "store_attachment ids a =
    \<lparr> stored_id = the (ids (attachment_id a)), stored_reference = reference_as_str (attachment_id a),
      stored_name = attachment_name a, stored_media_type = lit (media_type_as_str (attachment_media a)),
      stored_size = attachment_size a, stored_sha256 = attachment_sha256 a \<rparr>"

definition submission_of :: "report_id \<Rightarrow> int \<Rightarrow> 'num accept_request \<Rightarrow> 'num submission_row" where
  "submission_of rid time req =
    (let m = req_manifest req in
     \<lparr> sub_report = rid, sub_submission = submission_id m, sub_digest = manifest_digest (req_claims req),
       sub_kind = lit (report_kind_as_str (report_kind m)), sub_version = client_version m, sub_build = build m,
       sub_staging = req_upload req, sub_created = time, sub_expires = None,
       sub_fields = map (store_field (req_definitions req)) (manifest_fields m),
       sub_attachments = map (store_attachment (req_attachment_ids req)) (attachments m),
       sub_auto_match = True, sub_signature = None \<rparr>)"

text \<open>The text of the first field of a key that is a text.\<close>

definition text_of :: "'num diagnostic_field list \<Rightarrow> str \<Rightarrow> str option" where
  "text_of submitted key =
    (case List.map_filter (\<lambda>f. case field_value f of
        field_value.Text t \<Rightarrow> if field_key f = key then Some t else None | _ \<Rightarrow> None) submitted of
      [] \<Rightarrow> None | t # _ \<Rightarrow> Some t)"

definition sign_report ::
    "('num, 'key) external \<Rightarrow> report_id \<Rightarrow> 'num accept_request \<Rightarrow> ('num, unit) itx" where
  "sign_report ext rid req =
    (let m = req_manifest req; submitted = manifest_fields m in
     case submitted_stack_trace submitted (req_definitions req) of
       None \<Rightarrow> return_tx ()
     | Some stack \<Rightarrow>
         accept_stack_signature rid STACK_SIGNATURE_VERSION
           (stack_fingerprint (sha_hex ext) (ext_lowercase ext) (report_kind m)
             (text_of submitted (lit ''process'')) (text_of submitted (lit ''signal''))
             (text_of submitted (lit ''failure_reason'')) (parse_stack_trace (ext_alnum ext) stack)))"

definition accept_report ::
    "('num, 'key) external \<Rightarrow> report_id \<Rightarrow> 'num accept_request \<Rightarrow> ('num, accept_outcome) itx" where
  "accept_report ext rid req =
    bind_tx (get_tx now) (\<lambda>time.
    bind_tx (accept_report_row (claims_id (req_claims req)) (req_token_hash req) (Some (req_source_key req))
      (submission_of rid time req)) (\<lambda>outcome.
    case outcome of
      Accepted_row rid' \<Rightarrow>
        bind_tx (configure_report_retention rid' (int (req_retention_days req))) (\<lambda>_.
        bind_tx (sign_report ext rid' req) (\<lambda>_.
        return_tx (Accepted rid')))
    | Existing_row _ \<Rightarrow>
        bind_tx (get_tx (find_report_receipt (submission_id (req_manifest req)) (manifest_digest (req_claims req))))
          (\<lambda>receipt. lift_tx (map_sum id Existing (ok_or receipt (Internal ''panic: existing outcome has a receipt''))))
    | Submission_conflict _ \<Rightarrow> lift_tx (Err (Conflict ''Submission ID already used''))
    | Challenge_rejected \<Rightarrow> lift_tx (Err (Conflict ''Challenge expired, invalid, or already consumed''))
    | Invalid_payload \<Rightarrow> lift_tx (Err (InvalidRequest ''Invalid report payload''))))"

section \<open>Challenges and preparation\<close>

record issued_challenge =
  issued_token :: str
  issued_expires_at_unix :: int
  issued_expected_work :: "64 word"

definition issue_challenge ::
    "('num, 'key) external \<Rightarrow> 'key \<Rightarrow> 'net runtime_configuration \<Rightarrow> uuid \<Rightarrow> str \<Rightarrow> ('num service, issued_challenge) prog" where
  "issue_challenge ext key cfg fresh_id digest =
    bind_prog (lift_prog (fail_if (\<not> is_sha256_hex digest) (InvalidRequest ''Invalid manifest digest''))) (\<lambda>_.
    bind_prog (get_prog (\<lambda>s. now (database s))) (\<lambda>time.
    let expiry = time + int (challenge_lifetime_seconds (proof_of_work cfg));
        claims = \<lparr> claims_version = 1, claims_id = fresh_id, manifest_digest = digest,
          expires_at_unix = expiry, claims_expected_work = of_nat (expected_work (proof_of_work cfg)) \<rparr>;
        token = sign_challenge (ext_to_json ext) (ext_b64_encode ext) (ext_hmac ext) key claims in
    bind_prog (on_database (insert_challenge fresh_id digest (sha_hex ext (utf8 token)) expiry)) (\<lambda>_.
    return_prog \<lparr> issued_token = token, issued_expires_at_unix = expiry,
      issued_expected_work = claims_expected_work claims \<rparr>)))"

record 'num prepared_submission =
  prep_manifest :: "'num report_manifest"
  prep_attachment_ids :: "attachment_reference \<rightharpoonup> uuid"
  prep_upload :: uuid
  prep_claims :: challenge_claims
  prep_token_hash :: str
  prep_definitions :: "str \<rightharpoonup> field_definition"

datatype 'num prepare_outcome = Ready_submission "'num prepared_submission" | Existing_report report_id

definition recover_receipt :: "report_receipt \<Rightarrow> ('num service, unit) prog" where
  "recover_receipt receipt =
    (if receipt_storage receipt = storage_state.Ready then return_prog ()
     else
       bind_prog (on_store (finalize_upload (receipt_staging receipt) (receipt_report receipt))) (\<lambda>_.
       bind_prog (on_database (mark_report_storage_ready (receipt_report receipt) (receipt_staging receipt))) (\<lambda>_.
       return_prog ())))"

definition handle_existing_receipt :: "report_receipt \<Rightarrow> ('num service, 'num prepare_outcome) prog" where
  "handle_existing_receipt receipt =
    bind_prog (lift_prog (fail_if (\<not> receipt_digest_matches receipt) (Conflict ''Submission ID already used''))) (\<lambda>_.
    bind_prog (recover_receipt receipt) (\<lambda>_.
    return_prog (Existing_report (receipt_report receipt))))"

definition ensure_storage_capacity :: "'net runtime_configuration \<Rightarrow> ('num service, unit) prog" where
  "ensure_storage_capacity cfg =
    (let required = min u64_max (minimum_free_storage_bytes (limits cfg) + submission_bytes (limits cfg)) in
     bind_prog (get_prog (\<lambda>s. free_space (store s))) (\<lambda>available.
     lift_prog (fail_if (available < required) Unavailable)))"

text \<open>A submission that is new, once its manifest was read.\<close>

definition stage_submission ::
    "'net runtime_configuration \<Rightarrow> (str \<rightharpoonup> field_definition) \<Rightarrow> uuid list \<Rightarrow> uuid \<Rightarrow> challenge_claims \<Rightarrow> str \<Rightarrow>
      'num report_manifest \<Rightarrow> ('num service, 'num prepare_outcome) prog" where
  "stage_submission cfg definitions fresh_ids upload_id claims token_hash m =
    bind_prog (get_prog (\<lambda>s. now (database s))) (\<lambda>time.
    bind_prog (lift_prog (fail_if (expires_at_unix claims \<le> time) (Conflict ''Challenge expired''))) (\<lambda>_.
    bind_prog (lift_prog (validate_manifest definitions (limits cfg) m)) (\<lambda>_.
    bind_prog (ensure_storage_capacity cfg) (\<lambda>_.
    bind_prog (on_store (begin_staging time upload_id)) (\<lambda>_.
    return_prog (Ready_submission
      \<lparr> prep_manifest = m, prep_attachment_ids = map_of (zip (map attachment_id (attachments m)) fresh_ids),
        prep_upload = upload_id, prep_claims = claims, prep_token_hash = token_hash,
        prep_definitions = definitions \<rparr>))))))"

definition prepare_submission ::
    "('num, 'key) external \<Rightarrow> 'key \<Rightarrow> 'net runtime_configuration \<Rightarrow> (str \<rightharpoonup> field_definition) \<Rightarrow>
      uuid list \<Rightarrow> uuid \<Rightarrow> str \<Rightarrow> 64 word \<Rightarrow> bytes \<Rightarrow> ('num service, 'num prepare_outcome) prog" where
  "prepare_submission ext key cfg definitions fresh_ids upload_id challenge_token nonce manifest_bytes =
    bind_prog (lift_prog (verify_challenge (ext_from_json ext) (ext_b64_decode ext) (ext_hmac ext) key challenge_token)) (\<lambda>claims.
    bind_prog (lift_prog (fail_if (claims_version claims \<noteq> 1) (InvalidRequest ''Unsupported proof-of-work version''))) (\<lambda>_.
    bind_prog (lift_prog (fail_if (\<not> proof_is_valid (ext_sha256 ext) challenge_token nonce (claims_expected_work claims))
      (InvalidRequest ''Invalid proof of work''))) (\<lambda>_.
    bind_prog (lift_prog (fail_if (sha_hex ext manifest_bytes \<noteq> manifest_digest claims)
      (InvalidRequest ''Manifest digest does not match challenge''))) (\<lambda>_.
    bind_prog (lift_prog (ok_or (ext_manifest_from_json ext manifest_bytes) (InvalidRequest ''Invalid report manifest''))) (\<lambda>m.
    bind_prog (get_prog (\<lambda>s. find_report_receipt (submission_id m) (manifest_digest claims) (database s))) (\<lambda>existing.
    case existing of
      Some receipt \<Rightarrow> handle_existing_receipt receipt
    | None \<Rightarrow> stage_submission cfg definitions fresh_ids upload_id claims (sha_hex ext (utf8 challenge_token)) m))))))"

definition abandon_submission :: "uuid \<Rightarrow> ('num service, unit) prog" where
  "abandon_submission upload_id = on_store (remove_staging upload_id)"

definition acquire_upload_lease ::
    "uuid \<Rightarrow> str \<Rightarrow> 'net runtime_configuration \<Rightarrow> ('num service, bool) prog" where
  "acquire_upload_lease upload_id client_key cfg =
    on_database (acquire_lease upload_id client_key (int (concurrent_uploads_per_ip (limits cfg)))
      (int (concurrent_uploads_global (limits cfg))) (int (upload_timeout_seconds (limits cfg)) + 30))"

definition release_upload_lease :: "uuid \<Rightarrow> ('num service, unit) prog" where
  "release_upload_lease upload_id = on_database (release_lease upload_id)"

section \<open>Receiving and accepting, step by step\<close>

text \<open>A part of the multipart body: its name and its chunks, and whether the stream breaks after them.\<close>

datatype body_part = Part "str option" "bytes list" bool | Broken_body

fun receive_chunks :: "nat \<Rightarrow> bytes list \<Rightarrow> nat \<Rightarrow> attachment_writer \<Rightarrow> (file_store, nat \<times> attachment_writer) prog" where
  "receive_chunks maximum [] sz w = return_prog (sz, w)"
| "receive_chunks maximum (chunk # chunks) sz w =
    bind_prog (lift_prog (ok_or (u64_checked_add sz (length chunk)) PayloadTooLarge)) (\<lambda>sz'.
    bind_prog (lift_prog (fail_if (sz' > maximum) PayloadTooLarge)) (\<lambda>_.
    bind_prog (attachment_write w chunk) (\<lambda>w'.
    receive_chunks maximum chunks sz' w')))"

definition find_attachment :: "attachment_reference \<Rightarrow> attachment_manifest list \<Rightarrow> attachment_manifest option" where
  "find_attachment reference as = map_of (rev (map (\<lambda>a. (attachment_id a, a)) as)) reference"

text \<open>The references received so far and the running total are given on.\<close>

definition receive_part ::
    "('num, 'key) external \<Rightarrow> 'net runtime_configuration \<Rightarrow> 'num prepared_submission \<Rightarrow>
      attachment_reference set \<Rightarrow> nat \<Rightarrow> body_part \<Rightarrow> (file_store, attachment_reference set \<times> nat) prog" where
  "receive_part ext cfg prep received sz part =
    (case part of
      Broken_body \<Rightarrow> lift_prog (Err (InvalidRequest ''Invalid multipart body''))
    | Part name chunks breaks \<Rightarrow>
        bind_prog (lift_prog (case name of
            None \<Rightarrow> Err (InvalidRequest ''Invalid attachment part name'')
          | Some n \<Rightarrow> (case attachment_reference_try_from n of
              Inl _ \<Rightarrow> Err (InvalidRequest ''Invalid attachment part name'') | Inr r \<Rightarrow> Ok r))) (\<lambda>reference.
        bind_prog (lift_prog (ok_or (find_attachment reference (attachments (prep_manifest prep)))
          (InvalidRequest ''Unexpected attachment''))) (\<lambda>a.
        bind_prog (lift_prog (fail_if (reference \<in> received) (InvalidRequest ''Duplicate attachment''))) (\<lambda>_.
        bind_prog (lift_prog (ok_or (prep_attachment_ids prep reference) (Internal ''panic: no entry found for key''))) (\<lambda>aid.
        bind_prog (create_writer (ext_show_id ext) (prep_upload prep) aid (attachment_size a)) (\<lambda>w.
        bind_prog (receive_chunks (submission_bytes (limits cfg)) chunks sz w) (\<lambda>(sz', w').
        bind_prog (lift_prog (fail_if breaks (InvalidRequest ''Invalid attachment stream''))) (\<lambda>_.
        bind_prog (attachment_finish (sha_hex ext) w' (attachment_size a) (attachment_sha256 a)) (\<lambda>_.
        return_prog (insert reference received, sz'))))))))))"

datatype phase =
    Receiving "body_part list" "attachment_reference set" nat
  | Validating
  | Accepting
  | Finalizing report_id
  | Marking report_id
  | Discarding report_receipt
  | Recovering report_receipt
  | Recovered report_receipt
  | Finished "report_id result"

definition prep_request :: "str \<Rightarrow> 'net runtime_configuration \<Rightarrow> 'num prepared_submission \<Rightarrow> 'num accept_request" where
  "prep_request source_key cfg prep =
    \<lparr> req_claims = prep_claims prep, req_token_hash = prep_token_hash prep, req_manifest = prep_manifest prep,
      req_attachment_ids = prep_attachment_ids prep, req_upload = prep_upload prep, req_source_key = source_key,
      req_definitions = prep_definitions prep, req_retention_days = report_retention_days (maintenance cfg) \<rparr>"

text \<open>Where a step leads: to the phase its result calls for, or to the end with its error.\<close>

definition goto :: "('a \<Rightarrow> phase) \<Rightarrow> 'a result \<times> 'num service \<Rightarrow> phase \<times> 'num service" where
  "goto f p = (case p of (Inl e, s) \<Rightarrow> (Finished (Err e), s) | (Inr a, s) \<Rightarrow> (f a, s))"

fun accept_step ::
    "('num, 'key) external \<Rightarrow> 'net runtime_configuration \<Rightarrow> report_id \<Rightarrow> str \<Rightarrow> 'num prepared_submission \<Rightarrow>
      phase \<times> 'num service \<Rightarrow> phase \<times> 'num service" where
  "accept_step ext cfg rid source_key prep (Receiving [] received sz, s) =
    (if card received \<noteq> length (remdups (map attachment_id (attachments (prep_manifest prep))))
     then (Finished (Err (InvalidRequest ''Missing attachment'')), s) else (Validating, s))"
| "accept_step ext cfg rid source_key prep (Receiving (part # parts) received sz, s) =
    goto (\<lambda>(received', sz'). Receiving parts received' sz') (on_store (receive_part ext cfg prep received sz part) s)"
| "accept_step ext cfg rid source_key prep (Validating, s) =
    goto (\<lambda>_. Accepting) (on_store (validate_staging (ext_png ext) (ext_gzip ext) (ext_show_id ext) (ext_parse_id ext)
      (prep_upload prep) (attachments (prep_manifest prep)) (prep_attachment_ids prep) (limits cfg)) s)"
| "accept_step ext cfg rid source_key prep (Accepting, s) =
    goto (\<lambda>outcome. case outcome of
        Accepted rid' \<Rightarrow> Finalizing rid'
      | Existing receipt \<Rightarrow>
          if receipt_staging receipt \<noteq> prep_upload prep then Discarding receipt else Recovering receipt)
      (on_database (accept_report ext rid (prep_request source_key cfg prep)) s)"
| "accept_step ext cfg rid source_key prep (Finalizing rid', s) =
    goto (\<lambda>_. Marking rid') (on_store (finalize_upload (prep_upload prep) rid') s)"
| "accept_step ext cfg rid source_key prep (Marking rid', s) =
    goto (\<lambda>marked_ready. Finished (if marked_ready then Ok rid'
        else Err (Internal ''accepted report could not be marked ready'')))
      (on_database (mark_report_storage_ready rid' (prep_upload prep)) s)"
| "accept_step ext cfg rid source_key prep (Discarding receipt, s) =
    goto (\<lambda>_. Recovering receipt) (on_store (remove_staging (prep_upload prep)) s)"
| "accept_step ext cfg rid source_key prep (Recovering receipt, s) =
    (if receipt_storage receipt = storage_state.Ready then (Finished (Ok (receipt_report receipt)), s)
     else goto (\<lambda>_. Recovered receipt) (on_store (finalize_upload (receipt_staging receipt) (receipt_report receipt)) s))"
| "accept_step ext cfg rid source_key prep (Recovered receipt, s) =
    goto (\<lambda>_. Finished (Ok (receipt_report receipt)))
      (on_database (mark_report_storage_ready (receipt_report receipt) (receipt_staging receipt)) s)"
| "accept_step ext cfg rid source_key prep (Finished r, s) = (Finished r, s)"

section \<open>The submission handler\<close>

fun collect_chunks :: "nat \<Rightarrow> bytes \<Rightarrow> bytes list \<Rightarrow> bytes result" where
  "collect_chunks maximum acc [] = Ok acc"
| "collect_chunks maximum acc (chunk # chunks) =
    (if length acc + length chunk > maximum then Err PayloadTooLarge
     else collect_chunks maximum (acc @ chunk) chunks)"

definition read_manifest :: "nat \<Rightarrow> body_part list \<Rightarrow> (bytes \<times> body_part list) result" where
  "read_manifest maximum_bytes body =
    (case body of
      [] \<Rightarrow> Err (InvalidRequest ''Missing report manifest'')
    | Broken_body # _ \<Rightarrow> Err (InvalidRequest ''Invalid multipart body'')
    | Part name chunks breaks # parts \<Rightarrow>
        if name \<noteq> Some (lit ''manifest'') then Err (InvalidRequest ''Report manifest must be the first part'')
        else
          bind_res (collect_chunks maximum_bytes [] chunks) (\<lambda>content.
          bind_res (fail_if breaks (InvalidRequest ''Invalid report manifest'')) (\<lambda>_. Ok (content, parts))))"

definition missing_header :: app_error where
  "missing_header = InvalidRequest ''Missing or invalid submission header''"

text \<open>The deadline strikes after \<open>deadline\<close> steps; a step that ends the submission before makes it irrelevant.\<close>

definition run_within ::
    "nat \<Rightarrow> (phase \<times> 'num service \<Rightarrow> phase \<times> 'num service) \<Rightarrow> phase \<Rightarrow> ('num service, report_id) prog" where
  "run_within deadline step_fun start s =
    (case (step_fun ^^ deadline) (start, s) of
      (Finished r, s') \<Rightarrow> (r, s')
    | (_, s') \<Rightarrow> (Err DeadlineExceeded, s'))"

definition receive_and_accept ::
    "('num, 'key) external \<Rightarrow> 'net runtime_configuration \<Rightarrow> report_id \<Rightarrow> str \<Rightarrow> nat \<Rightarrow>
      'num prepared_submission \<Rightarrow> body_part list \<Rightarrow> nat \<Rightarrow> ('num service, report_id) prog" where
  "receive_and_accept ext cfg rid source_key deadline prep parts manifest_size =
    run_within deadline (accept_step ext cfg rid source_key prep) (Receiving parts {} manifest_size)"

text \<open>What the handler does with a prepared submission: it takes a lease, runs the upload within the
  deadline, gives the lease back, and removes the staging directory when the upload failed.\<close>

definition upload_prepared ::
    "('num, 'key) external \<Rightarrow> 'net runtime_configuration \<Rightarrow> report_id \<Rightarrow> str \<Rightarrow> nat \<Rightarrow>
      'num prepared_submission \<Rightarrow> body_part list \<Rightarrow> nat \<Rightarrow> ('num service, report_id) prog" where
  "upload_prepared ext cfg rid source_key deadline prep parts manifest_size s =
    (let upload_id = prep_upload prep in
     case acquire_upload_lease upload_id source_key cfg s of
       (Inl e, s1) \<Rightarrow> (Err e, snd (abandon_submission upload_id s1))
     | (Inr False, s1) \<Rightarrow> (Err RateLimited, snd (abandon_submission upload_id s1))
     | (Inr True, s1) \<Rightarrow>
         (case receive_and_accept ext cfg rid source_key deadline prep parts manifest_size s1 of
           (r, s2) \<Rightarrow>
             let s3 = snd (release_upload_lease upload_id s2) in
             (case r of Inl e \<Rightarrow> (Err e, snd (abandon_submission upload_id s3)) | Inr rid' \<Rightarrow> (Ok rid', s3))))"

definition submit_report ::
    "('num, 'key) external \<Rightarrow> 'key \<Rightarrow> 'net runtime_configuration \<Rightarrow> (str \<rightharpoonup> field_definition) \<Rightarrow> uuid list \<Rightarrow> uuid \<Rightarrow>
      report_id \<Rightarrow> str \<Rightarrow> nat \<Rightarrow> str option \<Rightarrow> str option \<Rightarrow> body_part list \<Rightarrow> ('num service, report_id) prog" where
  "submit_report ext key cfg definitions fresh_ids upload_id rid source_key deadline token_header nonce_header body =
    bind_prog (lift_prog (ok_or token_header missing_header)) (\<lambda>challenge_token.
    bind_prog (lift_prog (ok_or nonce_header missing_header)) (\<lambda>nonce_text.
    bind_prog (lift_prog (ok_or (parse_unsigned u64_max nonce_text) (InvalidRequest ''Invalid proof-of-work nonce''))) (\<lambda>nonce.
    bind_prog (lift_prog (read_manifest (metadata_bytes (limits cfg)) body)) (\<lambda>(manifest_bytes, parts).
    bind_prog (prepare_submission ext key cfg definitions fresh_ids upload_id challenge_token (of_nat nonce) manifest_bytes) (\<lambda>prepared.
    case prepared of
      Existing_report rid' \<Rightarrow> return_prog rid'
    | Ready_submission prep \<Rightarrow>
        upload_prepared ext cfg rid source_key deadline prep parts (length manifest_bytes))))))"

section \<open>Maintenance\<close>

text \<open>Every pending report is tried; one that cannot be recovered is logged and left.\<close>

fun recover_all :: "(report_id \<times> uuid) list \<Rightarrow> 'num service \<Rightarrow> 'num service" where
  "recover_all [] s = s"
| "recover_all ((rid, staging_id) # pending) s =
    recover_all pending (snd (recover_receipt
      \<lparr> receipt_report = rid, receipt_digest_matches = True, receipt_storage = storage_state.PendingFiles,
        receipt_staging = staging_id \<rparr> s))"

definition recover_pending_storage :: "('num service, unit) prog" where
  "recover_pending_storage s = (Ok (), recover_all (pending_report_storage (database s)) s)"

fun remove_unreferenced :: "uuid list \<Rightarrow> nat \<Rightarrow> ('num service, nat) prog" where
  "remove_unreferenced [] deleted = return_prog deleted"
| "remove_unreferenced (u # us) deleted =
    bind_prog (get_prog (\<lambda>s. staging_upload_is_referenced u (database s))) (\<lambda>referenced.
    if referenced then remove_unreferenced us deleted
    else bind_prog (on_store (remove_staging u)) (\<lambda>_. remove_unreferenced us (deleted + 1)))"

definition sweep_ingestion_state :: "'net runtime_configuration \<Rightarrow> ('num service, nat) prog" where
  "sweep_ingestion_state cfg =
    bind_prog (on_database sweep_expired_ingestion_state) (\<lambda>expired.
    bind_prog (get_prog (\<lambda>s. stale_staging_uploads
      (now (database s) - int (staging_retention_seconds (maintenance cfg))) (store s))) (\<lambda>stale.
    bind_prog (remove_unreferenced stale 0) (\<lambda>staging_deleted.
    return_prog (challenges_deleted expired + rate_buckets_deleted expired + upload_leases_deleted expired
      + staging_deleted))))"

end
