(* ===== verification/Ingestion_Laws.thy ===== *)
theory Ingestion_Laws
  imports Ingestion
begin

text \<open>
  What the submission of a report keeps and promises: the invariant of the tables and of the attachment
  store, what an accepted submission changes, that a submission is accepted once, and what becomes of its
  files when the upload is cut.
\<close>

section \<open>What a transaction leaves alone\<close>

text \<open>The columns of a submission no later operation writes.\<close>

definition sub_key :: "'num submission_row \<Rightarrow> report_id \<times> uuid \<times> str \<times> uuid \<times> stored_attachment list" where
  "sub_key r = (sub_report r, sub_submission r, sub_digest r, sub_staging r, sub_attachments r)"

lemma sub_key_eq:
  "sub_key r = sub_key r' \<longleftrightarrow> sub_report r = sub_report r' \<and> sub_submission r = sub_submission r' \<and>
    sub_digest r = sub_digest r' \<and> sub_staging r = sub_staging r' \<and> sub_attachments r = sub_attachments r'"
  by (auto simp: sub_key_def)

definition same_keys :: "'num ingest_db \<Rightarrow> 'num ingest_db \<Rightarrow> bool" where
  "same_keys s s' \<longleftrightarrow> tracker s' = tracker s \<and> challenges s' = challenges s \<and>
    map sub_key (submissions s') = map sub_key (submissions s) \<and>
    upload_leases s' = upload_leases s \<and> notifications s' = notifications s"

interpretation same_keys: tx_relation same_keys
  by standard (auto simp: same_keys_def)

lemma sub_key_update:
  "(\<And>r. sub_key (f r) = sub_key r) \<Longrightarrow> map sub_key (map (\<lambda>r. if P r then f r else r) rs) = map sub_key rs"
  by (induction rs) auto

lemma retention_same_keys: "tx_respects same_keys (configure_report_retention rid days)"
  by (rule tx_respectsI)
    (auto simp: configure_report_retention_def result_simps same_keys_def intro!: sub_key_update,
     auto simp: sub_key_def)

lemma signature_same_keys: "tx_respects same_keys (accept_stack_signature rid version print)"
  by (rule tx_respectsI)
    (auto simp: accept_stack_signature_def result_simps same_keys_def split: if_splits intro!: sub_key_update,
     auto simp: sub_key_def)

lemma sign_report_same_keys: "tx_respects same_keys (sign_report ext rid req)"
  by (auto simp: sign_report_def Let_def split: option.split
      intro: same_keys.return_respects signature_same_keys)

section \<open>The outcomes of accepting a report\<close>

definition challenge_open :: "'num accept_request \<Rightarrow> 'num ingest_db \<Rightarrow> bool" where
  "challenge_open req s \<longleftrightarrow>
    list_ex (open_challenge (claims_id (req_claims req)) (manifest_digest (req_claims req)) (req_token_hash req) (now s))
      (challenges s)"

definition known_submission :: "'num accept_request \<Rightarrow> 'num ingest_db \<Rightarrow> 'num submission_row option" where
  "known_submission req s = find (\<lambda>r. sub_submission r = submission_id (req_manifest req)) (submissions s)"

definition accepted_db :: "report_id \<Rightarrow> 'num accept_request \<Rightarrow> 'num ingest_db \<Rightarrow> 'num ingest_db" where
  "accepted_db rid req s = s\<lparr>
    tracker := (tracker s)\<lparr>
      reports := reports (tracker s) @ [new_report_row rid (Some (req_source_key req))],
      events := events (tracker s) @ [\<lparr> evt_actor = None, evt_action = ReportSubmitted,
        evt_entity = Some rid, evt_details = DObject [(''kind'', DText (lit (report_kind_as_str (report_kind (req_manifest req)))))] \<rparr>] \<rparr>,
    submissions := submissions s @ [submission_of rid (now s) req],
    challenges := map (\<lambda>c. if chl_id c = claims_id (req_claims req) then c\<lparr> chl_report := Some rid \<rparr> else c)
      (challenges s) \<rparr>"

lemma submission_of_simps [simp]:
  "sub_report (submission_of rid time req) = rid"
  "sub_submission (submission_of rid time req) = submission_id (req_manifest req)"
  "sub_digest (submission_of rid time req) = manifest_digest (req_claims req)"
  "sub_staging (submission_of rid time req) = req_upload req"
  "sub_kind (submission_of rid time req) = lit (report_kind_as_str (report_kind (req_manifest req)))"
  by (simp_all add: submission_of_def Let_def)

lemma insert_report_Ok:
  "insert_report challenge_id source_key row s = Ok (u, s') \<longleftrightarrow>
    submission_row_ok row \<and> submission_keys_ok (submissions s @ [row]) \<and>
    report_of (sub_report row) (tracker s) = None \<and>
    (case source_key of None \<Rightarrow> True | Some k \<Rightarrow> is_sha256_hex k) \<and>
    s' = s\<lparr>
      tracker := (tracker s)\<lparr>
        reports := reports (tracker s) @ [new_report_row (sub_report row) source_key],
        events := events (tracker s) @ [\<lparr> evt_actor = None, evt_action = ReportSubmitted,
          evt_entity = Some (sub_report row), evt_details = DObject [(''kind'', DText (sub_kind row))] \<rparr>] \<rparr>,
      submissions := submissions s @ [row],
      challenges := map (\<lambda>c. if chl_id c = challenge_id then c\<lparr> chl_report := Some (sub_report row) \<rparr> else c)
        (challenges s) \<rparr>"
  by (auto simp: insert_report_def result_simps split: option.splits)

lemma accept_report_existing:
  assumes "known_submission req s = Some r"
  shows "accept_report ext rid req s =
    (if sub_digest r = manifest_digest (req_claims req) then
       (case find_report_receipt (submission_id (req_manifest req)) (manifest_digest (req_claims req)) s of
         None \<Rightarrow> Err (Internal ''panic: existing outcome has a receipt'')
       | Some receipt \<Rightarrow> Ok (Existing receipt, s))
     else Err (Conflict ''Submission ID already used''))"
  using assms
  by (auto simp: accept_report_def tx_run accept_report_row_def known_submission_def ok_or_def
      split: option.splits)

lemma accept_report_closed:
  assumes "known_submission req s = None" "\<not> challenge_open req s"
  shows "accept_report ext rid req s = Err (Conflict ''Challenge expired, invalid, or already consumed'')"
  using assms
  by (simp add: accept_report_def tx_run accept_report_row_def known_submission_def challenge_open_def)

text \<open>What is known of the database after a report was accepted.\<close>

definition accepts_in :: "report_id \<Rightarrow> 'num accept_request \<Rightarrow> 'num ingest_db \<Rightarrow> 'num ingest_db \<Rightarrow> bool" where
  "accepts_in rid req s s' \<longleftrightarrow>
    known_submission req s = None \<and> challenge_open req s \<and>
    submission_row_ok (submission_of rid (now s) req) \<and>
    submission_keys_ok (submissions s @ [submission_of rid (now s) req]) \<and>
    report_of rid (tracker s) = None \<and> is_sha256_hex (req_source_key req) \<and>
    same_keys (accepted_db rid req s) s'"

lemma accept_report_Ok:
  assumes "accept_report ext rid req s = Ok (out, s')"
  shows "(\<exists>r receipt. known_submission req s = Some r \<and> sub_digest r = manifest_digest (req_claims req) \<and>
      find_report_receipt (submission_id (req_manifest req)) (manifest_digest (req_claims req)) s = Some receipt \<and>
      out = Existing receipt \<and> s' = s) \<or>
    (out = Accepted rid \<and> accepts_in rid req s s')"
proof (cases "known_submission req s")
  case (Some r)
  then show ?thesis using assms by (auto simp: accept_report_existing split: if_splits option.splits)
next
  case None
  have open_c: "challenge_open req s"
    using accept_report_closed [OF None] assms by (metis Inl_Inr_False)
  have "accept_report_row (claims_id (req_claims req)) (req_token_hash req) (Some (req_source_key req))
      (submission_of rid (now s) req) s =
    (if length (sub_fields (submission_of rid (now s) req)) > 256 \<or>
        length (sub_attachments (submission_of rid (now s) req)) > 16 then Ok (Invalid_payload, s)
     else bind_res (insert_report (claims_id (req_claims req)) (Some (req_source_key req)) (submission_of rid (now s) req) s)
       (\<lambda>(_, s'). Ok (Accepted_row rid, s')))"
    using None open_c by (simp add: accept_report_row_def known_submission_def challenge_open_def)
  then obtain s1 s2 where ins: "insert_report (claims_id (req_claims req)) (Some (req_source_key req))
      (submission_of rid (now s) req) s = Ok ((), s1)"
    and ret: "configure_report_retention rid (int (req_retention_days req)) s1 = Ok ((), s2)"
    and sig: "sign_report ext rid req s2 = Ok ((), s')" and out: "out = Accepted rid"
    using assms by (auto simp: accept_report_def result_simps split: if_splits)
  have s1: "s1 = accepted_db rid req s" and ok: "submission_row_ok (submission_of rid (now s) req)"
    "submission_keys_ok (submissions s @ [submission_of rid (now s) req])"
    "report_of rid (tracker s) = None" "is_sha256_hex (req_source_key req)"
    using ins by (simp_all add: insert_report_Ok accepted_db_def)
  have "same_keys s1 s'"
    using tx_respectsD [OF retention_same_keys ret] tx_respectsD [OF sign_report_same_keys sig]
    by (rule same_keys.trans)
  then show ?thesis using None open_c ok out s1 by (simp add: accepts_in_def)
qed

section \<open>The invariant of the tables\<close>

definition ingest_ok :: "'num ingest_db \<Rightarrow> bool" where
  "ingest_ok s \<longleftrightarrow>
    db_ok (tracker s) \<and> submission_keys_ok (submissions s) \<and> distinct (map chl_id (challenges s)) \<and>
    map sub_report (submissions s) = map rpt_id (reports (tracker s)) \<and>
    (\<forall>n \<in> set (notifications s). storage_of s (ntf_report n) = Some storage_state.Ready) \<and>
    distinct (map ntf_report (notifications s))"

lemma map_sub_key:
  fixes rs rs' :: "'num submission_row list"
  assumes "map sub_key rs = map sub_key rs'" and "\<And>r. f r = p (sub_key r)"
  shows "map f rs = map f rs'"
proof -
  have "map f xs = map p (map sub_key xs)" for xs :: "'num submission_row list"
    by (simp add: assms(2))
  then show ?thesis by (simp only: assms(1))
qed

lemma sub_key_maps:
  fixes rs rs' :: "'num submission_row list"
  assumes eq: "map sub_key rs = map sub_key rs'"
  shows "map sub_report rs = map sub_report rs'" "map sub_submission rs = map sub_submission rs'"
    "map sub_staging rs = map sub_staging rs'"
    "map (\<lambda>r. (sub_report r, sub_staging r)) rs = map (\<lambda>r. (sub_report r, sub_staging r)) rs'"
    "map (\<lambda>r. map stored_id (sub_attachments r)) rs = map (\<lambda>r. map stored_id (sub_attachments r)) rs'"
proof -
  show "map sub_report rs = map sub_report rs'"
    by (rule map_sub_key [OF eq, where p = fst]) (simp add: sub_key_def)
  show "map sub_submission rs = map sub_submission rs'"
    by (rule map_sub_key [OF eq, where p = "\<lambda>k. fst (snd k)"]) (simp add: sub_key_def)
  show "map sub_staging rs = map sub_staging rs'"
    by (rule map_sub_key [OF eq, where p = "\<lambda>k. fst (snd (snd (snd k)))"]) (simp add: sub_key_def)
  show "map (\<lambda>r. (sub_report r, sub_staging r)) rs = map (\<lambda>r. (sub_report r, sub_staging r)) rs'"
    by (rule map_sub_key [OF eq, where p = "\<lambda>k. (fst k, fst (snd (snd (snd k))))"]) (simp add: sub_key_def)
  show "map (\<lambda>r. map stored_id (sub_attachments r)) rs = map (\<lambda>r. map stored_id (sub_attachments r)) rs'"
    by (rule map_sub_key [OF eq, where p = "\<lambda>k. map stored_id (snd (snd (snd (snd k))))"]) (simp add: sub_key_def)
qed

lemma submission_keys_same:
  fixes rs rs' :: "'num submission_row list"
  shows "map sub_key rs = map sub_key rs' \<Longrightarrow> submission_keys_ok rs \<longleftrightarrow> submission_keys_ok rs'"
  unfolding submission_keys_ok_def using sub_key_maps [of rs rs'] by simp

lemma report_of_None: "report_of rid db = None \<longleftrightarrow> rid \<notin> rpt_id ` set (reports db)"
  by (auto simp: report_of_def find_None_iff)

lemma find_append: "find P (xs @ ys) = (case find P xs of Some x \<Rightarrow> Some x | None \<Rightarrow> find P ys)"
  by (induction xs) auto

lemma report_of_append:
  "report_of x (db\<lparr> reports := reports db @ [row], events := es \<rparr>) =
    (case report_of x db of Some r \<Rightarrow> Some r | None \<Rightarrow> if rpt_id row = x then Some row else None)"
  by (simp add: report_of_def find_append split: option.split)

text \<open>A submitted report enters the tracker in triage, linked to nothing.\<close>

lemma new_report_db_ok:
  assumes "db_ok db" "report_of rid db = None"
  shows "db_ok (db\<lparr> reports := reports db @ [new_report_row rid key], events := es \<rparr>)"
  using assms
  by (auto simp: db_ok_def tables_ok_def report_of_None new_report_row_def report_settled_def report_row_ok_def
      follows_def)

lemma storage_of_accepted:
  assumes "accepts_in rid req s s'"
  shows "storage_of s' x = (if x = rid then Some storage_state.PendingFiles else storage_of s x)"
proof -
  have t: "tracker s' = tracker (accepted_db rid req s)" and n: "report_of rid (tracker s) = None"
    using assms by (auto simp: accepts_in_def same_keys_def)
  show ?thesis using n by (auto simp: storage_of_def t accepted_db_def report_of_append new_report_row_def
        split: option.split)
qed

lemma accept_ingest_ok:
  assumes "ingest_ok s" "accepts_in rid req s s'"
  shows "ingest_ok s'"
proof -
  let ?a = "accepted_db rid req s"
  have eq: "tracker s' = tracker ?a" "challenges s' = challenges ?a"
    "map sub_key (submissions s') = map sub_key (submissions ?a)" "notifications s' = notifications s"
    and new: "submission_keys_ok (submissions ?a)" "report_of rid (tracker s) = None"
    using assms(2) by (auto simp: accepts_in_def same_keys_def accepted_db_def)
  have "db_ok (tracker s')"
    using assms(1) new(2) by (simp add: eq(1) accepted_db_def new_report_db_ok ingest_ok_def)
  moreover have "submission_keys_ok (submissions s')" using new(1) submission_keys_same [OF eq(3)] by simp
  moreover have "map chl_id (challenges s') = map chl_id (challenges s)"
    by (simp add: eq(2) accepted_db_def comp_def if_distrib cong: if_cong)
  moreover have "map sub_report (submissions s') = map rpt_id (reports (tracker s'))"
    using assms(1) sub_key_maps(1) [OF eq(3)]
    by (simp add: eq(1) accepted_db_def ingest_ok_def new_report_row_def)
  moreover have "storage_of s' (ntf_report n) = Some storage_state.Ready" if "n \<in> set (notifications s')" for n
    using that assms(1) new(2) storage_of_accepted [OF assms(2), of "ntf_report n"]
    by (auto simp: eq(4) ingest_ok_def storage_of_def)
  ultimately show ?thesis using assms(1) by (simp add: ingest_ok_def eq(4))
qed

lemma mark_ready_True:
  assumes "mark_report_storage_ready rid u s = Ok (True, s')"
  shows "storage_of s rid = Some storage_state.PendingFiles"
    "list_ex (\<lambda>r. sub_report r = rid \<and> sub_staging r = u) (submissions s)"
    "s' = s\<lparr> tracker := (tracker s)\<lparr> reports := map (\<lambda>r. if rpt_id r = rid
         then r\<lparr> rpt_storage := storage_state.Ready \<rparr> else r) (reports (tracker s)) \<rparr>,
       notifications := enqueue_notification (now s) rid (notifications s) \<rparr>"
  using assms by (auto simp: mark_report_storage_ready_def split: if_splits)

lemma mark_ready_False: "mark_report_storage_ready rid u s = Ok (False, s') \<Longrightarrow> s' = s"
  by (auto simp: mark_report_storage_ready_def split: if_splits)

lemma report_of_map:
  assumes "\<And>r. rpt_id (f r) = rpt_id r"
  shows "find (\<lambda>r. rpt_id r = x) (map f rs) = map_option f (find (\<lambda>r. rpt_id r = x) rs)"
  using assms by (induction rs) auto

lemma storage_of_marked:
  assumes "mark_report_storage_ready rid u s = Ok (True, s')"
  shows "storage_of s' x = (if x = rid then Some storage_state.Ready else storage_of s x)"
proof -
  note m = mark_ready_True [OF assms]
  have "find (\<lambda>r. rpt_id r = x) (reports (tracker s')) =
      map_option (\<lambda>r. if rpt_id r = rid then r\<lparr> rpt_storage := storage_state.Ready \<rparr> else r)
        (find (\<lambda>r. rpt_id r = x) (reports (tracker s)))"
    unfolding m(3) by (simp add: report_of_map)
  then show ?thesis
    using m(1) by (cases "find (\<lambda>r. rpt_id r = x) (reports (tracker s))")
      (auto simp: storage_of_def report_of_def dest: find_Some_in)
qed

lemma db_ok_map_reports:
  assumes "db_ok db" and "\<And>r. rpt_id (f r) = rpt_id r"
    and "\<And>r. report_settled (issues db) r \<Longrightarrow> report_settled (issues db) (f r)"
    and "\<And>st r. follows st r \<Longrightarrow> follows st (f r)"
  shows "db_ok (db\<lparr> reports := map f (reports db) \<rparr>)"
  using assms by (auto simp: db_ok_def tables_ok_def list_all_iff comp_def)

lemma mark_ready_db_ok:
  assumes "db_ok db"
  shows "db_ok (db\<lparr> reports := map (\<lambda>r. if rpt_id r = rid then r\<lparr> rpt_storage := storage_state.Ready \<rparr> else r)
    (reports db) \<rparr>)"
  by (rule db_ok_map_reports [OF assms])
    (auto simp: report_settled_def report_row_ok_def follows_def split: option.splits)

lemma mark_ingest_ok:
  assumes "ingest_ok s" "mark_report_storage_ready rid u s = Ok (b, s')"
  shows "ingest_ok s'"
proof (cases b)
  case False
  then have "s' = s" using assms(2) mark_ready_False by simp
  then show ?thesis using assms(1) by simp
next
  case True
  then have run: "mark_report_storage_ready rid u s = Ok (True, s')" using assms(2) by simp
  note m = mark_ready_True [OF run] and st = storage_of_marked [OF run]
  have ids: "map rpt_id (reports (tracker s')) = map rpt_id (reports (tracker s))" by (simp add: m(3))
  have n: "ntf_report ` set (notifications s') \<subseteq> insert rid (ntf_report ` set (notifications s))"
    "distinct (map ntf_report (notifications s'))"
    using assms(1) by (auto simp: m(3) enqueue_notification_def ingest_ok_def list_ex_iff)
  have "storage_of s' (ntf_report x) = Some storage_state.Ready" if "x \<in> set (notifications s')" for x
    using that n(1) assms(1) st by (auto simp: ingest_ok_def)
  then show ?thesis
    using assms(1) n(2) ids mark_ready_db_ok [of "tracker s" rid]
    by (simp add: ingest_ok_def m(3))
qed

section \<open>A submission is accepted once\<close>

lemma known_after_accept:
  assumes "accepts_in rid req s s'" "submission_id (req_manifest req') = submission_id (req_manifest req)"
  shows "\<exists>r. known_submission req' s' = Some r \<and> sub_digest r = manifest_digest (req_claims req) \<and> sub_report r = rid"
proof -
  have keys: "map sub_key (submissions s') = map sub_key (submissions s @ [submission_of rid (now s) req])"
    and none: "\<And>r. r \<in> set (submissions s) \<Longrightarrow> sub_submission r \<noteq> submission_id (req_manifest req)"
    using assms(1) by (auto simp: accepts_in_def same_keys_def accepted_db_def known_submission_def find_None_iff)
  then obtain rs r where rs: "submissions s' = rs @ [r]" "map sub_key rs = map sub_key (submissions s)"
    "sub_key r = sub_key (submission_of rid (now s) req)"
    by (auto simp: map_eq_append_conv)
  have "sub_submission ` set rs = sub_submission ` set (submissions s)"
    using sub_key_maps(2) [OF rs(2)] by (metis list.set_map)
  then have "sub_submission r \<noteq> submission_id (req_manifest req)" if "r \<in> set rs" for r
    using none that by (metis imageE imageI)
  then have "find (\<lambda>r. sub_submission r = submission_id (req_manifest req)) rs = None"
    by (simp add: find_None_iff)
  then show ?thesis
    using rs(1,3) assms(2) by (simp add: known_submission_def find_append sub_key_eq)
qed

text \<open>C5: Submitting is idempotent: once a submission was accepted, the same submission with the same
  manifest digest, with whatever challenge, upload and identifiers it comes back, gets the receipt of that
  report and changes nothing, and another manifest under the same submission identifier is refused as a
  conflict.\<close>

theorem submission_idempotent:
  assumes "ingest_ok s" "accept_report ext rid req s = Ok (Accepted rid', s')"
    and "submission_id (req_manifest req') = submission_id (req_manifest req)"
  shows "accept_report ext fresh req' s' =
    (if manifest_digest (req_claims req') = manifest_digest (req_claims req)
     then Ok (Existing \<lparr> receipt_report = rid, receipt_digest_matches = True,
       receipt_storage = storage_state.PendingFiles, receipt_staging = req_upload req \<rparr>, s')
     else Err (Conflict ''Submission ID already used''))"
proof -
  have acc: "accepts_in rid req s s'" using accept_report_Ok [OF assms(2)] by auto
  obtain r where r: "known_submission req' s' = Some r" "sub_digest r = manifest_digest (req_claims req)" "sub_report r = rid"
    using known_after_accept [OF acc assms(3)] by blast
  have st: "storage_of s' rid = Some storage_state.PendingFiles" using storage_of_accepted [OF acc] by simp
  have "r \<in> set (submissions s')" using r(1) by (auto simp: known_submission_def dest: find_Some_in)
  moreover have "map (\<lambda>r. (sub_report r, sub_staging r)) (submissions s') =
      map (\<lambda>r. (sub_report r, sub_staging r)) (submissions s) @ [(rid, req_upload req)]"
    using sub_key_maps(4) [of "submissions s'" "submissions s @ [submission_of rid (now s) req]"] acc
    by (simp add: accepts_in_def same_keys_def accepted_db_def)
  ultimately have "(rid, sub_staging r) \<in> set (map (\<lambda>r. (sub_report r, sub_staging r)) (submissions s) @ [(rid, req_upload req)])"
    using r(3) by (metis (mono_tags, lifting) image_eqI list.set_map)
  moreover have "rid \<notin> sub_report ` set (submissions s)"
    using acc by (auto simp: accepts_in_def submission_keys_ok_def)
  ultimately have "sub_staging r = req_upload req" by force
  then show ?thesis
    using r st by (simp add: accept_report_existing find_report_receipt_def known_submission_def)
qed

text \<open>A challenge pays for one report: once a report was accepted with it, no other submission is
  accepted with a challenge of that identifier, whatever its digest and token.\<close>

theorem challenge_used_once:
  assumes "accept_report ext rid req s = Ok (Accepted rid', s')"
    and "claims_id (req_claims req') = claims_id (req_claims req)" and "known_submission req' s' = None"
  shows "accept_report ext fresh req' s' = Err (Conflict ''Challenge expired, invalid, or already consumed'')"
proof -
  have "accepts_in rid req s s'" using accept_report_Ok [OF assms(1)] by auto
  then have "challenges s' = map (\<lambda>c. if chl_id c = claims_id (req_claims req) then c\<lparr> chl_report := Some rid \<rparr> else c)
      (challenges s)"
    by (auto simp: accepts_in_def same_keys_def accepted_db_def)
  then have "\<not> challenge_open req' s'"
    using assms(2) by (auto simp: challenge_open_def open_challenge_def list_ex_iff)
  then show ?thesis using assms(3) by (rule accept_report_closed [rotated])
qed

section \<open>What the database can store\<close>

text \<open>What the types of the program and its generators of identifiers make sure of, and a manifest and a
  challenge that were checked before.\<close>

definition request_fresh :: "report_id \<Rightarrow> 'num accept_request \<Rightarrow> 'num ingest_db \<Rightarrow> bool" where
  "request_fresh rid req s \<longleftrightarrow>
    is_uuid_v7 rid \<and> rid \<notin> rpt_id ` set (reports (tracker s)) \<and>
    is_uuid_v7 (req_upload req) \<and> req_upload req \<notin> sub_staging ` set (submissions s) \<and>
    is_uuid (submission_id (req_manifest req)) \<and>
    is_sha256_hex (manifest_digest (req_claims req)) \<and> is_sha256_hex (req_source_key req) \<and>
    (\<forall>a \<in> set (attachments (req_manifest req)).
      attachment_reference_try_from (reference_as_str (attachment_id a)) = Ok (attachment_id a) \<and>
      is_uuid_v7 (stored_id (store_attachment (req_attachment_ids req) a))) \<and>
    (let new = map (\<lambda>a. stored_id (store_attachment (req_attachment_ids req) a)) (attachments (req_manifest req)) in
     distinct new \<and> (\<forall>r \<in> set (submissions s). \<forall>a \<in> set (sub_attachments r). stored_id a \<notin> set new))"

text \<open>What PostgreSQL and the check on sizes ask of a manifest beyond its validation.\<close>

definition manifest_storable :: "'num report_manifest \<Rightarrow> bool" where
  "manifest_storable m \<longleftrightarrow>
    no_nul (client_version m) \<and> no_nul (build m) \<and>
    list_all (\<lambda>f. json_storable (json_value (field_value f))) (manifest_fields m) \<and>
    list_all (\<lambda>a. attachment_size a \<le> 67108864) (attachments m)"

lemma reference_is_form:
  "attachment_reference_try_from (reference_as_str r) = Ok r \<Longrightarrow>
    1 \<le> length (reference_as_str r) \<and> length (reference_as_str r) \<le> 64 \<and>
    list_all is_reference_char (reference_as_str r)"
  by (cases "reference_as_str r") (auto simp: attachment_reference_Ok)

lemma stored_field_ok:
  "is_valid_field_key (field_key f) \<Longrightarrow>
    field_row_ok (store_field defs f) \<longleftrightarrow> json_storable (json_value (field_value f))"
  using is_valid_field_key_length [of "field_key f"]
  by (cases "field_key f") (auto simp: field_row_ok_def store_field_def is_valid_field_key_def)

lemma stored_attachment_ok:
  assumes "attachment_ok l a" "attachment_reference_try_from (reference_as_str (attachment_id a)) = Ok (attachment_id a)"
    and "is_uuid_v7 (stored_id (store_attachment ids a))"
  shows "attachment_row_ok (store_attachment ids a) \<longleftrightarrow> attachment_size a \<le> 67108864"
proof -
  have "no_nul (attachment_name a)"
    using assms(1) by (auto simp: attachment_ok_def no_nul_def is_control_def)
  moreover have "length (attachment_name a) \<le> 128"
    using assms(1) length_le_byte_len [of "attachment_name a"] by (simp add: attachment_ok_def)
  moreover have "1 \<le> length (attachment_name a)"
    using assms(1) by (cases "attachment_name a") (simp_all add: attachment_ok_def)
  ultimately show ?thesis
    using assms reference_is_form [OF assms(2)]
    by (simp add: attachment_row_ok_def store_attachment_def attachment_ok_def)
qed

lemma manifest_rules:
  assumes "validate_payload_limits cfg = Ok ()" "validate_manifest defs (limits cfg) m = Ok ()"
  shows "client_version m \<noteq> []" "byte_len (client_version m) \<le> 256" "byte_len (build m) \<le> 1024"
    "length (attachments m) \<le> 16" "length (manifest_fields m) \<le> 256"
    "distinct (map attachment_id (attachments m))" "distinct (map field_key (manifest_fields m))"
    "\<forall>a \<in> set (attachments m). attachment_ok (limits cfg) a"
    "\<forall>f \<in> set (manifest_fields m). is_valid_field_key (field_key f)"
proof -
  have l: "submission_bytes (limits cfg) \<le> u64_max" "maximum_attachments (limits cfg) \<le> 16"
    "maximum_fields (limits cfg) \<le> 256"
    using assms(1) by (auto simp: validate_payload_limits_def Let_def fail_if_eq_Ok)
  obtain references where v: "client_version m \<noteq> []" "byte_len (client_version m) \<le> 256" "byte_len (build m) \<le> 1024"
    "length (attachments m) \<le> maximum_attachments (limits cfg)"
    "validate_attachments (limits cfg) (attachments m) = Ok references"
    "validate_fields (manifest_fields m) references defs (limits cfg) = Ok ()"
    using assms(2) by (auto simp: validate_manifest_def result_simps not_less)
  note a = v(5) [unfolded validate_attachments_Ok [OF l(1)]] and f = v(6) [unfolded validate_fields_Ok]
  show "client_version m \<noteq> []" "byte_len (client_version m) \<le> 256" "byte_len (build m) \<le> 1024" by (rule v)+
  show "length (attachments m) \<le> 16" "length (manifest_fields m) \<le> 256" using v(4) l f by auto
  show "distinct (map attachment_id (attachments m))" "\<forall>a \<in> set (attachments m). attachment_ok (limits cfg) a"
    using a by auto
  show "distinct (map field_key (manifest_fields m))" "\<forall>f \<in> set (manifest_fields m). is_valid_field_key (field_key f)"
    using f by (auto simp: field_ok_def)
qed

lemma submission_row_storable:
  assumes "request_fresh rid req s" "validate_payload_limits cfg = Ok ()"
    and "validate_manifest defs (limits cfg) (req_manifest req) = Ok ()"
  shows "submission_row_ok (submission_of rid time req) \<longleftrightarrow> manifest_storable (req_manifest req)"
proof -
  let ?m = "req_manifest req"
  note v = manifest_rules [OF assms(2,3)]
  have att: "attachment_row_ok (store_attachment (req_attachment_ids req) a) \<longleftrightarrow> attachment_size a \<le> 67108864"
    if "a \<in> set (attachments ?m)" for a
    using that v(8) assms(1) by (intro stored_attachment_ok) (auto simp: request_fresh_def)
  have fld: "field_row_ok (store_field (req_definitions req) f) \<longleftrightarrow> json_storable (json_value (field_value f))"
    if "f \<in> set (manifest_fields ?m)" for f
    using that v(9) by (intro stored_field_ok) auto
  have "map stored_key (sub_fields (submission_of rid time req)) = map field_key (manifest_fields ?m)"
    by (simp add: submission_of_def Let_def store_field_def)
  moreover have "inj_on (\<lambda>a. reference_as_str (attachment_id a)) (set (attachments ?m))"
    using v(6) by (metis (no_types, lifting) attachment_reference.exhaust distinct_map inj_onI inj_onD reference_as_str.simps)
  then have "distinct (map stored_reference (map (store_attachment (req_attachment_ids req)) (attachments ?m)))"
    using v(6) by (simp add: store_attachment_def distinct_map comp_def)
  moreover have "distinct (map stored_id (map (store_attachment (req_attachment_ids req)) (attachments ?m)))"
    using assms(1) by (simp add: request_fresh_def Let_def comp_def)
  moreover have "1 \<le> length (client_version ?m)" "length (client_version ?m) \<le> 256" "length (build ?m) \<le> 1024"
    using v(1,2,3) length_le_byte_len [of "client_version ?m"] length_le_byte_len [of "build ?m"]
    by (auto simp: Suc_le_eq)
  ultimately show ?thesis
    using assms(1) v(7) att fld
    by (auto simp: submission_row_ok_def manifest_storable_def list_all_iff request_fresh_def)
      (auto simp: submission_of_def Let_def)
qed

lemma submission_keys_fresh:
  assumes "request_fresh rid req s" "ingest_ok s" "known_submission req s = None"
  shows "submission_keys_ok (submissions s @ [submission_of rid (now s) req])"
proof -
  have ids: "map sub_report (submissions s) = map rpt_id (reports (tracker s))"
    and ok: "submission_keys_ok (submissions s)" using assms(2) by (auto simp: ingest_ok_def)
  have "rid \<notin> sub_report ` set (submissions s)"
    using assms(1) arg_cong [where f = set, OF ids] by (auto simp: request_fresh_def)
  moreover have "submission_id (req_manifest req) \<notin> sub_submission ` set (submissions s)"
    using assms(3) by (auto simp: known_submission_def find_None_iff)
  moreover define new where "new = map (\<lambda>a. stored_id (store_attachment (req_attachment_ids req) a)) (attachments (req_manifest req))"
  moreover have att: "map stored_id (sub_attachments (submission_of rid (now s) req)) = new"
    by (simp add: submission_of_def Let_def new_def)
  moreover have "distinct new" "set (concat (map (\<lambda>r. map stored_id (sub_attachments r)) (submissions s))) \<inter> set new = {}"
    using assms(1) by (simp_all add: request_fresh_def Let_def new_def) blast
  ultimately show ?thesis
    using ok assms(1) by (simp add: submission_keys_ok_def request_fresh_def)
qed

lemma signing_succeeds:
  assumes "\<not> list_ex (\<lambda>r. sub_report r = rid \<and> sub_signature r \<noteq> None) (submissions s)"
  shows "\<exists>s'. sign_report ext rid req s = Ok ((), s')"
  using assms by (auto simp: sign_report_def Let_def accept_stack_signature_def return_tx_def split: option.split)

text \<open>C6: A submission that passed validation is accepted if and only if the database can store its texts
  and sizes: none of its texts holds a zero character and no attachment is larger than 64 MiB. When it
  cannot, although the manifest was found valid, the client is told that the service is unavailable.\<close>

theorem validated_submission_accepted:
  assumes "ingest_ok s" "request_fresh rid req s" "known_submission req s = None" "challenge_open req s"
    and "validate_payload_limits cfg = Ok ()" "validate_manifest defs (limits cfg) (req_manifest req) = Ok ()"
    and "30 \<le> req_retention_days req" "req_retention_days req \<le> 36500"
  shows "if manifest_storable (req_manifest req)
    then \<exists>s'. accept_report ext rid req s = Ok (Accepted rid, s')
    else \<exists>e. accept_report ext rid req s = Err e \<and> status e = 503"
proof -
  let ?row = "submission_of rid (now s) req"
  note v = manifest_rules [OF assms(5,6)]
  have counts: "length (sub_fields ?row) \<le> 256" "length (sub_attachments ?row) \<le> 16"
    using v(4,5) by (simp_all add: submission_of_def Let_def)
  have row: "accept_report_row (claims_id (req_claims req)) (req_token_hash req) (Some (req_source_key req)) ?row s =
      bind_res (insert_report (claims_id (req_claims req)) (Some (req_source_key req)) ?row s) (\<lambda>(_, s'). Ok (Accepted_row rid, s'))"
    using assms(3,4) counts by (simp add: accept_report_row_def known_submission_def challenge_open_def)
  have fresh: "report_of rid (tracker s) = None" "is_sha256_hex (req_source_key req)"
    using assms(2) by (auto simp: request_fresh_def report_of_None)
  have ins: "insert_report (claims_id (req_claims req)) (Some (req_source_key req)) ?row s =
      (if manifest_storable (req_manifest req) then Ok ((), accepted_db rid req s)
       else Err (Database ''reports: a constraint is violated''))"
    using submission_row_storable [OF assms(2,5,6)] submission_keys_fresh [OF assms(2,1,3)] fresh
    by (simp add: insert_report_def accepted_db_def)
  show ?thesis
  proof (cases "manifest_storable (req_manifest req)")
    case True
    obtain s2 where ret: "configure_report_retention rid (int (req_retention_days req)) (accepted_db rid req s) = Ok ((), s2)"
      using assms(7,8) by (simp add: configure_report_retention_def)
    have no_report: "rid \<notin> sub_report ` set (submissions s)"
      using submission_keys_fresh [OF assms(2,1,3)] by (auto simp: submission_keys_ok_def)
    have "submissions s2 = map (\<lambda>r. if sub_report r = rid \<and> sub_expires r = None
        then r\<lparr> sub_expires := Some (sub_created r + int (req_retention_days req) * 86400) \<rparr> else r)
        (submissions s @ [?row])"
      using ret by (auto simp: configure_report_retention_def result_simps accepted_db_def)
    then have origin: "\<exists>r0 \<in> set (submissions s @ [?row]). sub_report r0 = sub_report r \<and> sub_signature r0 = sub_signature r"
      if "r \<in> set (submissions s2)" for r
      using that by (simp only: set_map) auto
    have unsigned: "sub_signature ?row = None" by (simp add: submission_of_def Let_def)
    have "sub_signature r = None" if r: "r \<in> set (submissions s2)" "sub_report r = rid" for r
    proof -
      obtain r0 where r0: "r0 \<in> set (submissions s @ [?row])" "sub_report r0 = rid" "sub_signature r0 = sub_signature r"
        using origin [OF r(1)] r(2) by blast
      moreover have "r0 \<notin> set (submissions s)" using no_report r0(2) by (metis imageI)
      ultimately show ?thesis using unsigned by auto
    qed
    then have "\<not> list_ex (\<lambda>r. sub_report r = rid \<and> sub_signature r \<noteq> None) (submissions s2)"
      by (auto simp: list_ex_iff)
    then obtain s3 where "sign_report ext rid req s2 = Ok ((), s3)" using signing_succeeds by blast
    then have "accept_report ext rid req s = Ok (Accepted rid, s3)"
      using True ret by (simp add: accept_report_def tx_run row ins)
    then show ?thesis using True by auto
  next
    case False
    then show ?thesis by (simp add: accept_report_def tx_run row ins)
  qed
qed

section \<open>A submission, run\<close>

definition hex_text :: str where
  "hex_text = replicate 64 97"

abbreviation (input) sample_report :: uuid where
  "sample_report \<equiv> 0x01a0a53601dc736d9dc2595afcfc09dd"

abbreviation (input) sample_upload :: uuid where
  "sample_upload \<equiv> 0x01a0a53601dc736d9dc2595afcfc09de"

abbreviation (input) sample_submission :: uuid where
  "sample_submission \<equiv> 0x550e8400e29b41d4a716446655440000"

text \<open>Toy libraries that meet what the theorems ask of the real ones.\<close>

definition sample_external :: "(nat, nat) external" where
  "sample_external =
    \<lparr> ext_from_json = example_from_json, ext_to_json = example_to_json, ext_b64_decode = example_b64_decode,
      ext_b64_encode = example_b64_encode, ext_hmac = example_hmac, ext_sha256 = id, ext_hex = id,
      ext_manifest_from_json = (\<lambda>_. None), ext_alnum = is_ascii_alphanumeric, ext_lowercase = id,
      ext_show_id = (\<lambda>u. [unat u]), ext_parse_id = (\<lambda>t. case t of [c] \<Rightarrow> Some (of_nat c) | _ \<Rightarrow> None),
      ext_png = (\<lambda>_ _. None), ext_gzip = example_gzip \<rparr>"

definition sample_claims :: challenge_claims where
  "sample_claims =
    \<lparr> claims_version = 1, claims_id = 0x01a0a53601dc736d9dc2595afcfc09df, manifest_digest = hex_text,
      expires_at_unix = 600, claims_expected_work = 1 \<rparr>"

definition sample_manifest :: "str \<Rightarrow> nat report_manifest" where
  "sample_manifest version =
    \<lparr> protocol = 1, submission_id = sample_submission, report_kind = Crash, client_version = version,
      build = [], manifest_fields = [], attachments = [] \<rparr>"

definition sample_request :: "str \<Rightarrow> nat accept_request" where
  "sample_request version =
    \<lparr> req_claims = sample_claims, req_token_hash = hex_text, req_manifest = sample_manifest version,
      req_attachment_ids = Map.empty, req_upload = sample_upload, req_source_key = hex_text,
      req_definitions = Map.empty, req_retention_days = 3650 \<rparr>"

definition sample_ingest_db :: "nat ingest_db" where
  "sample_ingest_db =
    \<lparr> tracker = \<lparr> reports = [], issues = [], aliases = [], duplicate_jobs = [], source_limits = [],
        events = [], clock = 0 \<rparr>,
      submissions = [],
      challenges = [\<lparr> chl_id = claims_id sample_claims, chl_digest = hex_text, chl_token_hash = hex_text,
        chl_expires = 600, chl_report = None \<rparr>],
      upload_leases = [], buckets = [], notifications = [] \<rparr>"

lemma hex_text_ok: "is_sha256_hex hex_text"
  by (simp add: is_sha256_hex_def hex_text_def is_lower_hex_def list_all_iff byte_len_def sum_list_replicate)

lemma sample_ids: "is_uuid_v7 sample_report" "is_uuid_v7 sample_upload" "is_uuid sample_submission"
  by (simp_all add: is_uuid_v7_def is_uuid_def uuid_version_num_def uuid_byte_def drop_bit_eq_div)

lemma sample_ingest_ok: "ingest_ok sample_ingest_db"
  by (simp add: ingest_ok_def sample_ingest_db_def db_ok_def tables_ok_def issue_keys_ok_def submission_keys_ok_def)

lemma sample_open: "challenge_open (sample_request v) sample_ingest_db"
  by (simp add: challenge_open_def sample_request_def sample_ingest_db_def open_challenge_def sample_claims_def)

lemma sample_unknown: "known_submission req sample_ingest_db = None"
  by (simp add: known_submission_def sample_ingest_db_def)

lemma sample_fresh: "request_fresh sample_report (sample_request v) sample_ingest_db"
  using sample_ids hex_text_ok
  by (simp add: request_fresh_def sample_request_def sample_ingest_db_def sample_manifest_def sample_claims_def)

lemma sample_valid:
  "validate_manifest Map.empty (limits runtime_configuration_default) (req_manifest (sample_request [49, 0])) = Ok ()"
  "validate_manifest Map.empty (limits runtime_configuration_default) (req_manifest (sample_request [49])) = Ok ()"
  by (simp_all add: validate_manifest_def sample_request_def sample_manifest_def runtime_configuration_default_def
      ingestion_limits_default_def validate_attachments_def validate_fields_def)

lemma sample_accepted:
  "\<exists>s'. accept_report ext sample_report (sample_request [49]) sample_ingest_db = Ok (Accepted sample_report, s')"
  using sample_ids hex_text_ok
  by (simp add: accept_report_def tx_run accept_report_row_def sample_request_def sample_manifest_def sample_ingest_db_def
      sample_claims_def open_challenge_def insert_report_def submission_row_ok_def submission_of_def no_nul_def
      submission_keys_ok_def report_of_def configure_report_retention_def sign_report_def submitted_stack_trace_def
      List.map_filter_simps Let_def)

theorem submission_idempotent_witness:
  "\<exists>s'. accept_report sample_external sample_report (sample_request [49]) sample_ingest_db = Ok (Accepted sample_report, s') \<and>
    accept_report sample_external 7 (sample_request [49]) s' = Ok (Existing \<lparr> receipt_report = sample_report,
      receipt_digest_matches = True, receipt_storage = storage_state.PendingFiles, receipt_staging = sample_upload \<rparr>, s')"
proof -
  obtain s' where s': "accept_report sample_external sample_report (sample_request [49]) sample_ingest_db = Ok (Accepted sample_report, s')"
    using sample_accepted by blast
  have "req_upload (sample_request [49]) = sample_upload" by (simp add: sample_request_def)
  then show ?thesis
    using s' submission_idempotent [OF sample_ingest_ok s' refl, where fresh = 7] by auto
qed

theorem challenge_used_once_witness:
  "\<exists>s'. accept_report sample_external sample_report (sample_request [49]) sample_ingest_db = Ok (Accepted sample_report, s') \<and>
    accept_report sample_external 7 ((sample_request [49])\<lparr> req_manifest := (sample_manifest [50])\<lparr> submission_id := 9 \<rparr> \<rparr>) s' =
      Err (Conflict ''Challenge expired, invalid, or already consumed'')"
proof -
  let ?req' = "(sample_request [49])\<lparr> req_manifest := (sample_manifest [50])\<lparr> submission_id := 9 \<rparr> \<rparr>"
  obtain s' where s': "accept_report sample_external sample_report (sample_request [49]) sample_ingest_db = Ok (Accepted sample_report, s')"
    using sample_accepted by blast
  have "map sub_key (submissions s') = [sub_key (submission_of sample_report 0 (sample_request [49]))]"
    using accept_report_Ok [OF s'] by (auto simp: accepts_in_def same_keys_def accepted_db_def sample_ingest_db_def)
  then have "known_submission ?req' s' = None"
    by (auto simp: known_submission_def sub_key_def sample_request_def sample_manifest_def map_eq_Cons_conv)
  then have "accept_report sample_external 7 ?req' s' = Err (Conflict ''Challenge expired, invalid, or already consumed'')"
    by (intro challenge_used_once [OF s']) simp
  then show ?thesis using s' by blast
qed

theorem validated_submission_accepted_witness:
  "(\<exists>s'. accept_report sample_external sample_report (sample_request [49]) sample_ingest_db = Ok (Accepted sample_report, s')) \<and>
   (\<exists>e. accept_report sample_external sample_report (sample_request [49, 0]) sample_ingest_db = Err e \<and> status e = 503)"
proof -
  note run = validated_submission_accepted [OF sample_ingest_ok sample_fresh sample_unknown sample_open default_payload_limits]
  have "manifest_storable (req_manifest (sample_request [49]))" "\<not> manifest_storable (req_manifest (sample_request [49, 0]))"
    "req_retention_days (sample_request v) = 3650" for v
    by (simp_all add: manifest_storable_def sample_request_def sample_manifest_def no_nul_def)
  then show ?thesis using run [OF sample_valid(1), of sample_external] run [OF sample_valid(2), of sample_external] by simp
qed

end
