(* ===== verification/Upload_System.thy ===== *)
theory Upload_System
  imports Ingestion_Laws
begin

text \<open>
  Submissions that run side by side: the state of the service with the uploads in flight, each in its phase,
  and the steps of the whole. A step advances one upload, starts or drops one, recovers a pending report or
  sweeps. The invariant says where the files of every report are at every moment.
\<close>

section \<open>Which directories there are\<close>

definition staged :: "file_store \<Rightarrow> uuid set" where
  "staged fs = dom (map_of (staging_dirs fs))"

definition stored :: "file_store \<Rightarrow> uuid set" where
  "stored fs = dom (map_of (report_dirs fs))"

definition same_dirs :: "file_store \<Rightarrow> file_store \<Rightarrow> bool" where
  "same_dirs fs fs' \<longleftrightarrow> staged fs' = staged fs \<and> stored fs' = stored fs"

interpretation same_dirs: tx_relation same_dirs
  by standard (auto simp: same_dirs_def)

lemma set_staged_file_dirs: "same_dirs fs (set_staged_file u path content fs)"
  by (auto simp: same_dirs_def staged_def stored_def set_staged_file_def update_conv' split: option.split)

lemma remove_staged_file_dirs: "same_dirs fs (remove_staged_file u path fs)"
  by (auto simp: same_dirs_def staged_def stored_def remove_staged_file_def update_conv' split: option.split)

lemma create_writer_dirs: "prog_respects same_dirs (create_writer show_id u aid maximum)"
  unfolding prog_respects_def
  by (auto simp: create_writer_def set_staged_file_dirs same_dirs.refl split: option.split)

lemma attachment_write_dirs: "prog_respects same_dirs (attachment_write w chunk)"
  unfolding prog_respects_def
  by (auto simp: attachment_write_def bind_prog_def lift_prog_def Let_def set_staged_file_dirs same_dirs.refl
      split: sum.split)

lemma attachment_finish_dirs: "prog_respects same_dirs (attachment_finish sha w sz digest)"
  unfolding prog_respects_def
  by (auto simp: attachment_finish_def Let_def remove_staged_file_dirs same_dirs.refl)

lemma receive_chunks_dirs: "prog_respects same_dirs (receive_chunks maximum chunks sz w)"
proof (induction chunks arbitrary: sz w)
  case Nil
  show ?case by (simp add: same_dirs.return_prog_respects)
next
  case (Cons chunk chunks)
  show ?case
    unfolding receive_chunks.simps
    by (intro same_dirs.bind_prog_respects same_dirs.lift_prog_respects attachment_write_dirs Cons.IH)
qed

lemma receive_part_dirs: "prog_respects same_dirs (receive_part ext cfg prep received sz part)"
proof (cases part)
  case (Part name chunks breaks)
  show ?thesis
    unfolding receive_part_def Part body_part.case
    by (intro same_dirs.bind_prog_respects same_dirs.lift_prog_respects same_dirs.return_prog_respects
        create_writer_dirs receive_chunks_dirs attachment_finish_dirs)
      (auto intro!: same_dirs.bind_prog_respects same_dirs.lift_prog_respects same_dirs.return_prog_respects
        attachment_finish_dirs split: prod.split)
next
  case Broken_body
  then show ?thesis by (simp add: receive_part_def same_dirs.lift_prog_respects)
qed

lemma validate_staging_dirs:
  "prog_respects same_dirs (validate_staging png gzip show_id parse_id u as ids l)"
  unfolding prog_respects_def
  by (auto simp: validate_staging_def same_dirs_def staged_def stored_def update_conv' Let_def
      split: option.split sum.split)

text \<open>Moving a staging directory to its report, when exactly one of the two is there.\<close>

lemma finalize_upload_moves:
  assumes "(rid \<in> stored fs) \<noteq> (u \<in> staged fs)"
  shows "\<exists>fs'. finalize_upload u rid fs = (Ok (), fs') \<and>
    staged fs' = staged fs - {u} \<and> stored fs' = insert rid (stored fs)"
proof (cases "rid \<in> stored fs")
  case True
  then have "u \<notin> staged fs" using assms by simp
  then show ?thesis
    using True by (auto simp: finalize_upload_def stored_def staged_def domIff)
next
  case False
  then obtain d where "map_of (staging_dirs fs) u = Some d" using assms by (auto simp: staged_def)
  moreover have "map_of (report_dirs fs) rid = None" using False by (auto simp: stored_def)
  ultimately show ?thesis
    by (auto simp: finalize_upload_def stored_def staged_def update_conv' delete_conv')
qed

lemma remove_staging_dirs:
  "remove_staging u fs = (Ok (), fs') \<Longrightarrow> staged fs' = staged fs - {u} \<and> stored fs' = stored fs"
  by (auto simp: remove_staging_def staged_def stored_def delete_conv' split: if_splits)

lemma begin_staging_dirs:
  assumes "begin_staging time u fs = (r, fs')"
  shows "(r = Ok () \<longrightarrow> u \<notin> staged fs \<and> staged fs' = insert u (staged fs)) \<and> (r \<noteq> Ok () \<longrightarrow> fs' = fs) \<and>
    stored fs' = stored fs"
  using assms by (auto simp: begin_staging_def staged_def stored_def update_conv' domIff split: option.splits)

section \<open>The invariant of the service\<close>

definition row_ids :: "'num ingest_db \<Rightarrow> (report_id \<times> uuid) set" where
  "row_ids s = set (map (\<lambda>r. (sub_report r, sub_staging r)) (submissions s))"

definition ready :: "'num ingest_db \<Rightarrow> report_id \<Rightarrow> bool" where
  "ready s rid \<longleftrightarrow> storage_of s rid = Some storage_state.Ready"

text \<open>The files of a report are in exactly one place, in that of the report once it is ready; a report
  directory belongs to a report.\<close>

definition files_ok :: "'num service \<Rightarrow> bool" where
  "files_ok s \<longleftrightarrow>
    (\<forall>(rid, u) \<in> row_ids (database s). (rid \<in> stored (store s)) \<noteq> (u \<in> staged (store s)) \<and>
      (ready (database s) rid \<longrightarrow> rid \<in> stored (store s))) \<and>
    stored (store s) \<subseteq> fst ` row_ids (database s)"

definition service_ok :: "'num service \<Rightarrow> bool" where
  "service_ok s \<longleftrightarrow> ingest_ok (database s) \<and> files_ok s"

text \<open>What a step may do to the rows and directories when it may write to the staging directories of some
  uploads only.\<close>

definition step_effect :: "uuid set \<Rightarrow> 'num service \<Rightarrow> 'num service \<Rightarrow> bool" where
  "step_effect U s s' \<longleftrightarrow>
    row_ids (database s) \<subseteq> row_ids (database s') \<and>
    snd ` row_ids (database s') \<subseteq> snd ` row_ids (database s) \<union> U \<and>
    (\<forall>v. v \<notin> U \<longrightarrow> v \<in> staged (store s') \<longrightarrow> v \<in> staged (store s)) \<and>
    (\<forall>v. v \<notin> U \<longrightarrow> v \<notin> snd ` row_ids (database s) \<longrightarrow> v \<in> staged (store s) \<longrightarrow> v \<in> staged (store s')) \<and>
    stored (store s) \<subseteq> stored (store s') \<and>
    (\<forall>rid. ready (database s) rid \<longrightarrow> ready (database s') rid)"

lemma step_effect_refl: "step_effect U s s"
  by (auto simp: step_effect_def)

lemma step_effect_mono: "step_effect U s s' \<Longrightarrow> U \<subseteq> V \<Longrightarrow> step_effect V s s'"
  unfolding step_effect_def by blast

lemma step_effectD:
  assumes "step_effect U s s'"
  shows "x \<in> row_ids (database s) \<Longrightarrow> x \<in> row_ids (database s')"
    and "v \<notin> U \<Longrightarrow> v \<notin> snd ` row_ids (database s) \<Longrightarrow> v \<notin> snd ` row_ids (database s')"
    and "v \<notin> U \<Longrightarrow> v \<notin> staged (store s) \<Longrightarrow> v \<notin> staged (store s')"
    and "v \<notin> U \<Longrightarrow> v \<notin> snd ` row_ids (database s) \<Longrightarrow> v \<in> staged (store s) \<Longrightarrow> v \<in> staged (store s')"
    and "rid \<in> stored (store s) \<Longrightarrow> rid \<in> stored (store s')"
    and "ready (database s) rid \<Longrightarrow> ready (database s') rid"
  using assms unfolding step_effect_def by (blast, blast, blast, blast, blast, blast)

lemma step_effectI:
  assumes "\<And>x. x \<in> row_ids (database s) \<Longrightarrow> x \<in> row_ids (database s')"
    and "\<And>v. v \<notin> U \<Longrightarrow> v \<notin> snd ` row_ids (database s) \<Longrightarrow> v \<notin> snd ` row_ids (database s')"
    and "\<And>v. v \<notin> U \<Longrightarrow> v \<notin> staged (store s) \<Longrightarrow> v \<notin> staged (store s')"
    and "\<And>v. v \<notin> U \<Longrightarrow> v \<notin> snd ` row_ids (database s) \<Longrightarrow> v \<in> staged (store s) \<Longrightarrow> v \<in> staged (store s')"
    and "\<And>rid. rid \<in> stored (store s) \<Longrightarrow> rid \<in> stored (store s')"
    and "\<And>rid. ready (database s) rid \<Longrightarrow> ready (database s') rid"
  shows "step_effect U s s'"
  using assms unfolding step_effect_def by (intro conjI subsetI allI impI; blast)

lemma step_effect_trans:
  assumes "step_effect U s s'" "step_effect U s' s''"
  shows "step_effect U s s''"
proof (rule step_effectI)
  note e1 = step_effectD [OF assms(1)] and e2 = step_effectD [OF assms(2)]
  show "v \<in> staged (store s'')" if "v \<notin> U" "v \<notin> snd ` row_ids (database s)" "v \<in> staged (store s)" for v
    by (rule e2(4) [OF that(1) e1(2) [OF that(1,2)] e1(4) [OF that]])
qed (simp_all only: step_effectD(1,2,3,5,6) [OF assms(1)] step_effectD(1,2,3,5,6) [OF assms(2)] not_False_eq_True)

definition disposable :: "uuid \<Rightarrow> 'num service \<Rightarrow> bool" where
  "disposable u s \<longleftrightarrow> u \<notin> snd ` row_ids (database s) \<or> u \<notin> staged (store s)"

definition receipt_ok :: "report_receipt \<Rightarrow> 'num service \<Rightarrow> bool" where
  "receipt_ok rc s \<longleftrightarrow> (receipt_report rc, receipt_staging rc) \<in> row_ids (database s) \<and>
    (receipt_storage rc = storage_state.Ready \<longrightarrow> ready (database s) (receipt_report rc))"

fun phase_ok :: "uuid \<Rightarrow> phase \<Rightarrow> 'num service \<Rightarrow> bool" where
  "phase_ok u (Receiving parts received sz) s \<longleftrightarrow> u \<in> staged (store s) \<and> u \<notin> snd ` row_ids (database s)"
| "phase_ok u Validating s \<longleftrightarrow> u \<in> staged (store s) \<and> u \<notin> snd ` row_ids (database s)"
| "phase_ok u Accepting s \<longleftrightarrow> u \<in> staged (store s) \<and> u \<notin> snd ` row_ids (database s)"
| "phase_ok u (Finalizing rid) s \<longleftrightarrow> (rid, u) \<in> row_ids (database s)"
| "phase_ok u (Marking rid) s \<longleftrightarrow> (rid, u) \<in> row_ids (database s) \<and> rid \<in> stored (store s)"
| "phase_ok u (Discarding rc) s \<longleftrightarrow> u \<notin> snd ` row_ids (database s) \<and> receipt_ok rc s"
| "phase_ok u (Recovering rc) s \<longleftrightarrow> receipt_ok rc s \<and> disposable u s"
| "phase_ok u (Recovered rc) s \<longleftrightarrow> receipt_ok rc s \<and> receipt_report rc \<in> stored (store s) \<and> disposable u s"
| "phase_ok u (Finished (Inl e)) s \<longleftrightarrow> disposable u s"
| "phase_ok u (Finished (Inr rid)) s \<longleftrightarrow> rid \<in> stored (store s) \<and> ready (database s) rid"

lemma disposable_stable: "disposable u s \<Longrightarrow> step_effect U s s' \<Longrightarrow> u \<notin> U \<Longrightarrow> disposable u s'"
  unfolding disposable_def by (blast dest: step_effectD)

lemma receipt_ok_stable: "receipt_ok rc s \<Longrightarrow> step_effect U s s' \<Longrightarrow> receipt_ok rc s'"
  unfolding receipt_ok_def by (blast dest: step_effectD)

lemma phase_ok_stable:
  assumes "phase_ok u ph s" "step_effect U s s'" "u \<notin> U"
  shows "phase_ok u ph s'"
  using assms
proof (cases ph)
  case (Finished r)
  then show ?thesis using assms by (cases r) (auto dest: step_effectD(5,6) disposable_stable)
qed (simp_all add: step_effectD [OF assms(2)] disposable_stable [OF _ assms(2,3)] receipt_ok_stable [OF _ assms(2)])

section \<open>The primitives keep it\<close>

lemma row_ids_inj:
  assumes "ingest_ok s" "(r, u) \<in> row_ids s" "(r', u') \<in> row_ids s"
  shows "r = r' \<longleftrightarrow> u = u'"
proof -
  have d: "distinct (map sub_report (submissions s))" "distinct (map sub_staging (submissions s))"
    using assms(1) by (auto simp: ingest_ok_def submission_keys_ok_def)
  obtain x y where "x \<in> set (submissions s)" "y \<in> set (submissions s)" "sub_report x = r" "sub_staging x = u"
    "sub_report y = r'" "sub_staging y = u'"
    using assms(2,3) by (auto simp: row_ids_def)
  then show ?thesis using d by (auto simp: distinct_map inj_on_def)
qed

lemma row_ids_keys:
  fixes s s' :: "'num ingest_db"
  shows "map sub_key (submissions s') = map sub_key (submissions s) \<Longrightarrow> row_ids s' = row_ids s"
  using sub_key_maps(4) [of "submissions s'" "submissions s"] by (simp add: row_ids_def)

lemma files_ok_row:
  "files_ok s \<Longrightarrow> (rid, u) \<in> row_ids (database s) \<Longrightarrow>
    (rid \<in> stored (store s)) \<noteq> (u \<in> staged (store s)) \<and> (ready (database s) rid \<longrightarrow> rid \<in> stored (store s))"
  by (auto simp: files_ok_def)

lemma store_step:
  assumes "service_ok s" "same_dirs (store s) fs"
  shows "service_ok (s\<lparr> store := fs \<rparr>)" "step_effect {} s (s\<lparr> store := fs \<rparr>)"
  using assms by (simp_all add: service_ok_def files_ok_def same_dirs_def step_effect_def)

text \<open>Steps of the database that leave the reports alone.\<close>

lemma database_step:
  assumes "service_ok s" "ingest_ok d" "row_ids d = row_ids (database s)" "\<And>rid. storage_of d rid = storage_of (database s) rid"
  shows "service_ok (s\<lparr> database := d \<rparr>)" "step_effect {} s (s\<lparr> database := d \<rparr>)"
  using assms by (simp_all add: service_ok_def files_ok_def step_effect_def ready_def)

lemma finalize_step:
  assumes "service_ok s" "(rid, v) \<in> row_ids (database s)"
  shows "\<exists>fs. finalize_upload v rid (store s) = (Ok (), fs) \<and> service_ok (s\<lparr> store := fs \<rparr>) \<and>
    step_effect {} s (s\<lparr> store := fs \<rparr>) \<and> rid \<in> stored fs \<and> v \<notin> staged fs"
proof -
  have ok: "ingest_ok (database s)" "files_ok s" using assms(1) by (auto simp: service_ok_def)
  note row = files_ok_row [OF ok(2) assms(2)]
  then obtain fs where fs: "finalize_upload v rid (store s) = (Ok (), fs)" "staged fs = staged (store s) - {v}"
    "stored fs = insert rid (stored (store s))"
    using finalize_upload_moves by blast
  have "(r \<in> stored fs) \<noteq> (u \<in> staged fs) \<and> (ready (database s) r \<longrightarrow> r \<in> stored fs)"
    if "(r, u) \<in> row_ids (database s)" for r u
    using files_ok_row [OF ok(2) that] row_ids_inj [OF ok(1) that assms(2)] row fs(2,3) by auto
  then have "files_ok (s\<lparr> store := fs \<rparr>)"
    using ok(2) assms(2) fs(3) by (auto simp: files_ok_def image_iff intro: bexI [of _ "(rid, v)"])
  moreover have "step_effect {} s (s\<lparr> store := fs \<rparr>)"
    using imageI [OF assms(2), of snd] fs(2,3) by (auto simp: step_effect_def)
  ultimately show ?thesis using ok(1) fs by (auto simp: service_ok_def)
qed

lemma mark_step:
  assumes "service_ok s" "(rid, v) \<in> row_ids (database s)" "rid \<in> stored (store s)"
    and "mark_report_storage_ready rid v (database s) = Ok (b, d)"
  shows "service_ok (s\<lparr> database := d \<rparr>)" "step_effect {} s (s\<lparr> database := d \<rparr>)" "ready d rid"
proof -
  have ok: "ingest_ok (database s)" "files_ok s" using assms(1) by (auto simp: service_ok_def)
  have ids: "row_ids d = row_ids (database s)"
    using assms(4) by (auto simp: mark_report_storage_ready_def row_ids_def split: if_splits)
  have in_tracker: "rid \<in> rpt_id ` set (reports (tracker (database s)))"
  proof -
    have "rid \<in> sub_report ` set (submissions (database s))" using assms(2) by (auto simp: row_ids_def)
    then show ?thesis using ok(1) unfolding ingest_ok_def by (metis list.set_map)
  qed
  have st: "storage_of d r = (if r = rid then Some storage_state.Ready else storage_of (database s) r)" for r
  proof (cases b)
    case True
    then have "mark_report_storage_ready rid v (database s) = Ok (True, d)" using assms(4) by simp
    then show ?thesis by (rule storage_of_marked)
  next
    case False
    then have eq: "d = database s" using assms(4) mark_ready_False by simp
    have "storage_of (database s) rid \<noteq> Some storage_state.PendingFiles"
      using assms(2,4) False by (auto simp: mark_report_storage_ready_def row_ids_def list_ex_iff split: if_splits)
    moreover have "storage_of (database s) rid \<noteq> None"
      using in_tracker report_of_None [of rid "tracker (database s)"] by (simp add: storage_of_def)
    ultimately have "storage_of (database s) rid = Some storage_state.Ready"
      by (metis option.exhaust storage_state.exhaust)
    then show ?thesis by (simp add: eq)
  qed
  show "ready d rid" by (simp add: ready_def st)
  show "service_ok (s\<lparr> database := d \<rparr>)"
    using ok assms(3) mark_ingest_ok [OF ok(1) assms(4)]
    by (auto simp: service_ok_def files_ok_def ids ready_def st split: if_splits)
  show "step_effect {} s (s\<lparr> database := d \<rparr>)" by (auto simp: step_effect_def ids ready_def st)
qed

lemma remove_step:
  assumes "service_ok s" "disposable u s" "remove_staging u (store s) = (r, fs)"
  shows "service_ok (s\<lparr> store := fs \<rparr>)" "step_effect {u} s (s\<lparr> store := fs \<rparr>)"
    "u \<notin> staged fs" "r = Ok ()"
proof -
  show r: "r = Ok ()" using assms(3) by (simp add: remove_staging_def)
  have fs: "staged fs = staged (store s) - {u}" "stored fs = stored (store s)"
    using remove_staging_dirs assms(3) r by auto
  show "u \<notin> staged fs" by (simp add: fs)
  have "u \<notin> snd ` row_ids (database s) \<or> staged fs = staged (store s)"
    using assms(2) fs by (auto simp: disposable_def)
  then show "service_ok (s\<lparr> store := fs \<rparr>)"
    using assms(1) by (auto simp: service_ok_def files_ok_def fs image_iff)
  show "step_effect {u} s (s\<lparr> store := fs \<rparr>)" by (auto simp: step_effect_def fs)
qed

lemma accept_step_ok:
  assumes "service_ok s" "u \<in> staged (store s)" "u \<notin> snd ` row_ids (database s)" "req_upload req = u"
    and "accept_report ext rid req (database s) = Ok (out, d)"
  shows "service_ok (s\<lparr> database := d \<rparr>)" "step_effect {u} s (s\<lparr> database := d \<rparr>)"
    "case out of Accepted r \<Rightarrow> (r, u) \<in> row_ids d | Existing rc \<Rightarrow> d = database s \<and> receipt_ok rc s"
proof -
  have ok: "ingest_ok (database s)" "files_ok s" using assms(1) by (auto simp: service_ok_def)
  consider (existing) rc where "out = Existing rc" "d = database s"
      "find_report_receipt (submission_id (req_manifest req)) (manifest_digest (req_claims req)) (database s) = Some rc"
    | (accepted) "out = Accepted rid" "accepts_in rid req (database s) d"
    using accept_report_Ok [OF assms(5)] by auto
  then have "service_ok (s\<lparr> database := d \<rparr>) \<and> step_effect {u} s (s\<lparr> database := d \<rparr>) \<and>
    (case out of Accepted r \<Rightarrow> (r, u) \<in> row_ids d | Existing rc \<Rightarrow> d = database s \<and> receipt_ok rc s)"
  proof cases
    case existing
    have "receipt_ok rc s"
      using existing(3) by (auto simp: find_report_receipt_def bind_eq_Some_conv receipt_ok_def row_ids_def ready_def
          dest!: find_Some_in)
    then show ?thesis using assms(1) existing by (simp add: step_effect_refl)
  next
    case accepted
    have keys: "map sub_key (submissions d) = map sub_key (submissions (database s) @ [submission_of rid (now (database s)) req])"
      and new: "report_of rid (tracker (database s)) = None"
      using accepted(2) by (auto simp: accepts_in_def same_keys_def accepted_db_def)
    have ids: "row_ids d = insert (rid, u) (row_ids (database s))"
      using sub_key_maps(4) [OF keys] assms(4) by (simp add: row_ids_def)
    have fresh: "rid \<notin> fst ` row_ids (database s)"
    proof
      assume "rid \<in> fst ` row_ids (database s)"
      then have "rid \<in> sub_report ` set (submissions (database s))" by (auto simp: row_ids_def)
      then have "rid \<in> rpt_id ` set (reports (tracker (database s)))"
        using ok(1) unfolding ingest_ok_def by (metis list.set_map)
      then show False using new report_of_None by blast
    qed
    then have "rid \<notin> stored (store s)" using ok(2) by (auto simp: files_ok_def)
    moreover note st = storage_of_accepted [OF accepted(2)]
    ultimately have "files_ok (s\<lparr> database := d \<rparr>)"
      using ok(2) assms(2) fresh by (auto simp: files_ok_def ids ready_def st image_iff split: if_splits)
    moreover have "storage_of (database s) rid \<noteq> Some storage_state.Ready" using new by (simp add: storage_of_def)
    then have "step_effect {u} s (s\<lparr> database := d \<rparr>)" by (auto simp: step_effect_def ids ready_def st)
    ultimately show ?thesis
      using accept_ingest_ok [OF ok(1) accepted(2)] accepted(1) by (simp add: service_ok_def ids)
  qed
  then show "service_ok (s\<lparr> database := d \<rparr>)" "step_effect {u} s (s\<lparr> database := d \<rparr>)"
    "case out of Accepted r \<Rightarrow> (r, u) \<in> row_ids d | Existing rc \<Rightarrow> d = database s \<and> receipt_ok rc s" by auto
qed

section \<open>A step of one upload\<close>

lemma goto_simps [simp]:
  "goto f (Err e, s) = (Finished (Err e), s)" "goto f (Ok a, s) = (f a, s)"
  by (simp_all add: goto_def)

lemma on_database_eq:
  "on_database t s = (case t (database s) of Inl e \<Rightarrow> (Err e, s) | Inr (a, d) \<Rightarrow> (Ok a, s\<lparr> database := d \<rparr>))"
  by (simp add: on_database_def run_tx_def split: sum.split)

definition step_keeps :: "uuid \<Rightarrow> 'num service \<Rightarrow> phase \<times> 'num service \<Rightarrow> bool" where
  "step_keeps u s p \<longleftrightarrow> service_ok (snd p) \<and> phase_ok u (fst p) (snd p) \<and> step_effect {u} s (snd p)"

lemma phase_ok_early:
  "u \<in> staged (store s) \<Longrightarrow> u \<notin> snd ` row_ids (database s) \<Longrightarrow>
    phase_ok u (Receiving parts received sz) s \<and> phase_ok u Validating s \<and> phase_ok u Accepting s \<and>
    phase_ok u (Finished (Err e)) s"
  by (auto simp: disposable_def)

lemma dirs_step_keeps:
  fixes s :: "'num service"
  assumes "service_ok s" "u \<in> staged (store s)" "u \<notin> snd ` row_ids (database s)"
    and "prog_respects same_dirs m" and "\<And>a (s' :: 'num service). phase_ok u Accepting s' \<Longrightarrow> phase_ok u (f a) s'"
  shows "step_keeps u s (goto f (on_store m s))"
proof -
  obtain r fs where m: "m (store s) = (r, fs)" by (cases "m (store s)")
  have dirs: "same_dirs (store s) fs" using assms(4) m unfolding prog_respects_def by (metis snd_conv)
  note st = store_step [OF assms(1) dirs]
  have early: "u \<in> staged fs" using assms(2) dirs by (simp add: same_dirs_def)
  have "step_effect {u} s (s\<lparr> store := fs \<rparr>)" using st(2) by (rule step_effect_mono) simp
  moreover have "phase_ok u Accepting (s\<lparr> store := fs \<rparr>)" "phase_ok u (Finished (Err e)) (s\<lparr> store := fs \<rparr>)" for e
    using early assms(3) by (simp_all add: disposable_def)
  ultimately show ?thesis
    using st(1) assms(5) by (cases r) (simp_all add: step_keeps_def on_store_def m)
qed

lemma receipt_ok_same: "database s' = database s \<Longrightarrow> receipt_ok rc s' = receipt_ok rc s"
  by (simp add: receipt_ok_def)

lemma accept_phase_keeps:
  assumes "service_ok s" "phase_ok u Accepting s" "prep_upload prep = u"
  shows "step_keeps u s (accept_step ext cfg rid source_key prep (Accepting, s))"
proof (cases "accept_report ext rid (prep_request source_key cfg prep) (database s)")
  case (Inl e)
  then show ?thesis using assms by (simp add: step_keeps_def on_database_eq step_effect_refl disposable_def)
next
  case (Inr p)
  obtain out d where p: "p = (out, d)" by (cases p)
  have up: "u \<in> staged (store s)" "u \<notin> snd ` row_ids (database s)" "req_upload (prep_request source_key cfg prep) = u"
    using assms(2,3) by (simp_all add: prep_request_def)
  note ok = accept_step_ok [OF assms(1) up Inr [unfolded p]]
  show ?thesis
  proof (cases out)
    case (Accepted r)
    then show ?thesis using ok by (simp add: step_keeps_def on_database_eq Inr p)
  next
    case (Existing rc)
    have rc: "d = database s" "receipt_ok rc s" using ok(3) Existing by simp_all
    have "receipt_staging rc \<in> snd ` row_ids (database s)"
      using rc(2) by (auto simp: receipt_ok_def image_iff intro: bexI [rotated])
    then have "receipt_staging rc \<noteq> u" using up(2) by auto
    then show ?thesis
      using ok(1,2) rc up(2) assms(3) Existing by (simp add: step_keeps_def on_database_eq Inr p)
  qed
qed

lemma recovering_keeps:
  assumes "service_ok s" "phase_ok u (Recovering rc) s"
  shows "step_keeps u s (accept_step ext cfg rid source_key prep (Recovering rc, s))"
proof (cases "receipt_storage rc = storage_state.Ready")
  case True
  then have "ready (database s) (receipt_report rc)" "(receipt_report rc, receipt_staging rc) \<in> row_ids (database s)"
    using assms(2) by (auto simp: receipt_ok_def)
  then have "receipt_report rc \<in> stored (store s)"
    using assms(1) files_ok_row by (auto simp: service_ok_def)
  then show ?thesis using True assms by (simp add: step_keeps_def step_effect_refl receipt_ok_def)
next
  case False
  have row: "(receipt_report rc, receipt_staging rc) \<in> row_ids (database s)" using assms(2) by (simp add: receipt_ok_def)
  obtain fs where fs: "finalize_upload (receipt_staging rc) (receipt_report rc) (store s) = (Ok (), fs)"
    "service_ok (s\<lparr> store := fs \<rparr>)" "step_effect {} s (s\<lparr> store := fs \<rparr>)" "receipt_report rc \<in> stored fs"
    using finalize_step [OF assms(1) row] by blast
  have "phase_ok u (Recovering rc) (s\<lparr> store := fs \<rparr>)" by (rule phase_ok_stable [OF assms(2) fs(3)]) simp
  moreover have "step_effect {u} s (s\<lparr> store := fs \<rparr>)" using fs(3) by (rule step_effect_mono) simp
  ultimately show ?thesis using False fs by (simp add: step_keeps_def on_store_def fs(1))
qed

lemma mark_total: "\<exists>b d. mark_report_storage_ready rid v s = Ok (b, d)"
  by (auto simp: mark_report_storage_ready_def)

lemma marked_keeps:
  assumes "service_ok s" "(r, v) \<in> row_ids (database s)" "r \<in> stored (store s)" "disposable u s"
    and "\<And>b. f b = Finished (Ok r) \<or> (\<exists>e. f b = Finished (Err e))"
  shows "step_keeps u s (goto f (on_database (mark_report_storage_ready r v) s))"
proof -
  obtain b d where m: "mark_report_storage_ready r v (database s) = Ok (b, d)" using mark_total by blast
  note ok = mark_step [OF assms(1-3) m]
  have "step_effect {u} s (s\<lparr> database := d \<rparr>)" using ok(2) by (rule step_effect_mono) simp
  moreover have "disposable u (s\<lparr> database := d \<rparr>)"
    using m assms(4) by (auto simp: disposable_def mark_report_storage_ready_def row_ids_def split: if_splits)
  ultimately show ?thesis
    using ok(1,3) assms(3) assms(5) [of b] by (auto simp: step_keeps_def on_database_eq m)
qed

lemma advance_keeps:
  assumes "service_ok s" "phase_ok u ph s" "prep_upload prep = u"
  shows "step_keeps u s (accept_step ext cfg rid source_key prep (ph, s))"
proof (cases ph)
  case (Receiving parts received sz)
  then have early: "u \<in> staged (store s)" "u \<notin> snd ` row_ids (database s)" using assms(2) by simp_all
  show ?thesis
  proof (cases parts)
    case Nil
    then show ?thesis using Receiving assms early by (simp add: step_keeps_def step_effect_refl disposable_def)
  next
    case (Cons part rest)
    show ?thesis
      unfolding Receiving Cons accept_step.simps
      by (rule dirs_step_keeps [OF assms(1) early receive_part_dirs]) (auto split: prod.split)
  qed
next
  case Validating
  then have early: "u \<in> staged (store s)" "u \<notin> snd ` row_ids (database s)" using assms(2) by simp_all
  show ?thesis
    unfolding Validating accept_step.simps by (rule dirs_step_keeps [OF assms(1) early validate_staging_dirs]) simp
next
  case Accepting
  then show ?thesis using accept_phase_keeps assms by blast
next
  case (Finalizing r)
  then have row: "(r, u) \<in> row_ids (database s)" using assms(2) by simp
  obtain fs where fs: "finalize_upload u r (store s) = (Ok (), fs)" "service_ok (s\<lparr> store := fs \<rparr>)"
    "step_effect {} s (s\<lparr> store := fs \<rparr>)" "r \<in> stored fs"
    using finalize_step [OF assms(1) row] by blast
  have "step_effect {u} s (s\<lparr> store := fs \<rparr>)" using fs(3) by (rule step_effect_mono) simp
  then show ?thesis using fs row Finalizing assms(3) by (simp add: step_keeps_def on_store_def)
next
  case (Marking r)
  then have row: "(r, u) \<in> row_ids (database s)" "r \<in> stored (store s)" using assms(2) by simp_all
  then have "disposable u s" using assms(1) files_ok_row by (auto simp: service_ok_def disposable_def)
  then show ?thesis
    unfolding Marking accept_step.simps assms(3) by (intro marked_keeps [OF assms(1) row]) auto
next
  case (Discarding rc)
  have d: "disposable u s" using assms(2) Discarding by (simp add: disposable_def)
  obtain r fs where rm: "remove_staging u (store s) = (r, fs)" by (cases "remove_staging u (store s)")
  note ok = remove_step [OF assms(1) d rm]
  have "receipt_ok rc (s\<lparr> store := fs \<rparr>)" "disposable u (s\<lparr> store := fs \<rparr>)"
    using assms(2) Discarding ok(3) by (simp_all add: receipt_ok_def disposable_def)
  then show ?thesis using Discarding ok assms(3) rm by (simp add: step_keeps_def on_store_def)
next
  case (Recovering rc)
  then show ?thesis using recovering_keeps assms by blast
next
  case (Recovered rc)
  then have "(receipt_report rc, receipt_staging rc) \<in> row_ids (database s)" "receipt_report rc \<in> stored (store s)"
    "disposable u s" using assms(2) by (simp_all add: receipt_ok_def)
  then show ?thesis unfolding Recovered accept_step.simps by (intro marked_keeps [OF assms(1)]) auto
next
  case (Finished r)
  then show ?thesis using assms by (simp add: step_keeps_def step_effect_refl)
qed

section \<open>Recovery\<close>

lemma recover_receipt_keeps:
  assumes "service_ok s" "receipt_ok rc s"
  shows "\<exists>s'. recover_receipt rc s = (Ok (), s') \<and> service_ok s' \<and> step_effect {} s s' \<and>
    ready (database s') (receipt_report rc)"
proof (cases "receipt_storage rc = storage_state.Ready")
  case True
  then show ?thesis
    using assms by (simp add: recover_receipt_def return_prog_def step_effect_refl receipt_ok_def)
next
  case False
  have row: "(receipt_report rc, receipt_staging rc) \<in> row_ids (database s)" using assms(2) by (simp add: receipt_ok_def)
  obtain fs where fs: "finalize_upload (receipt_staging rc) (receipt_report rc) (store s) = (Ok (), fs)"
    "service_ok (s\<lparr> store := fs \<rparr>)" "step_effect {} s (s\<lparr> store := fs \<rparr>)" "receipt_report rc \<in> stored fs"
    using finalize_step [OF assms(1) row] by blast
  obtain b d where m: "mark_report_storage_ready (receipt_report rc) (receipt_staging rc) (database s) = Ok (b, d)"
    using mark_total by blast
  note mk = mark_step [OF fs(2), of "receipt_report rc" "receipt_staging rc" b d]
  have "recover_receipt rc s = (Ok (), s\<lparr> store := fs, database := d \<rparr>)"
    using False fs(1) m by (simp add: recover_receipt_def bind_prog_def on_store_def on_database_eq return_prog_def)
  then show ?thesis
    using mk row fs(3,4) m by (auto intro: step_effect_trans)
qed

lemma recover_all_keeps:
  assumes "service_ok s" "set pending \<subseteq> row_ids (database s)"
  shows "service_ok (recover_all pending s) \<and> step_effect {} s (recover_all pending s) \<and>
    (\<forall>(rid, u) \<in> set pending. ready (database (recover_all pending s)) rid)"
  using assms
proof (induction pending arbitrary: s)
  case Nil
  then show ?case by (simp add: step_effect_refl)
next
  case (Cons p pending)
  obtain rid u where p: "p = (rid, u)" by (cases p)
  let ?rc = "\<lparr> receipt_report = rid, receipt_digest_matches = True, receipt_storage = storage_state.PendingFiles,
    receipt_staging = u \<rparr>"
  have "receipt_ok ?rc s" using Cons.prems(2) p by (simp add: receipt_ok_def)
  then obtain s' where s': "recover_receipt ?rc s = (Ok (), s')" "service_ok s'" "step_effect {} s s'"
    "ready (database s') rid"
    using recover_receipt_keeps [OF Cons.prems(1), of ?rc] by auto
  have "set pending \<subseteq> row_ids (database s')" using Cons.prems(2) step_effectD(1) [OF s'(3)] by auto
  note IH = Cons.IH [OF s'(2) this]
  then show ?case
    using s' step_effect_trans [OF s'(3)] step_effectD(6) [of "{}" s' "recover_all pending s'" rid]
    by (auto simp: p)
qed

lemma pending_rows: "set (pending_report_storage s) \<subseteq> row_ids s"
  by (auto simp: pending_report_storage_def row_ids_def dest!: in_set_takeD)

section \<open>The system\<close>

record 'num system =
  srv :: "'num service"
  flights :: "nat \<Rightarrow> ('num prepared_submission \<times> phase) option"

definition in_flight :: "uuid \<Rightarrow> 'num system \<Rightarrow> bool" where
  "in_flight u y \<longleftrightarrow> (\<exists>i prep ph. flights y i = Some (prep, ph) \<and> prep_upload prep = u)"

fun before_commit :: "phase \<Rightarrow> bool" where
  "before_commit (Receiving parts received sz) = True"
| "before_commit Validating = True"
| "before_commit Accepting = True"
| "before_commit (Finished (Inl e)) = True"
| "before_commit ph = False"

text \<open>The networks of a configuration are the \<open>ipnet\<close> crate's; uploads do not look at them. The configuration
  may be another at every step. A new upload identifier is not in use; an upload in flight is younger than what a sweep removes. An
  upload may vanish in any phase, as when the process dies, and is abandoned before its report is
  committed or after it failed.\<close>

typedecl ip_net

inductive sys_step :: "('num, 'key) external \<Rightarrow> 'num system \<Rightarrow> 'num system \<Rightarrow> bool"
  for ext :: "('num, 'key) external" where
  prepare: "prepare_submission ext key (cfg :: ip_net runtime_configuration) defs ids u token nonce content (srv y) = (Ok (Ready_submission prep), s') \<Longrightarrow>
    u \<notin> snd ` row_ids (database (srv y)) \<Longrightarrow> \<not> in_flight u y \<Longrightarrow> flights y i = None \<Longrightarrow>
    sys_step ext y (y\<lparr> srv := s', flights := (flights y)(i \<mapsto> (prep, Receiving parts {} sz)) \<rparr>)"
| answer: "prepare_submission ext key (cfg :: ip_net runtime_configuration) defs ids u token nonce content (srv y) = (r, s') \<Longrightarrow>
    (\<forall>prep. r \<noteq> Ok (Ready_submission prep)) \<Longrightarrow> sys_step ext y (y\<lparr> srv := s' \<rparr>)"
| advance: "flights y i = Some (prep, ph) \<Longrightarrow> accept_step ext (cfg :: ip_net runtime_configuration) rid source_key prep (ph, srv y) = (ph', s') \<Longrightarrow>
    sys_step ext y (y\<lparr> srv := s', flights := (flights y)(i \<mapsto> (prep, ph')) \<rparr>)"
| vanish: "flights y i = Some (prep, ph) \<Longrightarrow> sys_step ext y (y\<lparr> flights := (flights y)(i := None) \<rparr>)"
| abandon: "flights y i = Some (prep, ph) \<Longrightarrow> before_commit ph \<Longrightarrow>
    abandon_submission (prep_upload prep) (srv y) = (r, s') \<Longrightarrow>
    sys_step ext y (y\<lparr> srv := s', flights := (flights y)(i := None) \<rparr>)"
| recover: "recover_pending_storage (srv y) = (r, s') \<Longrightarrow> sys_step ext y (y\<lparr> srv := s' \<rparr>)"
| sweep_files: "remove_unreferenced us n (srv y) = (r, s') \<Longrightarrow> \<forall>u \<in> set us. \<not> in_flight u y \<Longrightarrow>
    sys_step ext y (y\<lparr> srv := s' \<rparr>)"
| issue: "issue_challenge ext key (cfg :: ip_net runtime_configuration) fresh digest (srv y) = (r, s') \<Longrightarrow> sys_step ext y (y\<lparr> srv := s' \<rparr>)"
| acquire: "acquire_upload_lease u client (cfg :: ip_net runtime_configuration) (srv y) = (r', s') \<Longrightarrow> sys_step ext y (y\<lparr> srv := s' \<rparr>)"
| release: "release_upload_lease u (srv y) = (r'', s') \<Longrightarrow> sys_step ext y (y\<lparr> srv := s' \<rparr>)"
| limit: "on_database (consume_rate_limit t k rc rs cap) (srv y) = (b, s') \<Longrightarrow> sys_step ext y (y\<lparr> srv := s' \<rparr>)"
| sweep_rows: "on_database sweep_expired_ingestion_state (srv y) = (z, s') \<Longrightarrow> sys_step ext y (y\<lparr> srv := s' \<rparr>)"

inductive_cases sys_stepE: "sys_step ext y y'"

definition flights_ok :: "'num service \<Rightarrow> (nat \<Rightarrow> ('num prepared_submission \<times> phase) option) \<Rightarrow> bool" where
  "flights_ok s fl \<longleftrightarrow> (\<forall>i prep ph. fl i = Some (prep, ph) \<longrightarrow> phase_ok (prep_upload prep) ph s)"

definition uploads_distinct :: "(nat \<Rightarrow> ('num prepared_submission \<times> phase) option) \<Rightarrow> bool" where
  "uploads_distinct fl \<longleftrightarrow> (\<forall>i j prep ph prep' ph'. fl i = Some (prep, ph) \<longrightarrow> fl j = Some (prep', ph') \<longrightarrow>
    prep_upload prep = prep_upload prep' \<longrightarrow> i = j)"

definition sys_ok :: "'num system \<Rightarrow> bool" where
  "sys_ok y \<longleftrightarrow> service_ok (srv y) \<and> flights_ok (srv y) (flights y) \<and> uploads_distinct (flights y)"

lemma uploads_distinct_sub:
  assumes "uploads_distinct fl" "\<And>i p q. fl' i = Some (p, q) \<Longrightarrow> \<exists>q0. fl i = Some (p, q0)"
  shows "uploads_distinct fl'"
  unfolding uploads_distinct_def
proof (intro allI impI)
  fix i j prep ph prep' ph' assume "fl' i = Some (prep, ph)" "fl' j = Some (prep', ph')" "prep_upload prep = prep_upload prep'"
  then show "i = j" using assms(1) assms(2) [of i] assms(2) [of j] unfolding uploads_distinct_def by blast
qed

lemma flights_ok_stable:
  assumes "flights_ok s fl" "step_effect U s s'" "\<And>i prep ph. fl i = Some (prep, ph) \<Longrightarrow> prep_upload prep \<notin> U"
  shows "flights_ok s' fl"
  unfolding flights_ok_def
proof (intro allI impI)
  fix i prep ph assume f: "fl i = Some (prep, ph)"
  have "phase_ok (prep_upload prep) ph s" using assms(1) f by (simp add: flights_ok_def)
  then show "phase_ok (prep_upload prep) ph s'" by (rule phase_ok_stable [OF _ assms(2) assms(3) [OF f]])
qed

text \<open>A step that writes to nobody's upload.\<close>

lemma sys_ok_effect:
  assumes "sys_ok y" "service_ok s'" "step_effect U (srv y) s'" "\<And>u. u \<in> U \<Longrightarrow> \<not> in_flight u y"
  shows "sys_ok (y\<lparr> srv := s' \<rparr>)"
proof -
  have "flights_ok s' (flights y)"
    using assms(1,4) by (intro flights_ok_stable [OF _ assms(3)]) (auto simp: sys_ok_def in_flight_def)
  then show ?thesis using assms(1,2) by (simp add: sys_ok_def)
qed

text \<open>A step of one upload, which goes on or leaves.\<close>

lemma sys_ok_flight:
  assumes "sys_ok y" "flights y i = Some (prep, ph)" "service_ok s'" "step_effect {prep_upload prep} (srv y) s'"
    and "nxt = None \<or> (\<exists>ph'. nxt = Some (prep, ph') \<and> phase_ok (prep_upload prep) ph' s')"
  shows "sys_ok (y\<lparr> srv := s', flights := (flights y)(i := nxt) \<rparr>)"
proof -
  let ?fl = "(flights y)(i := nxt)"
  have dist: "uploads_distinct (flights y)" and ok: "flights_ok (srv y) (flights y)"
    using assms(1) by (auto simp: sys_ok_def)
  have "uploads_distinct ?fl"
    by (rule uploads_distinct_sub [OF dist]) (use assms(2,5) in \<open>auto split: if_splits\<close>)
  moreover have "phase_ok (prep_upload p) q s'" if "?fl j = Some (p, q)" for j p q
  proof (cases "j = i")
    case True
    then show ?thesis using that assms(5) by auto
  next
    case False
    then have j: "flights y j = Some (p, q)" using that by simp
    have "prep_upload p \<noteq> prep_upload prep" using dist j assms(2) False unfolding uploads_distinct_def by blast
    moreover have "phase_ok (prep_upload p) q (srv y)" using ok j by (simp add: flights_ok_def)
    ultimately show ?thesis using phase_ok_stable [OF _ assms(4)] by simp
  qed
  then have "flights_ok s' ?fl" by (simp add: flights_ok_def)
  ultimately show ?thesis using assms(3) by (simp add: sys_ok_def)
qed

section \<open>Every step keeps the invariant\<close>

lemma receipt_found_ok: "find_report_receipt sub digest (database s) = Some rc \<Longrightarrow> receipt_ok rc s"
  by (auto simp: find_report_receipt_def bind_eq_Some_conv receipt_ok_def row_ids_def ready_def dest!: find_Some_in)

lemma existing_keeps:
  assumes "service_ok s" "receipt_ok rc s" "handle_existing_receipt rc s = (r, s')"
  shows "service_ok s'" "step_effect {} s s'" "\<forall>prep. r \<noteq> Ok (Ready_submission prep)"
proof -
  obtain s1 where s1: "recover_receipt rc s = (Ok (), s1)" "service_ok s1" "step_effect {} s s1"
    using recover_receipt_keeps [OF assms(1,2)] by blast
  have "handle_existing_receipt rc s = (if receipt_digest_matches rc then (Ok (Existing_report (receipt_report rc)), s1)
      else (Err (Conflict ''Submission ID already used''), s))"
    using s1(1) by (simp add: handle_existing_receipt_def bind_prog_def lift_prog_def fail_if_def return_prog_def)
  then show "service_ok s'" "step_effect {} s s'" "\<forall>prep. r \<noteq> Ok (Ready_submission prep)"
    using assms(1,3) s1(2,3) by (auto simp: step_effect_refl split: if_splits)
qed

text \<open>What preparing a submission does: it recovers a report it knows, makes the staging directory of a new
  one, or changes nothing.\<close>

lemma stage_cases:
  assumes "stage_submission cfg defs ids u claims hash m s = (r, s')"
  shows "(\<exists>time fs prep. begin_staging time u (store s) = (Ok (), fs) \<and> s' = s\<lparr> store := fs \<rparr> \<and>
      r = Ok (Ready_submission prep) \<and> prep_upload prep = u) \<or> (s' = s \<and> (\<exists>e. r = Err e))"
proof -
  obtain q fs where q: "begin_staging (now (database s)) u (store s) = (q, fs)" by fastforce
  have "q = Ok () \<or> ((\<exists>e. q = Err e) \<and> fs = store s)"
    using begin_staging_dirs [OF q] by (cases q) auto
  then show ?thesis
    using assms q
    by (auto simp: stage_submission_def ensure_storage_capacity_def bind_lift_prog bind_get_prog
        bind_prog_def on_store_def lift_prog_def return_prog_def get_prog_def split: sum.splits) blast+
qed

lemma prepare_cases:
  assumes "prepare_submission ext key cfg defs ids u token nonce content s = (r, s')"
  shows "(\<exists>sub digest rc. find_report_receipt sub digest (database s) = Some rc \<and> handle_existing_receipt rc s = (r, s')) \<or>
    (\<exists>claims hash m. stage_submission cfg defs ids u claims hash m s = (r, s')) \<or> (s' = s \<and> (\<exists>e. r = Err e))"
  using assms by (auto simp: prepare_submission_def bind_lift_prog bind_get_prog split: sum.splits option.splits)

lemma begin_keeps:
  assumes "service_ok s" "begin_staging time u (store s) = (Ok (), fs)" "u \<notin> snd ` row_ids (database s)"
  shows "service_ok (s\<lparr> store := fs \<rparr>)" "step_effect {u} s (s\<lparr> store := fs \<rparr>)" "u \<in> staged fs"
proof -
  have fs: "staged fs = insert u (staged (store s))" "stored fs = stored (store s)"
    using begin_staging_dirs [OF assms(2)] by auto
  show "u \<in> staged fs" by (simp add: fs)
  show "service_ok (s\<lparr> store := fs \<rparr>)"
    using assms(1,3) by (auto simp: service_ok_def files_ok_def fs image_iff)
  show "step_effect {u} s (s\<lparr> store := fs \<rparr>)" by (auto simp: step_effect_def fs)
qed

lemma sweep_keeps:
  assumes "service_ok s" "remove_unreferenced us n s = (r, s')"
  shows "service_ok s' \<and> step_effect (set us) s s'"
  using assms
proof (induction us n arbitrary: s rule: remove_unreferenced.induct)
  case (1 n)
  then show ?case by (auto simp: return_prog_def step_effect_refl)
next
  case (2 u us n)
  show ?case
  proof (cases "staging_upload_is_referenced u (database s)")
    case True
    then have run: "remove_unreferenced us n s = (r, s')" using "2.prems"(2) by (simp add: bind_get_prog)
    have "service_ok s' \<and> step_effect (set us) s s'" by (rule "2.IH"(1) [OF True "2.prems"(1) run])
    then show ?thesis by (auto intro: step_effect_mono)
  next
    case False
    then have d: "disposable u s"
      by (auto simp: disposable_def staging_upload_is_referenced_def row_ids_def list_ex_iff)
    obtain q fs where rm: "remove_staging u (store s) = (q, fs)" by fastforce
    note k = remove_step [OF "2.prems"(1) d rm]
    have run: "remove_unreferenced us (n + 1) (s\<lparr> store := fs \<rparr>) = (r, s')"
      using "2.prems"(2) False rm k(4) by (simp add: bind_prog_def get_prog_def on_store_def)
    have rest: "service_ok s' \<and> step_effect (set us) (s\<lparr> store := fs \<rparr>) s'"
      by (rule "2.IH"(2) [OF False k(1) run])
    have "step_effect (set (u # us)) s (s\<lparr> store := fs \<rparr>)" "step_effect (set (u # us)) (s\<lparr> store := fs \<rparr>) s'"
      using k(2) rest by (auto intro: step_effect_mono)
    then show ?thesis using rest step_effect_trans by blast
  qed
qed

text \<open>What the database does besides reports: challenges, leases, rate buckets.\<close>

definition same_reports :: "'num ingest_db \<Rightarrow> 'num ingest_db \<Rightarrow> bool" where
  "same_reports d d' \<longleftrightarrow> tracker d' = tracker d \<and> submissions d' = submissions d \<and> notifications d' = notifications d \<and>
    (distinct (map chl_id (challenges d)) \<longrightarrow> distinct (map chl_id (challenges d')))"

interpretation same_reports: tx_relation same_reports
  by standard (auto simp: same_reports_def)

lemma housekeeping_same_reports:
  "tx_respects same_reports (insert_challenge cid digest hash expires)"
  "tx_respects same_reports (acquire_lease u client per_client global lifetime)"
  "tx_respects same_reports (release_lease u)"
  "tx_respects same_reports (consume_rate_limit t k rc rs cap)"
  "tx_respects same_reports sweep_expired_ingestion_state"
  by (rule tx_respectsI; auto simp: same_reports_def insert_challenge_def acquire_lease_def release_lease_def
      consume_rate_limit_def sweep_expired_ingestion_state_def Let_def result_simps list_ex_iff distinct_map_filter
      split: if_splits prod.splits)+

lemma housekeeping_keeps:
  assumes "service_ok s" "tx_respects same_reports t" "on_database t s = (r, s')"
  shows "service_ok s' \<and> step_effect {} s s'"
proof (cases "t (database s)")
  case (Inl e)
  then show ?thesis using assms by (simp add: on_database_eq step_effect_refl)
next
  case (Inr p)
  obtain a d where p: "p = (a, d)" by (cases p)
  have same: "same_reports (database s) d" using tx_respectsD [OF assms(2)] Inr p by simp
  have s': "s' = s\<lparr> database := d \<rparr>" using assms(3) Inr p by (simp add: on_database_eq)
  have "ingest_ok d"
    using assms(1) same by (simp add: service_ok_def ingest_ok_def same_reports_def storage_of_def)
  moreover have "row_ids d = row_ids (database s)" "\<And>x. storage_of d x = storage_of (database s) x"
    using same by (simp_all add: same_reports_def row_ids_def storage_of_def)
  ultimately show ?thesis using database_step [OF assms(1)] s' by simp
qed

lemma issue_keeps:
  assumes "service_ok s" "issue_challenge ext key cfg fresh digest s = (r, s')"
  shows "service_ok s' \<and> step_effect {} s s'"
proof -
  have "s' = s \<or> (\<exists>hash expiry q. on_database (insert_challenge fresh digest hash expiry) s = (q, s'))"
  proof (cases "is_sha256_hex digest")
    case True
    then show ?thesis
      using assms(2)
      by (auto simp: issue_challenge_def bind_lift_prog bind_get_prog Let_def fail_if_def)
        (auto simp: bind_prog_def return_prog_def split: sum.splits prod.splits)
  next
    case False
    then show ?thesis using assms(2) by (simp add: issue_challenge_def bind_lift_prog fail_if_def)
  qed
  then show ?thesis using housekeeping_keeps [OF assms(1) housekeeping_same_reports(1)] assms(1) step_effect_refl by blast
qed

lemma sys_step_ok:
  assumes "sys_step ext y y'" "sys_ok y"
  shows "sys_ok y'"
proof -
  have ok: "service_ok (srv y)" and fl: "flights_ok (srv y) (flights y)" using assms(2) by (auto simp: sys_ok_def)
  have effect: "sys_ok (y\<lparr> srv := s' \<rparr>)" if "service_ok s' \<and> step_effect {} (srv y) s'" for s'
    using sys_ok_effect [OF assms(2), of s' "{}"] that by simp
  show ?thesis
    using assms(1)
  proof cases
    case (prepare key cfg defs ids u token nonce content prep s' i parts sz)
    then obtain time fs where b: "begin_staging time u (store (srv y)) = (Ok (), fs)" "s' = (srv y)\<lparr> store := fs \<rparr>"
      "prep_upload prep = u"
      using prepare_cases [OF prepare(2)] existing_keeps(3) [OF ok receipt_found_ok] stage_cases by blast
    note k = begin_keeps [OF ok b(1) prepare(3)]
    have "sys_ok (y\<lparr> srv := s' \<rparr>)"
      using sys_ok_effect [OF assms(2) k(1,2)] prepare(4) b(2) by simp
    moreover have "phase_ok u (Receiving parts {} sz) s'"
      using k(3) prepare(3) b(2) by simp
    ultimately show ?thesis
      using prepare(1,4) b(3) by (auto simp: sys_ok_def flights_ok_def uploads_distinct_def in_flight_def) blast+
  next
    case (answer key cfg defs ids u token nonce content r s')
    have "service_ok s' \<and> step_effect {} (srv y) s'"
      using prepare_cases [OF answer(2)] stage_cases existing_keeps(1,2) [OF ok receipt_found_ok] ok answer(3)
        step_effect_refl by metis
    then show ?thesis using effect answer(1) by simp
  next
    case (advance i prep ph cfg rid source_key ph' s')
    have "phase_ok (prep_upload prep) ph (srv y)" using fl advance(2) by (simp add: flights_ok_def)
    then have "step_keeps (prep_upload prep) (srv y) (ph', s')"
      using advance_keeps [OF ok _ refl] advance(3) by metis
    then show ?thesis
      using sys_ok_flight [OF assms(2) advance(2), of s' "Some (prep, ph')"] advance(1) by (simp add: step_keeps_def)
  next
    case (vanish i prep ph)
    then show ?thesis
      using sys_ok_flight [OF assms(2) vanish(2) ok step_effect_refl, of None] by simp
  next
    case (abandon i prep ph r s')
    have "phase_ok (prep_upload prep) ph (srv y)" using fl abandon(2) by (simp add: flights_ok_def)
    then have d: "disposable (prep_upload prep) (srv y)"
      using abandon(3) by (cases ph rule: before_commit.cases) (auto simp: disposable_def)
    obtain q fs where rm: "remove_staging (prep_upload prep) (store (srv y)) = (q, fs)" by fastforce
    then have s': "s' = (srv y)\<lparr> store := fs \<rparr>" using abandon(4) by (simp add: abandon_submission_def on_store_def)
    note k = remove_step [OF ok d rm]
    show ?thesis using sys_ok_flight [OF assms(2) abandon(2) k(1,2), of None] abandon(1) s' by simp
  next
    case (recover r s')
    then have "s' = recover_all (pending_report_storage (database (srv y))) (srv y)"
      by (simp add: recover_pending_storage_def)
    then show ?thesis using effect recover_all_keeps [OF ok pending_rows] recover(1) by simp
  next
    case (sweep_files us n r s')
    then show ?thesis
      using sys_ok_effect [OF assms(2)] sweep_keeps [OF ok sweep_files(2)] by blast
  next
    case (issue key cfg fresh digest r s')
    show ?thesis using effect [OF issue_keeps [OF ok issue(2)]] issue(1) by simp
  next
    case (acquire u client cfg r s')
    show ?thesis
      using effect [OF housekeeping_keeps [OF ok housekeeping_same_reports(2) acquire(2) [unfolded acquire_upload_lease_def]]] acquire(1) by simp
  next
    case (release u r s')
    show ?thesis
      using effect [OF housekeeping_keeps [OF ok housekeeping_same_reports(3) release(2) [unfolded release_upload_lease_def]]] release(1) by simp
  next
    case (limit t k rc rs cap b s')
    show ?thesis using effect [OF housekeeping_keeps [OF ok housekeeping_same_reports(4) limit(2)]] limit(1) by simp
  next
    case (sweep_rows z s')
    show ?thesis using effect [OF housekeeping_keeps [OF ok housekeeping_same_reports(5) sweep_rows(2)]] sweep_rows(1) by simp
  qed
qed

end
