(* ===== verification/Client_Address.thy ===== *)
theory Client_Address
  imports Configuration "HOL-Library.Word"
begin

text \<open>
  The address half of \<open>src/src/web/public/rate_limit.rs\<close>: which address a public request is counted
  under, behind trusted proxies, and the text its key is derived from. The address parser, the header
  decoder and network membership are arguments; HMAC and hexadecimal encoding too.
\<close>

datatype ip_addr = V4 "32 word" | V6 "128 word"

section \<open>Resolving the client\<close>

fun resolve_hops :: "(str \<Rightarrow> 'addr option) \<Rightarrow> ('addr \<Rightarrow> bool) \<Rightarrow> 'addr \<Rightarrow> str list \<Rightarrow> 'addr result" where
  "resolve_hops parse_ip trusted current [] = Ok current"
| "resolve_hops parse_ip trusted current (hop # hops) =
    (if \<not> trusted current then Ok current
     else bind_res (ok_or (parse_ip (trim hop)) (InvalidRequest ''Invalid forwarding header''))
       (\<lambda>next. resolve_hops parse_ip trusted next hops))"

definition resolve_client_address ::
    "('net \<Rightarrow> 'addr \<Rightarrow> bool) \<Rightarrow> (str \<Rightarrow> 'addr option) \<Rightarrow> ('header \<Rightarrow> str option) \<Rightarrow>
      'addr \<Rightarrow> 'header option \<Rightarrow> 'net runtime_configuration \<Rightarrow> 'addr result" where
  "resolve_client_address contains parse_ip to_str peer header configuration =
    (let trusted = (\<lambda>address. list_ex (\<lambda>network. contains network address) (trusted_networks configuration)) in
     if \<not> trusted peer then Ok peer
     else case header of
       None \<Rightarrow> Ok peer
     | Some h \<Rightarrow>
        bind_res (ok_or (to_str h) (InvalidRequest ''Invalid forwarding header'')) (\<lambda>forwarded.
        bind_res (fail_if (byte_len forwarded > 2048) (InvalidRequest ''Invalid forwarding header'')) (\<lambda>_.
        resolve_hops parse_ip trusted peer (rev (split_char 44 forwarded)))))"

lemma resolve_hops_untrusted:
  "\<not> trusted current \<Longrightarrow> resolve_hops parse_ip trusted current hops = Ok current"
  by (cases hops) simp_all

lemma resolve_hops_more:
  assumes "resolve_hops parse_ip trusted current hops = Ok a" "\<not> trusted a"
  shows "resolve_hops parse_ip trusted current (hops @ further) = Ok a"
  using assms
proof (induction hops arbitrary: current)
  case Nil
  then show ?case by (simp add: resolve_hops_untrusted)
next
  case (Cons hop hops)
  then show ?case by (auto simp: result_simps split: if_splits)
qed

text \<open>What the walk over the hops means: the client is the first hop, from the peer on, that is not
  a trusted proxy, or the last one read when all of them are.\<close>

fun hop_chain :: "(str \<Rightarrow> 'addr option) \<Rightarrow> 'addr \<Rightarrow> 'addr list \<Rightarrow> str list \<Rightarrow> bool" where
  "hop_chain parse_ip current [] hops = True"
| "hop_chain parse_ip current (a # as) hops =
    (case hops of [] \<Rightarrow> False | hop # rest \<Rightarrow> parse_ip (trim hop) = Some a \<and> hop_chain parse_ip a as rest)"

lemma resolve_hops_Ok:
  "resolve_hops parse_ip trusted current hops = Ok a \<longleftrightarrow>
    (\<exists>as. hop_chain parse_ip current as hops \<and> a = last (current # as) \<and>
      (\<forall>b \<in> set (butlast (current # as)). trusted b) \<and> (trusted a \<longrightarrow> length as = length hops))"
proof (induction hops arbitrary: current)
  case Nil
  have "hop_chain parse_ip current as [] \<longleftrightarrow> as = []" for as by (cases as) auto
  then show ?case by auto
next
  case (Cons hop hops)
  show ?case (is "?L \<longleftrightarrow> ?R")
  proof (cases "trusted current")
    case False
    have "as = []" if "\<forall>b \<in> set (butlast (current # as)). trusted b" for as
      using that False by (cases as) auto
    then have "?R \<longleftrightarrow> a = current"
      using False by (metis append_butlast_last_id hop_chain.simps(1) last.simps list.distinct(1)
          butlast.simps(2) empty_iff list.set(1))
    then show ?thesis using False by auto
  next
    case True
    have "?L \<longleftrightarrow> (\<exists>n. parse_ip (trim hop) = Some n \<and> resolve_hops parse_ip trusted n hops = Ok a)"
      using True by (auto simp: result_simps)
    also have "\<dots> \<longleftrightarrow> ?R"
    proof
      assume "\<exists>n. parse_ip (trim hop) = Some n \<and> resolve_hops parse_ip trusted n hops = Ok a"
      then obtain n as where "parse_ip (trim hop) = Some n" "hop_chain parse_ip n as hops"
        "a = last (n # as)" "\<forall>b \<in> set (butlast (n # as)). trusted b" "trusted a \<longrightarrow> length as = length hops"
        unfolding Cons.IH by blast
      then show ?R using True by (intro exI [of _ "n # as"] conjI) simp_all
    next
      assume ?R
      then obtain as where as: "hop_chain parse_ip current as (hop # hops)" "a = last (current # as)"
        "\<forall>b \<in> set (butlast (current # as)). trusted b" "trusted a \<longrightarrow> length as = length (hop # hops)"
        by blast
      then obtain n rest where "as = n # rest" using True by (cases as) auto
      with as show "\<exists>n. parse_ip (trim hop) = Some n \<and> resolve_hops parse_ip trusted n hops = Ok a"
        unfolding Cons.IH by (intro exI [of _ n] conjI exI [of _ rest]) simp_all
    qed
    finally show ?thesis .
  qed
qed

text \<open>A client cannot choose the address it is counted under: whatever it puts before the entries
  its proxies wrote, the resolved address stays the same when that address is not a trusted proxy's, as
  long as the longer header is still read.\<close>

theorem forwarded_prefix_ignored:
  assumes resolved: "resolve_client_address contains parse_ip to_str peer (Some h) configuration = Ok a"
    and untrusted: "\<not> list_ex (\<lambda>n. contains n a) (trusted_networks configuration)"
    and texts: "to_str h = Some t" "to_str h' = Some (forged @ 44 # t)"
    and short: "byte_len (forged @ 44 # t) \<le> 2048"
  shows "resolve_client_address contains parse_ip to_str peer (Some h') configuration = Ok a"
proof -
  let ?trusted = "\<lambda>address. list_ex (\<lambda>n. contains n address) (trusted_networks configuration)"
  have pieces: "split_char 44 (forged @ 44 # t) = split_char 44 forged @ split_char 44 t"
    by (induction forged) (auto split: list.splits)
  show ?thesis
  proof (cases "?trusted peer")
    case False
    then show ?thesis using resolved by (simp add: resolve_client_address_def)
  next
    case True
    then have "resolve_hops parse_ip ?trusted peer (rev (split_char 44 t)) = Ok a"
      using resolved texts(1) by (auto simp: resolve_client_address_def Let_def result_simps split: if_splits)
    then have "resolve_hops parse_ip ?trusted peer
        (rev (split_char 44 t) @ rev (split_char 44 forged)) = Ok a"
      by (rule resolve_hops_more) (rule untrusted)
    then show ?thesis
      using True texts(2) short by (simp add: resolve_client_address_def pieces)
  qed
qed

definition example_proxies :: "nat runtime_configuration" where
  "example_proxies = runtime_configuration_default\<lparr> trusted_networks := [10] \<rparr>"

text \<open>Addresses as numbers whose text is one character, and the network of the address 10.\<close>

definition example_parse_ip :: "str \<Rightarrow> nat option" where
  "example_parse_ip s = (case s of [c] \<Rightarrow> Some (c - 48) | _ \<Rightarrow> None)"

theorem forwarded_prefix_ignored_witness:
  "resolve_client_address (=) example_parse_ip Some 10 (Some (lit ''1,8'')) example_proxies = Ok (8 :: nat)"
proof -
  have "lit ''1,8'' = lit ''1'' @ 44 # lit ''8''" by (simp add: lit_def)
  then show ?thesis
    using forwarded_prefix_ignored [where contains = "(=)" and parse_ip = example_parse_ip and to_str = Some
      and peer = 10 and h = "lit ''8''" and t = "lit ''8''" and h' = "lit ''1,8''" and forged = "lit ''1''"
      and a = 8 and configuration = example_proxies]
    by (simp add: resolve_client_address_def example_proxies_def example_parse_ip_def text_eval)
qed

section \<open>The text of the key\<close>

definition octet :: "32 word \<Rightarrow> nat \<Rightarrow> nat" where
  "octet a i = unat (take_bit 8 (drop_bit (8 * (3 - i)) a))"

definition show_ipv4 :: "32 word \<Rightarrow> str" where
  "show_ipv4 a = show_nat (octet a 0) @ lit ''.'' @ show_nat (octet a 1) @ lit ''.'' @
    show_nat (octet a 2) @ lit ''.'' @ show_nat (octet a 3)"

text \<open>\<open>to_ipv4_mapped\<close>: an address under \<open>::ffff:0:0/96\<close>.\<close>

definition to_ipv4_mapped :: "128 word \<Rightarrow> (32 word) option" where
  "to_ipv4_mapped a = (if drop_bit 32 a = 0xffff then Some (ucast a) else None)"

definition hex_digit :: "nat \<Rightarrow> uchar" where
  "hex_digit n = (if n < 10 then 48 + n else 87 + n)"

text \<open>\<open>{:016x}\<close> of a \<open>u64\<close>.\<close>

definition show_hex16 :: "64 word \<Rightarrow> str" where
  "show_hex16 w = map (\<lambda>i. hex_digit (unat (take_bit 4 (drop_bit (4 * (15 - i)) w)))) [0..<16]"

definition normalize_address :: "ip_addr \<Rightarrow> str" where
  "normalize_address address =
    (case address of
      V4 a \<Rightarrow> show_ipv4 a
    | V6 a \<Rightarrow>
        (case to_ipv4_mapped a of
          Some mapped \<Rightarrow> show_ipv4 mapped
        | None \<Rightarrow> lit ''v6-'' @ show_hex16 (ucast (drop_bit 64 a))))"

definition keyed_address ::
    "('key \<Rightarrow> nat list \<Rightarrow> nat list) \<Rightarrow> (nat list \<Rightarrow> str) \<Rightarrow> (str \<Rightarrow> nat list) \<Rightarrow> 'key \<Rightarrow> ip_addr \<Rightarrow> str" where
  "keyed_address hmac hex_encode as_bytes key address =
    hex_encode (hmac key (as_bytes (normalize_address address)))"

text \<open>What a request is counted under: its IPv4 address, also when an IPv6 address carries it, or the
  upper half of its IPv6 address.\<close>

definition client_of :: "ip_addr \<Rightarrow> 32 word + 64 word" where
  "client_of address =
    (case address of
      V4 a \<Rightarrow> Inl a
    | V6 a \<Rightarrow> (case to_ipv4_mapped a of Some m \<Rightarrow> Inl m | None \<Rightarrow> Inr (ucast (drop_bit 64 a))))"

lemma show_nat_eq_iff: "show_nat m = show_nat n \<longleftrightarrow> m = n"
  by (metis digits_value_show_nat)

lemma show_nat_no_dot: "46 \<notin> set (show_nat n)"
  using show_nat_digits [of n] by (auto simp: list_all_iff is_ascii_digit_def)

lemma dotted_eq_iff:
  fixes a b :: str
  assumes "46 \<notin> set a" "46 \<notin> set b"
  shows "a @ 46 # x = b @ 46 # y \<longleftrightarrow> a = b \<and> x = y"
proof
  assume "a @ 46 # x = b @ 46 # y"
  from arg_cong [where f = "split_once 46", OF this] show "a = b \<and> x = y"
    using assms by (simp add: split_once_append)
qed simp

lemma octets_eq:
  assumes "\<And>i. i < 4 \<Longrightarrow> octet a i = octet b i"
  shows "a = b"
proof (rule bit_word_eqI)
  fix n assume "n < LENGTH(32)"
  then have n: "n < 32" by simp
  let ?i = "3 - n div 8"
  have "take_bit 8 (drop_bit (8 * (3 - ?i)) a) = take_bit 8 (drop_bit (8 * (3 - ?i)) b)"
    using assms [of ?i] by (simp add: octet_def word_unat_eq_iff)
  moreover have "3 - ?i = n div 8" using n by simp
  ultimately have "take_bit 8 (drop_bit (8 * (n div 8)) a) = take_bit 8 (drop_bit (8 * (n div 8)) b)" by simp
  then have "bit (take_bit 8 (drop_bit (8 * (n div 8)) a)) (n mod 8) =
      bit (take_bit 8 (drop_bit (8 * (n div 8)) b)) (n mod 8)" by simp
  then show "bit a n = bit b n" by (simp add: bit_take_bit_iff bit_drop_bit_eq)
qed

lemma show_ipv4_eq_iff: "show_ipv4 a = show_ipv4 b \<longleftrightarrow> a = b"
proof
  assume "show_ipv4 a = show_ipv4 b"
  then have *: "octet a 0 = octet b 0" "octet a 1 = octet b 1" "octet a 2 = octet b 2" "octet a 3 = octet b 3"
    by (simp_all add: show_ipv4_def lit_def dotted_eq_iff show_nat_no_dot show_nat_eq_iff)
  have "octet a i = octet b i" if "i < 4" for i
  proof -
    have "i = 0 \<or> i = 1 \<or> i = 2 \<or> i = 3" using that by auto
    then show ?thesis using * by auto
  qed
  then show "a = b" by (rule octets_eq)
qed simp

lemma hex_digit_inj: "m < 16 \<Longrightarrow> n < 16 \<Longrightarrow> hex_digit m = hex_digit n \<longleftrightarrow> m = n"
  by (auto simp: hex_digit_def split: if_splits)

lemma show_hex16_eq_iff: "show_hex16 a = show_hex16 b \<longleftrightarrow> a = b"
proof
  assume eq: "show_hex16 a = show_hex16 b"
  have small: "unat (take_bit 4 w) < 16" for w :: "64 word"
    using take_bit_nat_less_exp [of 4 "unat w"] by (simp add: unsigned_take_bit_eq)
  have nibble: "take_bit 4 (drop_bit (4 * (15 - i)) a) = take_bit 4 (drop_bit (4 * (15 - i)) b)" if "i < 16" for i
  proof -
    have "show_hex16 a ! i = show_hex16 b ! i" using eq by simp
    then have "hex_digit (unat (take_bit 4 (drop_bit (4 * (15 - i)) a))) =
        hex_digit (unat (take_bit 4 (drop_bit (4 * (15 - i)) b)))"
      using that by (simp add: show_hex16_def)
    then show ?thesis by (simp add: hex_digit_inj small word_unat_eq_iff)
  qed
  show "a = b"
  proof (rule bit_word_eqI)
    fix n assume "n < LENGTH(64)"
    then have n: "15 - (15 - n div 4) = n div 4" "15 - n div 4 < 16" by simp_all
    have "take_bit 4 (drop_bit (4 * (n div 4)) a) = take_bit 4 (drop_bit (4 * (n div 4)) b)"
      using nibble [OF n(2)] unfolding n(1) .
    then have "bit (take_bit 4 (drop_bit (4 * (n div 4)) a)) (n mod 4) =
        bit (take_bit 4 (drop_bit (4 * (n div 4)) b)) (n mod 4)" by simp
    then show "bit a n = bit b n" by (simp add: bit_take_bit_iff bit_drop_bit_eq)
  qed
qed simp

lemma show_ipv4_not_v6: "show_ipv4 a \<noteq> lit ''v6-'' @ s"
proof
  assume "show_ipv4 a = lit ''v6-'' @ s"
  then have "hd (show_ipv4 a) = 118" by (simp add: lit_def)
  moreover have "hd (show_ipv4 a) = hd (show_nat (octet a 0))" by (simp add: show_ipv4_def)
  moreover have "is_ascii_digit (hd (show_nat (octet a 0)))"
    using show_nat_digits [of "octet a 0"] by (cases "show_nat (octet a 0)") auto
  ultimately show False by (simp add: is_ascii_digit_def)
qed

text \<open>Two requests share the text their rate limits are keyed by exactly when they come from the same
  client: the same IPv4 address, written as such or mapped into IPv6, or the same upper half of an IPv6
  address. No IPv4 text is an IPv6 text.\<close>

theorem normalize_address_eq_iff: "normalize_address a = normalize_address b \<longleftrightarrow> client_of a = client_of b"
  using show_ipv4_not_v6 show_ipv4_not_v6 [symmetric]
  by (auto simp: normalize_address_def client_of_def show_ipv4_eq_iff show_hex16_eq_iff
      split: ip_addr.splits option.splits)

end
