(* ===== verification/Rate_Limit.thy ===== *)
theory Rate_Limit
  imports Client_Address Ingest_Db
begin

text \<open>
  The limits on public requests: the middleware of \<open>src/src/web/public/rate_limit.rs\<close> over the token
  buckets of the database. Every bucket is taken from in a transaction of its own, so a request that one
  limit refuses has paid the limits before it. The wall-clock times of the three transactions are
  arguments.
\<close>

section \<open>The middleware\<close>

definition consume :: "rat \<Rightarrow> str \<Rightarrow> nat \<Rightarrow> nat \<Rightarrow> nat \<Rightarrow> ('num ingest_db, unit) prog" where
  "consume t key refill_count refill_seconds capacity =
    bind_prog (run_tx (consume_rate_limit t key (of_nat refill_count) (of_nat refill_seconds) (of_nat capacity)))
      (\<lambda>accepted. lift_prog (fail_if (\<not> accepted) RateLimited))"

definition enforce_limits ::
    "rat \<times> rat \<times> rat \<Rightarrow> ingestion_limits \<Rightarrow> str \<Rightarrow> str \<Rightarrow> ('num ingest_db, unit) prog" where
  "enforce_limits clocks l client_key path =
    (case clocks of (t1, t2, t3) \<Rightarrow>
     bind_prog (consume t1 (lit ''public:minute:'' @ client_key)
       (public_requests_per_minute l) 60 (public_request_burst l)) (\<lambda>_.
     let (category, per_minute, burst, per_hour) =
       (if ends_with (lit ''/challenges'') path
        then (lit ''challenge'', challenges_per_minute l, challenge_burst l, challenges_per_hour l)
        else (lit ''submission'', submissions_per_minute l, submission_burst l, submissions_per_hour l)) in
     bind_prog (consume t2 (category @ lit '':minute:'' @ client_key) per_minute 60 burst) (\<lambda>_.
     consume t3 (category @ lit '':hour:'' @ client_key) per_hour 3600 per_hour)))"

text \<open>The result is the key the handlers find in the request, or none on the health pages.\<close>

definition limit_public_request ::
    "('net \<Rightarrow> ip_addr \<Rightarrow> bool) \<Rightarrow> (str \<Rightarrow> ip_addr option) \<Rightarrow> ('header \<Rightarrow> str option) \<Rightarrow> (ip_addr \<Rightarrow> str) \<Rightarrow>
      rat \<times> rat \<times> rat \<Rightarrow> 'net runtime_configuration result \<Rightarrow> ip_addr \<Rightarrow> 'header option \<Rightarrow> str \<Rightarrow>
      ('num ingest_db, str option) prog" where
  "limit_public_request contains parse_ip to_str key_of clocks configuration peer header path =
    (if starts_with (lit ''/health/'') path then return_prog None
     else
       bind_prog (lift_prog configuration) (\<lambda>cfg.
       bind_prog (lift_prog (resolve_client_address contains parse_ip to_str peer header cfg)) (\<lambda>address.
       let client_key = key_of address in
       bind_prog (get_prog (source_has_active_rate_limit client_key)) (\<lambda>blocked.
       bind_prog (lift_prog (fail_if blocked RateLimited)) (\<lambda>_.
       bind_prog (enforce_limits clocks (limits cfg) client_key path) (\<lambda>_.
       return_prog (Some client_key)))))))"

section \<open>One bucket\<close>

text \<open>What a bucket holds at a time, a bucket that is not there being full.\<close>

definition level :: "rat \<Rightarrow> rat \<Rightarrow> rat \<Rightarrow> bucket_row option \<Rightarrow> rat" where
  "level rate capacity t stored =
    (case stored of None \<Rightarrow> capacity | Some b \<Rightarrow> min capacity (bkt_tokens b + max 0 (t - bkt_updated b) * rate))"

definition bucket_ok :: "rat \<Rightarrow> bucket_row option \<Rightarrow> bool" where
  "bucket_ok t stored \<longleftrightarrow>
    (case stored of None \<Rightarrow> True
     | Some b \<Rightarrow> 0 \<le> bkt_tokens b \<and> bkt_updated b \<le> t \<and> bkt_expires b = bkt_updated b + 7200)"

lemma level_nonneg: "0 \<le> capacity \<Longrightarrow> 0 \<le> rate \<Longrightarrow> bucket_ok t stored \<Longrightarrow> 0 \<le> level rate capacity t stored"
  by (auto simp: level_def bucket_ok_def split: option.splits intro!: add_nonneg_nonneg mult_nonneg_nonneg)

lemma take_token_level:
  assumes "0 \<le> capacity" "0 \<le> rc / rs" "bucket_ok t stored"
    and "take_token t rc rs capacity stored = (accepted, b)"
  shows "accepted \<longleftrightarrow> 1 \<le> level (rc / rs) capacity t stored"
    and "(if accepted then 1 else 0) + level (rc / rs) capacity t (Some b) \<le> level (rc / rs) capacity t stored"
    and "bucket_ok t (Some b)"
proof -
  have avail: "available_tokens t rc rs capacity (case stored of None \<Rightarrow> new_bucket t capacity | Some b \<Rightarrow> b) =
      level (rc / rs) capacity t stored"
    by (auto simp: available_tokens_def level_def new_bucket_def split: option.split)
  note nonneg = level_nonneg [OF assms(1,2,3)]
  have le: "level (rc / rs) capacity t stored \<le> capacity" using assms(1) by (auto simp: level_def split: option.split)
  show acc: "accepted \<longleftrightarrow> 1 \<le> level (rc / rs) capacity t stored"
    using assms(4) by (auto simp: take_token_def Let_def avail)
  have b: "b = \<lparr> bkt_tokens = max 0 (level (rc / rs) capacity t stored - 1), bkt_updated = t,
      bkt_expires = t + 7200 \<rparr>"
    using assms(4) by (auto simp: take_token_def Let_def avail)
  show "(if accepted then 1 else 0) + level (rc / rs) capacity t (Some b) \<le> level (rc / rs) capacity t stored"
    using acc nonneg le by (auto simp: b level_def [of _ _ _ "Some _"])
  show "bucket_ok t (Some b)" by (simp add: b bucket_ok_def)
qed

lemma level_grows:
  assumes "0 \<le> rate" "0 \<le> capacity" "bucket_ok t stored" "t \<le> t'"
  shows "level rate capacity t' stored \<le> level rate capacity t stored + rate * (t' - t)" "bucket_ok t' stored"
proof -
  show "level rate capacity t' stored \<le> level rate capacity t stored + rate * (t' - t)"
  proof (cases stored)
    case None
    then show ?thesis using assms by (simp add: level_def)
  next
    case (Some b)
    then have "bkt_updated b \<le> t" using assms(3) by (simp add: bucket_ok_def)
    then have "(t' - bkt_updated b) * rate = (t - bkt_updated b) * rate + rate * (t' - t)"
      by (simp add: algebra_simps)
    moreover have "0 \<le> rate * (t' - t)" using assms by simp
    ultimately show ?thesis
      using \<open>bkt_updated b \<le> t\<close> assms(4) by (simp add: Some level_def max_def min_def)
  qed
  show "bucket_ok t' stored" using assms(3,4) by (auto simp: bucket_ok_def split: option.splits)
qed

section \<open>A run of requests and sweeps\<close>

datatype limit_event =
    Take rat str rat rat rat
  | Sweep int

primrec event_time :: "limit_event \<Rightarrow> rat" where
  "event_time (Take t key refill_count refill_seconds capacity) = t"
| "event_time (Sweep c) = of_int c"

fun run_limits :: "str \<Rightarrow> limit_event list \<Rightarrow> 'num ingest_db \<Rightarrow> nat \<times> 'num ingest_db" where
  "run_limits key [] s = (0, s)"
| "run_limits key (Take t k rc rs capacity # es) s =
    (case consume_rate_limit t k rc rs capacity s of
      Inl e \<Rightarrow> (0, s)
    | Inr (accepted, s') \<Rightarrow>
        let (n, s'') = run_limits key es s' in ((if accepted \<and> k = key then 1 else 0) + n, s''))"
| "run_limits key (Sweep c # es) s =
    (case sweep_expired_ingestion_state (s\<lparr> tracker := (tracker s)\<lparr> clock := c \<rparr> \<rparr>) of
      Inl e \<Rightarrow> (0, s)
    | Inr (_, s') \<Rightarrow> run_limits key es s')"

definition uses_limit :: "str \<Rightarrow> rat \<Rightarrow> rat \<Rightarrow> rat \<Rightarrow> limit_event \<Rightarrow> bool" where
  "uses_limit key rc rs capacity e \<longleftrightarrow>
    (case e of Take t k rc' rs' capacity' \<Rightarrow> k = key \<longrightarrow> rc' = rc \<and> rs' = rs \<and> capacity' = capacity | Sweep c \<Rightarrow> True)"

lemma map_of_filter_distinct:
  "distinct (map fst xs) \<Longrightarrow>
    map_of (filter (\<lambda>(_, b). P b) xs) k = (case map_of xs k of None \<Rightarrow> None | Some b \<Rightarrow> if P b then Some b else None)"
  by (induction xs) (auto simp: map_of_eq_None_iff split: option.splits dest: map_of_SomeD)

lemma distinct_fst_filter: "distinct (map fst xs) \<Longrightarrow> distinct (map fst (filter P xs))"
  by (simp add: distinct_map_filter)

text \<open>What the run keeps of one bucket: it was written at a time that has passed and its row is the only
  one of its key.\<close>

definition limits_ok :: "str \<Rightarrow> rat \<Rightarrow> 'num ingest_db \<Rightarrow> bool" where
  "limits_ok key t s \<longleftrightarrow> distinct (map fst (buckets s)) \<and> bucket_ok t (map_of (buckets s) key)"

lemma consume_total: "\<exists>accepted s'. consume_rate_limit t k rc rs capacity s = Ok (accepted, s')"
  by (simp add: consume_rate_limit_def split: prod.split)

lemma take_step:
  assumes "consume_rate_limit t k rc rs capacity s = Ok (accepted, s')"
    and "limits_ok key t s" "0 \<le> capacity" "0 \<le> rc / rs"
  shows "limits_ok key t s'"
    and "k \<noteq> key \<Longrightarrow> map_of (buckets s') key = map_of (buckets s) key"
    and "k = key \<Longrightarrow> (if accepted then 1 else 0) + level (rc / rs) capacity t (map_of (buckets s') key)
      \<le> level (rc / rs) capacity t (map_of (buckets s) key)"
proof -
  obtain b where b: "take_token t rc rs capacity (map_of (buckets s) k) = (accepted, b)"
    "buckets s' = AList.update k b (buckets s)"
    using assms(1) by (auto simp: consume_rate_limit_def split: prod.splits)
  have ok: "bucket_ok t (map_of (buckets s) key)" "distinct (map fst (buckets s))"
    using assms(2) by (auto simp: limits_ok_def)
  show "k \<noteq> key \<Longrightarrow> map_of (buckets s') key = map_of (buckets s) key"
    by (simp add: b(2) update_conv')
  show "k = key \<Longrightarrow> (if accepted then 1 else 0) + level (rc / rs) capacity t (map_of (buckets s') key)
      \<le> level (rc / rs) capacity t (map_of (buckets s) key)"
    using take_token_level(2) [OF assms(3,4) _ b(1)] ok(1) by (simp add: b(2) update_conv')
  show "limits_ok key t s'"
    using ok take_token_level(3) [OF assms(3,4) _ b(1)]
    by (cases "k = key") (auto simp: limits_ok_def b(2) update_conv' distinct_update)
qed

text \<open>A sweep drops a bucket two hours after its last use, when it is full again.\<close>

lemma sweep_step:
  assumes "sweep_expired_ingestion_state (s\<lparr> tracker := (tracker s)\<lparr> clock := c \<rparr> \<rparr>) = Ok (r, s')"
    and "limits_ok key (of_int c) s" "capacity \<le> 7200 * rate" "0 \<le> rate" "0 \<le> capacity"
  shows "limits_ok key (of_int c) s'"
    and "level rate capacity (of_int c) (map_of (buckets s') key) \<le> level rate capacity (of_int c) (map_of (buckets s) key)"
proof -
  have d: "distinct (map fst (buckets s))" and ok: "bucket_ok (of_int c) (map_of (buckets s) key)"
    using assms(2) by (auto simp: limits_ok_def)
  have s': "buckets s' = filter (\<lambda>(_, b). \<not> bkt_expires b \<le> of_int c) (buckets s)"
    using assms(1) by (auto simp: sweep_expired_ingestion_state_def)
  note m = map_of_filter_distinct [OF d, of "\<lambda>b. \<not> bkt_expires b \<le> of_int c" key, folded s']
  show "limits_ok key (of_int c) s'"
  proof -
    have "bucket_ok (of_int c) (map_of (buckets s') key)"
      unfolding m using ok by (cases "map_of (buckets s) key") (simp_all add: bucket_ok_def)
    then show ?thesis using distinct_fst_filter [OF d] by (simp add: limits_ok_def s')
  qed
  show "level rate capacity (of_int c) (map_of (buckets s') key) \<le> level rate capacity (of_int c) (map_of (buckets s) key)"
  proof (cases "map_of (buckets s) key")
    case None
    then show ?thesis by (simp add: m)
  next
    case (Some b)
    show ?thesis
    proof (cases "bkt_expires b \<le> of_int c")
      case True
      then have "7200 \<le> of_int c - bkt_updated b" "0 \<le> bkt_tokens b"
        using ok by (simp_all add: Some bucket_ok_def)
      then have "7200 * rate \<le> max 0 (of_int c - bkt_updated b) * rate"
        using assms(4) by (intro mult_right_mono) simp_all
      then have "capacity \<le> bkt_tokens b + max 0 (of_int c - bkt_updated b) * rate"
        using assms(3) \<open>0 \<le> bkt_tokens b\<close> by linarith
      then show ?thesis using True by (simp add: m Some level_def)
    qed (simp add: m Some)
  qed
qed

lemma run_limits_bound:
  assumes "sorted_wrt (\<le>) (t # map event_time es)" "limits_ok key t s"
    and "\<forall>e \<in> set es. uses_limit key rc rs capacity e"
    and "0 \<le> capacity" "0 \<le> rc / rs" "capacity \<le> 7200 * (rc / rs)"
  shows "of_nat (fst (run_limits key es s)) \<le>
    level (rc / rs) capacity t (map_of (buckets s) key) + (rc / rs) * (last (t # map event_time es) - t)"
  using assms(1-3)
proof (induction es arbitrary: t s)
  case Nil
  have "0 \<le> level (rc / rs) capacity t (map_of (buckets s) key)"
    using Nil.prems(2) by (intro level_nonneg [OF assms(4,5)]) (simp add: limits_ok_def)
  then show ?case by simp
next
  case (Cons e es)
  let ?rate = "rc / rs" and ?u = "event_time e"
  have le: "t \<le> ?u" and sorted: "sorted_wrt (\<le>) (?u # map event_time es)"
    and uses: "uses_limit key rc rs capacity e" "\<forall>e \<in> set es. uses_limit key rc rs capacity e"
    using Cons.prems by auto
  have ok: "limits_ok key ?u s"
    using Cons.prems(2) level_grows(2) [OF assms(5,4) _ le] by (simp add: limits_ok_def)
  have grow: "level ?rate capacity ?u (map_of (buckets s) key) \<le>
      level ?rate capacity t (map_of (buckets s) key) + ?rate * (?u - t)"
    using Cons.prems(2) level_grows(1) [OF assms(5,4) _ le] by (simp add: limits_ok_def)
  have end_eq: "last (t # map event_time (e # es)) = last (?u # map event_time es)" by simp
  have step: "of_nat (fst (run_limits key (e # es) s)) \<le>
      level ?rate capacity ?u (map_of (buckets s) key) + ?rate * (last (?u # map event_time es) - ?u)"
  proof (cases e)
    case (Sweep c)
    obtain r s' where run: "sweep_expired_ingestion_state (s\<lparr> tracker := (tracker s)\<lparr> clock := c \<rparr> \<rparr>) = Ok (r, s')"
      by (simp add: sweep_expired_ingestion_state_def)
    have u: "?u = of_int c" by (simp add: Sweep)
    note sw = sweep_step [OF run ok [unfolded u] assms(6,5,4)]
    have "of_nat (fst (run_limits key es s')) \<le>
        level ?rate capacity ?u (map_of (buckets s') key) + ?rate * (last (?u # map event_time es) - ?u)"
      by (rule Cons.IH [OF sorted _ uses(2)]) (simp add: sw(1) u)
    also have "\<dots> \<le> level ?rate capacity ?u (map_of (buckets s) key) + ?rate * (last (?u # map event_time es) - ?u)"
      using sw(2) unfolding u by (rule add_right_mono)
    finally show ?thesis using run by (simp add: Sweep)
  next
    case (Take t' k rc' rs' capacity')
    obtain accepted s' where run: "consume_rate_limit t' k rc' rs' capacity' s = Ok (accepted, s')"
      using consume_total by blast
    obtain n s'' where rest: "run_limits key es s' = (n, s'')" by fastforce
    show ?thesis
    proof (cases "k = key")
      case True
      then have same: "rc' = rc" "rs' = rs" "capacity' = capacity" using uses(1) by (auto simp: Take uses_limit_def)
      have u: "?u = t'" by (simp add: Take)
      note tk = take_step [OF run [unfolded same] ok [unfolded u] assms(4,5)]
      have "of_nat n \<le> level ?rate capacity ?u (map_of (buckets s') key) + ?rate * (last (?u # map event_time es) - ?u)"
        using Cons.IH [OF sorted _ uses(2), of s'] tk(1) rest by (simp add: u)
      moreover have "fst (run_limits key (e # es) s) = (if accepted then 1 else 0) + n"
        using run rest True by (simp add: Take)
      ultimately show ?thesis using tk(3) [OF True] by (simp add: u split: if_splits)
    next
      case False
      have "limits_ok key ?u s' \<and> map_of (buckets s') key = map_of (buckets s) key"
        using run ok False
        by (auto simp: Take consume_rate_limit_def limits_ok_def update_conv' distinct_update split: prod.splits)
      then show ?thesis
        using Cons.IH [OF sorted _ uses(2), of s'] run rest False by (simp add: Take)
    qed
  qed
  show ?case using step grow unfolding end_eq by (simp add: algebra_simps)
qed


definition empty_ingest_db :: "nat ingest_db" where
  "empty_ingest_db =
    \<lparr> tracker = \<lparr> reports = [], issues = [], aliases = [], duplicate_jobs = [], source_limits = [],
        events = [], clock = 0 \<rparr>,
      submissions = [], challenges = [], upload_leases = [], buckets = [], notifications = [] \<rparr>"


text \<open>A client that waits for one refill period is served: after any request under a key, whatever
  came of it, the next request under that key is accepted when a period has passed, the bucket holding at
  least one token when full.\<close>

theorem patient_client_accepted:
  assumes "consume_rate_limit t key rc rs capacity s = Ok (first, s')"
    and "0 < rc" "0 < rs" "1 \<le> capacity" "t + rs / rc \<le> t'"
  shows "\<exists>s''. consume_rate_limit t' key rc rs capacity s' = Ok (True, s'')"
proof -
  obtain b where b: "take_token t rc rs capacity (map_of (buckets s) key) = (first, b)"
    "buckets s' = AList.update key b (buckets s)"
    using assms(1) by (auto simp: consume_rate_limit_def split: prod.splits)
  have upd: "bkt_updated b = t" "0 \<le> bkt_tokens b" using b(1) by (auto simp: take_token_def Let_def)
  have "rs / rc * (rc / rs) \<le> (t' - t) * (rc / rs)"
    using assms(2,3,5) by (intro mult_right_mono) simp_all
  then have "1 \<le> (t' - t) * rc / rs" using assms(2,3) by simp
  moreover have "t \<le> t'" using assms(5) divide_pos_pos [OF assms(3,2)] by linarith
  ultimately have "1 \<le> available_tokens t' rc rs capacity b"
    using upd assms(4) by (simp add: available_tokens_def)
  then show ?thesis
    by (simp add: consume_rate_limit_def b(2) update_conv' take_token_def Let_def)
qed

theorem patient_client_accepted_witness:
  "\<exists>s''. consume_rate_limit 12 [107] 5 60 2 (snd (projr (consume_rate_limit 0 [107] 5 60 2 empty_ingest_db))) = Ok (True, s'')"
proof -
  have "consume_rate_limit 0 [107] 5 60 2 empty_ingest_db =
      Ok (True, snd (projr (consume_rate_limit 0 [107] 5 60 2 empty_ingest_db)))"
    by (simp add: consume_rate_limit_def empty_ingest_db_def take_token_def new_bucket_def available_tokens_def)
  from patient_client_accepted [OF this, of 12] show ?thesis by simp
qed

text \<open>A refused request costs what had refilled: after a refusal, a client whose requests follow one
  another by less than a refill period is never accepted again, however long it goes on.\<close>

theorem impatient_client_starves:
  assumes "consume_rate_limit t key rc rs capacity s = Ok (False, s')" "0 < rc" "0 < rs"
    and "successively (\<lambda>a b. a \<le> b \<and> b - a < rs / rc) (t # ts)"
  shows "fst (run_limits key (map (\<lambda>u. Take u key rc rs capacity) ts) s') = 0"
  using assms(1,4)
proof (induction ts arbitrary: t s s')
  case (Cons u ts)
  obtain b where b: "take_token t rc rs capacity (map_of (buckets s) key) = (False, b)"
    "buckets s' = AList.update key b (buckets s)"
    using Cons.prems(1) by (auto simp: consume_rate_limit_def split: prod.splits)
  have upd: "bkt_updated b = t" "bkt_tokens b = 0" using b(1) by (auto simp: take_token_def Let_def)
  have "(u - t) * (rc / rs) < rs / rc * (rc / rs)"
    using Cons.prems(2) assms(2,3) by (intro mult_strict_right_mono) simp_all
  then have "\<not> 1 \<le> available_tokens u rc rs capacity b"
    using assms(2,3) Cons.prems(2) by (simp add: available_tokens_def upd)
  then obtain s'' where step: "consume_rate_limit u key rc rs capacity s' = Ok (False, s'')"
    by (simp add: consume_rate_limit_def b(2) update_conv' take_token_def Let_def)
  have "fst (run_limits key (map (\<lambda>u. Take u key rc rs capacity) ts) s'') = 0"
    using Cons.IH [OF step] Cons.prems(2) by (cases ts) auto
  then show ?case using step by (simp add: case_prod_beta Let_def)
qed simp

definition drained_ingest_db :: "nat ingest_db" where
  "drained_ingest_db = empty_ingest_db\<lparr> buckets := [([107], \<lparr> bkt_tokens = 0, bkt_updated = 0, bkt_expires = 7200 \<rparr>)] \<rparr>"

theorem impatient_client_starves_witness:
  "fst (run_limits [107] [Take 12 [107] 5 60 2, Take 22 [107] 5 60 2, Take 33 [107] 5 60 2]
    (snd (projr (consume_rate_limit 1 [107] 5 60 2 drained_ingest_db)))) = 0"
proof -
  have "consume_rate_limit 1 [107] 5 60 2 drained_ingest_db =
      Ok (False, snd (projr (consume_rate_limit 1 [107] 5 60 2 drained_ingest_db)))"
    by (simp add: consume_rate_limit_def drained_ingest_db_def empty_ingest_db_def take_token_def available_tokens_def)
  from impatient_client_starves [OF this, of "[12, 22, 33]"] show ?thesis by simp
qed

end
