(* ===== verification/Source_Block.thy ===== *)
theory Source_Block
  imports Rate_Limit Report_Ops
begin

text \<open>
  Where the administration and the public side meet: a source that a reviewer blocks in
  \<open>src/src/infrastructure/database/admin/reports.rs\<close> is refused by the middleware of
  \<open>src/src/web/public/rate_limit.rs\<close>.
\<close>

definition same_limits :: "db \<Rightarrow> db \<Rightarrow> bool" where
  "same_limits d d' \<longleftrightarrow> source_limits d' = source_limits d"

interpretation same_limits: tx_relation same_limits
  by standard (auto simp: same_limits_def)

lemma insert_audit_event_limits: "tx_respects same_limits (insert_audit_event actor act eid details)"
  by (rule tx_respectsI) (auto simp: same_limits_def insert_audit_event_def)

lemma reject_triage_limits: "tx_respects same_limits (reject_triage_of_source key actor)"
proof -
  have "tx_respects same_limits (update_reports P f)" for P f
    by (rule tx_respectsI) (auto simp: same_limits_def update_reports_def Let_def result_simps)
  then show ?thesis
    unfolding reject_triage_of_source_def block_event_def
    by (intro same_limits.bind_respects same_limits.get_respects same_limits.return_respects same_limits.for_respects
        insert_audit_event_limits)
qed

lemma block_limits:
  assumes "block_report_source rid actor remove_triage db = Ok (n, db')"
  shows "\<exists>r key. r \<in> set (reports db) \<and> rpt_id r = rid \<and> rpt_source r = Some key \<and>
    source_limits db' = block_limit key rid actor (source_limits db)"
proof -
  obtain r key d1 where r: "find (\<lambda>r. rpt_id r = rid \<and> rpt_storage r = storage_state.Ready \<and> rpt_source r \<noteq> None) (reports db) = Some r"
    "rpt_source r = Some key" and rest: "(if remove_triage then reject_triage_of_source key actor else return_tx 0)
      (db\<lparr> source_limits := block_limit key rid actor (source_limits db) \<rparr>) = Ok (n, d1)"
    "source_limits db' = source_limits d1"
    using assms
    by (auto simp: block_report_source_def tx_simps set_source_limits_def insert_audit_event_def result_simps
        ok_or_def split: option.splits)
  have "same_limits (db\<lparr> source_limits := block_limit key rid actor (source_limits db) \<rparr>) d1"
    using rest(1) tx_respectsD [OF reject_triage_limits] same_limits.return_respects
    by (cases remove_triage) (auto simp: same_limits_def return_tx_def)
  then show ?thesis
    using r rest(2) by (auto simp: same_limits_def dest!: find_Some_in)
qed

text \<open>Blocking the source of a report bites: once a reviewer has blocked it, every public request of a
  client with the same key is refused from the next one on, at any time, without a change to the rate
  buckets, until the block is lifted.\<close>

theorem blocked_source_refused:
  assumes "block_report_source rid actor remove_triage (tracker s) = Ok (n, t)"
    and "\<And>r. r \<in> set (reports (tracker s)) \<Longrightarrow> rpt_id r = rid \<Longrightarrow> rpt_source r = Some (key_of address)"
    and "\<not> starts_with (lit ''/health/'') path"
    and "resolve_client_address contains parse_ip to_str peer header cfg = Ok address"
    and "source_limits later = source_limits t"
  shows "limit_public_request contains parse_ip to_str key_of clocks (Ok cfg) peer header path (s\<lparr> tracker := later \<rparr>) =
    (Err RateLimited, s\<lparr> tracker := later \<rparr>)"
proof -
  obtain r key where r: "r \<in> set (reports (tracker s))" "rpt_id r = rid" "rpt_source r = Some key"
    and l: "source_limits t = block_limit key rid actor (source_limits (tracker s))"
    using block_limits [OF assms(1)] by blast
  have key: "key = key_of address" using r assms(2) [OF r(1,2)] by simp
  define row where "row = \<lparr> lim_client_key = key, lim_source_report = Some rid, lim_imposed_by = actor,
    lim_expires = None, lim_lifted_by = None \<rparr>"
  have "row \<in> set (block_limit key rid actor ls)" for ls
    by (auto simp: block_limit_def row_def Let_def list_ex_iff image_iff)
  then have "row \<in> set (source_limits later)" using l assms(5) by simp
  then have "source_has_active_rate_limit (key_of address) (s\<lparr> tracker := later \<rparr>)"
    by (auto simp: source_has_active_rate_limit_def key list_ex_iff row_def intro!: bexI [of _ row])
  then show ?thesis
    using assms(3,4) by (simp add: limit_public_request_def bind_lift_prog bind_get_prog fail_if_def Let_def)
qed

definition blocking_db :: "nat ingest_db" where
  "blocking_db = \<lparr> tracker = sample_db, submissions = [], challenges = [], upload_leases = [], buckets = [],
    notifications = [] \<rparr>"

lemma sample_blocked: "\<exists>n t. block_report_source 1 7 True sample_db = Ok (n, t)"
  by (simp add: block_report_source_def reject_triage_of_source_def block_rejects_def block_event_def
      set_source_limits_def db_eval)

theorem blocked_source_refused_witness:
  "\<exists>n t. block_report_source 1 7 True (tracker blocking_db) = Ok (n, t) \<and>
    limit_public_request (\<lambda>_ _. False) (\<lambda>_. None) (\<lambda>h :: str. Some h) (\<lambda>_. lit ''source'') (0, 0, 0)
      (Ok (runtime_configuration_default :: unit runtime_configuration)) (V4 1) None (lit ''/api/reports'')
      (blocking_db\<lparr> tracker := t\<lparr> clock := 99 \<rparr> \<rparr>) =
      (Err RateLimited, blocking_db\<lparr> tracker := t\<lparr> clock := 99 \<rparr> \<rparr>)"
proof -
  obtain n t where b: "block_report_source 1 7 True (tracker blocking_db) = Ok (n, t)"
    using sample_blocked by (auto simp: blocking_db_def)
  have source: "rpt_source r = Some (lit ''source'')" if "r \<in> set (reports (tracker blocking_db))" for r
    using that by (auto simp: blocking_db_def sample_db_def sample_report_def)
  have path: "\<not> starts_with (lit ''/health/'') (lit ''/api/reports'')" by (simp add: text_eval)
  have addr: "resolve_client_address (\<lambda>_ _. False) (\<lambda>_. None) (\<lambda>h :: str. Some h) (V4 1) None
      (runtime_configuration_default :: unit runtime_configuration) = Ok (V4 1)"
    by (simp add: resolve_client_address_def runtime_configuration_default_def)
  show ?thesis
    using b blocked_source_refused [OF b source path addr, of "t\<lparr> clock := 99 \<rparr>" "(0, 0, 0)"] by auto
qed

end
