(* ===== verification/Stack_Index.thy ===== *)
theory Stack_Index
  imports Ingestion_Laws Stack_Match
begin

text \<open>
  The index of stack signatures, \<open>src/src/infrastructure/database/admin/stack_signatures.rs\<close>, on the
  database of the ingestion: which traces wait, the transaction that signs and matches one of them, and the
  loop that drains the backlog. The text of a JSON number is \<open>serde_json\<close>'s and PostgreSQL's and an argument;
  field keys are compared by their code points.
\<close>

section \<open>What waits\<close>

text \<open>The text PostgreSQL reads a stored value as (\<open>#>> '{}'\<close>).\<close>

primrec json_text :: "('num \<Rightarrow> str) \<Rightarrow> 'num json \<Rightarrow> str" where
  "json_text show_num (JsonString t) = t"
| "json_text show_num (JsonNumber n) = show_num n"
| "json_text show_num (JsonBool b) = (if b then lit ''true'' else lit ''false'')"

text \<open>A row of the view \<open>report_stack_traces\<close>.\<close>

definition stack_row :: "('num \<Rightarrow> str) \<Rightarrow> (str \<rightharpoonup> field_definition) \<Rightarrow> 'num stored_field \<Rightarrow> (str \<times> str) option" where
  "stack_row show_num definitions f =
    (if stored_kind f = lit ''stack_trace'' \<or> stored_kind f = lit ''multiline'' \<and>
       (stored_key f = lit ''stack'' \<or> (case definitions (stored_key f) of
          Some d \<Rightarrow> definition_kind d = field_kind.StackTrace | None \<Rightarrow> False))
     then Some (stored_key f, json_text show_num (stored_value f)) else None)"

definition report_stack_trace :: "('num \<Rightarrow> str) \<Rightarrow> (str \<rightharpoonup> field_definition) \<Rightarrow> 'num submission_row \<Rightarrow> str option" where
  "report_stack_trace show_num definitions r =
    map_option snd (min_by_key stack_rank (List.map_filter (stack_row show_num definitions) (sub_fields r)))"

definition stored_text :: "('num \<Rightarrow> str) \<Rightarrow> str \<Rightarrow> 'num submission_row \<Rightarrow> str option" where
  "stored_text show_num key r =
    map_option (\<lambda>f. json_text show_num (stored_value f)) (find (\<lambda>f. stored_key f = key) (sub_fields r))"

record pending_trace =
  pnd_report :: report_id
  pnd_kind :: report_kind
  pnd_text :: str
  pnd_signal :: "str option"
  pnd_process :: "str option"
  pnd_failure :: "str option"
  pnd_auto_match :: bool

text \<open>The two kinds \<open>reports_kind_check\<close> lets in.\<close>

definition kind_of_row :: "'num submission_row \<Rightarrow> report_kind" where
  "kind_of_row r = (if sub_kind r = lit ''crash'' then Crash else WebCompat)"

definition signature_waits :: "signature_row option \<Rightarrow> bool" where
  "signature_waits g = (case g of None \<Rightarrow> True | Some g \<Rightarrow> sig_version g \<noteq> STACK_SIGNATURE_VERSION \<or> sig_matched g = None)"

definition pending_of ::
    "('num \<Rightarrow> str) \<Rightarrow> (str \<rightharpoonup> field_definition) \<Rightarrow> 'num ingest_db \<Rightarrow> 'num submission_row \<Rightarrow> pending_trace option" where
  "pending_of show_num definitions s r =
    (if storage_of s (sub_report r) = Some storage_state.Ready \<and> signature_waits (sub_signature r)
     then map_option (\<lambda>t. \<lparr> pnd_report = sub_report r, pnd_kind = kind_of_row r, pnd_text = t,
         pnd_signal = stored_text show_num (lit ''signal'') r, pnd_process = stored_text show_num (lit ''process'') r,
         pnd_failure = stored_text show_num (lit ''failure_reason'') r, pnd_auto_match = sub_auto_match r \<rparr>)
       (report_stack_trace show_num definitions r)
     else None)"

definition stack_traces_to_index ::
    "('num \<Rightarrow> str) \<Rightarrow> (str \<rightharpoonup> field_definition) \<Rightarrow> report_id option \<Rightarrow> nat \<Rightarrow> 'num ingest_db \<Rightarrow> pending_trace list" where
  "stack_traces_to_index show_num definitions only limit s =
    take limit (List.map_filter (pending_of show_num definitions s)
      (filter (\<lambda>r. only = None \<or> only = Some (sub_report r)) (sort_key sub_created (sort_key sub_report (submissions s)))))"

section \<open>One trace\<close>

definition on_tracker :: "'a tx \<Rightarrow> ('num, 'a) itx" where
  "on_tracker m s = bind_res (m (tracker s)) (\<lambda>(a, d). Ok (a, s\<lparr> tracker := d \<rparr>))"

definition delete_notification :: "report_id \<Rightarrow> ('num, unit) itx" where
  "delete_notification rid s = Ok ((), s\<lparr> notifications := filter (\<lambda>n. ntf_report n \<noteq> rid) (notifications s) \<rparr>)"

text \<open>The other reports of the same kind and signature.\<close>

definition same_signature :: "pending_trace \<Rightarrow> str \<Rightarrow> 'num ingest_db \<Rightarrow> report_id set" where
  "same_signature trace fingerprint s =
    set (map sub_report (filter (\<lambda>r. sub_report r \<noteq> pnd_report trace \<and> kind_of_row r = pnd_kind trace \<and>
      (case sub_signature r of None \<Rightarrow> False
       | Some g \<Rightarrow> sig_version g = STACK_SIGNATURE_VERSION \<and> sig_fingerprint g = Some fingerprint)) (submissions s)))"

definition recent_duplicate :: "pending_trace \<Rightarrow> str \<Rightarrow> 'num ingest_db \<Rightarrow> bool" where
  "recent_duplicate trace fingerprint s \<longleftrightarrow>
    list_ex (\<lambda>incoming. sub_report incoming = pnd_report trace \<and>
      list_ex (\<lambda>r. sub_report r \<in> same_signature trace fingerprint s \<and>
        (case report_of (sub_report r) (tracker s) of None \<Rightarrow> False
         | Some t \<Rightarrow> rpt_storage t = storage_state.Ready \<and> rpt_state t \<noteq> report_state.Rejected) \<and>
        sub_created incoming - 300 \<le> sub_created r \<and> sub_created r \<le> sub_created incoming) (submissions s))
      (submissions s)"

definition match_indexed_report :: "pending_trace \<Rightarrow> str \<Rightarrow> ('num, unit) itx" where
  "match_indexed_report trace fingerprint =
    bind_tx (get_tx (same_signature trace fingerprint)) (\<lambda>same.
    bind_tx (on_tracker (match_report (pnd_report trace) same fingerprint)) (\<lambda>outcome.
    case outcome of
      On_issue _ \<Rightarrow> delete_notification (pnd_report trace)
    | Ambiguous \<Rightarrow> return_tx ()
    | Unmatched \<Rightarrow>
        bind_tx (get_tx (recent_duplicate trace fingerprint)) (\<lambda>duplicate.
        when_tx duplicate (delete_notification (pnd_report trace)))))"

definition set_signature :: "report_id \<Rightarrow> (signature_row option \<Rightarrow> signature_row option) \<Rightarrow> ('num, unit) itx" where
  "set_signature rid f s =
    Ok ((), s\<lparr> submissions := map (\<lambda>r. if sub_report r = rid then r\<lparr> sub_signature := f (sub_signature r) \<rparr> else r)
      (submissions s) \<rparr>)"

text \<open>The upsert keeps the time of the match; the foreign key wants the report.\<close>

definition upsert_signature :: "report_id \<Rightarrow> str option \<Rightarrow> ('num, unit) itx" where
  "upsert_signature rid fingerprint =
    bind_tx (get_tx (\<lambda>s. list_ex (\<lambda>r. sub_report r = rid) (submissions s))) (\<lambda>exists.
    bind_tx (lift_tx (fail_if (\<not> exists) (Database ''report_stack_signatures_report_id_fkey''))) (\<lambda>_.
    set_signature rid (\<lambda>g. Some \<lparr> sig_version = STACK_SIGNATURE_VERSION, sig_fingerprint = fingerprint,
      sig_matched = Option.bind g sig_matched \<rparr>)))"

definition already_matched :: "report_id \<Rightarrow> 'num ingest_db \<Rightarrow> bool" where
  "already_matched rid s \<longleftrightarrow> list_ex (\<lambda>r. sub_report r = rid \<and>
    (case sub_signature r of None \<Rightarrow> False | Some g \<Rightarrow> sig_matched g \<noteq> None)) (submissions s)"

definition trace_fingerprint :: "('num, 'key) external \<Rightarrow> pending_trace \<Rightarrow> str option" where
  "trace_fingerprint ext trace =
    stack_fingerprint (sha_hex ext) (ext_lowercase ext) (pnd_kind trace) (pnd_process trace) (pnd_signal trace)
      (pnd_failure trace) (parse_stack_trace (ext_alnum ext) (pnd_text trace))"

definition store_stack_signature :: "('num, 'key) external \<Rightarrow> pending_trace \<Rightarrow> ('num, unit) itx" where
  "store_stack_signature ext trace =
    (let fingerprint = trace_fingerprint ext trace in
     bind_tx (get_tx (already_matched (pnd_report trace))) (\<lambda>matched.
     bind_tx (upsert_signature (pnd_report trace) fingerprint) (\<lambda>_.
     when_tx (\<not> matched)
       (bind_tx (case fingerprint of
            Some f \<Rightarrow> when_tx (pnd_auto_match trace) (match_indexed_report trace f)
          | None \<Rightarrow> return_tx ()) (\<lambda>_.
        bind_tx (get_tx now) (\<lambda>time.
        set_signature (pnd_report trace) (map_option (\<lambda>g. g\<lparr> sig_matched := Some time \<rparr>))))))))"

section \<open>The backlog\<close>

text \<open>Every trace has a transaction of its own; the first that fails ends the batch.\<close>

fun store_stack_signatures :: "('num, 'key) external \<Rightarrow> pending_trace list \<Rightarrow> ('num ingest_db, unit) prog" where
  "store_stack_signatures ext [] = return_prog ()"
| "store_stack_signatures ext (trace # traces) =
    bind_prog (run_tx (store_stack_signature ext trace)) (\<lambda>_. store_stack_signatures ext traces)"

abbreviation (input) STACK_INDEX_BATCH_SIZE :: nat where
  "STACK_INDEX_BATCH_SIZE \<equiv> 50"

definition index_pending_stack_traces ::
    "('num, 'key) external \<Rightarrow> ('num \<Rightarrow> str) \<Rightarrow> (str \<rightharpoonup> field_definition) \<Rightarrow> ('num ingest_db, nat) prog" where
  "index_pending_stack_traces ext show_num definitions =
    bind_prog (get_prog (stack_traces_to_index show_num definitions None STACK_INDEX_BATCH_SIZE)) (\<lambda>pending.
    bind_prog (store_stack_signatures ext pending) (\<lambda>_.
    return_prog (length pending)))"

text \<open>The loop of \<open>drain_pending_stack_traces\<close>; that it ends is a theorem.\<close>

partial_function (option) drain_loop ::
    "('num, 'key) external \<Rightarrow> ('num \<Rightarrow> str) \<Rightarrow> (str \<rightharpoonup> field_definition) \<Rightarrow> nat \<Rightarrow> 'num ingest_db \<Rightarrow>
      (nat result \<times> 'num ingest_db) option" where
  "drain_loop ext show_num definitions done_before s =
    (case index_pending_stack_traces ext show_num definitions s of
      (Inl e, s') \<Rightarrow> Some (Err e, s')
    | (Inr count, s') \<Rightarrow>
        if count < STACK_INDEX_BATCH_SIZE then Some (Ok (done_before + count), s')
        else drain_loop ext show_num definitions (done_before + count) s')"

definition drain_pending_stack_traces ::
    "('num, 'key) external \<Rightarrow> ('num \<Rightarrow> str) \<Rightarrow> (str \<rightharpoonup> field_definition) \<Rightarrow> 'num ingest_db \<Rightarrow>
      (nat result \<times> 'num ingest_db) option" where
  "drain_pending_stack_traces ext show_num definitions s = drain_loop ext show_num definitions 0 s"

definition index_report_stack_traces ::
    "('num, 'key) external \<Rightarrow> ('num \<Rightarrow> str) \<Rightarrow> (str \<rightharpoonup> field_definition) \<Rightarrow> report_id \<Rightarrow> ('num ingest_db, unit) prog" where
  "index_report_stack_traces ext show_num definitions rid =
    bind_prog (get_prog (stack_traces_to_index show_num definitions (Some rid) 64)) (store_stack_signatures ext)"

section \<open>What one trace does\<close>

definition sign_row :: "report_id \<Rightarrow> signature_row \<Rightarrow> 'num submission_row \<Rightarrow> 'num submission_row" where
  "sign_row rid g r = (if sub_report r = rid then r\<lparr> sub_signature := Some g \<rparr> else r)"

text \<open>Everything but signatures, notifications and the match itself stays.\<close>

definition signed :: "report_id \<Rightarrow> signature_row \<Rightarrow> 'num ingest_db \<Rightarrow> 'num ingest_db \<Rightarrow> bool" where
  "signed rid g s s' \<longleftrightarrow>
    submissions s' = map (sign_row rid g) (submissions s) \<and> challenges s' = challenges s \<and>
    (\<forall>x. storage_of s' x = storage_of s x) \<and> now s' = now s \<and>
    map rpt_id (reports (tracker s')) = map rpt_id (reports (tracker s)) \<and>
    (db_ok (tracker s) \<longrightarrow> db_ok (tracker s')) \<and>
    (\<exists>P. notifications s' = filter P (notifications s))"

lemma row_step_storage:
  assumes "row_step p (linked_row st iid) db db'" "p \<in> set (reports db)"
  shows "map_option rpt_storage (report_of x db') = map_option rpt_storage (report_of x db)"
    "map rpt_id (reports db') = map rpt_id (reports db)"
proof -
  let ?g = "\<lambda>r. if rpt_id r = rpt_id p then linked_row st iid r else r"
  have rows: "reports db' = map ?g (reports db)" using assms(1) by (simp add: row_step_def)
  have "find (\<lambda>r. rpt_id r = x) (map ?g rs) = map_option ?g (find (\<lambda>r. rpt_id r = x) rs)" for rs
    by (induction rs) auto
  then show "map_option rpt_storage (report_of x db') = map_option rpt_storage (report_of x db)"
    by (cases "report_of x db") (auto simp: report_of_def rows)
  show "map rpt_id (reports db') = map rpt_id (reports db)" by (simp add: rows)
qed

lemma match_report_clock: "match_report rid same fingerprint db = Ok (out, db') \<Longrightarrow> clock db' = clock db"
  by (auto simp: match_report_def assign_matched_report_def result_simps update_reports_Ok insert_audit_event_def
      when_tx_def split: list.splits option.splits if_splits)

text \<open>The match keeps all that, whatever it decides, and never fails.\<close>

definition only_matched :: "'num ingest_db \<Rightarrow> 'num ingest_db \<Rightarrow> bool" where
  "only_matched s s' \<longleftrightarrow>
    submissions s' = submissions s \<and> challenges s' = challenges s \<and> (\<forall>x. storage_of s' x = storage_of s x) \<and>
    now s' = now s \<and> map rpt_id (reports (tracker s')) = map rpt_id (reports (tracker s)) \<and>
    db_ok (tracker s') \<and> (\<exists>P. notifications s' = filter P (notifications s))"

lemma match_indexed_ok:
  assumes "db_ok (tracker s)"
  shows "\<exists>s'. match_indexed_report trace f s = Ok ((), s') \<and> only_matched s s'"
proof -
  obtain out d where m: "match_report (pnd_report trace) (same_signature trace f s) f (tracker s) = Ok (out, d)"
    and cases: "d = tracker s \<or> (\<exists>iid p st. p \<in> set (reports (tracker s)) \<and> row_step p (linked_row st iid) (tracker s) d)"
    using match_report_cases [OF assms] by blast
  have storage: "map_option rpt_storage (report_of x d) = map_option rpt_storage (report_of x (tracker s))" for x
    using cases row_step_storage(1) by blast
  have ids: "map rpt_id (reports d) = map rpt_id (reports (tracker s))" using cases row_step_storage(2) by blast
  have ok: "db_ok d" using cases assms by (auto simp: row_step_def)
  have base: "only_matched s (s\<lparr> tracker := d \<rparr>)"
    using match_report_clock [OF m] storage ids ok
    by (auto simp: only_matched_def storage_of_def intro: exI [of _ "\<lambda>_. True"])
  then have gone: "only_matched s (s\<lparr> tracker := d, notifications := filter P (notifications s) \<rparr>)" for P
    by (auto simp: only_matched_def storage_of_def)
  have run: "match_indexed_report trace f s =
      (case out of On_issue _ \<Rightarrow> delete_notification (pnd_report trace) | Ambiguous \<Rightarrow> return_tx ()
       | Unmatched \<Rightarrow> bind_tx (get_tx (recent_duplicate trace f)) (\<lambda>duplicate.
           when_tx duplicate (delete_notification (pnd_report trace)))) (s\<lparr> tracker := d \<rparr>)"
    using m by (simp add: match_indexed_report_def on_tracker_def tx_run)
  have "match_indexed_report trace f s = Ok ((), s\<lparr> tracker := d \<rparr>) \<or>
      (\<exists>P. match_indexed_report trace f s = Ok ((), s\<lparr> tracker := d, notifications := filter P (notifications s) \<rparr>))"
    unfolding run by (cases out) (auto simp: tx_run delete_notification_def when_tx_def)
  then show ?thesis using base gone by blast
qed

lemma sign_row_twice: "map (sign_row rid g) (map (sign_row rid h) rs) = map (sign_row rid g) rs"
  by (simp add: sign_row_def comp_def)

lemma set_signature_rows:
  assumes "\<And>r. r \<in> set (submissions s) \<Longrightarrow> sub_report r = rid \<Longrightarrow> f (sub_signature r) = Some g"
  shows "set_signature rid f s = Ok ((), s\<lparr> submissions := map (sign_row rid g) (submissions s) \<rparr>)"
  using assms by (auto simp: set_signature_def sign_row_def)

lemma store_signature_ok:
  assumes "db_ok (tracker s)" "distinct (map sub_report (submissions s))" "r \<in> set (submissions s)"
    "sub_report r = pnd_report trace"
  shows "\<exists>t s'. store_stack_signature ext trace s = Ok ((), s') \<and>
    signed (pnd_report trace) \<lparr> sig_version = STACK_SIGNATURE_VERSION, sig_fingerprint = trace_fingerprint ext trace,
      sig_matched = Some t \<rparr> s s' \<and>
    (already_matched (pnd_report trace) s \<longrightarrow> tracker s' = tracker s \<and> notifications s' = notifications s)"
proof -
  let ?rid = "pnd_report trace" and ?fp = "trace_fingerprint ext trace"
  let ?g = "\<lambda>m. \<lparr> sig_version = STACK_SIGNATURE_VERSION, sig_fingerprint = ?fp, sig_matched = m \<rparr>"
  have only: "q = r" if "q \<in> set (submissions s)" "sub_report q = ?rid" for q
    using that assms(2-4) by (auto simp: distinct_map inj_on_def)
  define m where "m = Option.bind (sub_signature r) sig_matched"
  define s1 where "s1 = s\<lparr> submissions := map (sign_row ?rid (?g m)) (submissions s) \<rparr>"
  have found: "list_ex (\<lambda>q. sub_report q = ?rid) (submissions s)" using assms(3,4) by (auto simp: list_ex_iff)
  have ups: "upsert_signature ?rid ?fp s = Ok ((), s1)"
  proof -
    have "set_signature ?rid (\<lambda>g. Some (?g (Option.bind g sig_matched))) s = Ok ((), s1)"
      unfolding s1_def by (rule set_signature_rows) (drule (1) only, simp add: m_def)
    then show ?thesis using found by (simp add: upsert_signature_def tx_run)
  qed
  have am: "already_matched ?rid s \<longleftrightarrow> m \<noteq> None"
  proof -
    have "already_matched ?rid s \<longleftrightarrow> (\<exists>q \<in> set (submissions s). sub_report q = ?rid \<and>
        (case sub_signature q of None \<Rightarrow> False | Some g \<Rightarrow> sig_matched g \<noteq> None))"
      by (simp add: already_matched_def list_ex_iff)
    also have "\<dots> \<longleftrightarrow> (case sub_signature r of None \<Rightarrow> False | Some g \<Rightarrow> sig_matched g \<noteq> None)"
      using only assms(3,4) by blast
    finally show ?thesis by (simp add: m_def split: option.split)
  qed
  have s1: "db_ok (tracker s1)" using assms(1) by (simp add: s1_def)
  show ?thesis
  proof (cases m)
    case (Some t)
    have "signed ?rid (?g (Some t)) s s1"
      using Some by (auto simp: signed_def s1_def storage_of_def intro: exI [of _ "\<lambda>_. True"])
    then show ?thesis
      using ups am Some by (auto simp: store_stack_signature_def tx_run Let_def when_tx_def s1_def)
  next
    case None
    obtain s2 where m2: "(case ?fp of Some f \<Rightarrow> when_tx (pnd_auto_match trace) (match_indexed_report trace f)
        | None \<Rightarrow> return_tx ()) s1 = Ok ((), s2)" and om: "only_matched s1 s2"
    proof -
      have "only_matched s1 s1" using s1 by (auto simp: only_matched_def intro: exI [of _ "\<lambda>_. True"])
      then show ?thesis
        using match_indexed_ok [OF s1, of trace] that
        by (cases ?fp; cases "pnd_auto_match trace") (auto simp: when_tx_def return_tx_def)
    qed
    have subs: "submissions s2 = map (sign_row ?rid (?g None)) (submissions s)"
      using om None by (simp add: only_matched_def s1_def)
    let ?s3 = "s2\<lparr> submissions := map (sign_row ?rid (?g (Some (now s2)))) (submissions s2) \<rparr>"
    have "set_signature ?rid (map_option (\<lambda>g. g\<lparr> sig_matched := Some (now s2) \<rparr>)) s2 = Ok ((), ?s3)"
      by (rule set_signature_rows) (auto simp: subs sign_row_def split: if_splits)
    then have run: "store_stack_signature ext trace s = Ok ((), ?s3)"
      using ups am None m2 by (simp add: store_stack_signature_def tx_run Let_def when_tx_def)
    have "submissions ?s3 = map (sign_row ?rid (?g (Some (now s2)))) (submissions s)"
      by (simp add: subs sign_row_def comp_def)
    then have "signed ?rid (?g (Some (now s2))) s ?s3"
      using om by (auto simp: signed_def only_matched_def s1_def storage_of_def)
    then show ?thesis using run am None by blast
  qed
qed

section \<open>The backlog shrinks\<close>

definition index_ok :: "'num ingest_db \<Rightarrow> bool" where
  "index_ok s \<longleftrightarrow> db_ok (tracker s) \<and> distinct (map sub_report (submissions s))"

definition waiting :: "('num \<Rightarrow> str) \<Rightarrow> (str \<rightharpoonup> field_definition) \<Rightarrow> 'num ingest_db \<Rightarrow> report_id set" where
  "waiting show_num definitions s =
    sub_report ` {r \<in> set (submissions s). pending_of show_num definitions s r \<noteq> None}"

lemma finite_waiting: "finite (waiting show_num definitions s)"
  by (simp add: waiting_def)

lemma sign_row_simps [simp]:
  "sub_report (sign_row rid g r) = sub_report r"
  "sub_fields (sign_row rid g r) = sub_fields r"
  "sub_kind (sign_row rid g r) = sub_kind r"
  "sub_auto_match (sign_row rid g r) = sub_auto_match r"
  "sub_signature (sign_row rid g r) = (if sub_report r = rid then Some g else sub_signature r)"
  by (simp_all add: sign_row_def)

lemma signed_index_ok: "signed rid g s s' \<Longrightarrow> index_ok s \<Longrightarrow> index_ok s'"
  by (simp add: signed_def index_ok_def comp_def)

lemma pending_of_sign_row:
  assumes "signed rid g s s'" "\<not> signature_waits (Some g)"
  shows "pending_of show_num definitions s' (sign_row rid g r) =
    (if sub_report r = rid then None else pending_of show_num definitions s r)"
  using assms
  by (simp add: pending_of_def signed_def report_stack_trace_def stored_text_def kind_of_row_def)

lemma waiting_signed:
  assumes "signed rid g s s'" "\<not> signature_waits (Some g)"
  shows "waiting show_num definitions s' = waiting show_num definitions s - {rid}"
proof -
  have rows: "set (submissions s') = sign_row rid g ` set (submissions s)" using assms(1) by (simp add: signed_def)
  have "x \<in> waiting show_num definitions s' \<longleftrightarrow>
      (\<exists>r \<in> set (submissions s). sub_report r = x \<and> pending_of show_num definitions s' (sign_row rid g r) \<noteq> None)" for x
    unfolding waiting_def rows by (auto simp: image_iff)
  moreover have "x \<in> waiting show_num definitions s \<longleftrightarrow>
      (\<exists>r \<in> set (submissions s). sub_report r = x \<and> pending_of show_num definitions s r \<noteq> None)" for x
    unfolding waiting_def by auto
  ultimately show ?thesis
    by (intro set_eqI) (auto simp only: pending_of_sign_row [OF assms] Diff_iff singleton_iff split: if_splits)
qed

lemma store_signatures_ok:
  assumes "index_ok s" "pnd_report ` set traces \<subseteq> sub_report ` set (submissions s)"
  shows "\<exists>s'. store_stack_signatures ext traces s = (Ok (), s') \<and> index_ok s' \<and>
    sub_report ` set (submissions s') = sub_report ` set (submissions s) \<and>
    waiting show_num definitions s' = waiting show_num definitions s - pnd_report ` set traces"
  using assms
proof (induction traces arbitrary: s)
  case Nil
  then show ?case by (simp add: return_prog_def)
next
  case (Cons trace traces)
  then obtain r where r: "r \<in> set (submissions s)" "sub_report r = pnd_report trace" by auto
  obtain t s1 where s1: "store_stack_signature ext trace s = Ok ((), s1)" and
    sg: "signed (pnd_report trace) \<lparr> sig_version = STACK_SIGNATURE_VERSION,
      sig_fingerprint = trace_fingerprint ext trace, sig_matched = Some t \<rparr> s s1"
    using store_signature_ok [OF _ _ r] Cons.prems(1) unfolding index_ok_def by blast
  have ids: "sub_report ` set (submissions s1) = sub_report ` set (submissions s)"
    using sg by (simp add: signed_def image_image)
  have w: "waiting show_num definitions s1 = waiting show_num definitions s - {pnd_report trace}"
    by (rule waiting_signed [OF sg]) (simp add: signature_waits_def)
  have known: "pnd_report ` set traces \<subseteq> sub_report ` set (submissions s1)" using Cons.prems(2) ids by simp
  obtain s' where s': "store_stack_signatures ext traces s1 = (Ok (), s')" "index_ok s'"
    "sub_report ` set (submissions s') = sub_report ` set (submissions s1)"
    "waiting show_num definitions s' = waiting show_num definitions s1 - pnd_report ` set traces"
    using Cons.IH [OF signed_index_ok [OF sg Cons.prems(1)] known] by blast
  have "store_stack_signatures ext (trace # traces) s = (Ok (), s')"
    using s1 s'(1) by (simp add: bind_prog_def run_tx_def)
  moreover have "waiting show_num definitions s' = waiting show_num definitions s - pnd_report ` set (trace # traces)"
    using s'(4) w by auto
  ultimately show ?case using s'(2,3) ids by (intro exI [of _ s']) simp
qed

text \<open>The traces to index are those of the reports that wait, each once.\<close>

lemma pending_of_report: "pending_of show_num definitions s r = Some t \<Longrightarrow> pnd_report t = sub_report r"
  by (auto simp: pending_of_def split: if_splits)

lemma traces_reports:
  "map pnd_report (List.map_filter (pending_of show_num definitions s) rs) =
    map sub_report (filter (\<lambda>r. pending_of show_num definitions s r \<noteq> None) rs)"
  by (induction rs) (auto simp: List.map_filter_simps pending_of_report)

definition backlog :: "('num \<Rightarrow> str) \<Rightarrow> (str \<rightharpoonup> field_definition) \<Rightarrow> 'num ingest_db \<Rightarrow> pending_trace list" where
  "backlog show_num definitions s = List.map_filter (pending_of show_num definitions s)
    (sort_key sub_created (sort_key sub_report (submissions s)))"

lemma stack_traces_backlog:
  "stack_traces_to_index show_num definitions None limit s = take limit (backlog show_num definitions s)"
  by (simp add: stack_traces_to_index_def backlog_def)

lemma backlog_reports:
  assumes "index_ok s"
  shows "pnd_report ` set (backlog show_num definitions s) = waiting show_num definitions s"
    "length (backlog show_num definitions s) = card (waiting show_num definitions s)"
proof -
  let ?rs = "filter (\<lambda>r. pending_of show_num definitions s r \<noteq> None)
    (sort_key sub_created (sort_key sub_report (submissions s)))"
  have eq: "map pnd_report (backlog show_num definitions s) = map sub_report ?rs"
    unfolding backlog_def by (rule traces_reports)
  show set_eq: "pnd_report ` set (backlog show_num definitions s) = waiting show_num definitions s"
    using arg_cong [where f = set, OF eq] by (simp add: waiting_def)
  have "inj_on sub_report (set (submissions s))" "distinct (submissions s)"
    using assms by (auto simp: index_ok_def distinct_map)
  then have "distinct (map sub_report ?rs)" by (auto simp: distinct_map inj_on_def)
  then have "card (set (map pnd_report (backlog show_num definitions s))) = length (backlog show_num definitions s)"
    unfolding eq by (metis distinct_card eq length_map)
  then show "length (backlog show_num definitions s) = card (waiting show_num definitions s)"
    using set_eq by simp
qed

lemma index_pending_ok:
  assumes "index_ok s"
  shows "\<exists>s'. index_pending_stack_traces ext show_num definitions s =
      (Ok (min 50 (card (waiting show_num definitions s))), s') \<and> index_ok s' \<and>
    card (waiting show_num definitions s') = card (waiting show_num definitions s) - 50"
proof -
  define traces where "traces = take 50 (backlog show_num definitions s)"
  have len: "length traces = min 50 (card (waiting show_num definitions s))"
    using backlog_reports(2) [OF assms] by (simp add: traces_def min.commute)
  have sub: "pnd_report ` set traces \<subseteq> waiting show_num definitions s"
  proof -
    have "pnd_report ` set traces \<subseteq> pnd_report ` set (backlog show_num definitions s)"
      by (rule image_mono) (simp add: traces_def set_take_subset)
    then show ?thesis by (simp only: backlog_reports(1) [OF assms])
  qed
  have "distinct (map pnd_report (backlog show_num definitions s))"
    using backlog_reports [OF assms] by (metis card_distinct length_map list.set_map)
  then have "distinct (map pnd_report traces)" by (simp add: traces_def take_map [symmetric])
  then have card: "card (pnd_report ` set traces) = length traces" by (metis distinct_card length_map list.set_map)
  have known: "pnd_report ` set traces \<subseteq> sub_report ` set (submissions s)" using sub by (auto simp: waiting_def)
  obtain s' where s': "store_stack_signatures ext traces s = (Ok (), s')" "index_ok s'"
    "waiting show_num definitions s' = waiting show_num definitions s - pnd_report ` set traces"
    using store_signatures_ok [OF assms known] by blast
  have "card (waiting show_num definitions s') = card (waiting show_num definitions s) - length traces"
    unfolding s'(3) using card_Diff_subset [OF _ sub] card by simp
  then have "card (waiting show_num definitions s') = card (waiting show_num definitions s) - 50"
    using len by simp
  moreover have "index_pending_stack_traces ext show_num definitions s = (Ok (length traces), s')"
    using s'(1) by (simp add: index_pending_stack_traces_def stack_traces_backlog traces_def [symmetric] bind_prog_def
        get_prog_def return_prog_def)
  ultimately show ?thesis using s'(2) len by simp
qed

lemma drain_loop_ok:
  assumes "index_ok s"
  shows "\<exists>s'. drain_loop ext show_num definitions n s = Some (Ok (n + card (waiting show_num definitions s)), s') \<and>
    index_ok s' \<and> waiting show_num definitions s' = {}"
  using assms
proof (induction "card (waiting show_num definitions s)" arbitrary: s n rule: less_induct)
  case less
  obtain s' where s': "index_pending_stack_traces ext show_num definitions s =
      (Ok (min 50 (card (waiting show_num definitions s))), s')" "index_ok s'"
    "card (waiting show_num definitions s') = card (waiting show_num definitions s) - 50"
    using index_pending_ok [OF less.prems] by blast
  show ?case
  proof (cases "card (waiting show_num definitions s) < 50")
    case True
    then have "waiting show_num definitions s' = {}" using s'(3) finite_waiting by (metis card_0_eq diff_is_0_eq less_imp_le)
    then show ?thesis using True s'(1,2) by (simp add: drain_loop.simps)
  next
    case False
    then have "card (waiting show_num definitions s') < card (waiting show_num definitions s)" using s'(3) by simp
    from less.hyps [OF this s'(2), of "n + 50"] obtain s'' where
      "drain_loop ext show_num definitions (n + 50) s' = Some (Ok (n + 50 + card (waiting show_num definitions s')), s'')"
      "index_ok s''" "waiting show_num definitions s'' = {}" by blast
    then show ?thesis using False s'(1,3) by (subst drain_loop.simps) simp
  qed
qed

text \<open>C10: Draining the backlog of the stack index ends, whatever waits: every waiting report is signed and
  matched once, the count is that of the reports that waited, and nothing waits afterwards.\<close>

theorem drain_terminates:
  assumes "index_ok s"
  shows "\<exists>s'. drain_pending_stack_traces ext show_num definitions s =
      Some (Ok (card (waiting show_num definitions s)), s') \<and>
    (\<forall>only limit. stack_traces_to_index show_num definitions only limit s' = []) \<and> db_ok (tracker s')"
proof -
  obtain s' where s': "drain_loop ext show_num definitions 0 s = Some (Ok (card (waiting show_num definitions s)), s')"
    "index_ok s'" "waiting show_num definitions s' = {}"
    using drain_loop_ok [OF assms, of ext show_num definitions 0] by auto
  then have none: "pending_of show_num definitions s' r = None" if "r \<in> set (submissions s')" for r
    using that by (auto simp: waiting_def)
  have "List.map_filter (pending_of show_num definitions s') rs = []" if "set rs \<subseteq> set (submissions s')" for rs
    using that none by (induction rs) (auto simp: List.map_filter_simps)
  then have "stack_traces_to_index show_num definitions only limit s' = []" for only limit
    by (simp add: stack_traces_to_index_def subset_iff)
  then show ?thesis using s' by (simp add: drain_pending_stack_traces_def index_ok_def)
qed

section \<open>A report is matched once\<close>

text \<open>A report is matched to issues once: when a later version of the signature or a new field definition
  has it indexed again, its signature is replaced, but no report, issue, event or notification changes, so
  what maintainers decided about it since stands.\<close>

theorem reindexing_moves_nothing:
  assumes "index_ok s" "already_matched (pnd_report trace) s"
  shows "\<exists>s'. store_stack_signature ext trace s = Ok ((), s') \<and>
    tracker s' = tracker s \<and> notifications s' = notifications s \<and>
    (\<forall>r \<in> set (submissions s'). sub_report r = pnd_report trace \<longrightarrow> (\<exists>g. sub_signature r = Some g \<and>
      sig_version g = STACK_SIGNATURE_VERSION \<and> sig_fingerprint g = trace_fingerprint ext trace \<and> sig_matched g \<noteq> None))"
proof -
  obtain r where r: "r \<in> set (submissions s)" "sub_report r = pnd_report trace"
    using assms(2) by (auto simp: already_matched_def list_ex_iff)
  have ok: "db_ok (tracker s)" "distinct (map sub_report (submissions s))" using assms(1) by (auto simp: index_ok_def)
  obtain t s' where s': "store_stack_signature ext trace s = Ok ((), s')"
    "signed (pnd_report trace) \<lparr> sig_version = STACK_SIGNATURE_VERSION, sig_fingerprint = trace_fingerprint ext trace,
      sig_matched = Some t \<rparr> s s'"
    "tracker s' = tracker s" "notifications s' = notifications s"
    using store_signature_ok [OF ok r] assms(2) by blast
  have "set (submissions s') = sign_row (pnd_report trace) \<lparr> sig_version = STACK_SIGNATURE_VERSION,
      sig_fingerprint = trace_fingerprint ext trace, sig_matched = Some t \<rparr> ` set (submissions s)"
    using s'(2) by (simp add: signed_def)
  then show ?thesis using s'(1,3,4) by auto
qed

section \<open>What a match decides\<close>

definition candidate_issues :: "report_id set \<Rightarrow> db \<Rightarrow> issue_id set" where
  "candidate_issues same db =
    {iid. \<exists>r \<in> set (reports db). rpt_id r \<in> same \<and> rpt_storage r = storage_state.Ready \<and>
      rpt_state r = report_state.Confirmed \<and> rpt_issue r = Some iid \<and>
      (\<exists>i. find_issue iid (issues db) = Some i \<and> open_for_match i)}"

lemma matching_issue_iff:
  "matching_issue same table r = Some iid \<longleftrightarrow> rpt_id r \<in> same \<and> rpt_storage r = storage_state.Ready \<and>
    rpt_state r = report_state.Confirmed \<and> rpt_issue r = Some iid \<and>
    (\<exists>i. find_issue iid table = Some i \<and> open_for_match i)"
  by (auto simp: matching_issue_def bind_eq_Some_conv split: if_splits)

lemma matching_issues_candidates:
  "set (List.map_filter (matching_issue same (issues db)) (reports db)) = candidate_issues same db"
  by (rule set_eqI) (simp add: map_filter_mem matching_issue_iff candidate_issues_def)

lemma matching_issues_cases:
  "(matching_issues same db = [] \<longleftrightarrow> candidate_issues same db = {}) \<and>
    (matching_issues same db = [iid] \<longleftrightarrow> candidate_issues same db = {iid})"
proof -
  define xs where "xs = remdups (List.map_filter (matching_issue same (issues db)) (reports db))"
  have m: "matching_issues same db = take 2 xs" "set xs = candidate_issues same db" "distinct xs"
    by (simp_all add: xs_def matching_issues_candidates matching_issues_def)
  show ?thesis
    unfolding m(1) m(2) [symmetric] using m(3)
    by (cases xs; cases "tl xs") (auto simp: numeral_2_eq_2)
qed

text \<open>C11: A report that is indexed for the first time goes to the one open issue its signature has, and is not
  announced; if its signature has several, nothing happens and it stays announced; if it has none, it is
  announced unless a report with the same signature came in the five minutes before it.\<close>

theorem match_outcome:
  assumes "db_ok (tracker s)"
  shows "\<exists>s'. match_indexed_report trace f s = Ok ((), s') \<and>
    (let candidates = candidate_issues (same_signature trace f s) (tracker s);
         announced = (\<lambda>n. n \<in> set (notifications s) \<and> (ntf_report n = pnd_report trace \<longrightarrow>
           (if candidates = {} then \<not> recent_duplicate trace f s else \<nexists>iid. candidates = {iid}))) in
     set (notifications s') = {n. announced n} \<and>
     issues (tracker s') = issues (tracker s) \<and>
     reports (tracker s') = map (\<lambda>r. if matchable (pnd_report trace) r \<and> (\<exists>iid. candidates = {iid})
       then drop_fix_of_unresolved_report (r\<lparr> rpt_issue := Some (the_elem candidates), rpt_state := report_state.Confirmed \<rparr>)
       else r) (reports (tracker s)))"
proof -
  let ?same = "same_signature trace f s" and ?rid = "pnd_report trace"
  let ?c = "candidate_issues ?same (tracker s)"
  note cases = matching_issues_cases [of ?same "tracker s"]
  consider (none) "?c = {}" | (one) iid where "?c = {iid}" | (many) "?c \<noteq> {}" "\<nexists>iid. ?c = {iid}" by blast
  then show ?thesis
  proof cases
    case none
    then have "match_report ?rid ?same f (tracker s) = Ok (Unmatched, tracker s)"
      using cases by (simp add: match_report_def tx_run)
    then show ?thesis
      using none by (auto simp: match_indexed_report_def on_tracker_def tx_run delete_notification_def when_tx_def)
  next
    case many
    then have "match_report ?rid ?same f (tracker s) = Ok (Ambiguous, tracker s)"
      using cases by (auto simp: match_report_def tx_run split: list.split)
    then show ?thesis
      using many by (auto simp: match_indexed_report_def on_tracker_def tx_run)
  next
    case (one iid)
    then have m: "matching_issues ?same (tracker s) = [iid]" using cases by simp
    then obtain i where i: "find_issue iid (issues (tracker s)) = Some i" "iss_state i \<noteq> issue_state.Resolved"
      using matching_issues_open [OF _ assms, of iid ?same] by auto
    have st: "issue_state_of (issues (tracker s)) iid = Some (iss_state i)" using i(1) by (simp add: issue_state_of_def)
    obtain d where run: "assign_matched_report ?rid iid f (tracker s) = Ok ((), d)" and
      d: "issues d = issues (tracker s)" "reports d = map (\<lambda>r. if matchable ?rid r
        then drop_fix_of_unresolved_report (r\<lparr> rpt_issue := Some iid, rpt_state := report_state.Confirmed \<rparr>) else r)
        (reports (tracker s))"
      using assigned_rows [OF assms st i(2)] by blast
    then have "match_report ?rid ?same f (tracker s) = Ok (On_issue iid, d)"
      using m by (simp add: match_report_def tx_run)
    then show ?thesis
      using one d by (auto simp: match_indexed_report_def on_tracker_def tx_run delete_notification_def)
  qed
qed

section \<open>The index and the submission agree\<close>

lemma stack_row_store_field: "stack_row show_num definitions (store_field definitions f) = stack_candidate definitions f"
  by (cases "field_value f") (auto simp: stack_row_def store_field_def stack_candidate_def text_eval split: option.split)

lemma map_filter_map: "List.map_filter g (map f xs) = List.map_filter (\<lambda>x. g (f x)) xs"
  by (induction xs) (simp_all add: List.map_filter_simps split: option.split)

lemma store_field_simps:
  "stored_key (store_field definitions f) = field_key f"
  "stored_value (store_field definitions f) = json_value (field_value f)"
  by (simp_all add: store_field_def)

lemma text_of_Cons:
  "text_of (f # fs) key = (case field_value f of
    field_value.Text t \<Rightarrow> if field_key f = key then Some t else text_of fs key | _ \<Rightarrow> text_of fs key)"
  by (simp add: text_of_def List.map_filter_simps split: field_value.split)

lemma stored_text_store_field:
  assumes "\<And>f. f \<in> set fs \<Longrightarrow> field_key f = key \<Longrightarrow> \<exists>t. field_value f = field_value.Text t"
  shows "map_option (\<lambda>f. json_text show_num (stored_value f)) (find (\<lambda>f. stored_key f = key) (map (store_field definitions) fs)) =
    text_of fs key"
  using assms
proof (induction fs)
  case (Cons f fs)
  then have "map_option (\<lambda>f. json_text show_num (stored_value f)) (find (\<lambda>f. stored_key f = key) (map (store_field definitions) fs)) =
    text_of fs key" by simp
  then show ?case
    using Cons.prems [of f]
    by (cases "field_value f") (auto simp: store_field_simps text_of_Cons)
qed (simp add: text_of_def List.map_filter_simps)


section \<open>An index, run\<close>

definition index_row :: "report_id \<Rightarrow> signature_row option \<Rightarrow> nat submission_row" where
  "index_row rid g =
    \<lparr> sub_report = rid, sub_submission = rid, sub_digest = hex_text, sub_kind = lit ''crash'', sub_version = lit ''1'',
      sub_build = [], sub_staging = rid, sub_created = 0, sub_expires = None,
      sub_fields = [\<lparr> stored_key = lit ''stack'', stored_kind = lit ''stack_trace'', stored_value = JsonString (lit ''main''),
        stored_recognized = True \<rparr>],
      sub_attachments = [], sub_auto_match = True, sub_signature = g \<rparr>"

definition print_of :: "str option \<Rightarrow> int option \<Rightarrow> signature_row option" where
  "print_of f t = Some \<lparr> sig_version = STACK_SIGNATURE_VERSION, sig_fingerprint = f, sig_matched = t \<rparr>"

text \<open>Report 1 is new, report 2 is on issue 11 and has the signature \<open>f\<close>.\<close>

definition index_db :: "str \<Rightarrow> signature_row option \<Rightarrow> nat ingest_db" where
  "index_db f g =
    \<lparr> tracker = sample_db, submissions = [index_row 1 g, index_row 2 (print_of (Some f) (Some 0))],
      challenges = [], upload_leases = [], buckets = [],
      notifications = [\<lparr> ntf_report = 1, ntf_attempts = 0, ntf_failure = None, ntf_status = None, ntf_created = 0,
        ntf_delivered = None \<rparr>] \<rparr>"

definition index_trace :: pending_trace where
  "index_trace = \<lparr> pnd_report = 1, pnd_kind = Crash, pnd_text = lit ''main'', pnd_signal = None, pnd_process = None,
    pnd_failure = None, pnd_auto_match = True \<rparr>"

lemma index_db_ok: "index_ok (index_db f g)"
  using sample_db_ok by (simp add: index_ok_def index_db_def index_row_def)

theorem drain_terminates_witness:
  "\<exists>n s'. drain_pending_stack_traces sample_external (\<lambda>_. []) Map.empty (index_db (lit ''f'') None) = Some (Ok n, s') \<and>
    stack_traces_to_index (\<lambda>_. []) Map.empty (Some 1) 64 s' = []"
  using drain_terminates [OF index_db_ok, of sample_external "\<lambda>_. []" Map.empty "lit ''f''" None] by blast

theorem reindexing_moves_nothing_witness:
  "\<exists>s'. store_stack_signature sample_external index_trace (index_db (lit ''f'') (print_of None (Some 5))) = Ok ((), s') \<and>
    tracker s' = sample_db"
proof -
  have "already_matched (pnd_report index_trace) (index_db (lit ''f'') (print_of None (Some 5)))"
    by (simp add: already_matched_def index_trace_def index_db_def index_row_def print_of_def)
  from reindexing_moves_nothing [OF index_db_ok this, of sample_external] show ?thesis
    by (auto simp: index_db_def)
qed

lemma index_candidates:
  "candidate_issues (same_signature index_trace (lit ''f'') (index_db (lit ''f'') None)) (tracker (index_db (lit ''f'') None)) = {11}"
  by (auto simp: candidate_issues_def same_signature_def index_db_def index_row_def index_trace_def kind_of_row_def
      print_of_def open_for_match_def db_eval text_eval)

theorem match_outcome_witness:
  "\<exists>s'. match_indexed_report index_trace (lit ''f'') (index_db (lit ''f'') None) = Ok ((), s') \<and> notifications s' = [] \<and>
    map rpt_issue (reports (tracker s')) = [Some 11, Some 11, Some 12]"
proof -
  have "db_ok (tracker (index_db (lit ''f'') None))" using sample_db_ok by (simp add: index_db_def)
  then obtain s' where s': "match_indexed_report index_trace (lit ''f'') (index_db (lit ''f'') None) = Ok ((), s')"
    "set (notifications s') = {n. n \<in> set (notifications (index_db (lit ''f'') None)) \<and>
      (ntf_report n = pnd_report index_trace \<longrightarrow> (if {11 :: uuid} = {} then \<not> recent_duplicate index_trace (lit ''f'')
        (index_db (lit ''f'') None) else \<nexists>iid. {11 :: uuid} = {iid}))}"
    "reports (tracker s') = map (\<lambda>r. if matchable (pnd_report index_trace) r \<and> (\<exists>iid. {11 :: uuid} = {iid})
       then drop_fix_of_unresolved_report (r\<lparr> rpt_issue := Some (the_elem {11}), rpt_state := report_state.Confirmed \<rparr>)
       else r) (reports (tracker (index_db (lit ''f'') None)))"
    using match_outcome [of "index_db (lit ''f'') None" index_trace "lit ''f''", unfolded index_candidates Let_def] by blast
  have "set (notifications s') = {}" unfolding s'(2) by (auto simp: index_db_def index_trace_def)
  moreover have "map rpt_issue (reports (tracker s')) = [Some 11, Some 11, Some 12]"
    unfolding s'(3) by (simp add: index_db_def index_trace_def matchable_def sample_db_def Report_Ops.sample_report_def
        drop_fix_of_unresolved_report_def)
  ultimately show ?thesis using s'(1) by simp
qed

definition index_definitions :: "str \<rightharpoonup> field_definition" where
  "index_definitions k = Some \<lparr> definition_key = k, definition_label = k, 
    definition_kind = (if k = lit ''stack'' then field_kind.StackTrace else field_kind.Text), definition_position = 0 \<rparr>"

definition index_request :: "nat accept_request" where
  "index_request = (sample_request [49])\<lparr> req_definitions := index_definitions, req_manifest := (sample_manifest [49])\<lparr>
    manifest_fields := [\<lparr> field_key = lit ''stack'', field_value = field_value.StackTrace (lit ''main'') \<rparr>] \<rparr> \<rparr>"


end
