(* ===== verification/Report_Title.thy ===== *)
theory Report_Title
  imports Stack_Trace
begin

text \<open>
  \<open>src/src/domain/report_title.rs\<close>: the title a report is listed under, or the title of the GitHub issue
  proposed for it. The byte slice of \<open>concise_function_name\<close> panics off a character boundary; that panic
  is the value \<open>None\<close> of the outer option, so the title is an option whose \<open>None\<close> is the panic. The
  subtraction \<open>MAX_TITLE_CHARACTERS - kind - 2\<close> never underflows because a kind's name is short.
\<close>

abbreviation (input) MAX_TITLE_CHARACTERS :: nat where "MAX_TITLE_CHARACTERS \<equiv> 120"
abbreviation (input) REPORT_TITLE_STACK_CHARACTERS :: nat where "REPORT_TITLE_STACK_CHARACTERS \<equiv> 8192"

datatype title_style = ReportTitle | IssueTitle

record report_title_input =
  title_style :: title_style
  title_kind :: report_kind
  title_url :: "str option"
  title_client_version :: str
  title_failure_reason :: "str option"
  title_stack_trace :: "str option"
  title_process :: "str option"
  title_platform :: "str option"
  title_signal :: "str option"

text \<open>The separator between the parts of a title (a middle dot between spaces) and the ellipsis.\<close>

definition DOT :: str where "DOT = [32, 183, 32]"
abbreviation (input) ELLIPSIS :: nat where "ELLIPSIS \<equiv> 8230"
abbreviation (input) PRIME :: nat where "PRIME \<equiv> 8242"

definition page_char :: "uchar \<Rightarrow> uchar" where
  "page_char c = (if c = 96 then PRIME else if is_control c then 32 else c)"

definition page_url :: "str \<Rightarrow> nat \<Rightarrow> str option" where
  "page_url url0 maximum =
    (let u = trim (takeWhile (\<lambda>c. c \<noteq> 63 \<and> c \<noteq> 35) url0)
     in if \<not> (starts_with (lit ''https://'') u \<or> starts_with (lit ''http://'') u) then None
        else
          let u = map page_char u
          in if length u \<le> maximum then Some u
             else Some (take (maximum - 1) u @ [ELLIPSIS]))"

definition is_expression_char :: "uchar \<Rightarrow> bool" where
  "is_expression_char c \<longleftrightarrow> is_ascii_alphanumeric c \<or>
    c \<in> set (lit '' _.:,()[]<>=!&|+-*/%'')"

definition strip_prefix_or :: "str \<Rightarrow> str \<Rightarrow> str" where
  "strip_prefix_or p s = (case strip_prefix p s of Some r \<Rightarrow> r | None \<Rightarrow> s)"

definition failed_expression :: "str \<Rightarrow> nat \<Rightarrow> str option" where
  "failed_expression reason room =
    (let maximum = min room 60
     in if maximum < 10 then None
        else Option.bind (rsplit_once_str (lit '' at '') reason) (\<lambda>(message, _).
          Option.bind (case strip_prefix (lit ''Verification failed:'') message of
              Some r \<Rightarrow> Some r
            | None \<Rightarrow> strip_prefix (lit ''Rust panic:'') message) (\<lambda>rest.
          let e = trim (strip_prefix_or (lit ''internal error: entered unreachable code:'') (trim rest))
          in if e \<in> set (map lit ['''', ''false'', ''true'', ''0'', ''1'', ''nullptr'']) \<or>
                \<not> list_all is_expression_char e \<or> contains_str (lit ''//'') e
             then None
             else if length e \<le> maximum then Some e
             else Some (trim_end (take (maximum - 1) e) @ [ELLIPSIS]))))"

definition is_plain_name :: "str \<Rightarrow> bool" where
  "is_plain_name name \<longleftrightarrow> list_all (\<lambda>c. is_ascii_alphanumeric c \<or> c = 46 \<or> c = 95 \<or> c = 45) name"

text \<open>The last piece of a path and the one before it.\<close>

definition source_location_from_failure :: "str \<Rightarrow> str option" where
  "source_location_from_failure reason =
    Option.bind (rsplit_once_str (lit '' at '') reason) (\<lambda>(_, location).
    Option.bind (rsplit_once 58 location) (\<lambda>(path0, line0).
    let (path, line) = (case rsplit_once 58 path0 of
          Some (p, before_column) \<Rightarrow>
            if line0 \<noteq> [] \<and> list_all is_ascii_digit line0 \<and>
               before_column \<noteq> [] \<and> list_all is_ascii_digit before_column
            then (p, before_column) else (path0, line0)
        | None \<Rightarrow> (path0, line0))
    in Option.bind (parse_unsigned u32_max line) (\<lambda>n.
       if n = 0 then None
       else
         let segments = rev (split_char 47 path);
             file = hd segments
         in if \<not> list_ex (\<lambda>ext. ends_with ext file) (map lit [''.cpp'', ''.h'', ''.mm'', ''.rs'', ''.c'']) \<or>
               \<not> is_plain_name file \<or> starts_with [47] path \<or> contains_str (lit ''../'') path \<or>
               92 \<in> set path
            then None
            else (case tl segments of
                directory # _ \<Rightarrow>
                  if directory \<noteq> [] \<and> is_plain_name directory \<and> byte_len directory + byte_len file < 80
                  then Some (directory @ [47] @ file @ [58] @ line)
                  else Some (file @ [58] @ line)
              | [] \<Rightarrow> Some (file @ [58] @ line)))))"

text \<open>The byte index after the last white space character plus one: the start the source slices from.
  It counts one byte for that character whatever its width.\<close>

definition after_last_whitespace :: "str \<Rightarrow> nat" where
  "after_last_whitespace s =
    (let tail = takeWhile (\<lambda>c. \<not> is_whitespace c) (rev s)
     in if length tail = length s then 0
        else byte_len (take (length s - length tail - 1) s) + 1)"

definition scoped_candidate :: "str \<Rightarrow> str option" where
  "scoped_candidate candidate =
    (case split_once_str (lit ''::'') candidate of
      Some (before, _) \<Rightarrow> byte_drop (after_last_whitespace before) candidate
    | None \<Rightarrow> Some candidate)"

fun last_segments :: "nat \<Rightarrow> str list \<Rightarrow> str" where
  "last_segments maximum [] = []"
| "last_segments maximum [s] = s"
| "last_segments maximum (s # t # r) =
    (let concise = join_str (lit ''::'') (s # t # r)
     in if maximum < length concise then last_segments maximum (t # r) else concise)"

definition is_title_name_char :: "(uchar \<Rightarrow> bool) \<Rightarrow> uchar \<Rightarrow> bool" where
  "is_title_name_char alnum c \<longleftrightarrow> is_alphanumeric alnum c \<or> c = 58 \<or> c = 95 \<or> c = 126"

text \<open>The outer option is the panic of the slice, the inner one the answer of the function.\<close>

definition concise_function_name :: "(uchar \<Rightarrow> bool) \<Rightarrow> str \<Rightarrow> nat \<Rightarrow> str option option" where
  "concise_function_name alnum symbol maximum =
    (let candidate = (case split_once_str (lit ''::CallableWrapper<'') symbol of
          Some (_, inner) \<Rightarrow> inner | None \<Rightarrow> symbol)
     in case scoped_candidate candidate of
          None \<Rightarrow> None
        | Some candidate \<Rightarrow>
          let name = trim (hd (split_char 40 (outside_brackets 0 candidate)))
          in if name = [] \<or> contains_str (lit ''://'') name \<or> \<not> list_all (is_title_name_char alnum) name
             then Some None
             else
               let segments = filter (\<lambda>s. s \<noteq> []) (split_str (lit ''::'') name)
               in if segments = [] then Some None
                  else
                    let concise = last_segments maximum (drop (length segments - 3) segments)
                    in Some (Some (if maximum < length concise
                        then take (maximum - 1) concise @ [ELLIPSIS] else concise)))"

definition is_context_char :: "(uchar \<Rightarrow> bool) \<Rightarrow> uchar \<Rightarrow> bool" where
  "is_context_char alnum c \<longleftrightarrow> is_alphanumeric alnum c \<or> c \<in> set (lit '' ._-+()'')"

definition safe_context :: "(uchar \<Rightarrow> bool) \<Rightarrow> str \<Rightarrow> nat \<Rightarrow> str option" where
  "safe_context alnum v maximum =
    (let t = trim v
     in if t = [] \<or> \<not> list_all (is_context_char alnum) t then None else Some (take maximum t))"

definition signal_name :: "(uchar \<Rightarrow> bool) \<Rightarrow> str \<Rightarrow> str option" where
  "signal_name alnum signal =
    safe_context alnum (takeWhile (\<lambda>c. c \<noteq> 40 \<and> c \<noteq> 32) (trim signal)) 40"

definition kind_name :: "report_kind \<Rightarrow> title_style \<Rightarrow> str" where
  "kind_name kind style =
    (case kind of
      Crash \<Rightarrow> lit ''Crash''
    | WebCompat \<Rightarrow> (case style of
        ReportTitle \<Rightarrow> lit ''Web compatibility'' | IssueTitle \<Rightarrow> lit ''Web compat''))"

text \<open>\<open>find_map\<close> over the relevant rows; the search ends at the first name and a panic ends it too.\<close>

fun first_name :: "(uchar \<Rightarrow> bool) \<Rightarrow> nat \<Rightarrow> stack_trace_row list \<Rightarrow> str option option" where
  "first_name alnum maximum [] = Some None"
| "first_name alnum maximum (r # rs) =
    (if \<not> row_relevant r then first_name alnum maximum rs
     else case concise_function_name alnum (row_symbol r) maximum of
         None \<Rightarrow> None
       | Some (Some name) \<Rightarrow> Some (Some name)
       | Some None \<Rightarrow> first_name alnum maximum rs)"

definition location_title :: "str \<Rightarrow> str \<Rightarrow> str \<Rightarrow> str" where
  "location_title kind reason location =
    (let title = kind @ lit '': '' @ location;
         room = MAX_TITLE_CHARACTERS - (length title + byte_len DOT)
     in case failed_expression reason room of
          Some e \<Rightarrow> title @ DOT @ e
        | None \<Rightarrow> title)"

definition context_parts :: "(uchar \<Rightarrow> bool) \<Rightarrow> report_title_input \<Rightarrow> str list" where
  "context_parts alnum i =
    take 2 (List.map_filter (\<lambda>v. Option.bind v (\<lambda>s. safe_context alnum s 40))
      [title_process i, title_platform i])
    @ (case Option.bind (title_signal i) (signal_name alnum) of Some s \<Rightarrow> [s] | None \<Rightarrow> [])"

definition build_part :: "(uchar \<Rightarrow> bool) \<Rightarrow> report_title_input \<Rightarrow> str" where
  "build_part alnum i =
    (case safe_context alnum (title_client_version i) 60 of Some s \<Rightarrow> s | None \<Rightarrow> lit ''Unknown build'')"

definition context_title :: "(uchar \<Rightarrow> bool) \<Rightarrow> report_title_input \<Rightarrow> str" where
  "context_title alnum i =
    (let kind = kind_name (title_kind i) (title_style i);
         context = (if context_parts alnum i = [] then [build_part alnum i] else context_parts alnum i)
     in case title_style i of
          ReportTitle \<Rightarrow> kind @ lit '' report'' @ DOT @ join_str DOT context
        | IssueTitle \<Rightarrow> kind @ lit '': '' @ join_str DOT context)"

text \<open>What the title is taken from, in the order tried: the reason and location of a crash, the page of a
  compatibility report, the first function named in the stack (\<open>None\<close> when naming it panics).\<close>

definition title_location :: "report_title_input \<Rightarrow> (str \<times> str) option" where
  "title_location i =
    (if title_kind i = Crash
     then Option.bind (title_failure_reason i)
       (\<lambda>r. map_option (Pair r) (source_location_from_failure r)) else None)"

definition title_page :: "report_title_input \<Rightarrow> str option" where
  "title_page i =
    (if title_kind i = WebCompat
     then Option.bind (title_url i) (\<lambda>u. page_url u
       (MAX_TITLE_CHARACTERS - length (kind_name (title_kind i) (title_style i)) - 2)) else None)"

definition title_name :: "(uchar \<Rightarrow> bool) \<Rightarrow> report_title_input \<Rightarrow> str option option" where
  "title_name alnum i =
    (case title_stack_trace i of
      None \<Rightarrow> Some None
    | Some stack \<Rightarrow> first_name alnum
        (MAX_TITLE_CHARACTERS - byte_len (kind_name (title_kind i) (title_style i)) - 2)
        (rows (parse_stack_trace alnum (take REPORT_TITLE_STACK_CHARACTERS stack))))"

definition generate_report_title :: "(uchar \<Rightarrow> bool) \<Rightarrow> report_title_input \<Rightarrow> str option" where
  "generate_report_title alnum i =
    (let kind = kind_name (title_kind i) (title_style i)
     in case title_location i of
          Some (reason, location) \<Rightarrow> Some (location_title kind reason location)
        | None \<Rightarrow>
          (case title_page i of
             Some u \<Rightarrow> Some (kind @ lit '': '' @ u)
           | None \<Rightarrow>
             (case title_name alnum i of
                None \<Rightarrow> None
              | Some (Some name) \<Rightarrow> Some (kind @ lit '': '' @ name)
              | Some None \<Rightarrow> Some (context_title alnum i))))"

section \<open>Lengths and characters\<close>

lemma length_trim_start: "length (trim_start s) \<le> length s"
  by (simp add: trim_start_def trim_start_matches_def length_dropWhile_le)

lemma length_trim_end: "length (trim_end s) \<le> length s"
  using length_dropWhile_le [of is_whitespace "rev s"] by (simp add: trim_end_def trim_end_matches_def)

lemma length_trim: "length (trim s) \<le> length s"
  using length_trim_start [of s] length_trim_end [of "trim_start s"] by (simp add: trim_def)

lemma page_url_length: "page_url u m = Some v \<Longrightarrow> 1 \<le> m \<Longrightarrow> length v \<le> m"
  by (auto simp: page_url_def Let_def split: if_splits)

definition is_page_char :: "uchar \<Rightarrow> bool" where
  "is_page_char c \<longleftrightarrow> \<not> is_control c \<and> c \<noteq> 96 \<and> c \<noteq> 63 \<and> c \<noteq> 35"

lemma page_char_ok: "c \<noteq> 63 \<Longrightarrow> c \<noteq> 35 \<Longrightarrow> is_page_char (page_char c)"
  by (auto simp: page_char_def is_page_char_def is_control_def)

lemma page_url_chars:
  assumes "page_url u m = Some v"
  shows "list_all is_page_char v"
proof -
  define t where "t = trim (takeWhile (\<lambda>c. c \<noteq> 63 \<and> c \<noteq> 35) u)"
  have "set t \<subseteq> set (takeWhile (\<lambda>c. c \<noteq> 63 \<and> c \<noteq> 35) u)" unfolding t_def by (rule set_trim)
  then have "c \<noteq> 63 \<and> c \<noteq> 35" if "c \<in> set t" for c
    using that set_takeWhileD [of c "\<lambda>c. c \<noteq> 63 \<and> c \<noteq> 35" u] by blast
  then have w: "\<forall>c \<in> set (map page_char t). is_page_char c" by (auto intro: page_char_ok)
  have "v = map page_char t \<or> v = take (m - 1) (map page_char t) @ [ELLIPSIS]"
    using assms by (auto simp: page_url_def t_def [symmetric] Let_def split: if_splits)
  moreover have "\<forall>c \<in> set (take (m - 1) (map page_char t)). is_page_char c"
    using w in_set_takeD [of _ "m - 1" "map page_char t"] by blast
  moreover have "is_page_char ELLIPSIS" by (simp add: is_page_char_def is_control_def)
  ultimately show ?thesis using w by (auto simp: list_all_iff)
qed

lemma failed_expression_length: "failed_expression r room = Some e \<Longrightarrow> length e \<le> room"
proof -
  assume *: "failed_expression r room = Some e"
  have te: "length (trim_end (take (min room 60 - 1) x) @ [ELLIPSIS]) \<le> room" if "\<not> min room 60 < 10" for x
    using length_trim_end [of "take (min room 60 - 1) x"] that
    by (simp add: min_def split: if_splits)
  from * show ?thesis
    unfolding failed_expression_def Let_def
    by (auto simp: bind_eq_Some_conv split: if_splits dest: te)
qed

lemma concise_function_name_length:
  assumes "concise_function_name alnum s m = Some (Some n)" "1 \<le> m"
  shows "length n \<le> m"
  using assms
  by (auto simp: concise_function_name_def Let_def split: option.splits if_splits)

lemma first_name_length:
  "\<lbrakk>first_name alnum m rs = Some (Some n); 1 \<le> m\<rbrakk> \<Longrightarrow> length n \<le> m"
  by (induction rs)
    (auto split: if_splits option.splits dest: concise_function_name_length)

lemma safe_context_length: "safe_context alnum v m = Some t \<Longrightarrow> length t \<le> m"
  by (auto simp: safe_context_def Let_def split: if_splits)

lemma kind_name_length: "length (kind_name k style) \<le> 17" "byte_len (kind_name k style) \<le> 17"
  by (cases k; cases style; simp add: kind_name_def text_eval)+

section \<open>When the slice panics\<close>

lemma byte_len_take: "byte_len (take n s) \<le> byte_len s"
proof -
  have "byte_len s = byte_len (take n s) + byte_len (drop n s)"
    by (metis append_take_drop_id byte_len_simps(3))
  then show ?thesis by simp
qed

lemma after_last_whitespace_boundary:
  assumes "\<forall>c \<in> set s. is_whitespace c \<longrightarrow> c < 128"
  shows "\<exists>a b. s = a @ b \<and> byte_len a = after_last_whitespace s"
proof -
  define tl' where "tl' = takeWhile (\<lambda>c. \<not> is_whitespace c) (rev s)"
  show ?thesis
  proof (cases "length tl' = length s")
    case True
    then show ?thesis
      by (intro exI [of _ "[]"] exI [of _ s]) (simp add: after_last_whitespace_def tl'_def)
  next
    case False
    have le: "length tl' \<le> length (rev s)" unfolding tl'_def by (rule length_takeWhile_le)
    with False have lt: "length tl' < length (rev s)" by simp
    let ?i = "length s - length tl' - 1"
    have i: "?i < length s" using lt by simp
    have "is_whitespace (rev s ! length tl')"
      using nth_length_takeWhile [of "\<lambda>c. \<not> is_whitespace c" "rev s"] lt tl'_def by auto
    then have ws: "is_whitespace (s ! ?i)" using lt by (simp add: rev_nth)
    then have "utf8_len (s ! ?i) = 1" using assms i by (simp add: utf8_len_ascii)
    moreover have "take (Suc ?i) s = take ?i s @ [s ! ?i]" by (rule take_Suc_conv_app_nth [OF i])
    ultimately have "byte_len (take (Suc ?i) s) = byte_len (take ?i s) + 1" by simp
    then show ?thesis
      using False by (intro exI [of _ "take (Suc ?i) s"] exI [of _ "drop (Suc ?i) s"])
        (simp add: after_last_whitespace_def tl'_def [symmetric] Let_def)
  qed
qed

lemma scoped_candidate_total:
  assumes "\<forall>c \<in> set s. is_whitespace c \<longrightarrow> c < 128"
  shows "scoped_candidate s \<noteq> None"
proof (cases "split_once_str (lit ''::'') s")
  case None
  then show ?thesis by (simp add: scoped_candidate_def)
next
  case (Some ab)
  then obtain before after where ab: "split_once_str (lit ''::'') s = Some (before, after)"
    by (cases ab) auto
  then have s: "s = before @ lit ''::'' @ after" by (rule split_once_str_append)
  then have "\<forall>c \<in> set before. is_whitespace c \<longrightarrow> c < 128" using assms by auto
  then obtain a b where "before = a @ b" "byte_len a = after_last_whitespace before"
    using after_last_whitespace_boundary by blast
  then have "byte_drop (after_last_whitespace before) s = Some (b @ lit ''::'' @ after)"
    using s by (auto simp: byte_drop_Some)
  with ab show ?thesis by (simp add: scoped_candidate_def)
qed

text \<open>A symbol whose white space is all ASCII never panics the title: the slice that drops the words
  before a qualified name always falls on a character boundary.\<close>

theorem concise_function_name_total:
  assumes "\<forall>c \<in> set symbol. is_whitespace c \<longrightarrow> c < 128"
  shows "concise_function_name alnum symbol maximum \<noteq> None"
proof -
  let ?candidate = "case split_once_str (lit ''::CallableWrapper<'') symbol of
    Some (_, inner) \<Rightarrow> inner | None \<Rightarrow> symbol"
  have "\<forall>c \<in> set ?candidate. is_whitespace c \<longrightarrow> c < 128"
  proof (cases "split_once_str (lit ''::CallableWrapper<'') symbol")
    case (Some ab)
    then obtain a b where ab: "split_once_str (lit ''::CallableWrapper<'') symbol = Some (a, b)"
      by (cases ab) auto
    from split_once_str_append [OF this] have "set b \<subseteq> set symbol" by (metis Un_iff set_append subsetI)
    with ab assms show ?thesis by auto
  qed (simp add: assms)
  from scoped_candidate_total [OF this] show ?thesis
    unfolding concise_function_name_def Let_def by (auto split: option.splits)
qed

theorem concise_function_name_total_witness:
  "concise_function_name (\<lambda>_. False) (lit ''void A::b()'') 100 \<noteq> None"
  by (rule concise_function_name_total) (simp add: lit_def)

lemma wide_space_title:
  "generate_report_title alnum
    \<lparr> title_style = ReportTitle, title_kind = Crash, title_url = None, title_client_version = v,
      title_failure_reason = None,
      title_stack_trace = Some (lit ''#0 0x1 void'' @ [160] @ lit ''A::b()''),
      title_process = None, title_platform = None, title_signal = None \<rparr> = None"
proof -
  let ?s = "lit ''void'' @ [160] @ lit ''A::b()''"
  let ?line = "lit ''#0 0x1 void'' @ [160] @ lit ''A::b()''"
  have name: "concise_function_name alnum ?s m = None" for m
    by (simp add: concise_function_name_def scoped_candidate_def after_last_whitespace_def text_eval)
  have "lines (take 8192 ?line) = [?line]" by (simp add: text_eval)
  moreover have "trim ?line \<noteq> NATIVE_STACK_HEADER" by (simp add: NATIVE_STACK_HEADER_def text_eval)
  moreover have "\<exists>r. parse_frame ?line = Some r \<and> row_symbol r = ?s \<and> row_relevant r"
    by (simp add: parse_frame_def address_frame_def symbol_frame_def first_word_def after_word_def
        is_frame_address_def is_generic_frame_def is_runtime_frame_def bare_symbol_def demangled_def
        RUNTIME_FUNCTIONS_def RUNTIME_RUST_PATHS_def GENERIC_PREFIXES_def text_eval)
  ultimately have "\<exists>r. rows (parse_stack_trace alnum (take 8192 ?line)) = [r] \<and>
      row_symbol r = ?s \<and> row_relevant r"
    by (auto simp: parse_stack_trace_def row_of_line_def empty_trace_def)
  then show ?thesis
    by (auto simp: generate_report_title_def title_location_def title_page_def title_name_def
        name [simplified])
qed

text \<open>The slice assumes that the white space before a qualified name is one byte wide. With a no-break
  space there (two bytes in UTF-8) the slice starts inside a character and panics, so one anonymous
  report with the frame "#0 0x1 void, no-break space, A::b()" makes every list that titles it panic.\<close>

theorem title_panics_on_wide_space:
  "generate_report_title alnum
    \<lparr> title_style = ReportTitle, title_kind = Crash, title_url = None, title_client_version = lit ''1'',
      title_failure_reason = None,
      title_stack_trace = Some (lit ''#0 0x1 void'' @ [160] @ lit ''A::b()''),
      title_process = None, title_platform = None, title_signal = None \<rparr> = None"
  by (rule wide_space_title)

section \<open>The length of a title\<close>

lemma length_join_str: "length (join_str sep ws) \<le> sum_list (map length ws) + length sep * (length ws - 1)"
  by (induction sep ws rule: join_str.induct) auto

lemma sum_list_bound: "\<forall>w \<in> set ws. length w \<le> m \<Longrightarrow> sum_list (map length ws) \<le> m * length ws"
  by (induction ws) auto

lemma join_str_bound:
  assumes "\<forall>w \<in> set ws. length w \<le> m"
  shows "length (join_str sep ws) \<le> m * length ws + length sep * (length ws - 1)"
  using length_join_str [of sep ws] sum_list_bound [OF assms] by linarith

lemma signal_name_length: "signal_name alnum s = Some n \<Longrightarrow> length n \<le> 40"
  by (auto simp: signal_name_def dest: safe_context_length)

lemma map_filter_context_length:
  "\<forall>w \<in> set (List.map_filter (\<lambda>v. Option.bind v (\<lambda>s. safe_context alnum s 40)) vs). length w \<le> 40"
  by (auto simp: map_filter_def bind_eq_Some_conv dest: safe_context_length)

lemma context_parts_bound:
  "(\<forall>w \<in> set (context_parts alnum i). length w \<le> 40) \<and> length (context_parts alnum i) \<le> 3"
proof (cases "Option.bind (title_signal i) (signal_name alnum)")
  case None
  then show ?thesis
    using map_filter_context_length [of alnum "[title_process i, title_platform i]"]
    by (auto simp: context_parts_def dest: in_set_takeD)
next
  case (Some n)
  then have "length n \<le> 40" by (auto simp: bind_eq_Some_conv dest: signal_name_length)
  with Some show ?thesis
    using map_filter_context_length [of alnum "[title_process i, title_platform i]"]
    by (auto simp: context_parts_def dest: in_set_takeD)
qed

lemma build_part_length: "length (build_part alnum i) \<le> 60"
  by (auto simp: build_part_def split: option.splits dest: safe_context_length)

lemma context_title_length: "length (context_title alnum i) \<le> 153"
proof -
  let ?d = "if context_parts alnum i = [] then [build_part alnum i] else context_parts alnum i"
  have d: "length (join_str DOT ?d) \<le> 126"
  proof (cases "context_parts alnum i = []")
    case True
    then show ?thesis using build_part_length [of alnum i] by simp
  next
    case False
    have "length (join_str DOT (context_parts alnum i)) \<le>
        40 * length (context_parts alnum i) + length DOT * (length (context_parts alnum i) - 1)"
      using context_parts_bound by (intro join_str_bound) blast
    also have "\<dots> \<le> 40 * 3 + length DOT * 2"
      using context_parts_bound [of alnum i] by (intro add_mono mult_le_mono) auto
    also have "\<dots> \<le> 126" by (simp add: DOT_def)
    finally show ?thesis using False by simp
  qed
  have "length (context_title alnum i) \<le> 17 + 10 + length (join_str DOT ?d)"
    using kind_name_length(1) [of "title_kind i" "title_style i"]
    by (cases "title_style i") (simp_all add: context_title_def DOT_def del: join_str.simps)
  with d show ?thesis by linarith
qed

text \<open>A title that does not name a source location is short: a page address or a function name is cut
  so that the whole title has at most 120 characters, and a title made from the process, platform and
  signal has at most 153.\<close>

theorem title_length:
  assumes title: "generate_report_title alnum i = Some t"
    and no_location: "title_kind i = WebCompat \<or>
      Option.bind (title_failure_reason i) source_location_from_failure = None"
  shows "length t \<le> MAX_TITLE_CHARACTERS \<or> (t = context_title alnum i \<and> length t \<le> 153)"
proof -
  let ?k = "kind_name (title_kind i) (title_style i)"
  have k: "length ?k \<le> 17" "byte_len ?k = length ?k"
    by (cases "title_kind i"; cases "title_style i"; simp add: kind_name_def text_eval)+
  have no_loc: "title_location i = None"
    using no_location by (cases "title_failure_reason i") (auto simp: title_location_def)
  show ?thesis
  proof (cases "title_page i")
    case (Some u)
    then have "length u \<le> 120 - length ?k - 2"
      using k by (auto simp: title_page_def bind_eq_Some_conv split: if_splits intro: page_url_length)
    moreover have "t = ?k @ lit '': '' @ u"
      using title by (simp add: generate_report_title_def Let_def no_loc Some)
    ultimately have "length t \<le> 120" using k(1) by simp
    then show ?thesis by simp
  next
    case no_page: None
    show ?thesis
    proof (cases "title_name alnum i")
      case None
      then show ?thesis using title by (simp add: generate_report_title_def Let_def no_loc no_page)
    next
      case (Some name)
      show ?thesis
      proof (cases name)
        case None
        then have "t = context_title alnum i"
          using title by (simp add: generate_report_title_def Let_def no_loc no_page Some)
        then show ?thesis using context_title_length [of alnum i] by simp
      next
        case (Some v)
        then have n: "title_name alnum i = Some (Some v)" using \<open>title_name alnum i = Some name\<close> by simp
        then have "length v \<le> 120 - byte_len ?k - 2"
          using k by (auto simp: title_name_def split: option.splits intro: first_name_length)
        moreover have "t = ?k @ lit '': '' @ v"
          using title by (simp add: generate_report_title_def Let_def no_loc no_page n)
        ultimately have "length t \<le> 120" using k by simp
        then show ?thesis by simp
      qed
    qed
  qed
qed

theorem title_length_witness:
  "length (lit ''Crash report'' @ DOT @ lit ''WebContent'') \<le> MAX_TITLE_CHARACTERS \<or>
    (lit ''Crash report'' @ DOT @ lit ''WebContent'' = context_title (\<lambda>_. False)
    \<lparr> title_style = ReportTitle, title_kind = Crash, title_url = None, title_client_version = lit ''1'',
      title_failure_reason = None, title_stack_trace = None, title_process = Some (lit ''WebContent''),
      title_platform = None, title_signal = None \<rparr> \<and>
     length (lit ''Crash report'' @ DOT @ lit ''WebContent'') \<le> 153)"
  by (rule title_length)
    (simp_all add: generate_report_title_def title_location_def title_page_def title_name_def
      context_title_def context_parts_def build_part_def kind_name_def safe_context_def
      is_context_char_def is_alphanumeric_def map_filter_simps text_eval DOT_def)

lemma digits_value_zeros: "digits_value (replicate n 48 @ [49]) = 1"
proof -
  have "foldl (\<lambda>k c. 10 * k + (c - 48)) 0 (replicate n 48) = (0 :: nat)" by (induction n) simp_all
  then show ?thesis by (simp add: digits_value_def)
qed

lemma location_with_zeros:
  "source_location_from_failure (lit ''x'' @ lit '' at '' @ lit ''a.c'' @ 58 # replicate n 48 @ [49]) =
    Some (lit ''a.c'' @ [58] @ replicate n 48 @ [49])"
proof -
  let ?line = "replicate n 48 @ [49] :: str"
  have digits: "list_all is_ascii_digit ?line" by (auto simp: list_all_iff is_ascii_digit_def)
  have a: "rsplit_once_str (lit '' at '') (lit ''x'' @ lit '' at '' @ lit ''a.c'' @ 58 # ?line) =
      Some (lit ''x'', lit ''a.c'' @ 58 # ?line)"
    by (rule rsplit_once_str_skip) (auto simp: lit_def)
  have b: "rsplit_once 58 (lit ''a.c'' @ 58 # ?line) = Some (lit ''a.c'', ?line)"
    by (auto simp: rsplit_once_Some)
  have c: "rsplit_once 58 (lit ''a.c'') = None"
    by (simp add: text_eval)
  obtain d r where line: "?line = d # r" by (cases ?line) auto
  have "is_ascii_digit d" using digits line by simp
  then have "d \<noteq> 43" by (auto simp: is_ascii_digit_def)
  then have e: "parse_unsigned u32_max ?line = Some 1"
    using digits digits_value_zeros [of n] by (simp add: parse_unsigned_def line)
  have f: "split_char 47 (lit ''a.c'') = [lit ''a.c'']" "ends_with (lit ''.c'') (lit ''a.c'')"
    "is_plain_name (lit ''a.c'')" "\<not> starts_with [47] (lit ''a.c'')"
    "\<not> contains_str (lit ''../'') (lit ''a.c'')" "92 \<notin> set (lit ''a.c'')"
    by (simp_all add: is_plain_name_def text_eval)
  show ?thesis
    unfolding source_location_from_failure_def
    by (simp add: a b c e f Let_def del: append.simps(2))
qed

text \<open>The title of a crash that names its source location is not bounded by the 120 characters the
  module sets: the line number is kept as it was written, and a failure reason whose line number has
  leading zeros makes the title as long as the reason.\<close>

theorem location_title_unbounded:
  "\<exists>i t. generate_report_title alnum i = Some t \<and> n < length t"
proof -
  let ?loc = "lit ''a.c'' @ [58] @ replicate n 48 @ [49]"
  let ?r = "lit ''x'' @ lit '' at '' @ lit ''a.c'' @ 58 # replicate n 48 @ [49]"
  let ?i = "\<lparr> title_style = ReportTitle, title_kind = Crash, title_url = None, title_client_version = [],
    title_failure_reason = Some ?r, title_stack_trace = None, title_process = None,
    title_platform = None, title_signal = None \<rparr>"
  have "title_location ?i = Some (?r, ?loc)"
    using location_with_zeros [of n] by (simp add: title_location_def)
  then have "generate_report_title alnum ?i = Some (location_title (kind_name Crash ReportTitle) ?r ?loc)"
    by (simp add: generate_report_title_def)
  moreover have "n < length (location_title (kind_name Crash ReportTitle) ?r ?loc)"
    by (simp add: location_title_def Let_def split: option.split)
  ultimately show ?thesis by blast
qed

end
