(* ===== verification/Discord_Message.thy ===== *)
theory Discord_Message
  imports Report_Title Diagnostic_Fields Identifiers
begin

text \<open>
  The message that announces a report in a Discord channel: the first half of
  \<open>src/src/application/discord_notifications.rs\<close> and the record types of
  \<open>src/src/infrastructure/discord/client.rs\<close>. The text of a JSON number, of an identifier and of a time
  are arguments. The numbers of frames are 32-bit words, as a release build adds them; \<open>None\<close> is the panic of
  \<open>concise_function_name\<close>.
\<close>

section \<open>The message\<close>

record discord_embed_field =
  embed_name :: str
  embed_value :: str
  embed_inline :: bool

record discord_embed =
  embed_title :: str
  embed_url :: str
  embed_description :: str
  embed_color :: nat
  embed_fields :: "discord_embed_field list"
  embed_timestamp :: str

record discord_webhook_message =
  message_username :: str
  message_embeds :: "discord_embed list"
  message_mentions :: "str list"

record 'num announced_report =
  ann_report :: uuid
  ann_title :: str
  ann_kind :: report_kind
  ann_client_version :: str
  ann_build :: str
  ann_fields :: "str \<rightharpoonup> 'num json"
  ann_created_at :: str

section \<open>Texts\<close>

definition truncate_text :: "str \<Rightarrow> nat \<Rightarrow> str" where
  "truncate_text v maximum_characters =
    (if length v \<le> maximum_characters then v else take (maximum_characters - 1) v @ [ELLIPSIS])"

abbreviation (input) BACKTICK :: nat where "BACKTICK \<equiv> 96"

primrec field_text :: "('num \<Rightarrow> str) \<Rightarrow> 'num json \<Rightarrow> str" where
  "field_text show_num (JsonString t) = t"
| "field_text show_num (JsonNumber n) = show_num n"
| "field_text show_num (JsonBool b) = (if b then lit ''true'' else lit ''false'')"

primrec json_as_str :: "'num json \<Rightarrow> str option" where
  "json_as_str (JsonString t) = Some t"
| "json_as_str (JsonNumber n) = None"
| "json_as_str (JsonBool b) = None"

definition commit_field :: "(str \<rightharpoonup> 'num json) \<Rightarrow> str \<Rightarrow> discord_embed_field option" where
  "commit_field fs github_repository =
    Option.bind (Option.bind (fs (lit ''git_commit'')) json_as_str) (\<lambda>v.
      let commit = trim v in
      if \<not> is_commit_id commit then None
      else
        let commit = map to_ascii_lowercase commit in
        Some \<lparr> embed_name = lit ''Commit'',
          embed_value = lit ''['' @ take 7 commit @ lit ''](https://github.com/'' @ github_repository @
            lit ''/commit/'' @ commit @ lit '')'',
          embed_inline = True \<rparr>)"

definition signal_text :: "('num \<Rightarrow> str) \<Rightarrow> (str \<rightharpoonup> 'num json) \<Rightarrow> string \<Rightarrow> nat \<Rightarrow> str option" where
  "signal_text show_num fs key maximum_characters =
    Option.bind (fs (lit key)) (\<lambda>v.
      let t = trim (field_text show_num v)
      in if t = [] then None else Some (truncate_text t maximum_characters))"

definition signal_field :: "('num \<Rightarrow> str) \<Rightarrow> (str \<rightharpoonup> 'num json) \<Rightarrow> discord_embed_field option" where
  "signal_field show_num fs =
    map_option (\<lambda>v. \<lparr> embed_name = lit ''Signal'', embed_value = v, embed_inline = True \<rparr>)
      (case (signal_text show_num fs ''signal'' 200, signal_text show_num fs ''signal_number'' 32) of
        (Some name, Some number) \<Rightarrow> Some (name @ lit '' ('' @ number @ lit '')'')
      | (Some v, None) \<Rightarrow> Some v
      | (None, Some v) \<Rightarrow> Some v
      | (None, None) \<Rightarrow> None)"

definition page_url_field :: "(str \<rightharpoonup> 'num json) \<Rightarrow> discord_embed_field option" where
  "page_url_field fs =
    Option.bind (Option.bind (fs (lit ''url'')) json_as_str) (\<lambda>v.
      let u = trim (takeWhile (\<lambda>c. c \<noteq> 63 \<and> c \<noteq> 35) v) in
      if u = [] then None
      else Some \<lparr> embed_name = lit ''Page URL'',
        embed_value = [BACKTICK] @ truncate_text (map page_char u) 1000 @ [BACKTICK],
        embed_inline = False \<rparr>)"

section \<open>The preview of a stack\<close>

record preview_line =
  line_first :: "32 word"
  line_last :: "32 word"
  line_symbol :: "str option"

definition line_frame_count :: "preview_line \<Rightarrow> nat" where
  "line_frame_count l = unat (line_last l - line_first l) + 1"

definition show_frame :: "32 word \<Rightarrow> str" where
  "show_frame n = 35 # show_nat (unat n)"

definition render_line :: "preview_line \<Rightarrow> str" where
  "render_line l =
    [BACKTICK] @ (if line_first l = line_last l then show_frame (line_first l)
      else show_frame (line_first l) @ [8211] @ show_frame (line_last l)) @ [BACKTICK, 32, BACKTICK] @
    (case line_symbol l of Some s \<Rightarrow> s | None \<Rightarrow> lit ''Unavailable'') @ [BACKTICK, 10]"

abbreviation (input) MAX_FUNCTION_CHARACTERS :: nat where "MAX_FUNCTION_CHARACTERS \<equiv> 96"

definition MORE_FRAMES :: str where
  "MORE_FRAMES = lit ''*More frames in the full report.*''"

definition STACK_HEADER :: str where
  "STACK_HEADER = lit ''**Stack trace**'' @ [10]"

definition preview_symbol :: "(uchar \<Rightarrow> bool) \<Rightarrow> stack_trace_row \<Rightarrow> str option option" where
  "preview_symbol alnum frame =
    (if row_unavailable frame then Some None
     else case concise_function_name alnum (row_symbol frame) MAX_FUNCTION_CHARACTERS of
       None \<Rightarrow> None
     | Some (Some name) \<Rightarrow> Some (Some name)
     | Some None \<Rightarrow> Some (Some (truncate_text (replace_char BACKTICK [PRIME] (row_symbol frame)) MAX_FUNCTION_CHARACTERS)))"

text \<open>A frame without a symbol joins the run before it when it is the next one.\<close>

definition joins_run :: "stack_trace_row \<Rightarrow> 32 word \<Rightarrow> preview_line list \<Rightarrow> bool" where
  "joins_run frame number ls \<longleftrightarrow>
    row_unavailable frame \<and> ls \<noteq> [] \<and> line_symbol (last ls) = None \<and> line_last (last ls) + 1 = number"

fun preview_lines ::
    "(uchar \<Rightarrow> bool) \<Rightarrow> bool \<Rightarrow> preview_line list \<Rightarrow> stack_trace_row list \<Rightarrow> preview_line list option" where
  "preview_lines alnum has_relevant_frames ls [] = Some ls"
| "preview_lines alnum has_relevant_frames ls (frame # frames) =
    (if has_relevant_frames \<and> \<not> row_top frame \<and> \<not> row_relevant frame
     then preview_lines alnum has_relevant_frames ls frames
     else
       let number = of_nat (the (row_number frame)) in
       if joins_run frame number ls
       then preview_lines alnum has_relevant_frames (butlast ls @ [(last ls)\<lparr> line_last := number \<rparr>]) frames
       else case preview_symbol alnum frame of
         None \<Rightarrow> None
       | Some symbol \<Rightarrow> preview_lines alnum has_relevant_frames
           (ls @ [\<lparr> line_first = number, line_last = number, line_symbol = symbol \<rparr>]) frames)"

text \<open>The lines that fit: the description, how many lines it holds and how many frames they stand for.\<close>

fun describe_lines :: "discord_configuration \<Rightarrow> str \<Rightarrow> nat \<Rightarrow> nat \<Rightarrow> preview_line list \<Rightarrow> str \<times> nat \<times> nat" where
  "describe_lines d description displayed_lines displayed_frames [] =
    (description, displayed_lines, displayed_frames)"
| "describe_lines d description displayed_lines displayed_frames (l # ls) =
    (if stack_trace_lines d \<le> displayed_lines then (description, displayed_lines, displayed_frames)
     else if stack_trace_characters d < length description + length (render_line l) + length MORE_FRAMES
     then (description, displayed_lines, displayed_frames)
     else describe_lines d (description @ render_line l) (displayed_lines + 1)
       (displayed_frames + line_frame_count l) ls)"

definition raw_stack_description :: "str \<Rightarrow> discord_configuration \<Rightarrow> str" where
  "raw_stack_description stack d =
    (let selected_lines = take (stack_trace_lines d) (lines stack);
         selected = replace_char BACKTICK [PRIME] (join_str [10] selected_lines);
         was_truncated = length (lines stack) > length selected_lines \<or> length selected > stack_trace_characters d;
         excerpt = truncate_text selected (stack_trace_characters d);
         excerpt = (if was_truncated \<and> \<not> ends_with [ELLIPSIS] excerpt then excerpt @ [ELLIPSIS] else excerpt)
     in STACK_HEADER @ lit ''```text'' @ [10] @ excerpt @ [10] @ lit ''```'')"

definition numbered_rows :: "parsed_stack_trace \<Rightarrow> stack_trace_row list" where
  "numbered_rows p = filter (\<lambda>r. row_number r \<noteq> None) (rows p)"

definition stack_description :: "(uchar \<Rightarrow> bool) \<Rightarrow> str \<Rightarrow> discord_configuration \<Rightarrow> str option" where
  "stack_description alnum stack d =
    (let parsed = parse_stack_trace alnum stack; frames = numbered_rows parsed in
     if frames = [] then Some (raw_stack_description stack d)
     else
       case preview_lines alnum (list_ex row_relevant frames) [] frames of
         None \<Rightarrow> None
       | Some ls \<Rightarrow>
         let (description, displayed_lines, displayed_frames) = describe_lines d STACK_HEADER 0 0 ls in
         Some (if displayed_lines = 0 then raw_stack_description stack d
           else if frame_count parsed > displayed_frames \<or> truncated parsed then description @ MORE_FRAMES
           else butlast description))"

section \<open>The announcement\<close>

definition report_color :: "report_kind \<Rightarrow> nat" where
  "report_color kind = (case kind of Crash \<Rightarrow> 14174794 | WebCompat \<Rightarrow> 6116828)"

definition message_description ::
    "(uchar \<Rightarrow> bool) \<Rightarrow> (str \<rightharpoonup> 'num json) \<Rightarrow> discord_configuration \<Rightarrow> str option" where
  "message_description alnum fs d =
    (case Option.bind (fs (lit ''stack'')) json_as_str of
      Some stack \<Rightarrow> stack_description alnum stack d
    | None \<Rightarrow> Some (case Option.bind (fs (lit ''description'')) json_as_str of
        Some description \<Rightarrow> lit ''**Description**'' @ [10] @
          replace_char BACKTICK [PRIME] (truncate_text description 2000)
      | None \<Rightarrow> lit ''A new report is ready for triage.''))"

definition plain_field :: "string \<Rightarrow> str \<Rightarrow> nat \<Rightarrow> discord_embed_field" where
  "plain_field name v maximum =
    \<lparr> embed_name = lit name, embed_value = truncate_text v maximum, embed_inline = True \<rparr>"

definition some_list :: "'a option \<Rightarrow> 'a list" where
  "some_list x = (case x of None \<Rightarrow> [] | Some a \<Rightarrow> [a])"

definition labelled_field :: "('num \<Rightarrow> str) \<Rightarrow> (str \<rightharpoonup> 'num json) \<Rightarrow> string \<times> string \<Rightarrow> discord_embed_field list" where
  "labelled_field show_num fs = (\<lambda>(key, label).
    some_list (map_option (\<lambda>v. plain_field label (field_text show_num v) 256) (fs (lit key))))"

definition message_fields :: "('num \<Rightarrow> str) \<Rightarrow> 'num announced_report \<Rightarrow> str \<Rightarrow> discord_embed_field list" where
  "message_fields show_num n github_repository =
    [plain_field ''Version'' (ann_client_version n) 256] @
    (if trim (ann_build n) \<noteq> [] then [plain_field ''Build'' (ann_build n) 512] else []) @
    some_list (commit_field (ann_fields n) github_repository) @
    concat (map (labelled_field show_num (ann_fields n)) [(''platform'', ''Platform''), (''architecture'', ''Architecture'')]) @
    some_list (signal_field show_num (ann_fields n)) @
    some_list (page_url_field (ann_fields n))"

definition report_message ::
    "(uchar \<Rightarrow> bool) \<Rightarrow> ('num \<Rightarrow> str) \<Rightarrow> (uuid \<Rightarrow> str) \<Rightarrow> 'num announced_report \<Rightarrow> str \<Rightarrow> str \<Rightarrow> discord_configuration \<Rightarrow>
      discord_webhook_message option" where
  "report_message alnum show_num show_uuid n base_url github_repository d =
    map_option (\<lambda>description.
      \<lparr> message_username = lit ''Ladybird Reports'',
        message_embeds = [
          \<lparr> embed_title = truncate_text (ann_title n) 256,
            embed_url = trim_end_matches (\<lambda>c. c = 47) base_url @ lit ''/reports/'' @ show_uuid (ann_report n),
            embed_description = description,
            embed_color = report_color (ann_kind n),
            embed_fields = message_fields show_num n github_repository,
            embed_timestamp = ann_created_at n \<rparr>],
        message_mentions = [] \<rparr>)
      (message_description alnum (ann_fields n) d)"

section \<open>Lengths\<close>

lemma length_truncate_text: "1 \<le> m \<Longrightarrow> length (truncate_text v m) \<le> m"
  by (simp add: truncate_text_def)

lemma set_truncate_text: "set (truncate_text v m) \<subseteq> insert ELLIPSIS (set v)"
  using set_take_subset [of "m - 1" v] by (auto simp: truncate_text_def)

lemma replace_char_absent: "c \<notin> set r \<Longrightarrow> c \<notin> set (replace_char c r s)"
  by (induction s) (auto simp: replace_char_def)

lemma length_replace_char [simp]: "length (replace_char c [e] s) = length s"
  by (induction s) (auto simp: replace_char_def)

lemma MORE_FRAMES_length [simp]: "length MORE_FRAMES = 33"
  by (simp add: MORE_FRAMES_def)

lemma STACK_HEADER_length [simp]: "length STACK_HEADER = 16"
  by (simp add: STACK_HEADER_def)

lemma describe_lines_length:
  assumes "describe_lines d description n m ls = (description', n', m')"
    and "n = 0 \<or> length description + 33 \<le> stack_trace_characters d"
  shows "n' = 0 \<or> length description' + 33 \<le> stack_trace_characters d"
  using assms
  by (induction d description n m ls rule: describe_lines.induct) (auto split: if_splits)

lemma raw_stack_description_length:
  assumes "1 \<le> stack_trace_characters d"
  shows "length (raw_stack_description stack d) \<le> stack_trace_characters d + 29"
  using length_truncate_text [OF assms]
  by (simp add: raw_stack_description_def Let_def le_SucI)

lemma stack_description_length:
  assumes "stack_description alnum stack d = Some t" "1 \<le> stack_trace_characters d"
  shows "length t \<le> stack_trace_characters d + 29"
proof -
  have shown: "n' = 0 \<or> length D + 33 \<le> stack_trace_characters d"
    if "describe_lines d STACK_HEADER 0 0 ls = (D, n', m')" for ls D n' m'
    using describe_lines_length [OF that] by simp
  show ?thesis
    using assms raw_stack_description_length [OF assms(2), of stack]
    by (auto simp: stack_description_def Let_def split: if_splits option.splits prod.splits dest!: shown)
qed

lemma message_description_length:
  assumes "message_description alnum fs d = Some t" "256 \<le> stack_trace_characters d"
  shows "length t \<le> max 2016 (stack_trace_characters d + 29)"
proof (cases "Option.bind (fs (lit ''stack'')) json_as_str")
  case None
  have "length (truncate_text v 2000) \<le> 2000" for v by (rule length_truncate_text) simp
  with assms None show ?thesis
    by (auto simp: message_description_def le_max_iff_disj split: option.splits)
next
  case (Some stack)
  with assms have "stack_description alnum stack d = Some t" by (simp add: message_description_def)
  from stack_description_length [OF this] assms(2) show ?thesis by simp
qed

definition field_characters :: "discord_embed_field \<Rightarrow> nat" where
  "field_characters f = length (embed_name f) + length (embed_value f)"

definition embed_characters :: "discord_embed \<Rightarrow> nat" where
  "embed_characters e = length (embed_title e) + length (embed_description e) +
    sum_list (map field_characters (embed_fields e))"

definition fields_within :: "nat \<Rightarrow> nat \<Rightarrow> discord_embed_field list \<Rightarrow> bool" where
  "fields_within largest weight fs \<longleftrightarrow>
    sum_list (map field_characters fs) \<le> weight \<and> list_all (\<lambda>f. length (embed_value f) \<le> largest) fs"

lemma fields_within_append:
  "\<lbrakk>fields_within l t fs; fields_within l u gs\<rbrakk> \<Longrightarrow> fields_within l (t + u) (fs @ gs)"
  by (auto simp: fields_within_def)

lemma fields_within_mono: "\<lbrakk>fields_within l t fs; l \<le> l'; t \<le> t'\<rbrakk> \<Longrightarrow> fields_within l' t' fs"
  by (auto simp: fields_within_def list_all_iff)

lemma plain_field_within: "1 \<le> m \<Longrightarrow> fields_within m (length n + m) [plain_field n v m]"
  by (simp add: fields_within_def field_characters_def plain_field_def length_truncate_text)

lemma labelled_field_within:
  "fields_within 256 (length label + 256) (labelled_field show_num fs (key, label))"
  using plain_field_within [of 256 label]
  by (cases "fs (lit key)") (auto simp: labelled_field_def some_list_def fields_within_def)

lemma commit_field_within:
  "fields_within (102 + length repo) (108 + length repo) (some_list (commit_field fs repo))"
proof (cases "commit_field fs repo")
  case (Some f)
  then obtain v where v: "is_commit_id (trim v)" and f: "length (embed_name f) = 6"
    "length (embed_value f) = 31 + length (take 7 (trim v)) + length repo + length (trim v)"
    by (auto simp: commit_field_def Let_def bind_eq_Some_conv split: if_splits)
  have "length (trim v) \<le> 64" using v length_le_byte_len [of "trim v"] by (auto simp: is_commit_id_def)
  then show ?thesis using Some f by (auto simp: some_list_def fields_within_def field_characters_def)
qed (simp add: some_list_def fields_within_def)

lemma signal_text_length:
  "\<lbrakk>signal_text show_num fs key m = Some t; 1 \<le> m\<rbrakk> \<Longrightarrow> length t \<le> m \<and> t \<noteq> []"
  by (auto simp: signal_text_def Let_def bind_eq_Some_conv truncate_text_def split: if_splits)

lemma signal_field_within: "fields_within 235 241 (some_list (signal_field show_num fs))"
  using signal_text_length [of show_num fs "''signal''" 200] signal_text_length [of show_num fs "''signal_number''" 32]
  by (cases "signal_text show_num fs ''signal'' 200"; cases "signal_text show_num fs ''signal_number'' 32")
    (auto simp: some_list_def fields_within_def field_characters_def signal_field_def)

lemma page_url_field_within: "fields_within 1002 1010 (some_list (page_url_field fs))"
proof (cases "page_url_field fs")
  case (Some f)
  then obtain u where "embed_name f = lit ''Page URL''" "embed_value f = [BACKTICK] @ truncate_text (map page_char u) 1000 @ [BACKTICK]"
    by (auto simp: page_url_field_def Let_def bind_eq_Some_conv split: if_splits)
  with Some length_truncate_text [of 1000 "map page_char u"] show ?thesis
    by (simp add: some_list_def fields_within_def field_characters_def)
qed (simp add: some_list_def fields_within_def)

lemma message_fields_within:
  assumes "length repo \<le> 922"
  shows "fields_within 1024 (2671 + length repo) (message_fields show_num n repo)"
proof -
  have build: "fields_within 512 517 (if trim (ann_build n) \<noteq> [] then [plain_field ''Build'' (ann_build n) 512] else [])"
    using plain_field_within [of 512 "''Build''"] by (simp add: fields_within_def)
  note parts = plain_field_within [of 256 "''Version''" "ann_client_version n"] build
    commit_field_within [of repo "ann_fields n"]
    labelled_field_within [of "''Platform''" show_num "ann_fields n" "''platform''"]
    labelled_field_within [of "''Architecture''" show_num "ann_fields n" "''architecture''"]
    signal_field_within [of show_num "ann_fields n"] page_url_field_within [of "ann_fields n"]
  show ?thesis using parts assms by (auto simp: message_fields_def fields_within_def list_all_iff)
qed

lemma message_fields_count: "length (message_fields show_num n repo) \<le> 7"
  by (auto simp: message_fields_def labelled_field_def some_list_def split: option.split)

text \<open>The message of an announcement keeps within what Discord takes (a title of 256 characters, a
  description of 4096, 25 fields of at most 1024, 6000 altogether) whatever the client sent, as long as the excerpt of the stack is at most 3000
  characters, its default, and the name of the repository is at most 44. It mentions nobody.\<close>

theorem announcement_fits:
  assumes "validate_discord parse_url c = Ok ()" "length (repository (github c)) \<le> 922"
    and "report_message alnum show_num show_uuid n base_url (repository (github c)) (discord c) = Some m"
    and "message_embeds m = [e]"
  shows "message_mentions m = [] \<and> length (embed_title e) \<le> 256 \<and> length (embed_description e) \<le> 3529 \<and>
    length (embed_fields e) \<le> 7 \<and> (\<forall>f \<in> set (embed_fields e). length (embed_value f) \<le> 1024) \<and>
    (stack_trace_characters (discord c) \<le> 3000 \<longrightarrow> length (repository (github c)) \<le> 44 \<longrightarrow> embed_characters e \<le> 6000)"
proof -
  note limits = discord_Ok [OF assms(1)]
  obtain description where d: "message_description alnum (ann_fields n) (discord c) = Some description"
    and m: "message_mentions m = []" and e: "e = \<lparr> embed_title = truncate_text (ann_title n) 256,
      embed_url = trim_end_matches (\<lambda>c. c = 47) base_url @ lit ''/reports/'' @ show_uuid (ann_report n),
      embed_description = description, embed_color = report_color (ann_kind n),
      embed_fields = message_fields show_num n (repository (github c)), embed_timestamp = ann_created_at n \<rparr>"
    using assms(3,4) by (auto simp: report_message_def)
  have "length description \<le> max 2016 (stack_trace_characters (discord c) + 29)"
    using d limits(6) by (rule message_description_length)
  moreover have "length (truncate_text (ann_title n) 256) \<le> 256" by (rule length_truncate_text) simp
  moreover note message_fields_within [OF assms(2), of show_num n] message_fields_count [of show_num n "repository (github c)"]
  ultimately show ?thesis
    using m limits by (auto simp: e embed_characters_def fields_within_def list_all_iff)
qed

section \<open>What the client's text may do\<close>

lemma truncate_text_no_backtick: "BACKTICK \<notin> set v \<Longrightarrow> BACKTICK \<notin> set (truncate_text v m)"
  using set_truncate_text [of v m] by auto

lemma last_segments_set: "set (last_segments m segments) \<subseteq> insert 58 (\<Union> (set ` set segments))"
proof (induction m segments rule: last_segments.induct)
  case (3 m s t r)
  have "set (join_str (lit ''::'') (s # t # r)) \<subseteq> insert 58 (\<Union> (set ` set (s # t # r)))" for s t r
  proof (induction r arbitrary: s t)
    case (Cons u r)
    show ?case using Cons [of t u] by (auto simp: lit_def)
  qed (auto simp: lit_def)
  with 3 show ?case by (auto simp: Let_def)
qed auto

lemma split_str_set: "w \<in> set (split_str p s) \<Longrightarrow> set w \<subseteq> set s"
proof (induction p s arbitrary: w rule: split_str.induct)
  case (1 p s)
  show ?case
  proof (cases "p \<noteq> [] \<and> split_once_str p s \<noteq> None")
    case True
    then obtain a b where ab: "split_once_str p s = Some (a, b)" by auto
    then have "w = a \<or> w \<in> set (split_str p b)" using 1(2) True by (subst (asm) split_str.simps) auto
    with 1(1) True ab split_once_str_append [OF ab] show ?thesis by fastforce
  next
    case False
    with 1(2) show ?thesis by (subst (asm) split_str.simps) (auto split: option.splits if_splits)
  qed
qed

lemma concise_function_name_no_backtick:
  assumes "concise_function_name alnum symbol m = Some (Some name)"
  shows "BACKTICK \<notin> set name"
proof -
  have "\<not> is_title_name_char alnum BACKTICK"
    by (simp add: is_title_name_char_def is_alphanumeric_def char_class_defs)
  then have clean: "BACKTICK \<notin> set w" if "w \<in> set (split_str (lit ''::'') n)" "list_all (is_title_name_char alnum) n" for w n
    using split_str_set [OF that(1)] that(2) by (auto simp: list_all_iff)
  have "BACKTICK \<notin> set (last_segments m (drop k (filter P (split_str (lit ''::'') n))))"
    if "list_all (is_title_name_char alnum) n" for k n P
    using last_segments_set [of m "drop k (filter P (split_str (lit ''::'') n))"] clean [OF _ that]
    by (auto dest!: in_set_dropD)
  with assms show ?thesis
    by (auto simp: concise_function_name_def Let_def split: option.splits if_splits dest!: in_set_takeD)
qed

lemma preview_symbol_no_backtick:
  "preview_symbol alnum frame = Some (Some s) \<Longrightarrow> BACKTICK \<notin> set s"
  by (auto simp: preview_symbol_def concise_function_name_no_backtick truncate_text_no_backtick replace_char_absent
      split: if_splits option.splits)

definition symbols_clean :: "preview_line list \<Rightarrow> bool" where
  "symbols_clean ls \<longleftrightarrow> (\<forall>l \<in> set ls. \<forall>s. line_symbol l = Some s \<longrightarrow> BACKTICK \<notin> set s)"

lemma symbols_clean_extend:
  "symbols_clean ls \<Longrightarrow> joins_run frame k ls \<Longrightarrow> symbols_clean (butlast ls @ [(last ls)\<lparr> line_last := number \<rparr>])"
  by (auto simp: symbols_clean_def joins_run_def dest: in_set_butlastD)

lemma symbols_clean_snoc:
  "\<lbrakk>symbols_clean ls; preview_symbol alnum frame = Some symbol\<rbrakk> \<Longrightarrow>
    symbols_clean (ls @ [\<lparr> line_first = i, line_last = j, line_symbol = symbol \<rparr>])"
  by (auto simp: symbols_clean_def dest: preview_symbol_no_backtick)

lemma preview_lines_clean:
  "\<lbrakk>preview_lines alnum has_rel ls frames = Some ls'; symbols_clean ls\<rbrakk> \<Longrightarrow> symbols_clean ls'"
proof (induction alnum has_rel ls frames rule: preview_lines.induct)
  case (2 alnum has_rel ls frame frames)
  then show ?case
    by (auto simp: Let_def symbols_clean_extend symbols_clean_snoc split: if_splits option.splits)
qed simp

lemma describe_lines_prefix:
  "describe_lines d description n m ls = (description', n', m') \<Longrightarrow>
    \<exists>k \<le> length ls. n' = n + k \<and> m' = m + sum_list (map line_frame_count (take k ls)) \<and>
      description' = description @ concat (map render_line (take k ls))"
proof (induction d description n m ls rule: describe_lines.induct)
  case (2 d description n m l ls)
  show ?case
  proof (cases "stack_trace_lines d \<le> n \<or> stack_trace_characters d < length description + length (render_line l) + length MORE_FRAMES")
    case True
    with 2(2) show ?thesis by (intro exI [of _ 0]) (auto split: if_splits)
  next
    case False
    with 2 obtain k where "k \<le> length ls" "n' = n + 1 + k"
      "m' = m + line_frame_count l + sum_list (map line_frame_count (take k ls))"
      "description' = (description @ render_line l) @ concat (map render_line (take k ls))"
      by (auto split: if_splits)
    then show ?thesis by (intro exI [of _ "Suc k"]) simp
  qed
qed simp

definition quoted_lines :: "str \<Rightarrow> bool" where
  "quoted_lines t \<longleftrightarrow> (\<exists>ls. symbols_clean ls \<and>
    (t = STACK_HEADER @ concat (map render_line ls) @ MORE_FRAMES \<or> t @ [10] = STACK_HEADER @ concat (map render_line ls)))"

definition quoted_block :: "str \<Rightarrow> bool" where
  "quoted_block t \<longleftrightarrow> (\<exists>x. BACKTICK \<notin> set x \<and>
    t = STACK_HEADER @ lit ''```text'' @ [10] @ x @ [10] @ lit ''```'')"

lemma raw_stack_description_quoted: "quoted_block (raw_stack_description stack d)"
  unfolding quoted_block_def raw_stack_description_def Let_def
  by (rule exI, rule conjI [OF _ refl]) (simp add: truncate_text_no_backtick replace_char_absent)

lemma render_line_snoc: "\<exists>r. render_line l = r @ [10]"
  by (simp add: render_line_def)

lemma concat_render_line_snoc:
  assumes "ls \<noteq> []"
  shows "butlast (h @ concat (map render_line ls)) @ [10] = h @ concat (map render_line ls)"
proof -
  obtain ls' l where "ls = ls' @ [l]" using assms by (cases ls rule: rev_cases) auto
  moreover obtain r where "render_line l = r @ [10]" using render_line_snoc by blast
  ultimately show ?thesis by (simp add: butlast_append)
qed

lemma stack_description_quoted:
  assumes "stack_description alnum stack d = Some t"
  shows "quoted_lines t \<or> quoted_block t"
proof (cases "numbered_rows (parse_stack_trace alnum stack) = []")
  case True
  with assms have "raw_stack_description stack d = t" by (simp add: stack_description_def Let_def)
  with raw_stack_description_quoted [of stack d] show ?thesis by simp
next
  case False
  let ?p = "parse_stack_trace alnum stack"
  obtain ls D n k where ls: "preview_lines alnum (list_ex row_relevant (numbered_rows ?p)) [] (numbered_rows ?p) = Some ls"
    and D: "describe_lines d STACK_HEADER 0 0 ls = (D, n, k)"
    using assms False by (auto simp: stack_description_def Let_def split: option.splits prod.splits)
  have t: "t = (if n = 0 then raw_stack_description stack d
      else if frame_count ?p > k \<or> truncated ?p then D @ MORE_FRAMES else butlast D)"
    using assms False ls D by (simp add: stack_description_def Let_def)
  obtain i where i: "n = i" "D = STACK_HEADER @ concat (map render_line (take i ls))" "i \<le> length ls"
    using describe_lines_prefix [OF D] by auto
  have "symbols_clean ls" using preview_lines_clean [OF ls] by (simp add: symbols_clean_def)
  then have "symbols_clean (take i ls)" by (auto simp: symbols_clean_def dest: in_set_takeD)
  moreover have "butlast D @ [10] = D" if "n \<noteq> 0"
    using concat_render_line_snoc [of "take i ls" STACK_HEADER] i that by (cases ls) auto
  ultimately show ?thesis
    using t i raw_stack_description_quoted [of stack d] by (cases "n = 0") (auto simp: quoted_lines_def)
qed

lemma page_char_quoted: "page_char c \<noteq> BACKTICK \<and> \<not> is_control (page_char c)"
  by (auto simp: page_char_def is_control_def)

lemma truncate_text_list_all: "\<lbrakk>list_all P v; P ELLIPSIS\<rbrakk> \<Longrightarrow> list_all P (truncate_text v m)"
  using set_truncate_text [of v m] by (auto simp: list_all_iff)

lemma page_url_field_quoted:
  assumes "page_url_field fs = Some f"
  shows "embed_name f = lit ''Page URL'' \<and> (\<exists>u. embed_value f = [BACKTICK] @ u @ [BACKTICK] \<and>
    list_all (\<lambda>c. c \<noteq> BACKTICK \<and> \<not> is_control c \<and> c \<noteq> 63 \<and> c \<noteq> 35) u)"
proof -
  let ?ok = "\<lambda>c. c \<noteq> BACKTICK \<and> \<not> is_control c \<and> c \<noteq> 63 \<and> c \<noteq> 35"
  obtain v where v: "embed_value f = [BACKTICK] @ truncate_text (map page_char (trim (takeWhile (\<lambda>c. c \<noteq> 63 \<and> c \<noteq> 35) v))) 1000 @ [BACKTICK]"
    and n: "embed_name f = lit ''Page URL''"
    using assms by (auto simp: page_url_field_def Let_def bind_eq_Some_conv split: if_splits)
  have "?ok (page_char c)" if "c \<in> set (trim (takeWhile (\<lambda>c. c \<noteq> 63 \<and> c \<noteq> 35) v))" for c
  proof -
    have "c \<in> set (takeWhile (\<lambda>c. c \<noteq> 63 \<and> c \<noteq> 35) v)" using set_trim that by blast
    then have "c \<noteq> 63 \<and> c \<noteq> 35" by (auto dest: set_takeWhileD)
    then show ?thesis by (auto simp: page_char_def is_control_def)
  qed
  then have "list_all ?ok (map page_char (trim (takeWhile (\<lambda>c. c \<noteq> 63 \<and> c \<noteq> 35) v)))"
    by (simp add: list_all_iff)
  moreover have "?ok ELLIPSIS" by (simp add: is_control_def)
  ultimately show ?thesis using v n truncate_text_list_all [of ?ok] by blast
qed

lemma to_ascii_lowercase_hexdigit: "is_ascii_hexdigit c \<Longrightarrow> is_ascii_hexdigit (to_ascii_lowercase c)"
  by (auto simp: to_ascii_lowercase_def char_class_defs)

definition commit_link :: "str \<Rightarrow> str \<Rightarrow> str" where
  "commit_link repo h = lit ''['' @ take 7 h @ lit ''](https://github.com/'' @ repo @ lit ''/commit/'' @ h @ lit '')''"

lemma commit_field_link:
  assumes "commit_field fs repo = Some f"
  shows "embed_name f = lit ''Commit'' \<and> (\<exists>h. embed_value f = commit_link repo h \<and> list_all is_ascii_hexdigit h)"
proof -
  obtain v where v: "is_commit_id (trim v)" "embed_name f = lit ''Commit''"
    "embed_value f = commit_link repo (map to_ascii_lowercase (trim v))"
    using assms by (auto simp: commit_field_def commit_link_def Let_def bind_eq_Some_conv split: if_splits)
  then have "list_all is_ascii_hexdigit (map to_ascii_lowercase (trim v))"
    by (simp add: is_commit_id_def list_all_iff to_ascii_lowercase_hexdigit)
  with v show ?thesis by blast
qed

lemma labelled_field_name:
  "f \<in> set (labelled_field show_num fs (key, label)) \<Longrightarrow> embed_name f = lit label"
  by (auto simp: labelled_field_def some_list_def plain_field_def split: option.splits)

lemma message_fields_links:
  assumes "f \<in> set (message_fields show_num n repo)"
  shows "embed_name f = lit ''Commit'' \<and> commit_field (ann_fields n) repo = Some f \<or>
    embed_name f = lit ''Page URL'' \<and> page_url_field (ann_fields n) = Some f \<or>
    embed_name f \<in> lit ` {''Version'', ''Build'', ''Platform'', ''Architecture'', ''Signal''}"
  using assms commit_field_link [of "ann_fields n" repo] page_url_field_quoted [of "ann_fields n"]
  by (auto simp: message_fields_def some_list_def plain_field_def signal_field_def dest!: labelled_field_name
      split: if_splits option.splits)

text \<open>C35: What an anonymous client writes into a stack, a commit or an address cannot leave its quotes: every
  symbol and every raw line of the stack stands between backticks it does not contain, the address of the
  page is in a code quote without query, fragment or control characters, and the commit is a link whose target is the configured
  repository and hexadecimal digits.\<close>

theorem client_text_stays_quoted:
  assumes "report_message alnum show_num show_uuid n base_url repo d = Some m" "message_embeds m = [e]"
  shows "(\<forall>stack. ann_fields n (lit ''stack'') = Some (JsonString stack) \<longrightarrow>
      quoted_lines (embed_description e) \<or> quoted_block (embed_description e)) \<and>
    (\<forall>f \<in> set (embed_fields e).
      (embed_name f = lit ''Commit'' \<longrightarrow> (\<exists>h. embed_value f = commit_link repo h \<and> list_all is_ascii_hexdigit h)) \<and>
      (embed_name f = lit ''Page URL'' \<longrightarrow> (\<exists>u. embed_value f = [BACKTICK] @ u @ [BACKTICK] \<and>
        list_all (\<lambda>c. c \<noteq> BACKTICK \<and> \<not> is_control c \<and> c \<noteq> 63 \<and> c \<noteq> 35) u)))"
proof -
  obtain description where d: "message_description alnum (ann_fields n) d = Some description"
    "embed_description e = description" "embed_fields e = message_fields show_num n repo"
    using assms by (auto simp: report_message_def)
  have "quoted_lines description \<or> quoted_block description"
    if "ann_fields n (lit ''stack'') = Some (JsonString stack)" for stack
    using d(1) that stack_description_quoted [of alnum stack d description] by (simp add: message_description_def)
  moreover have "\<exists>h. embed_value f = commit_link repo h \<and> list_all is_ascii_hexdigit h"
    if "f \<in> set (message_fields show_num n repo)" "embed_name f = lit ''Commit''" for f
    using message_fields_links [OF that(1)] that(2) commit_field_link [of "ann_fields n" repo f] by auto
  moreover have "\<exists>u. embed_value f = [BACKTICK] @ u @ [BACKTICK] \<and>
        list_all (\<lambda>c. c \<noteq> BACKTICK \<and> \<not> is_control c \<and> c \<noteq> 63 \<and> c \<noteq> 35) u"
    if "f \<in> set (message_fields show_num n repo)" "embed_name f = lit ''Page URL''" for f
    using message_fields_links [OF that(1)] that(2) page_url_field_quoted [of "ann_fields n" f] by auto
  ultimately show ?thesis unfolding d(2,3) by blast
qed

section \<open>Which frames the preview stands for\<close>

definition previewed :: "bool \<Rightarrow> stack_trace_row \<Rightarrow> bool" where
  "previewed has_relevant_frames frame \<longleftrightarrow> \<not> has_relevant_frames \<or> row_top frame \<or> row_relevant frame"

abbreviation frames_of :: "preview_line list \<Rightarrow> nat" where
  "frames_of ls \<equiv> sum_list (map line_frame_count ls)"

lemma line_frame_count_extend:
  assumes "line_last l + 1 = number" "line_frame_count l < 2 ^ 32"
  shows "line_frame_count (l\<lparr> line_last := number \<rparr>) = line_frame_count l + 1"
proof -
  have "unat (line_last l - line_first l) + 1 < 2 ^ 32" using assms(2) by (simp add: line_frame_count_def)
  then have "unat ((line_last l - line_first l) + 1) = unat (line_last l - line_first l) + 1"
    by (subst unat_word_ariths(1)) simp
  moreover have "line_last l + 1 - line_first l = (line_last l - line_first l) + 1" by simp
  ultimately have "unat (line_last l + 1 - line_first l) = unat (line_last l - line_first l) + 1" by metis
  with assms(1) show ?thesis by (auto simp: line_frame_count_def)
qed

lemma preview_lines_frames:
  assumes "preview_lines alnum has_rel ls frames = Some ls'" "frames_of ls + length frames < 2 ^ 32"
  shows "frames_of ls' = frames_of ls + length (filter (previewed has_rel) frames)"
  using assms
proof (induction alnum has_rel ls frames rule: preview_lines.induct)
  case (2 alnum has_rel ls frame frames)
  let ?number = "of_nat (the (row_number frame)) :: 32 word"
  show ?case
  proof (cases "has_rel \<and> \<not> row_top frame \<and> \<not> row_relevant frame")
    case True
    with 2 show ?thesis by (simp add: previewed_def)
  next
    case shown: False
    show ?thesis
    proof (cases "joins_run frame ?number ls")
      case True
      obtain init l where ls: "ls = init @ [l]" using True by (cases ls rule: rev_cases) (auto simp: joins_run_def)
      then have "line_frame_count l < 2 ^ 32" using 2(5) by simp
      then have "line_frame_count (l\<lparr> line_last := ?number \<rparr>) = line_frame_count l + 1"
        using True ls by (intro line_frame_count_extend) (simp_all add: joins_run_def)
      with 2 True shown ls show ?thesis by (simp add: previewed_def Let_def)
    next
      case False
      with 2 shown show ?thesis by (auto simp: previewed_def Let_def line_frame_count_def split: option.splits)
    qed
  qed
qed simp

lemma numbered_rows_length: "length (numbered_rows (parse_stack_trace alnum stack)) \<le> MAX_RENDERED_LINES"
proof -
  have "length (numbered_rows (parse_stack_trace alnum stack)) \<le> length (rows (parse_stack_trace alnum stack))"
    unfolding numbered_rows_def by (rule length_filter_le)
  also have "\<dots> \<le> MAX_RENDERED_LINES"
    using parse_lines_rows [of 0 alnum "lines stack" empty_trace] by (simp add: parse_stack_trace_def empty_trace_def)
  finally show ?thesis .
qed

lemma frame_count_numbered_rows:
  "frame_count (parse_stack_trace alnum stack) = length (numbered_rows (parse_stack_trace alnum stack))"
  using trace_ok_parse_lines [of empty_trace alnum 0 "lines stack"]
  by (simp add: parse_stack_trace_def empty_trace_def trace_ok_def numbered_rows_def)

lemma frames_of_pos: "l \<in> set ls \<Longrightarrow> 0 < frames_of ls"
  by (induction ls) (auto simp: line_frame_count_def)

lemma frames_of_take: "k \<le> length ls \<Longrightarrow> frames_of (take k ls) \<le> frames_of ls \<and> (frames_of (take k ls) = frames_of ls \<longleftrightarrow> k = length ls)"
proof -
  assume k: "k \<le> length ls"
  have "frames_of ls = frames_of (take k ls) + frames_of (drop k ls)"
    by (metis append_take_drop_id map_append sum_list_append)
  moreover have "frames_of (drop k ls) = 0 \<longleftrightarrow> drop k ls = []"
    using frames_of_pos [of "hd (drop k ls)" "drop k ls"] by (cases "drop k ls = []") (simp, metis list.set_sel(1) less_irrefl)
  ultimately show ?thesis using k by auto
qed

text \<open>The note that more frames are in the full report is honest: the lines of the preview stand for exactly the frames
  that are to be shown, with runs of frames without a symbol counted in full although their numbers are 32-bit, and the note is there exactly when a
  line did not fit, a frame was left out as not relevant, or the trace itself was cut.\<close>

theorem preview_counts_frames:
  assumes "preview_lines alnum has_rel [] (numbered_rows p) = Some ls"
    and "describe_lines d STACK_HEADER 0 0 ls = (description, displayed_lines, displayed_frames)"
    and "p = parse_stack_trace alnum stack"
  shows "frames_of ls = length (filter (previewed has_rel) (numbered_rows p)) \<and>
    displayed_frames = frames_of (take displayed_lines ls) \<and>
    (frame_count p > displayed_frames \<longleftrightarrow>
      displayed_lines < length ls \<or> (\<exists>frame \<in> set (numbered_rows p). \<not> previewed has_rel frame))"
proof -
  let ?frames = "numbered_rows p" and ?shown = "filter (previewed has_rel) (numbered_rows p)"
  have "length ?frames < 2 ^ 32" using numbered_rows_length [of alnum stack] assms(3) by simp
  then have all: "frames_of ls = length ?shown" using preview_lines_frames [OF assms(1)] by simp
  obtain k where k: "k \<le> length ls" "displayed_lines = k" "displayed_frames = frames_of (take k ls)"
    using describe_lines_prefix [OF assms(2)] by auto
  have count: "frame_count p = length ?frames" using assms(3) frame_count_numbered_rows by simp
  have complete: "length ?shown = length ?frames \<longleftrightarrow> (\<forall>frame \<in> set ?frames. previewed has_rel frame)"
    by (metis filter_True length_filter_less less_irrefl)
  have "length ?shown \<le> length ?frames" by (rule length_filter_le)
  moreover note frames_of_take [OF k(1)]
  ultimately have "frame_count p > displayed_frames \<longleftrightarrow> \<not> (length ?shown = length ?frames \<and> k = length ls)"
    using k(3) all count by linarith
  also have "\<dots> \<longleftrightarrow> k < length ls \<or> (\<exists>frame \<in> set ?frames. \<not> previewed has_rel frame)"
    using complete k(1) by auto
  finally show ?thesis using k all by simp
qed

section \<open>Concrete announcements\<close>

definition sample_fields :: "str \<rightharpoonup> nat json" where
  "sample_fields = map_of [
    (lit ''stack'', JsonString (lit ''#0 0x1a2b A::b() at lib.so'')),
    (lit ''git_commit'', JsonString (lit ''ABCDEF0123'')),
    (lit ''url'', JsonString (lit ''https://a.example/`x?token=1''))]"

definition sample_announcement :: "nat announced_report" where
  "sample_announcement =
    \<lparr> ann_report = 7, ann_title = lit ''Crash: A::b'', ann_kind = Crash, ann_client_version = lit ''1.0'',
      ann_build = [], ann_fields = sample_fields, ann_created_at = lit ''2026-01-01T00:00:00Z'' \<rparr>"

abbreviation sample_message where
  "sample_message \<equiv> report_message (\<lambda>_. False) show_nat (\<lambda>_. lit ''7'') sample_announcement (lit ''https://r.example/'')
    (repository (github (runtime_configuration_default :: nat runtime_configuration))) discord_configuration_default"

lemma sample_parsed:
  "parse_stack_trace (\<lambda>_. False) (lit ''#0 0x1a2b A::b() at lib.so'') = empty_trace
    \<lparr> rows := [\<lparr> row_number = Some 0, row_top = True, row_symbol = lit ''A::b()'', row_module = lit ''lib.so'',
      row_address = lit ''0x1a2b'', row_build_id = [], row_raw = [], row_relevant = True, row_unavailable = False \<rparr>],
      frame_count := 1, frame_keys := [lit ''b''] \<rparr>"
  by (simp add: parse_stack_trace_def empty_trace_def add_row_def row_of_line_def parse_frame_def
      address_frame_def symbol_frame_def first_word_def after_word_def is_frame_address_def
      NATIVE_STACK_HEADER_def is_generic_frame_def is_runtime_frame_def GENERIC_PREFIXES_def RUNTIME_FUNCTIONS_def
      RUNTIME_RUST_PATHS_def function_name_def outside_brackets.simps demangled_def bare_symbol_def is_symbol_offset_def
      is_name_char_def is_alphanumeric_def rsplit_str.simps text_eval)

lemma sample_message_defined: "sample_message \<noteq> None"
proof -
  have "Option.bind (sample_fields (lit ''stack'')) json_as_str = Some (lit ''#0 0x1a2b A::b() at lib.so'')"
    by (simp add: sample_fields_def)
  moreover have "concise_function_name (\<lambda>_. False) (lit ''A::b()'') MAX_FUNCTION_CHARACTERS \<noteq> None"
    by (simp add: concise_function_name_def scoped_candidate_def after_last_whitespace_def text_eval)
  ultimately show ?thesis
    by (auto simp: report_message_def message_description_def stack_description_def sample_announcement_def numbered_rows_def
        sample_parsed preview_symbol_def joins_run_def Let_def split: option.split prod.split)
qed

theorem announcement_fits_witness:
  "\<exists>m e. sample_message = Some m \<and> message_embeds m = [e] \<and> embed_characters e \<le> 6000 \<and> length (embed_fields e) \<le> 7"
proof -
  let ?c = "runtime_configuration_default :: nat runtime_configuration"
  obtain m where m: "sample_message = Some m" using sample_message_defined by auto
  then obtain e where e: "message_embeds m = [e]" by (auto simp: report_message_def)
  have c: "discord ?c = discord_configuration_default" "validate_discord (\<lambda>_. None) ?c = Ok ()"
    by (simp_all add: runtime_configuration_default_def discord_configuration_default_def validate_discord_def List.map_filter_def)
  have "length (repository (github ?c)) \<le> 44"
    by (simp add: runtime_configuration_default_def github_configuration_default_def)
  moreover have "stack_trace_characters discord_configuration_default = 3000"
    by (simp add: discord_configuration_default_def)
  ultimately show ?thesis
    using announcement_fits [OF c(2), unfolded c(1), OF _ m e] m e by auto
qed

theorem client_text_stays_quoted_witness:
  "\<exists>m e. sample_message = Some m \<and> message_embeds m = [e] \<and>
    (quoted_lines (embed_description e) \<or> quoted_block (embed_description e))"
proof -
  obtain m where m: "sample_message = Some m" using sample_message_defined by auto
  then obtain e where e: "message_embeds m = [e]" by (auto simp: report_message_def)
  have "ann_fields sample_announcement (lit ''stack'') = Some (JsonString (lit ''#0 0x1a2b A::b() at lib.so''))"
    by (simp add: sample_announcement_def sample_fields_def)
  with client_text_stays_quoted [OF m e] m e show ?thesis by blast
qed

theorem preview_counts_frames_witness:
  "\<exists>ls D n k. preview_lines (\<lambda>_. False) False [] (numbered_rows (parse_stack_trace (\<lambda>_. False) (lit ''#4 unavailable''))) = Some ls \<and>
    describe_lines discord_configuration_default STACK_HEADER 0 0 ls = (D, n, k) \<and> k = frames_of (take n ls)"
proof -
  let ?p = "parse_stack_trace (\<lambda>_. False) (lit ''#4 unavailable'')"
  have "numbered_rows ?p = [unavailable_frame 4 DASH []]"
    by (simp add: numbered_rows_def parse_stack_trace_def empty_trace_def add_row_def row_of_line_def parse_frame_def
        unavailable_frame_def NATIVE_STACK_HEADER_def text_eval)
  then obtain ls where ls: "preview_lines (\<lambda>_. False) False [] (numbered_rows ?p) = Some ls"
    by (simp add: unavailable_frame_def preview_symbol_def joins_run_def Let_def)
  obtain D n k where D: "describe_lines discord_configuration_default STACK_HEADER 0 0 ls = (D, n, k)"
    by (cases "describe_lines discord_configuration_default STACK_HEADER 0 0 ls") auto
  from preview_counts_frames [OF ls D refl] ls D show ?thesis by blast
qed

section \<open>Messages that Discord refuses\<close>

text \<open>Discord wants a value in every field of an embed. An empty platform is a text like any other to the
  validation of a submission, and the announcement of the report then has a field with an empty value.\<close>

theorem empty_platform_announced:
  fixes references :: "attachment_reference set" and l :: ingestion_limits
  assumes "ann_fields n (lit ''platform'') = Some (json_value (field_value.Text []))"
    and "report_message alnum show_num show_uuid n base_url repo d = Some m" "message_embeds m = [e]"
  shows "validate_field_value references l (field_value.Text []) = Ok () \<and>
    \<lparr> embed_name = lit ''Platform'', embed_value = [], embed_inline = True \<rparr> \<in> set (embed_fields e)"
proof -
  have "embed_fields e = message_fields show_num n repo" using assms(2,3) by (auto simp: report_message_def)
  moreover have "\<lparr> embed_name = lit ''Platform'', embed_value = [], embed_inline = True \<rparr> \<in>
      set (labelled_field show_num (ann_fields n) (''platform'', ''Platform''))"
    using assms(1) by (simp add: labelled_field_def some_list_def plain_field_def truncate_text_def)
  ultimately show ?thesis by (simp add: message_fields_def validate_field_value_def fail_if_def)
qed

theorem empty_platform_announced_witness:
  "\<exists>m e. report_message (\<lambda>_. False) show_nat (\<lambda>_. lit ''7'')
      (sample_announcement\<lparr> ann_fields := [lit ''platform'' \<mapsto> JsonString []] \<rparr>) [] [] discord_configuration_default = Some m \<and>
    message_embeds m = [e] \<and>
    \<lparr> embed_name = lit ''Platform'', embed_value = [], embed_inline = True \<rparr> \<in> set (embed_fields e)"
proof -
  let ?n = "sample_announcement\<lparr> ann_fields := [lit ''platform'' \<mapsto> JsonString []] \<rparr>"
  obtain m where m: "report_message (\<lambda>_. False) show_nat (\<lambda>_. lit ''7'') ?n [] [] discord_configuration_default = Some m"
    by (simp add: report_message_def message_description_def)
  then obtain e where e: "message_embeds m = [e]" by (auto simp: report_message_def)
  have "ann_fields ?n (lit ''platform'') = Some (json_value (field_value.Text []))" by simp
  from empty_platform_announced [OF this m e] m e show ?thesis by blast
qed

definition long_configuration :: "nat runtime_configuration" where
  "long_configuration = runtime_configuration_default
    \<lparr> discord := discord_configuration_default\<lparr> stack_trace_characters := 3500 \<rparr> \<rparr>"

definition long_text :: "nat \<Rightarrow> nat json" where
  "long_text n = JsonString (replicate n 97)"

definition long_announcement :: "nat announced_report" where
  "long_announcement =
    \<lparr> ann_report = 7, ann_title = lit ''Crash'', ann_kind = Crash, ann_client_version = replicate 256 97,
      ann_build = replicate 512 97,
      ann_fields = map_of [(lit ''stack'', long_text 4000), (lit ''platform'', long_text 256),
        (lit ''architecture'', long_text 256), (lit ''signal'', long_text 200), (lit ''url'', long_text 1000)],
      ann_created_at = lit ''2026-01-01T00:00:00Z'' \<rparr>"

lemma split_char_absent: "d \<notin> set s \<Longrightarrow> split_char d s = [s]"
  by (induction s) auto

lemma trim_replicate [simp]: "trim (replicate n 97) = replicate n (97 :: nat)"
  by (simp add: trim_def trim_start_def trim_end_def trim_start_matches_def trim_end_matches_def is_whitespace_def)

lemma lines_replicate: "lines (replicate (Suc n) 97) = [replicate (Suc n) 97]"
  by (simp add: lines_def split_char_absent del: replicate_Suc)

lemma raw_long_stack:
  "numbered_rows (parse_stack_trace alnum (replicate (Suc n) 97)) = []"
proof -
  have "parse_frame (replicate (Suc n) 97) = None"
    by (simp add: parse_frame_def trim_start_def trim_start_matches_def is_whitespace_def)
  moreover have "trim (replicate (Suc n) 97) \<noteq> NATIVE_STACK_HEADER"
    by (simp only: trim_replicate) (simp add: NATIVE_STACK_HEADER_def lit_def)
  ultimately show ?thesis
    by (simp add: numbered_rows_def parse_stack_trace_def lines_replicate empty_trace_def row_of_line_def raw_row_def
        del: replicate_Suc)
qed

lemma long_stack_description:
  assumes "stack_trace_characters d = 3500" "1 \<le> stack_trace_lines d"
  shows "\<exists>t. stack_description alnum (replicate 4000 97) d = Some t \<and> 3528 \<le> length t"
proof -
  have stack: "lines (replicate 4000 97) = [replicate 4000 97]"
    "numbered_rows (parse_stack_trace alnum (replicate 4000 97)) = []"
    using lines_replicate [of 3999] raw_long_stack [of alnum 3999] by (simp_all del: replicate_Suc)
  have "length (raw_stack_description (replicate 4000 97) d) \<ge> 3528"
    using assms by (cases "stack_trace_lines d")
      (simp_all add: raw_stack_description_def stack(1) Let_def truncate_text_def STACK_HEADER_def)
  then show ?thesis by (simp add: stack_description_def stack(2))
qed

text \<open>The settings allow an excerpt of 3500 characters. With it a report whose texts are as long as they may be gives an embed of more than
  6000 characters, which Discord refuses.\<close>

theorem announcement_too_long:
  "validate_discord parse_url long_configuration = Ok () \<and>
   (\<exists>m e. report_message alnum show_nat show_uuid long_announcement base_url (repository (github long_configuration))
      (discord long_configuration) = Some m \<and> message_embeds m = [e] \<and> 6000 < embed_characters e)"
proof -
  have c: "validate_discord parse_url long_configuration = Ok ()" "stack_trace_characters (discord long_configuration) = 3500"
    "1 \<le> stack_trace_lines (discord long_configuration)"
    by (simp_all add: long_configuration_def runtime_configuration_default_def discord_configuration_default_def
        validate_discord_def List.map_filter_def)
  obtain t where t: "stack_description alnum (replicate 4000 97) (discord long_configuration) = Some t" "3528 \<le> length t"
    using long_stack_description [OF c(2,3)] by blast
  have fs: "message_fields show_nat long_announcement repo = [plain_field ''Version'' (replicate 256 97) 256,
      plain_field ''Build'' (replicate 512 97) 512, plain_field ''Platform'' (replicate 256 97) 256,
      plain_field ''Architecture'' (replicate 256 97) 256,
      \<lparr> embed_name = lit ''Signal'', embed_value = replicate 200 97, embed_inline = True \<rparr>,
      \<lparr> embed_name = lit ''Page URL'', embed_value = [BACKTICK] @ replicate 1000 97 @ [BACKTICK], embed_inline = False \<rparr>]" for repo
    by (simp add: message_fields_def long_announcement_def long_text_def commit_field_def labelled_field_def some_list_def
        signal_field_def signal_text_def page_url_field_def truncate_text_def page_char_def is_control_def plain_field_def)
  have characters: "2500 \<le> sum_list (map field_characters (message_fields show_nat long_announcement repo))" for repo
    by (simp add: fs field_characters_def plain_field_def truncate_text_def)
  have "message_description alnum (ann_fields long_announcement) (discord long_configuration) = Some t"
    using t(1) by (simp add: message_description_def long_announcement_def long_text_def)
  with c t(2) characters [of "repository (github long_configuration)"] show ?thesis
    by (auto simp: report_message_def embed_characters_def)
qed

end
