(* ===== verification/Discord_Queue.thy ===== *)
theory Discord_Queue
  imports Stack_Index Discord_Message
begin

text \<open>
  The queue of announcements: \<open>src/src/infrastructure/database/admin/notifications.rs\<close>, the dispatcher of
  \<open>src/src/application/discord_notifications.rs\<close>, the answer of Discord as
  \<open>src/src/infrastructure/discord/client.rs\<close> reads it, and the title that
  \<open>src/src/infrastructure/database/admin/reports.rs\<close> generates for an announcement. The row of \<open>discord_delivery_state\<close> is
  added to the tables of the ingestion; its three lease columns are null together, as their constraint says, and are one column here.
  The post to Discord is an argument: for an address and a message it answers with a transport failure or a response, and the seconds it took.
\<close>

section \<open>Titles\<close>

record title_fields =
  ttl_failure :: "str option"
  ttl_platform :: "str option"
  ttl_architecture :: "str option"
  ttl_process :: "str option"
  ttl_signal :: "str option"
  ttl_url :: "str option"
  ttl_stack :: "str option"

definition no_title_fields :: title_fields where
  "no_title_fields = \<lparr> ttl_failure = None, ttl_platform = None, ttl_architecture = None, ttl_process = None,
    ttl_signal = None, ttl_url = None, ttl_stack = None \<rparr>"

text \<open>A row of the query: the key and text of a field, and whether it is a stack trace.\<close>

definition title_row ::
    "('num \<Rightarrow> str) \<Rightarrow> (str \<rightharpoonup> field_definition) \<Rightarrow> 'num stored_field \<Rightarrow> (str \<times> str \<times> bool) option" where
  "title_row show_num definitions f =
    (let configured = (case definitions (stored_key f) of
          Some d \<Rightarrow> definition_kind d = field_kind.StackTrace | None \<Rightarrow> False);
         is_stack = (stored_kind f = lit ''stack_trace'' \<or>
           stored_kind f = lit ''multiline'' \<and> (stored_key f = lit ''stack'' \<or> configured));
         t = json_text show_num (stored_value f);
         t = (if stored_key f = lit ''failure_reason'' then take 4096 t
           else if is_stack then take REPORT_TITLE_STACK_CHARACTERS t else take 128 t)
     in if stored_key f \<in> lit ` {''platform'', ''architecture'', ''process'', ''signal'', ''url'', ''stack'', ''failure_reason''} \<or>
          stored_kind f = lit ''stack_trace'' \<or> configured
        then Some (stored_key f, t, is_stack) else None)"

definition add_title_row :: "title_fields \<Rightarrow> str \<times> str \<times> bool \<Rightarrow> title_fields" where
  "add_title_row entry = (\<lambda>(key, t, is_stack).
    if key = lit ''failure_reason'' then entry\<lparr> ttl_failure := Some t \<rparr>
    else if key = lit ''platform'' then entry\<lparr> ttl_platform := Some t \<rparr>
    else if key = lit ''architecture'' then entry\<lparr> ttl_architecture := Some t \<rparr>
    else if key = lit ''process'' then entry\<lparr> ttl_process := Some t \<rparr>
    else if key = lit ''signal'' then entry\<lparr> ttl_signal := Some t \<rparr>
    else if key = lit ''url'' then entry\<lparr> ttl_url := Some t \<rparr>
    else if is_stack \<and> (ttl_stack entry = None \<or> key = lit ''stack'') then entry\<lparr> ttl_stack := Some t \<rparr>
    else entry)"

definition report_title_fields ::
    "('num \<Rightarrow> str) \<Rightarrow> (str \<rightharpoonup> field_definition) \<Rightarrow> 'num submission_row \<Rightarrow> title_fields" where
  "report_title_fields show_num definitions r =
    foldl add_title_row no_title_fields (List.map_filter (title_row show_num definitions) (sub_fields r))"

definition title_of_fields :: "(uchar \<Rightarrow> bool) \<Rightarrow> title_fields \<Rightarrow> report_kind \<Rightarrow> str \<Rightarrow> str option" where
  "title_of_fields alnum fs kind client =
    generate_report_title alnum
      \<lparr> title_style = ReportTitle, title_kind = kind, title_url = ttl_url fs, title_client_version = client,
        title_failure_reason = ttl_failure fs, title_stack_trace = ttl_stack fs, title_process = ttl_process fs,
        title_platform = ttl_platform fs, title_signal = ttl_signal fs \<rparr>"

section \<open>The queue\<close>

record delivery_lease =
  dl_id :: uuid
  dl_report :: report_id
  dl_expires :: int

record 'num delivery_db =
  queue_db :: "'num ingest_db"
  dlv_lease :: "delivery_lease option"
  dlv_paused :: "int option"
  dlv_failures :: int

abbreviation delivery_now :: "'num delivery_db \<Rightarrow> int" where
  "delivery_now s \<equiv> now (queue_db s)"

type_synonym ('num, 'a) dtx = "('num delivery_db, 'a) stx"

text \<open>A \<open>u64\<close> as the \<open>i32\<close> that is bound to a statement.\<close>

definition as_i32 :: "nat \<Rightarrow> int" where
  "as_i32 n = sint (of_nat n :: 32 word)"

definition dispatcher_is_available :: "'num delivery_db \<Rightarrow> bool" where
  "dispatcher_is_available s \<longleftrightarrow>
    (case dlv_lease s of None \<Rightarrow> True | Some l \<Rightarrow> dl_expires l \<le> delivery_now s) \<and>
    (case dlv_paused s of None \<Rightarrow> True | Some t \<Rightarrow> t \<le> delivery_now s)"

definition signature_pending ::
    "('num \<Rightarrow> str) \<Rightarrow> (str \<rightharpoonup> field_definition) \<Rightarrow> 'num submission_row \<Rightarrow> bool" where
  "signature_pending show_num definitions r \<longleftrightarrow>
    report_stack_trace show_num definitions r \<noteq> None \<and> signature_waits (sub_signature r)"

definition announceable ::
    "('num \<Rightarrow> str) \<Rightarrow> (str \<rightharpoonup> field_definition) \<Rightarrow> report_kind list \<Rightarrow> 'num ingest_db \<Rightarrow>
      notification_row \<Rightarrow> 'num submission_row option" where
  "announceable show_num definitions kinds s n =
    (if ntf_delivered n \<noteq> None then None
     else Option.bind (find (\<lambda>r. sub_report r = ntf_report n) (submissions s)) (\<lambda>r.
       Option.bind (report_of (ntf_report n) (tracker s)) (\<lambda>t.
       if kind_of_row r \<in> set kinds \<and> rpt_storage t = storage_state.Ready \<and> rpt_state t \<noteq> report_state.Rejected \<and>
          \<not> signature_pending show_num definitions r
       then Some r else None)))"

definition oldest_announceable ::
    "('num \<Rightarrow> str) \<Rightarrow> (str \<rightharpoonup> field_definition) \<Rightarrow> report_kind list \<Rightarrow> 'num ingest_db \<Rightarrow>
      (notification_row \<times> 'num submission_row) option" where
  "oldest_announceable show_num definitions kinds s =
    min_by_key (\<lambda>(n, r). (ntf_created n, ntf_report n))
      (List.map_filter (\<lambda>n. map_option (Pair n) (announceable show_num definitions kinds s n)) (notifications s))"

definition claim_row ::
    "('num \<Rightarrow> str) \<Rightarrow> (str \<rightharpoonup> field_definition) \<Rightarrow> nat \<Rightarrow> report_kind list \<Rightarrow> uuid \<Rightarrow>
      ('num, (notification_row \<times> 'num submission_row) option) dtx" where
  "claim_row show_num definitions lease_seconds kinds lease_id s =
    (if \<not> dispatcher_is_available s then Ok (None, s)
     else case oldest_announceable show_num definitions kinds (queue_db s) of
       None \<Rightarrow> Ok (None, s\<lparr> dlv_lease := None \<rparr>)
     | Some (n, r) \<Rightarrow> Ok (Some (n, r), s\<lparr> dlv_lease :=
         Some \<lparr> dl_id = lease_id, dl_report = ntf_report n, dl_expires = delivery_now s + as_i32 lease_seconds \<rparr> \<rparr>))"

text \<open>\<open>lease_id = $1 AND leased_report_id = $2\<close>, which is null without a lease: then the row does not decode.\<close>

definition lock_discord_delivery :: "report_id \<Rightarrow> uuid \<Rightarrow> ('num, bool) dtx" where
  "lock_discord_delivery rid lease_id =
    bind_tx (get_tx dlv_lease) (\<lambda>lease.
    lift_tx (ok_or (map_option (\<lambda>l. dl_id l = lease_id \<and> dl_report l = rid) lease)
      (Database ''unexpected null; try decoding as an `Option`'')))"

definition is_undelivered :: "report_id \<Rightarrow> notification_row \<Rightarrow> bool" where
  "is_undelivered rid n \<longleftrightarrow> ntf_report n = rid \<and> ntf_delivered n = None"

text \<open>An update of the undelivered notification of a report, with the constraints of the table; the answer is whether there is one.\<close>

definition notification_row_ok :: "notification_row \<Rightarrow> bool" where
  "notification_row_ok n \<longleftrightarrow> 0 \<le> ntf_attempts n \<and> ntf_attempts n \<le> 2147483647 \<and>
    (case ntf_failure n of None \<Rightarrow> True | Some t \<Rightarrow> length t \<le> 128) \<and>
    (case ntf_status n of None \<Rightarrow> True | Some k \<Rightarrow> 100 \<le> k \<and> k \<le> 599)"

definition update_undelivered :: "report_id \<Rightarrow> (notification_row \<Rightarrow> notification_row) \<Rightarrow> ('num, bool) dtx" where
  "update_undelivered rid f s =
    (let table = notifications (queue_db s);
         table' = map (\<lambda>n. if is_undelivered rid n then f n else n) table
     in bind_res (fail_if (list_ex (\<lambda>n. is_undelivered rid n \<and> \<not> notification_row_ok (f n)) table)
          (Database ''discord_report_notifications: a constraint is violated'')) (\<lambda>_.
        Ok (list_ex (is_undelivered rid) table, s\<lparr> queue_db := (queue_db s)\<lparr> notifications := table' \<rparr> \<rparr>)))"

definition update_delivery_state :: "int option \<Rightarrow> (int \<Rightarrow> int) \<Rightarrow> ('num, unit) dtx" where
  "update_delivery_state paused_until failures s =
    bind_res (fail_if (failures (dlv_failures s) > 2147483647) (Database ''integer out of range'')) (\<lambda>_.
    Ok ((), s\<lparr> dlv_lease := None, dlv_paused := paused_until, dlv_failures := failures (dlv_failures s) \<rparr>))"

definition finish_discord_notification :: "report_id \<Rightarrow> uuid \<Rightarrow> nat \<Rightarrow> ('num, bool) dtx" where
  "finish_discord_notification rid lease_id cooldown_seconds =
    bind_tx (lock_discord_delivery rid lease_id) (\<lambda>owns_lease.
    if \<not> owns_lease then return_tx False
    else
      bind_tx (get_tx delivery_now) (\<lambda>time.
      bind_tx (update_undelivered rid (\<lambda>n. n\<lparr> ntf_delivered := Some time, ntf_failure := None, ntf_status := None \<rparr>)) (\<lambda>delivered.
      bind_tx (update_delivery_state (if as_i32 cooldown_seconds = 0 then None else Some (time + as_i32 cooldown_seconds)) (\<lambda>_. 0)) (\<lambda>_.
      return_tx delivered))))"

definition defer_discord_notification ::
    "report_id \<Rightarrow> uuid \<Rightarrow> nat \<Rightarrow> int option \<Rightarrow> str \<Rightarrow> ('num, bool) dtx" where
  "defer_discord_notification rid lease_id delay_seconds http_status failure =
    bind_tx (lock_discord_delivery rid lease_id) (\<lambda>owns_lease.
    if \<not> owns_lease then return_tx False
    else
      bind_tx (get_tx delivery_now) (\<lambda>time.
      bind_tx (update_undelivered rid (\<lambda>n. n\<lparr> ntf_attempts := ntf_attempts n + 1, ntf_failure := Some failure,
        ntf_status := http_status \<rparr>)) (\<lambda>deferred.
      bind_tx (update_delivery_state (Some (time + as_i32 delay_seconds)) (\<lambda>k. k + 1)) (\<lambda>_.
      return_tx deferred))))"

section \<open>What Discord answers\<close>

abbreviation (input) MAX_DELAY_SECONDS :: nat where "MAX_DELAY_SECONDS \<equiv> 2147483647"

record discord_failure =
  fail_category :: str
  fail_status :: "int option"
  fail_retry_after :: "nat option"

text \<open>A response: its status, the two durations as the numbers their headers hold when they hold finite ones, and the number of requests that remain.\<close>

record discord_response =
  rsp_status :: nat
  rsp_retry_after :: "rat option"
  rsp_remaining :: "str option"
  rsp_reset_after :: "rat option"

definition duration_header :: "rat option \<Rightarrow> nat option" where
  "duration_header header =
    Option.bind header (\<lambda>seconds.
      if seconds < 0 then None else Some (min (nat (max 1 (ceiling seconds))) MAX_DELAY_SECONDS))"

definition decode_response :: "discord_response \<Rightarrow> (discord_failure, nat) res" where
  "decode_response r =
    (let retry_after = duration_header (rsp_retry_after r) in
     if \<not> (200 \<le> rsp_status r \<and> rsp_status r \<le> 299)
     then Err \<lparr> fail_category = lit ''response'', fail_status = Some (int (rsp_status r)), fail_retry_after = retry_after \<rparr>
     else
       let exhausted = (rsp_remaining r = Some (lit ''0''));
           cooldown = (if exhausted then (case duration_header (rsp_reset_after r) of None \<Rightarrow> 1 | Some n \<Rightarrow> n) else 0)
       in Ok cooldown)"

datatype transport_failure = Timeout | Connection | Request

primrec transport_category :: "transport_failure \<Rightarrow> string" where
  "transport_category Timeout = ''timeout''"
| "transport_category Connection = ''connection''"
| "transport_category Request = ''request''"

text \<open>The post answers for a parsed address, which gets \<open>wait=true\<close>, and takes some seconds.\<close>

type_synonym 'u poster = "'u \<Rightarrow> discord_webhook_message \<Rightarrow> (transport_failure + discord_response) \<times> nat"

definition send_message ::
    "(str \<Rightarrow> 'u option) \<Rightarrow> 'u poster \<Rightarrow> str \<Rightarrow> discord_webhook_message \<Rightarrow> (discord_failure, nat) res \<times> nat" where
  "send_message parse_url post address m =
    (case parse_url address of
      None \<Rightarrow> (Err \<lparr> fail_category = lit ''configuration'', fail_status = None, fail_retry_after = None \<rparr>, 0)
    | Some u \<Rightarrow> (case post u m of
        (Inl e, t) \<Rightarrow> (Err \<lparr> fail_category = lit (transport_category e), fail_status = None, fail_retry_after = None \<rparr>, t)
      | (Inr r, t) \<Rightarrow> (decode_response r, t)))"

section \<open>The dispatcher\<close>

text \<open>What the dispatcher uses of the outside: Unicode, the texts of numbers, identifiers and times, the field definitions, and the post.\<close>

record ('num, 'u) announcer =
  anc_alnum :: "uchar \<Rightarrow> bool"
  anc_show_text :: "'num \<Rightarrow> str"
  anc_show_json :: "'num \<Rightarrow> str"
  anc_show_id :: "uuid \<Rightarrow> str"
  anc_show_time :: "int \<Rightarrow> str"
  anc_definitions :: "str \<rightharpoonup> field_definition"
  anc_parse_url :: "str \<Rightarrow> 'u option"
  anc_post :: "'u poster"

record 'num pending_discord_notification =
  pdn_announced :: "'num announced_report"
  pdn_lease :: uuid
  pdn_attempts :: nat

definition stored_fields :: "'num submission_row \<Rightarrow> str \<rightharpoonup> 'num json" where
  "stored_fields r = map_of (map (\<lambda>f. (stored_key f, stored_value f)) (sub_fields r))"

definition generated_report_title :: "('num, 'u) announcer \<Rightarrow> 'num submission_row \<Rightarrow> str option" where
  "generated_report_title a r =
    title_of_fields (anc_alnum a) (report_title_fields (anc_show_text a) (anc_definitions a) r) (kind_of_row r) (sub_version r)"

text \<open>The notification that was claimed; \<open>None\<close> is the panic of its title. The lease is committed before.\<close>

definition pending_notification ::
    "('num, 'u) announcer \<Rightarrow> uuid \<Rightarrow> notification_row \<times> 'num submission_row \<Rightarrow> 'num pending_discord_notification option" where
  "pending_notification a lease_id = (\<lambda>(n, r).
    map_option (\<lambda>title. \<lparr>
      pdn_announced = \<lparr> ann_report = ntf_report n, ann_title = title, ann_kind = kind_of_row r, ann_client_version = sub_version r,
        ann_build = sub_build r, ann_fields = stored_fields r, ann_created_at = anc_show_time a (sub_created r) \<rparr>,
      pdn_lease = lease_id, pdn_attempts = nat (ntf_attempts n) \<rparr>) (generated_report_title a r))"

definition u64_mul :: "nat \<Rightarrow> nat \<Rightarrow> nat" where
  "u64_mul a b = min u64_max (a * b)"

definition retry_delay_seconds :: "discord_configuration \<Rightarrow> nat \<Rightarrow> nat option \<Rightarrow> nat" where
  "retry_delay_seconds d attempt_count server_delay =
    (let multiplier = 2 ^ min attempt_count 20;
         exponential_delay = min (u64_mul (initial_retry_seconds d) multiplier) (maximum_retry_seconds d)
     in max exponential_delay (case server_delay of None \<Rightarrow> 0 | Some t \<Rightarrow> t))"

definition defer_failed_delivery ::
    "'num pending_discord_notification \<Rightarrow> discord_configuration \<Rightarrow> discord_failure \<Rightarrow> 'num delivery_db \<Rightarrow> nat \<times> 'num delivery_db" where
  "defer_failed_delivery n d e s =
    (let delay = retry_delay_seconds d (pdn_attempts n) (fail_retry_after e)
     in (delay, snd (run_tx (defer_discord_notification (ann_report (pdn_announced n)) (pdn_lease n) delay
          (fail_status e) (fail_category e)) s)))"

definition pass_time :: "nat \<Rightarrow> 'num delivery_db \<Rightarrow> 'num delivery_db" where
  "pass_time t s = s\<lparr> queue_db := (queue_db s)\<lparr> tracker := (tracker (queue_db s))\<lparr> clock := delivery_now s + int t \<rparr> \<rparr> \<rparr>"

text \<open>After the claim: the message, the post and what is recorded of it. The delay to sleep for, or \<open>None\<close> when the task panics.\<close>

definition dispatch_notification ::
    "('num, 'u) announcer \<Rightarrow> 'net runtime_configuration \<Rightarrow> str \<Rightarrow> 'num pending_discord_notification \<Rightarrow> 'num delivery_db \<Rightarrow>
      nat option \<times> 'num delivery_db" where
  "dispatch_notification a c address n s =
    (case report_message (anc_alnum a) (anc_show_json a) (anc_show_id a) (pdn_announced n) (admin_base_url c)
        (repository (github c)) (discord c) of
      None \<Rightarrow> (None, s)
    | Some m \<Rightarrow> (case send_message (anc_parse_url a) (anc_post a) address m of
        (Inr cooldown, t) \<Rightarrow> (Some cooldown,
          snd (run_tx (finish_discord_notification (ann_report (pdn_announced n)) (pdn_lease n) cooldown) (pass_time t s)))
      | (Inl e, t) \<Rightarrow> map_prod Some id (defer_failed_delivery n (discord c) e (pass_time t s))))"

definition dispatch_once ::
    "('num, 'u) announcer \<Rightarrow> 'net runtime_configuration result \<Rightarrow> uuid \<Rightarrow> 'num delivery_db \<Rightarrow> nat option \<times> 'num delivery_db" where
  "dispatch_once a configuration lease_id s =
    (case configuration of
      Inl e \<Rightarrow> (Some 60, s)
    | Inr c \<Rightarrow>
      let d = discord c; kinds = announced_kinds d in
      if kinds = [] then (Some (poll_interval_seconds d), s)
      else
        (case run_tx (claim_row (anc_show_text a) (anc_definitions a) (min u64_max (request_timeout_seconds d + 30)) kinds lease_id) s of
          (Inl e, s') \<Rightarrow> (Some (poll_interval_seconds d), s')
        | (Inr None, s') \<Rightarrow> (Some (poll_interval_seconds d), s')
        | (Inr (Some row), s') \<Rightarrow>
            (case pending_notification a lease_id row of
              None \<Rightarrow> (None, s')
            | Some n \<Rightarrow>
              (case webhook_url d (ann_kind (pdn_announced n)) of
                None \<Rightarrow> (Some (poll_interval_seconds d), s')
              | Some address \<Rightarrow> dispatch_notification a c address n s'))))"

text \<open>The loop of the dispatcher alone, for a number of rounds: each takes a new lease and sleeps for the delay.
  It ends early with a panic.\<close>

fun dispatch_rounds ::
    "('num, 'u) announcer \<Rightarrow> 'net runtime_configuration result \<Rightarrow> uuid list \<Rightarrow> 'num delivery_db \<Rightarrow> bool \<times> 'num delivery_db" where
  "dispatch_rounds a configuration [] s = (True, s)"
| "dispatch_rounds a configuration (lease_id # lease_ids) s =
    (case dispatch_once a configuration lease_id s of
      (None, s') \<Rightarrow> (False, s')
    | (Some delay, s') \<Rightarrow> dispatch_rounds a configuration lease_ids (pass_time delay s'))"

section \<open>Delays\<close>

lemma as_i32_exact: "n \<le> MAX_DELAY_SECONDS \<Longrightarrow> as_i32 n = int n"
  by (simp add: as_i32_def signed_of_nat signed_take_bit_int_eq_self_iff)

lemma duration_header_le: "duration_header h = Some t \<Longrightarrow> 1 \<le> t \<and> t \<le> MAX_DELAY_SECONDS"
  by (auto simp: duration_header_def bind_eq_Some_conv split: if_splits)

lemma decode_response_le: "decode_response r = Ok cooldown \<Longrightarrow> cooldown \<le> MAX_DELAY_SECONDS"
  by (auto simp: decode_response_def Let_def split: if_splits option.splits dest: duration_header_le)

lemma send_message_cooldown: "send_message parse_url post address m = (Ok cooldown, t) \<Longrightarrow> cooldown \<le> MAX_DELAY_SECONDS"
  by (auto simp: send_message_def split: option.splits sum.splits prod.splits dest: decode_response_le)

text \<open>With valid settings the delay before a retry starts at the initial delay, doubles with every attempt up to the
  maximum, is never shorter than what Discord asks for, and fits the 32-bit number it is stored with: no product saturates and no cast wraps.\<close>

theorem retry_delay_bounds:
  assumes "validate_discord parse_url c = Ok ()"
  shows "let d = discord c; delay = retry_delay_seconds d attempts (duration_header header) in
    delay = max (min (initial_retry_seconds d * 2 ^ min attempts 20) (maximum_retry_seconds d))
      (case duration_header header of None \<Rightarrow> 0 | Some t \<Rightarrow> t) \<and>
    initial_retry_seconds d \<le> delay \<and> as_i32 delay = int delay \<and> 0 < as_i32 delay \<and>
    (duration_header header = None \<longrightarrow> delay \<le> maximum_retry_seconds d)"
proof -
  let ?d = "discord c" and ?server = "case duration_header header of None \<Rightarrow> 0 | Some t \<Rightarrow> t"
  let ?product = "initial_retry_seconds ?d * 2 ^ min attempts 20"
  note d = discord_Ok [OF assms]
  have "(2::nat) ^ min attempts 20 \<le> 2 ^ 20" by (rule power_increasing) simp_all
  moreover have "initial_retry_seconds ?d \<le> 86400" using d by simp
  ultimately have "?product \<le> 86400 * 2 ^ 20" using mult_le_mono by blast
  then have delay: "retry_delay_seconds ?d attempts (duration_header header) = max (min ?product (maximum_retry_seconds ?d)) ?server"
    by (simp add: retry_delay_seconds_def Let_def u64_mul_def)
  let ?m = "min ?product (maximum_retry_seconds ?d)"
  have "?server \<le> MAX_DELAY_SECONDS" using duration_header_le [of header] by (auto split: option.split)
  then have exact: "as_i32 (max ?m ?server) = int (max ?m ?server)"
    by (intro as_i32_exact) (use d(3) in simp)
  have low: "initial_retry_seconds ?d \<le> max ?m ?server" using d(2) by (intro max.coboundedI1) simp
  moreover have "0 < max ?m ?server" using low d(1) by linarith
  moreover have "duration_header header = None \<longrightarrow> max ?m ?server \<le> maximum_retry_seconds ?d" by simp
  ultimately show ?thesis unfolding Let_def delay exact of_nat_0_less_iff by blast
qed

theorem retry_delay_bounds_witness:
  "as_i32 (retry_delay_seconds (discord (runtime_configuration_default :: nat runtime_configuration)) 3 (duration_header (Some (5/4)))) =
    int (retry_delay_seconds (discord (runtime_configuration_default :: nat runtime_configuration)) 3 (duration_header (Some (5/4))))"
proof -
  have "validate_discord (\<lambda>_. None) (runtime_configuration_default :: nat runtime_configuration) = Ok ()"
    by (simp add: runtime_configuration_default_def discord_configuration_default_def validate_discord_def List.map_filter_def)
  from retry_delay_bounds [OF this, of 3 "Some (5/4)"] show ?thesis unfolding Let_def by blast
qed

section \<open>Claims and leases\<close>

lemma oldest_announceable_Some:
  assumes "oldest_announceable show_num definitions kinds s = Some (n, r)"
  shows "n \<in> set (notifications s)" "announceable show_num definitions kinds s n = Some r"
    and "\<And>n' r'. \<lbrakk>n' \<in> set (notifications s); announceable show_num definitions kinds s n' = Some r'\<rbrakk> \<Longrightarrow>
      (ntf_created n, ntf_report n) \<le> (ntf_created n', ntf_report n')"
  using min_by_key_minimal [OF assms [unfolded oldest_announceable_def]]
  by (auto simp: List.map_filter_def)

lemma announceable_Some:
  assumes "announceable show_num definitions kinds s n = Some r"
  shows "ntf_delivered n = None" "sub_report r = ntf_report n" "kind_of_row r \<in> set kinds"
    "\<exists>t. report_of (ntf_report n) (tracker s) = Some t \<and> rpt_storage t = storage_state.Ready \<and> rpt_state t \<noteq> report_state.Rejected"
    "report_stack_trace show_num definitions r \<noteq> None \<longrightarrow>
      (\<exists>g. sub_signature r = Some g \<and> sig_version g = STACK_SIGNATURE_VERSION \<and> sig_matched g \<noteq> None)"
  using assms
  by (auto simp: announceable_def bind_eq_Some_conv find_Some_iff signature_pending_def signature_waits_def
      split: if_splits option.splits)

text \<open>A claim takes the oldest report that may be announced: its files are stored, it is not rejected, its kind has a webhook, it was not delivered, and
  its stack has been matched against the known issues. It needs the queue to be free of a live lease and of a pause, and changes nothing but the lease.\<close>

theorem claim_takes_oldest:
  assumes "claim_row show_num definitions lease_seconds kinds lease_id s = Ok (Some (n, r), s')"
  shows "dispatcher_is_available s \<and> queue_db s' = queue_db s \<and>
    dlv_lease s' = Some \<lparr> dl_id = lease_id, dl_report = ntf_report n, dl_expires = delivery_now s + as_i32 lease_seconds \<rparr> \<and>
    ntf_delivered n = None \<and> kind_of_row r \<in> set kinds \<and> sub_report r = ntf_report n \<and>
    (\<exists>t. report_of (ntf_report n) (tracker (queue_db s)) = Some t \<and>
      rpt_storage t = storage_state.Ready \<and> rpt_state t \<noteq> report_state.Rejected) \<and>
    (report_stack_trace show_num definitions r \<noteq> None \<longrightarrow>
      (\<exists>g. sub_signature r = Some g \<and> sig_version g = STACK_SIGNATURE_VERSION \<and> sig_matched g \<noteq> None)) \<and>
    (\<forall>n' \<in> set (notifications (queue_db s)). announceable show_num definitions kinds (queue_db s) n' \<noteq> None \<longrightarrow>
      (ntf_created n, ntf_report n) \<le> (ntf_created n', ntf_report n'))"
proof -
  have available: "dispatcher_is_available s" and oldest: "oldest_announceable show_num definitions kinds (queue_db s) = Some (n, r)"
    and s': "s' = s\<lparr> dlv_lease := Some \<lparr> dl_id = lease_id, dl_report = ntf_report n,
      dl_expires = delivery_now s + as_i32 lease_seconds \<rparr> \<rparr>"
    using assms by (auto simp: claim_row_def split: if_splits option.splits)
  note o = oldest_announceable_Some [OF oldest]
  show ?thesis
    using available s' announceable_Some [OF o(2)] o(3) by auto
qed

lemma claim_row_Some:
  assumes "dispatcher_is_available s" "oldest_announceable show_num definitions kinds (queue_db s) = Some (n, r)"
  shows "claim_row show_num definitions lease_seconds kinds lease_id s = Ok (Some (n, r), s\<lparr> dlv_lease :=
    Some \<lparr> dl_id = lease_id, dl_report = ntf_report n, dl_expires = delivery_now s + as_i32 lease_seconds \<rparr> \<rparr>)"
  using assms by (simp add: claim_row_def)

text \<open>C15: One delivery at a time: while a lease lives nothing else is claimed, and a dispatcher that has lost its lease to another
  can neither record a delivery nor a failure, whenever its answer arrives. A dispatcher whose lease was cleared gets an error instead of the answer that it lost it.\<close>

theorem delivery_is_exclusive:
  assumes "dlv_lease s = Some l"
  shows "(delivery_now s < dl_expires l \<longrightarrow> claim_row show_num definitions lease_seconds kinds lease_id s = Ok (None, s)) \<and>
    (\<forall>rid lid. (lid, rid) \<noteq> (dl_id l, dl_report l) \<longrightarrow>
      finish_discord_notification rid lid cooldown s = Ok (False, s) \<and>
      defer_discord_notification rid lid delay st failure s = Ok (False, s) \<and>
      finish_discord_notification rid lid cooldown (s\<lparr> dlv_lease := None \<rparr>) =
        Err (Database ''unexpected null; try decoding as an `Option`''))"
proof -
  have lock: "lock_discord_delivery rid lid s = Ok (False, s)" if "(lid, rid) \<noteq> (dl_id l, dl_report l)" for rid lid
    using assms that by (auto simp: lock_discord_delivery_def tx_run)
  have none: "lock_discord_delivery rid lid (s\<lparr> dlv_lease := None \<rparr>) = Err (Database ''unexpected null; try decoding as an `Option`'')" for rid lid
    by (simp add: lock_discord_delivery_def tx_run)
  have "dispatcher_is_available s \<Longrightarrow> dl_expires l \<le> delivery_now s"
    using assms by (simp add: dispatcher_is_available_def)
  then show ?thesis
    using lock none by (auto simp: claim_row_def finish_discord_notification_def defer_discord_notification_def tx_run)
qed

text \<open>What a recorded delivery and a recorded failure do: with the lease, exactly the notification of the report changes, the lease ends and the whole
  queue pauses; a delivery that was recorded once is never claimed or recorded again.\<close>

lemma lock_own_lease:
  "dlv_lease s = Some l \<Longrightarrow> lock_discord_delivery (dl_report l) (dl_id l) s = Ok (True, s)"
  by (simp add: lock_discord_delivery_def tx_run)

lemma update_undelivered_Ok:
  "\<not> list_ex (\<lambda>n. is_undelivered rid n \<and> \<not> notification_row_ok (f n)) (notifications (queue_db s)) \<Longrightarrow>
    update_undelivered rid f s = Ok (list_ex (is_undelivered rid) (notifications (queue_db s)),
      s\<lparr> queue_db := (queue_db s)\<lparr> notifications := map (\<lambda>n. if is_undelivered rid n then f n else n) (notifications (queue_db s)) \<rparr> \<rparr>)"
  by (simp add: update_undelivered_def Let_def)

lemma finish_own_lease:
  assumes "dlv_lease s = Some l" "cooldown \<le> MAX_DELAY_SECONDS"
    and "list_all notification_row_ok (notifications (queue_db s))"
  shows "finish_discord_notification (dl_report l) (dl_id l) cooldown s =
    Ok (list_ex (is_undelivered (dl_report l)) (notifications (queue_db s)),
      s\<lparr> queue_db := (queue_db s)\<lparr> notifications := map (\<lambda>n. if is_undelivered (dl_report l) n
          then n\<lparr> ntf_delivered := Some (delivery_now s), ntf_failure := None, ntf_status := None \<rparr> else n) (notifications (queue_db s)) \<rparr>,
        dlv_lease := None, dlv_paused := (if cooldown = 0 then None else Some (delivery_now s + int cooldown)), dlv_failures := 0 \<rparr>)"
proof -
  have "\<not> list_ex (\<lambda>n. is_undelivered (dl_report l) n \<and> \<not> notification_row_ok
      (n\<lparr> ntf_delivered := Some t, ntf_failure := None, ntf_status := None \<rparr>)) (notifications (queue_db s))" for t
    using assms(3) by (auto simp: list_ex_iff list_all_iff notification_row_ok_def)
  from update_undelivered_Ok [OF this] show ?thesis
    by (simp add: finish_discord_notification_def tx_run lock_own_lease [OF assms(1)] as_i32_exact [OF assms(2)] update_delivery_state_def)
qed

section \<open>Rounds of the dispatcher\<close>

text \<open>What a round leaves alone: which notifications there are and which of them were delivered, and what is announced of them.\<close>

definition notification_key :: "notification_row \<Rightarrow> report_id \<times> int \<times> int option" where
  "notification_key n = (ntf_report n, ntf_created n, ntf_delivered n)"

definition same_queue :: "'num delivery_db \<Rightarrow> 'num delivery_db \<Rightarrow> bool" where
  "same_queue s s' \<longleftrightarrow>
    map notification_key (notifications (queue_db s')) = map notification_key (notifications (queue_db s)) \<and>
    submissions (queue_db s') = submissions (queue_db s) \<and>
    reports (tracker (queue_db s')) = reports (tracker (queue_db s))"

interpretation same_queue: tx_relation same_queue
  by unfold_locales (simp_all add: same_queue_def)

lemma same_queue_pass_time: "same_queue s (pass_time t s)"
  by (simp add: same_queue_def pass_time_def)

lemma update_undelivered_same:
  assumes "\<And>n. notification_key (f n) = notification_key n"
  shows "tx_respects same_queue (update_undelivered rid f)"
  using assms by (auto simp: tx_respects_def update_undelivered_def Let_def same_queue_def result_simps)

lemma update_delivery_state_same: "tx_respects same_queue (update_delivery_state paused failures)"
  by (auto simp: tx_respects_def update_delivery_state_def same_queue_def result_simps)

lemma lock_same: "tx_respects same_queue (lock_discord_delivery rid lid)"
  unfolding lock_discord_delivery_def
  by (intro same_queue.bind_respects same_queue.get_respects same_queue.lift_respects)

lemma defer_same: "tx_respects same_queue (defer_discord_notification rid lid delay st failure)"
proof -
  have "tx_respects same_queue (update_undelivered rid (\<lambda>n. n\<lparr> ntf_attempts := ntf_attempts n + 1, ntf_failure := Some failure, ntf_status := st \<rparr>))"
    by (rule update_undelivered_same) (simp add: notification_key_def)
  then show ?thesis
    unfolding defer_discord_notification_def
    by (auto intro!: same_queue.bind_respects same_queue.get_respects same_queue.return_respects lock_same update_delivery_state_same
        split: if_split)
qed

definition waiting_rows ::
    "('num \<Rightarrow> str) \<Rightarrow> (str \<rightharpoonup> field_definition) \<Rightarrow> report_kind list \<Rightarrow> 'num delivery_db \<Rightarrow> (notification_row \<times> 'num submission_row) list" where
  "waiting_rows show_num definitions kinds s =
    List.map_filter (\<lambda>n. map_option (Pair n) (announceable show_num definitions kinds (queue_db s) n)) (notifications (queue_db s))"

lemma oldest_of_waiting:
  "oldest_announceable show_num definitions kinds (queue_db s) =
    min_by_key (\<lambda>(n, r). (ntf_created n, ntf_report n)) (waiting_rows show_num definitions kinds s)"
  by (simp add: oldest_announceable_def waiting_rows_def)

lemma min_by_key_map: "min_by_key h (map g xs) = map_option g (min_by_key (\<lambda>x. h (g x)) xs)"
  by (induction xs) (auto split: option.split)

definition waiting_key :: "notification_row \<times> 'num submission_row \<Rightarrow> int \<times> report_id \<times> 'num submission_row" where
  "waiting_key = (\<lambda>(n, r). (ntf_created n, ntf_report n, r))"

lemma map_filter_pair_keyed:
  assumes "\<And>n n'. key n' = key n \<Longrightarrow> G n' = F n" "\<And>n n' r. key n' = key n \<Longrightarrow> h (n', r) = h (n, r)"
    and "map key ns' = map key ns"
  shows "map h (List.map_filter (\<lambda>n. map_option (Pair n) (G n)) ns') = map h (List.map_filter (\<lambda>n. map_option (Pair n) (F n)) ns)"
proof -
  have "length ns' = length ns" using assms(3) by (rule map_eq_imp_length_eq)
  then show ?thesis
    using assms(3)
  proof (induction ns' ns rule: list_induct2)
    case (Cons n' ns' n ns)
    then have "key n' = key n" by simp
    note assms(1) [OF this] assms(2) [OF this]
    with Cons show ?case by (cases "F n") simp_all
  qed simp
qed

lemma waiting_same:
  assumes "same_queue s s'"
  shows "map waiting_key (waiting_rows show_num definitions kinds s') = map waiting_key (waiting_rows show_num definitions kinds s)"
  unfolding waiting_rows_def
proof (rule map_filter_pair_keyed [where key = notification_key])
  show "announceable show_num definitions kinds (queue_db s') n' = announceable show_num definitions kinds (queue_db s) n"
    if "notification_key n' = notification_key n" for n n'
    using that assms by (simp add: announceable_def notification_key_def same_queue_def report_of_def)
  show "map notification_key (notifications (queue_db s')) = map notification_key (notifications (queue_db s))"
    using assms by (simp add: same_queue_def)
qed (simp add: waiting_key_def notification_key_def)

lemma oldest_of_waiting_key:
  "map_option waiting_key (min_by_key (\<lambda>(n, r). (ntf_created n, ntf_report n)) ws) =
    min_by_key (\<lambda>(c, i, r). (c, i)) (map waiting_key ws)"
  by (simp add: min_by_key_map waiting_key_def split_def)

lemma oldest_same:
  assumes "same_queue s s'" "oldest_announceable show_num definitions kinds (queue_db s) = Some (n, r)"
  shows "\<exists>n'. oldest_announceable show_num definitions kinds (queue_db s') = Some (n', r) \<and> ntf_report n' = ntf_report n"
proof -
  have key: "map_option waiting_key (oldest_announceable show_num definitions kinds (queue_db t)) =
      min_by_key (\<lambda>(c, i, r). (c, i)) (map waiting_key (waiting_rows show_num definitions kinds t))" for t
    by (simp only: oldest_of_waiting oldest_of_waiting_key)
  have "map_option waiting_key (oldest_announceable show_num definitions kinds (queue_db s')) = Some (waiting_key (n, r))"
    unfolding key waiting_same [OF assms(1)] unfolding key [symmetric] assms(2) by simp
  then show ?thesis by (auto simp: waiting_key_def)
qed

text \<open>What comes of announcing a row of the queue, for the row alone: \<open>None\<close> when a title or the message panics or the kind has no webhook.\<close>

definition announcement_result ::
    "('num, 'u) announcer \<Rightarrow> 'net runtime_configuration \<Rightarrow> report_id \<Rightarrow> 'num submission_row \<Rightarrow> ((discord_failure, nat) res \<times> nat) option" where
  "announcement_result a c rid r =
    Option.bind (generated_report_title a r) (\<lambda>title.
    Option.bind (webhook_url (discord c) (kind_of_row r)) (\<lambda>address.
    map_option (send_message (anc_parse_url a) (anc_post a) address)
      (report_message (anc_alnum a) (anc_show_json a) (anc_show_id a)
        \<lparr> ann_report = rid, ann_title = title, ann_kind = kind_of_row r, ann_client_version = sub_version r,
          ann_build = sub_build r, ann_fields = stored_fields r, ann_created_at = anc_show_time a (sub_created r) \<rparr>
        (admin_base_url c) (repository (github c)) (discord c))))"

definition record_result ::
    "discord_configuration \<Rightarrow> report_id \<Rightarrow> uuid \<Rightarrow> nat \<Rightarrow> (discord_failure, nat) res \<times> nat \<Rightarrow> 'num delivery_db \<Rightarrow> nat \<times> 'num delivery_db" where
  "record_result d rid lid attempts = (\<lambda>(result, t) s. case result of
      Inr cooldown \<Rightarrow> (cooldown, snd (run_tx (finish_discord_notification rid lid cooldown) (pass_time t s)))
    | Inl e \<Rightarrow> let delay = retry_delay_seconds d attempts (fail_retry_after e)
        in (delay, snd (run_tx (defer_discord_notification rid lid delay (fail_status e) (fail_category e)) (pass_time t s))))"

abbreviation oldest_of where
  "oldest_of a c s \<equiv> oldest_announceable (anc_show_text a) (anc_definitions a) (announced_kinds (discord c)) (queue_db s)"

definition leased :: "'net runtime_configuration \<Rightarrow> uuid \<Rightarrow> report_id \<Rightarrow> 'num delivery_db \<Rightarrow> 'num delivery_db" where
  "leased c lid rid s = s\<lparr> dlv_lease := Some \<lparr> dl_id = lid, dl_report = rid,
    dl_expires = delivery_now s + as_i32 (min u64_max (request_timeout_seconds (discord c) + 30)) \<rparr> \<rparr>"

lemma announced_kinds_not_empty:
  assumes "oldest_of a c s = Some (n, r)"
  shows "announced_kinds (discord c) \<noteq> []"
proof -
  have "kind_of_row r \<in> set (announced_kinds (discord c))"
    by (rule announceable_Some(3) [OF oldest_announceable_Some(2) [OF assms]])
  then show ?thesis by auto
qed

lemma dispatch_once_claimed:
  assumes "dispatcher_is_available s" "oldest_of a c s = Some (n, r)"
  shows "dispatch_once a (Ok c) lid s =
    (case pending_notification a lid (n, r) of
      None \<Rightarrow> (None, leased c lid (ntf_report n) s)
    | Some p \<Rightarrow>
      (case webhook_url (discord c) (ann_kind (pdn_announced p)) of
        None \<Rightarrow> (Some (poll_interval_seconds (discord c)), leased c lid (ntf_report n) s)
      | Some address \<Rightarrow> dispatch_notification a c address p (leased c lid (ntf_report n) s)))"
  using announced_kinds_not_empty [OF assms(2)]
  by (simp add: dispatch_once_def Let_def run_tx_def claim_row_Some [OF assms] leased_def [abs_def] split: option.split)

lemma dispatch_once_result:
  assumes "dispatcher_is_available s" "oldest_of a c s = Some (n, r)" "announcement_result a c (ntf_report n) r = Some result"
  shows "dispatch_once a (Ok c) lid s = map_prod Some id
    (record_result (discord c) (ntf_report n) lid (nat (ntf_attempts n)) result (leased c lid (ntf_report n) s))"
proof -
  obtain res t where result: "result = (res, t)" by (cases result)
  obtain title address m where parts: "generated_report_title a r = Some title" "webhook_url (discord c) (kind_of_row r) = Some address"
    "report_message (anc_alnum a) (anc_show_json a) (anc_show_id a)
        \<lparr> ann_report = ntf_report n, ann_title = title, ann_kind = kind_of_row r, ann_client_version = sub_version r,
          ann_build = sub_build r, ann_fields = stored_fields r, ann_created_at = anc_show_time a (sub_created r) \<rparr>
        (admin_base_url c) (repository (github c)) (discord c) = Some m"
    "send_message (anc_parse_url a) (anc_post a) address m = (res, t)"
    using assms(3) by (auto simp: announcement_result_def bind_eq_Some_conv result)
  show ?thesis
    unfolding dispatch_once_claimed [OF assms(1,2)] result
    by (cases res) (simp_all add: pending_notification_def parts dispatch_notification_def record_result_def defer_failed_delivery_def Let_def)
qed

lemma leased_same: "same_queue s (leased c lid rid s)"
  by (simp add: same_queue_def leased_def)

lemma record_failure_same: "same_queue s (snd (record_result d rid lid attempts (Err e, t) s))"
  unfolding record_result_def Let_def
  using same_queue.run_respects [OF defer_same] same_queue_pass_time same_queue.trans by simp blast

lemma busy_dispatcher:
  assumes "\<not> dispatcher_is_available s"
  shows "\<exists>delay. dispatch_once a (Ok c) lid s = (Some delay, s)"
  using assms by (simp add: dispatch_once_def Let_def run_tx_def claim_row_def)

lemma refused_round:
  assumes "oldest_of a c s = Some (n, r)" "announcement_result a c (ntf_report n) r = Some (Err e, t)"
  shows "\<exists>delay s'. dispatch_once a (Ok c) lid s = (Some delay, s') \<and> same_queue s s'"
proof (cases "dispatcher_is_available s")
  case True
  let ?s = "leased c lid (ntf_report n) s"
  have "same_queue s (snd (record_result (discord c) (ntf_report n) lid (nat (ntf_attempts n)) (Err e, t) ?s))"
    by (rule same_queue.trans [OF leased_same record_failure_same])
  with dispatch_once_result [OF True assms] show ?thesis by (cases "record_result (discord c) (ntf_report n) lid (nat (ntf_attempts n)) (Err e, t) ?s") auto
next
  case False
  with busy_dispatcher [OF False] same_queue.refl show ?thesis by blast
qed

text \<open>C14: The queue is announced from its oldest report alone: when Discord refuses that one for good, no other report is ever announced, in any number
  of rounds and whatever the others are. The report stays the oldest until a maintainer rejects or deletes it.\<close>

theorem refused_report_blocks_queue:
  assumes "oldest_of a c s = Some (n, r)" "announcement_result a c (ntf_report n) r = Some (Err e, t)"
  shows "fst (dispatch_rounds a (Ok c) lids s) \<and> same_queue s (snd (dispatch_rounds a (Ok c) lids s)) \<and>
    (\<exists>n'. oldest_of a c (snd (dispatch_rounds a (Ok c) lids s)) = Some (n', r) \<and> ntf_delivered n' = None)"
  using assms
proof (induction lids arbitrary: s n)
  case Nil
  then show ?case
    using announceable_Some(1) [OF oldest_announceable_Some(2) [OF Nil(1)]] by (simp add: same_queue.refl)
next
  case (Cons lid lids)
  obtain delay s' where s': "dispatch_once a (Ok c) lid s = (Some delay, s')" "same_queue s s'"
    using refused_round [OF Cons.prems] by blast
  have same: "same_queue s (pass_time delay s')" by (rule same_queue.trans [OF s'(2) same_queue_pass_time])
  obtain n' where n': "oldest_of a c (pass_time delay s') = Some (n', r)" "ntf_report n' = ntf_report n"
    using oldest_same [OF same Cons.prems(1)] by blast
  show ?case
    using Cons.IH [OF n'(1)] Cons.prems(2) n'(2) s'(1) same_queue.trans [OF same] by auto
qed

text \<open>A title that panics stops the dispatcher, and with it the process of the administration, which ends when one of its tasks does. The report is still the oldest of the queue
  when the process is started again, so the dispatcher stops again as soon as the lease has run out.\<close>

theorem panicking_title_stops_dispatcher:
  assumes "oldest_of a c s = Some (n, r)" "generated_report_title a r = None"
  shows "\<forall>s'. same_queue s s' \<longrightarrow> dispatcher_is_available s' \<longrightarrow>
    fst (dispatch_once a (Ok c) lid s') = None \<and> same_queue s (snd (dispatch_once a (Ok c) lid s'))"
proof (intro allI impI)
  fix s' assume same: "same_queue s s'" and available: "dispatcher_is_available s'"
  obtain n' where n': "oldest_of a c s' = Some (n', r)" using oldest_same [OF same assms(1)] by blast
  have "dispatch_once a (Ok c) lid s' = (None, leased c lid (ntf_report n') s')"
    unfolding dispatch_once_claimed [OF available n'] by (simp add: pending_notification_def assms(2))
  then show "fst (dispatch_once a (Ok c) lid s') = None \<and> same_queue s (snd (dispatch_once a (Ok c) lid s'))"
    using same_queue.trans [OF same leased_same] by simp
qed

section \<open>The queue empties\<close>

definition was_delivered :: "'num delivery_db \<Rightarrow> report_id \<Rightarrow> bool" where
  "was_delivered s rid \<longleftrightarrow> (\<exists>n \<in> set (notifications (queue_db s)). ntf_report n = rid \<and> ntf_delivered n \<noteq> None)"

abbreviation waiting_of where
  "waiting_of a c s \<equiv> waiting_rows (anc_show_text a) (anc_definitions a) (announced_kinds (discord c)) s"

abbreviation delivery_rows_ok :: "'num delivery_db \<Rightarrow> bool" where
  "delivery_rows_ok s \<equiv> list_all notification_row_ok (notifications (queue_db s))"

text \<open>The state after the round that announces a report.\<close>

definition delivered_at :: "int \<Rightarrow> report_id \<Rightarrow> notification_row \<Rightarrow> notification_row" where
  "delivered_at time rid n = (if is_undelivered rid n
    then n\<lparr> ntf_delivered := Some time, ntf_failure := None, ntf_status := None \<rparr> else n)"

lemma delivered_round:
  assumes "dispatcher_is_available s" "oldest_of a c s = Some (n, r)"
    and "announcement_result a c (ntf_report n) r = Some (Ok cooldown, t)" "delivery_rows_ok s"
  shows "\<exists>s'. dispatch_once a (Ok c) lid s = (Some cooldown, s') \<and> dispatcher_is_available (pass_time cooldown s') \<and>
    submissions (queue_db s') = submissions (queue_db s) \<and> reports (tracker (queue_db s')) = reports (tracker (queue_db s)) \<and>
    (\<exists>time. notifications (queue_db s') = map (delivered_at time (ntf_report n)) (notifications (queue_db s)))"
proof -
  let ?s = "pass_time t (leased c lid (ntf_report n) s)"
  obtain title address m where "send_message (anc_parse_url a) (anc_post a) address m = (Ok cooldown, t)"
    using assms(3) by (auto simp: announcement_result_def bind_eq_Some_conv)
  then have "cooldown \<le> MAX_DELAY_SECONDS" by (rule send_message_cooldown)
  moreover define l where "l = the (dlv_lease ?s)"
  have l: "dlv_lease ?s = Some l" "dl_id l = lid" "dl_report l = ntf_report n"
    by (simp_all add: l_def pass_time_def leased_def)
  ultimately have finish: "finish_discord_notification (ntf_report n) lid cooldown ?s =
    Ok (list_ex (is_undelivered (ntf_report n)) (notifications (queue_db ?s)),
      ?s\<lparr> queue_db := (queue_db ?s)\<lparr> notifications := map (delivered_at (delivery_now ?s) (ntf_report n)) (notifications (queue_db ?s)) \<rparr>,
        dlv_lease := None, dlv_paused := (if cooldown = 0 then None else Some (delivery_now ?s + int cooldown)), dlv_failures := 0 \<rparr>)"
    using finish_own_lease [OF l(1), of cooldown] assms(4) by (simp add: pass_time_def leased_def delivered_at_def [abs_def])
  show ?thesis
    unfolding dispatch_once_result [OF assms(1-3)] record_result_def
    by (simp add: run_tx_def finish) (auto simp: pass_time_def leased_def dispatcher_is_available_def)
qed

lemma announceable_delivered_at:
  assumes "submissions s' = submissions s" "reports (tracker s') = reports (tracker s)"
  shows "announceable show_num definitions kinds s' (delivered_at time rid n) =
    (if is_undelivered rid n then None else announceable show_num definitions kinds s n)"
  using assms by (simp add: announceable_def delivered_at_def report_of_def)

lemma waiting_after_delivery:
  assumes "submissions (queue_db s') = submissions (queue_db s)" "reports (tracker (queue_db s')) = reports (tracker (queue_db s))"
    and "notifications (queue_db s') = map (delivered_at time rid) (notifications (queue_db s))"
  shows "waiting_rows show_num definitions kinds s' =
    filter (\<lambda>(n, r). ntf_report n \<noteq> rid) (waiting_rows show_num definitions kinds s)"
proof -
  have "List.map_filter (\<lambda>n. map_option (Pair n) (announceable show_num definitions kinds (queue_db s') n)) (map (delivered_at time rid) ns) =
      filter (\<lambda>(n, r). ntf_report n \<noteq> rid)
        (List.map_filter (\<lambda>n. map_option (Pair n) (announceable show_num definitions kinds (queue_db s) n)) ns)" for ns
  proof (induction ns)
    case (Cons n ns)
    have "announceable show_num definitions kinds (queue_db s) n = None" if "ntf_delivered n \<noteq> None"
      using that by (simp add: announceable_def)
    moreover have "delivered_at time rid n = n" if "\<not> is_undelivered rid n" using that by (simp add: delivered_at_def)
    ultimately show ?case
      using Cons announceable_delivered_at [OF assms(1,2), of show_num definitions kinds time rid n]
      by (cases "is_undelivered rid n"; cases "announceable show_num definitions kinds (queue_db s) n")
        (auto simp: is_undelivered_def)
  qed simp
  then show ?thesis by (simp add: waiting_rows_def assms(3))
qed

lemma idle_round:
  assumes "waiting_of a c s = []"
  shows "\<exists>delay s'. dispatch_once a (Ok c) lid s = (Some delay, s') \<and> queue_db s' = queue_db s"
proof -
  have "oldest_of a c s = None" using assms by (simp add: oldest_of_waiting)
  then show ?thesis by (auto simp: dispatch_once_def Let_def run_tx_def claim_row_def)
qed

lemma idle_rounds:
  assumes "waiting_of a c s = []"
  shows "fst (dispatch_rounds a (Ok c) lids s) \<and> waiting_of a c (snd (dispatch_rounds a (Ok c) lids s)) = [] \<and>
    notifications (queue_db (snd (dispatch_rounds a (Ok c) lids s))) = notifications (queue_db s)"
  using assms
proof (induction lids arbitrary: s)
  case (Cons lid lids)
  obtain delay s' where s': "dispatch_once a (Ok c) lid s = (Some delay, s')" "queue_db s' = queue_db s"
    using idle_round [OF Cons.prems] by blast
  let ?t = "pass_time delay s'"
  have "same_queue s ?t" "notifications (queue_db ?t) = notifications (queue_db s)"
    using s'(2) by (simp_all add: same_queue_def pass_time_def)
  moreover have "waiting_of a c ?t = []" using waiting_same [OF \<open>same_queue s ?t\<close>] Cons.prems by (metis map_is_Nil_conv)
  ultimately show ?case using Cons.IH [of ?t] s'(1) by simp
qed simp

lemma was_delivered_at:
  assumes "notifications (queue_db s') = map (delivered_at time rid) (notifications (queue_db s))"
  shows "was_delivered s i \<Longrightarrow> was_delivered s' i"
    and "n \<in> set (notifications (queue_db s)) \<Longrightarrow> ntf_report n = rid \<Longrightarrow> was_delivered s' rid"
proof -
  assume "was_delivered s i"
  then show "was_delivered s' i" using assms by (auto simp: was_delivered_def delivered_at_def is_undelivered_def)
next
  assume n: "n \<in> set (notifications (queue_db s))" "ntf_report n = rid"
  then have "delivered_at time rid n \<in> set (notifications (queue_db s'))" using assms by simp
  moreover have "ntf_report (delivered_at time rid n) = rid" "ntf_delivered (delivered_at time rid n) \<noteq> None"
    using n(2) by (auto simp: delivered_at_def is_undelivered_def)
  ultimately show "was_delivered s' rid" unfolding was_delivered_def by blast
qed

lemma delivery_rows_ok_delivered:
  "list_all notification_row_ok ns \<Longrightarrow> list_all notification_row_ok (map (delivered_at time rid) ns)"
  by (auto simp: list_all_iff delivered_at_def notification_row_ok_def)

text \<open>C13: The queue empties: when every report that waits can be announced and Discord takes each of them, a dispatcher announces them all, one in every round, and
  sleeps out each cooldown before the next.\<close>

theorem queue_empties:
  assumes "dispatcher_is_available s" "delivery_rows_ok s" "length (waiting_of a c s) \<le> length lids"
    and "\<forall>(n, r) \<in> set (waiting_of a c s). \<exists>cooldown t. announcement_result a c (ntf_report n) r = Some (Ok cooldown, t)"
  shows "fst (dispatch_rounds a (Ok c) lids s) \<and> waiting_of a c (snd (dispatch_rounds a (Ok c) lids s)) = [] \<and>
    (\<forall>rid. was_delivered s rid \<or> rid \<in> ntf_report ` fst ` set (waiting_of a c s) \<longrightarrow>
      was_delivered (snd (dispatch_rounds a (Ok c) lids s)) rid)"
  using assms
proof (induction lids arbitrary: s)
  case (Cons lid lids)
  show ?case
  proof (cases "oldest_of a c s")
    case None
    then have "waiting_of a c s = []" by (simp add: oldest_of_waiting)
    with idle_rounds [OF this, of "lid # lids"] show ?thesis by (simp add: was_delivered_def)
  next
    case (Some nr)
    then obtain n r where o: "oldest_of a c s = Some (n, r)" by (cases nr) auto
    then have member: "(n, r) \<in> set (waiting_of a c s)" using min_by_key_minimal by (fastforce simp: oldest_of_waiting)
    then obtain cooldown t where "announcement_result a c (ntf_report n) r = Some (Ok cooldown, t)"
      using Cons.prems(4) by blast
    from delivered_round [OF Cons.prems(1) o this Cons.prems(2)] obtain s' time where s':
      "dispatch_once a (Ok c) lid s = (Some cooldown, s')" "dispatcher_is_available (pass_time cooldown s')"
      "submissions (queue_db s') = submissions (queue_db s)" "reports (tracker (queue_db s')) = reports (tracker (queue_db s))"
      "notifications (queue_db s') = map (delivered_at time (ntf_report n)) (notifications (queue_db s))" by blast
    let ?t = "pass_time cooldown s'"
    have t: "submissions (queue_db ?t) = submissions (queue_db s)" "reports (tracker (queue_db ?t)) = reports (tracker (queue_db s))"
      "notifications (queue_db ?t) = map (delivered_at time (ntf_report n)) (notifications (queue_db s))"
      using s'(3-5) by (simp_all add: pass_time_def)
    have w: "waiting_of a c ?t = filter (\<lambda>(m, r). ntf_report m \<noteq> ntf_report n) (waiting_of a c s)"
      by (rule waiting_after_delivery [OF t])
    have "length (waiting_of a c ?t) < length (waiting_of a c s)"
      unfolding w by (rule length_filter_less [OF member]) simp
    then have len: "length (waiting_of a c ?t) \<le> length lids" using Cons.prems(3) by simp
    have all: "\<forall>(n, r) \<in> set (waiting_of a c ?t). \<exists>cooldown t. announcement_result a c (ntf_report n) r = Some (Ok cooldown, t)"
      using Cons.prems(4) by (auto simp: w)
    have ok: "delivery_rows_ok ?t" using delivery_rows_ok_delivered [OF Cons.prems(2)] by (simp add: t(3))
    note IH = Cons.IH [OF s'(2) ok len all]
    have "was_delivered ?t rid \<or> rid \<in> ntf_report ` fst ` set (waiting_of a c ?t)"
      if "was_delivered s rid \<or> rid \<in> ntf_report ` fst ` set (waiting_of a c s)" for rid
      using that was_delivered_at [OF t(3)] oldest_announceable_Some(1) [OF o] by (force simp: w)
    moreover have "dispatch_rounds a (Ok c) (lid # lids) s = dispatch_rounds a (Ok c) lids ?t" using s'(1) by simp
    ultimately show ?thesis using IH by metis
  qed
qed simp

section \<open>A queue, run\<close>

definition webhook_configuration :: "nat runtime_configuration" where
  "webhook_configuration = runtime_configuration_default\<lparr> discord := discord_configuration_default
    \<lparr> webhook_urls := \<lparr> webhook_crash = Some (lit ''hook''), webhook_web_compat = None \<rparr> \<rparr> \<rparr>"

text \<open>An announcer whose posts are all answered with one status.\<close>

definition sample_announcer :: "nat \<Rightarrow> (nat, str) announcer" where
  "sample_announcer http_code =
    \<lparr> anc_alnum = \<lambda>_. False, anc_show_text = show_nat, anc_show_json = show_nat, anc_show_id = \<lambda>_. lit ''1'',
      anc_show_time = \<lambda>_. lit ''2026-01-01T00:00:00Z'', anc_definitions = Map.empty, anc_parse_url = Some,
      anc_post = \<lambda>_ _. (Inr \<lparr> rsp_status = http_code, rsp_retry_after = None, rsp_remaining = Some (lit ''0''), rsp_reset_after = Some (3/2) \<rparr>, 1) \<rparr>"

definition queue_row :: "nat stored_field list \<Rightarrow> nat submission_row" where
  "queue_row fs = (index_row 1 (print_of None (Some 0)))\<lparr> sub_fields := fs \<rparr>"

definition sample_queue :: "nat stored_field list \<Rightarrow> nat delivery_db" where
  "sample_queue fs =
    \<lparr> queue_db = (index_db (lit ''f'') None)\<lparr> submissions := [queue_row fs] \<rparr>, dlv_lease = None, dlv_paused = None, dlv_failures = 0 \<rparr>"

lemma sample_queue_simps:
  "dispatcher_is_available (sample_queue fs)" "delivery_rows_ok (sample_queue fs)"
  by (simp_all add: sample_queue_def dispatcher_is_available_def index_db_def notification_row_ok_def)

lemma sample_kinds: "announced_kinds (discord webhook_configuration) = [Crash]"
  by (simp add: webhook_configuration_def announced_kinds_def webhook_url_def)

lemma sample_waiting:
  "waiting_of (sample_announcer http_code) webhook_configuration (sample_queue fs) =
    [(\<lparr> ntf_report = 1, ntf_attempts = 0, ntf_failure = None, ntf_status = None, ntf_created = 0, ntf_delivered = None \<rparr>, queue_row fs)]"
  by (simp add: waiting_rows_def sample_queue_def index_db_def announceable_def queue_row_def index_row_def sample_kinds
      kind_of_row_def sample_db_def Report_Ops.sample_report_def report_of_def signature_pending_def signature_waits_def print_of_def)

lemma sample_oldest:
  "oldest_of (sample_announcer http_code) webhook_configuration (sample_queue fs) =
    Some (\<lparr> ntf_report = 1, ntf_attempts = 0, ntf_failure = None, ntf_status = None, ntf_created = 0, ntf_delivered = None \<rparr>, queue_row fs)"
  by (simp add: oldest_of_waiting sample_waiting)

lemma sample_title: "generated_report_title (sample_announcer http_code) (queue_row []) \<noteq> None"
  by (simp add: generated_report_title_def title_of_fields_def report_title_fields_def queue_row_def no_title_fields_def
      generate_report_title_def title_location_def title_page_def title_name_def)

lemma sample_announcement_result:
  "\<exists>cooldown t. announcement_result (sample_announcer 200) webhook_configuration rid (queue_row []) = Some (Ok cooldown, t)"
  "\<exists>e t. announcement_result (sample_announcer 400) webhook_configuration rid (queue_row []) = Some (Err e, t)"
proof -
  obtain t200 t400 where title: "generated_report_title (sample_announcer 200) (queue_row []) = Some t200"
      "generated_report_title (sample_announcer 400) (queue_row []) = Some t400"
    using sample_title [of 200] sample_title [of 400] by auto
  have hook: "webhook_url (discord webhook_configuration) (kind_of_row (queue_row [])) = Some (lit ''hook'')"
    by (simp add: webhook_configuration_def webhook_url_def kind_of_row_def queue_row_def index_row_def)
  have fs: "stored_fields (queue_row []) = Map.empty" by (simp add: stored_fields_def queue_row_def)
  show "\<exists>cooldown t. announcement_result (sample_announcer 200) webhook_configuration rid (queue_row []) = Some (Ok cooldown, t)"
    "\<exists>e t. announcement_result (sample_announcer 400) webhook_configuration rid (queue_row []) = Some (Err e, t)"
    by (simp_all add: announcement_result_def title hook fs report_message_def message_description_def)
      (simp_all add: send_message_def sample_announcer_def decode_response_def Let_def)
qed

theorem refused_report_blocks_queue_witness:
  "fst (dispatch_rounds (sample_announcer 400) (Ok webhook_configuration) [5, 6, 7] (sample_queue [])) \<and>
    same_queue (sample_queue []) (snd (dispatch_rounds (sample_announcer 400) (Ok webhook_configuration) [5, 6, 7] (sample_queue [])))"
proof -
  obtain e t where "announcement_result (sample_announcer 400) webhook_configuration 1 (queue_row []) = Some (Err e, t)"
    using sample_announcement_result(2) by blast
  with refused_report_blocks_queue [OF sample_oldest [of 400 "[]"], of e t "[5, 6, 7]"] show ?thesis by simp
qed

theorem queue_empties_witness:
  "waiting_of (sample_announcer 200) webhook_configuration
      (snd (dispatch_rounds (sample_announcer 200) (Ok webhook_configuration) [5] (sample_queue []))) = [] \<and>
    was_delivered (snd (dispatch_rounds (sample_announcer 200) (Ok webhook_configuration) [5] (sample_queue []))) 1"
  using queue_empties [OF sample_queue_simps, of "sample_announcer 200" webhook_configuration "[]" "[5]"]
    sample_announcement_result(1) by (simp add: sample_waiting)

definition wide_space_fields :: "nat stored_field list" where
  "wide_space_fields = [\<lparr> stored_key = lit ''stack'', stored_kind = lit ''stack_trace'',
    stored_value = JsonString (lit ''#0 0x1 void'' @ [160] @ lit ''A::b()''), stored_recognized = True \<rparr>]"

theorem panicking_title_stops_dispatcher_witness:
  "fst (dispatch_once (sample_announcer 200) (Ok webhook_configuration) 5 (sample_queue wide_space_fields)) = None"
proof -
  have "generated_report_title (sample_announcer 200) (queue_row wide_space_fields) = None"
    using wide_space_title [of "\<lambda>_. False" "lit ''1''"]
    by (simp add: generated_report_title_def title_of_fields_def report_title_fields_def title_row_def add_title_row_def
        queue_row_def index_row_def wide_space_fields_def no_title_fields_def sample_announcer_def kind_of_row_def lit_def)
  from panicking_title_stops_dispatcher [OF sample_oldest this] show ?thesis
    using sample_queue_simps(1) same_queue.refl by blast
qed

theorem delivery_is_exclusive_witness:
  "claim_row show_nat Map.empty 40 [Crash] 6 (leased webhook_configuration 5 1 (sample_queue [])) =
    Ok (None, leased webhook_configuration 5 1 (sample_queue []))"
proof -
  let ?s = "leased webhook_configuration 5 1 (sample_queue [])"
  define l where "l = the (dlv_lease ?s)"
  have l: "dlv_lease ?s = Some l" by (simp add: l_def leased_def)
  have "delivery_now ?s < dl_expires l"
    by (simp add: l_def leased_def webhook_configuration_def runtime_configuration_default_def discord_configuration_default_def
        as_i32_exact)
  with delivery_is_exclusive [OF l] show ?thesis by blast
qed

theorem claim_takes_oldest_witness:
  "\<exists>n r s'. claim_row show_nat Map.empty 40 [Crash] 6 (sample_queue []) = Ok (Some (n, r), s') \<and> kind_of_row r \<in> set [Crash]"
proof -
  obtain n r where "oldest_announceable show_nat Map.empty [Crash] (queue_db (sample_queue [])) = Some (n, r)"
    using sample_oldest [of 200 "[]"] by (simp add: sample_announcer_def sample_kinds)
  from claim_row_Some [OF sample_queue_simps(1) this]
  obtain s' where s': "claim_row show_nat Map.empty 40 [Crash] 6 (sample_queue []) = Ok (Some (n, r), s')" by blast
  from claim_takes_oldest [OF s'] s' show ?thesis by blast
qed

end
