(* ===== verification/Session_Db.thy ===== *)
theory Session_Db
  imports Configuration Audit_Log Issue_Db
begin

text \<open>
  The tables of sign-ins and sessions and what \<open>src/src/infrastructure/database/admin/authentication.rs\<close>
  does to them: OAuth states, maintainers, sessions, and the audit events of sign-ins with their times. The
  runtime configuration is the one row of its table. \<open>now()\<close> of the database and \<open>Utc::now()\<close> of the service are one clock, in seconds.
\<close>

section \<open>Rows\<close>

record oauth_row =
  oas_hash :: str
  oas_return :: str
  oas_expires :: int

record session_row =
  ses_token :: str
  ses_person :: int
  ses_access :: str
  ses_refresh :: "str option"
  ses_access_expires :: "int option"
  ses_refresh_expires :: "int option"
  ses_csrf :: str
  ses_verified :: int
  ses_expires :: int

record maintainer_row =
  mnt_person :: int
  mnt_login :: str

record auth_event =
  aev_actor :: "int option"
  aev_action :: audit_action
  aev_details :: detail
  aev_at :: int

record 'net auth_db =
  auth_configuration :: "'net runtime_configuration"
  oauth_states :: "oauth_row list"
  maintainers :: "maintainer_row list"
  sessions :: "session_row list"
  auth_events :: "auth_event list"
  auth_clock :: int

type_synonym ('net, 'a) atx = "('net auth_db, 'a) stx"

abbreviation active_team :: "'net auth_db \<Rightarrow> str" where
  "active_team s \<equiv> authorization_team (github (auth_configuration s))"

definition auth_audit :: "int option \<Rightarrow> audit_action \<Rightarrow> detail \<Rightarrow> ('net, unit) atx" where
  "auth_audit actor action details s =
    Ok ((), s\<lparr> auth_events := auth_events s @
      [\<lparr> aev_actor = actor, aev_action = action, aev_details = details, aev_at = auth_clock s \<rparr>] \<rparr>)"

section \<open>OAuth states\<close>

text \<open>\<open>return_to LIKE '/%' AND return_to NOT LIKE '//%'\<close>.\<close>

definition oauth_row_ok :: "oauth_row \<Rightarrow> bool" where
  "oauth_row_ok r \<longleftrightarrow> length (oas_hash r) = 64 \<and> length (oas_return r) \<le> 2048 \<and>
    starts_with (lit ''/'') (oas_return r) \<and> \<not> starts_with (lit ''//'') (oas_return r) \<and> 0 \<notin> set (oas_return r)"

definition store_oauth_state :: "str \<Rightarrow> str \<Rightarrow> ('net, unit) atx" where
  "store_oauth_state state_hash return_to s =
    (let row = \<lparr> oas_hash = state_hash, oas_return = return_to, oas_expires = auth_clock s + 600 \<rparr> in
     bind_res (fail_if (\<not> oauth_row_ok row \<or> list_ex (\<lambda>r. oas_hash r = state_hash) (oauth_states s))
       (Database ''oauth_states: a constraint is violated'')) (\<lambda>_.
     Ok ((), s\<lparr> oauth_states := oauth_states s @ [row] \<rparr>)))"

definition open_oauth_state :: "str \<Rightarrow> int \<Rightarrow> oauth_row \<Rightarrow> bool" where
  "open_oauth_state state_hash time r \<longleftrightarrow> oas_hash r = state_hash \<and> time < oas_expires r"

definition consume_oauth_state :: "str \<Rightarrow> ('net, str option) atx" where
  "consume_oauth_state state_hash s =
    Ok (map_option oas_return (find (open_oauth_state state_hash (auth_clock s)) (oauth_states s)),
      s\<lparr> oauth_states := filter (\<lambda>r. \<not> open_oauth_state state_hash (auth_clock s) r) (oauth_states s) \<rparr>)"

section \<open>Sign-ins\<close>

record new_session =
  new_person :: int
  new_login :: str
  new_team :: str
  new_token :: str
  new_access :: str
  new_refresh :: "str option"
  new_access_expires :: "int option"
  new_refresh_expires :: "int option"
  new_csrf :: str
  new_lifetime :: int

definition upsert_maintainer :: "int \<Rightarrow> str \<Rightarrow> ('net, unit) atx" where
  "upsert_maintainer person login s =
    bind_res (fail_if (\<not> (1 \<le> length login \<and> length login \<le> 64) \<or> 0 \<in> set login) (Database ''maintainers_login_check'')) (\<lambda>_.
    Ok ((), s\<lparr> maintainers :=
      (if list_ex (\<lambda>m. mnt_person m = person) (maintainers s)
       then map (\<lambda>m. if mnt_person m = person then m\<lparr> mnt_login := login \<rparr> else m) (maintainers s)
       else maintainers s @ [\<lparr> mnt_person = person, mnt_login = login \<rparr>]) \<rparr>))"

definition insert_session :: "session_row \<Rightarrow> ('net, unit) atx" where
  "insert_session row s =
    bind_res (fail_if (length (ses_token row) \<noteq> 64 \<or> list_ex (\<lambda>r. ses_token r = ses_token row) (sessions s))
      (Database ''sessions: a constraint is violated'')) (\<lambda>_.
    Ok ((), s\<lparr> sessions := sessions s @ [row] \<rparr>))"

definition new_session_row :: "new_session \<Rightarrow> int \<Rightarrow> session_row" where
  "new_session_row n time =
    \<lparr> ses_token = new_token n, ses_person = new_person n, ses_access = new_access n, ses_refresh = new_refresh n,
      ses_access_expires = new_access_expires n, ses_refresh_expires = new_refresh_expires n, ses_csrf = new_csrf n,
      ses_verified = time, ses_expires = time + new_lifetime n \<rparr>"

lemma new_session_row_simps [simp]:
  "ses_token (new_session_row n time) = new_token n" "ses_person (new_session_row n time) = new_person n"
  "ses_verified (new_session_row n time) = time"
  by (simp_all add: new_session_row_def)

definition create_session :: "new_session \<Rightarrow> ('net, unit) atx" where
  "create_session n =
    bind_tx (get_tx active_team) (\<lambda>team.
    bind_tx (lift_tx (fail_if (team \<noteq> new_team n) (PermissionDenied ''Access denied''))) (\<lambda>_.
    bind_tx (upsert_maintainer (new_person n) (new_login n)) (\<lambda>_.
    bind_tx (get_tx auth_clock) (\<lambda>time.
    bind_tx (insert_session (new_session_row n time)) (\<lambda>_.
    auth_audit (Some (new_person n)) SessionSignedIn (DObject []))))))"

definition denial_of :: "int \<Rightarrow> int \<Rightarrow> auth_event \<Rightarrow> bool" where
  "denial_of person since e \<longleftrightarrow> aev_action e = SessionDenied \<and> since < aev_at e \<and>
    (case aev_details e of DObject fs \<Rightarrow> (''github_id'', DInt person) \<in> set fs | _ \<Rightarrow> False)"

definition record_denied_sign_in :: "int \<Rightarrow> str \<Rightarrow> nat \<Rightarrow> ('net, unit) atx" where
  "record_denied_sign_in person login window_seconds =
    bind_tx (get_tx (\<lambda>s. list_ex (denial_of person (auth_clock s - int window_seconds)) (auth_events s))) (\<lambda>repeated.
    when_tx (\<not> repeated)
      (auth_audit None SessionDenied (DObject [(''github_id'', DInt person), (''login'', DText login)])))"

section \<open>Sessions\<close>

record session_record =
  rec_person :: int
  rec_login :: str
  rec_csrf :: str
  rec_token :: str
  rec_access :: str
  rec_refresh :: "str option"
  rec_access_expires :: "int option"
  rec_verified :: int

definition session_record_of :: "'net auth_db \<Rightarrow> session_row \<Rightarrow> session_record option" where
  "session_record_of s r =
    map_option (\<lambda>m. \<lparr> rec_person = ses_person r, rec_login = mnt_login m, rec_csrf = ses_csrf r, rec_token = ses_token r,
        rec_access = ses_access r, rec_refresh = ses_refresh r, rec_access_expires = ses_access_expires r,
        rec_verified = ses_verified r \<rparr>)
      (find (\<lambda>m. mnt_person m = ses_person r) (maintainers s))"

definition live_session :: "str \<Rightarrow> int \<Rightarrow> session_row \<Rightarrow> bool" where
  "live_session token_hash time r \<longleftrightarrow> ses_token r = token_hash \<and> time < ses_expires r"

definition find_session :: "str \<Rightarrow> 'net auth_db \<Rightarrow> session_record option" where
  "find_session token_hash s =
    Option.bind (find (live_session token_hash (auth_clock s)) (sessions s)) (session_record_of s)"

definition sessions_with_expiring_tokens :: "int \<Rightarrow> 'net auth_db \<Rightarrow> str list" where
  "sessions_with_expiring_tokens refresh_before s =
    map ses_token (filter (\<lambda>r. auth_clock s < ses_expires r \<and> ses_refresh r \<noteq> None \<and>
      (case ses_access_expires r of None \<Rightarrow> False | Some t \<Rightarrow> t \<le> auth_clock s + refresh_before)) (sessions s))"

text \<open>One session for each person with a session that is due; times are compared doubled, so that half the recheck is exact.\<close>

definition usable_session :: "int \<Rightarrow> session_row \<Rightarrow> bool" where
  "usable_session time r \<longleftrightarrow> time < ses_expires r \<and>
    (case ses_access_expires r of None \<Rightarrow> True | Some t \<Rightarrow> time < t)"

definition due_person :: "int \<Rightarrow> 'net auth_db \<Rightarrow> int \<Rightarrow> bool" where
  "due_person twice_verified_before s person \<longleftrightarrow>
    list_ex (\<lambda>r. ses_person r = person \<and> auth_clock s < ses_expires r \<and>
      2 * ses_verified r \<le> 2 * auth_clock s - twice_verified_before) (sessions s)"

definition due_session_per_user :: "int \<Rightarrow> 'net auth_db \<Rightarrow> session_record list" where
  "due_session_per_user twice_verified_before s =
    (let usable = filter (\<lambda>r. usable_session (auth_clock s) r \<and> due_person twice_verified_before s (ses_person r)) (sessions s);
         persons = sort (remdups (map ses_person usable))
     in List.map_filter (\<lambda>p. Option.bind (min_by_key (\<lambda>r. - ses_expires r) (filter (\<lambda>r. ses_person r = p) usable)) (session_record_of s)) persons)"

definition update_sessions :: "(session_row \<Rightarrow> bool) \<Rightarrow> (session_row \<Rightarrow> session_row) \<Rightarrow> ('net, nat) atx" where
  "update_sessions p f s =
    Ok (length (filter p (sessions s)), s\<lparr> sessions := map (\<lambda>r. if p r then f r else r) (sessions s) \<rparr>)"

definition extend_session :: "str \<Rightarrow> int \<Rightarrow> ('net, bool) atx" where
  "extend_session token_hash lifetime =
    bind_tx (get_tx auth_clock) (\<lambda>time.
    bind_tx (update_sessions (\<lambda>r. live_session token_hash time r \<and> ses_refresh r \<noteq> None) (\<lambda>r. r\<lparr> ses_expires := time + lifetime \<rparr>)) (\<lambda>n.
    return_tx (n = 1)))"

definition refresh_membership_verification_for_user :: "int \<Rightarrow> ('net, unit) atx" where
  "refresh_membership_verification_for_user person =
    bind_tx (get_tx auth_clock) (\<lambda>time.
    bind_tx (update_sessions (\<lambda>r. ses_person r = person \<and> time < ses_expires r) (\<lambda>r. r\<lparr> ses_verified := time \<rparr>)) (\<lambda>_.
    return_tx ()))"

definition revoke_session :: "str \<Rightarrow> ('net, unit) atx" where
  "revoke_session token_hash s = Ok ((), s\<lparr> sessions := filter (\<lambda>r. ses_token r \<noteq> token_hash) (sessions s) \<rparr>)"

text \<open>The actor of the event is a foreign key.\<close>

definition delete_session :: "str \<Rightarrow> int \<Rightarrow> ('net, unit) atx" where
  "delete_session token_hash person =
    bind_tx (get_tx (\<lambda>s. list_ex (\<lambda>m. mnt_person m = person) (maintainers s))) (\<lambda>known.
    bind_tx (lift_tx (fail_if (\<not> known) (Database ''audit_events_actor_fkey''))) (\<lambda>_.
    bind_tx (auth_audit (Some person) SessionSignedOut (DObject [])) (\<lambda>_.
    revoke_session token_hash)))"

end
