(* ===== verification/Configuration_Json.thy ===== *)
theory Configuration_Json
  imports Complex_Main Configuration "HOL-Library.Monad_Syntax"
begin

text \<open>
  The runtime configuration as it is stored and edited: the JSON that serde derives from the records of
  \<open>src/src/domain/configuration.rs\<close> and reads back, the table of settings that the page shows, and the comparison
  of two configurations in \<open>src/src/infrastructure/database/admin/settings.rs\<close>. An object is a list of keys and values;
  only the objects serde writes are read as structs here. Numbers that are no integers are a constructor of their own that every field refuses.
\<close>

section \<open>JSON\<close>

datatype jvalue =
    JNull
  | JBool bool
  | JInt int
  | JReal rat
  | JText str
  | JArr "jvalue list"
  | JObj "(str \<times> jvalue) list"

definition struct_fields :: "string list \<Rightarrow> jvalue \<Rightarrow> (str \<times> jvalue) list option" where
  "struct_fields keys v =
    (case v of JObj fs \<Rightarrow> if list_all (\<lambda>(k, _). k \<in> lit ` set keys) fs then Some fs else None | _ \<Rightarrow> None)"

text \<open>A field that is missing has its default, or is an error.\<close>

definition field :: "(jvalue \<Rightarrow> 'a option) \<Rightarrow> 'a option \<Rightarrow> (str \<times> jvalue) list \<Rightarrow> string \<Rightarrow> 'a option" where
  "field dec missing fs key = (case map_of fs (lit key) of Some v \<Rightarrow> dec v | None \<Rightarrow> missing)"

definition dec_text :: "jvalue \<Rightarrow> str option" where
  "dec_text v = (case v of JText t \<Rightarrow> Some t | _ \<Rightarrow> None)"

definition dec_nat :: "nat \<Rightarrow> jvalue \<Rightarrow> nat option" where
  "dec_nat maximum v = (case v of JInt i \<Rightarrow> if 0 \<le> i \<and> i \<le> int maximum then Some (nat i) else None | _ \<Rightarrow> None)"

definition dec_i64 :: "jvalue \<Rightarrow> int option" where
  "dec_i64 v = (case v of JInt i \<Rightarrow> if - int i64_max - 1 \<le> i \<and> i \<le> int i64_max then Some i else None | _ \<Rightarrow> None)"

definition dec_option :: "(jvalue \<Rightarrow> 'a option) \<Rightarrow> jvalue \<Rightarrow> 'a option option" where
  "dec_option dec v = (case v of JNull \<Rightarrow> Some None | _ \<Rightarrow> map_option Some (dec v))"

definition dec_list :: "(jvalue \<Rightarrow> 'a option) \<Rightarrow> jvalue \<Rightarrow> 'a list option" where
  "dec_list dec v = (case v of JArr vs \<Rightarrow> those (map dec vs) | _ \<Rightarrow> None)"

definition opt_to_value :: "('a \<Rightarrow> jvalue) \<Rightarrow> 'a option \<Rightarrow> jvalue" where
  "opt_to_value f x = (case x of None \<Rightarrow> JNull | Some a \<Rightarrow> f a)"

section \<open>The records\<close>

definition labels_to_value :: "github_issue_labels \<Rightarrow> jvalue" where
  "labels_to_value c = JObj [
    (lit ''crash'', JArr (map JText (label_crash c))),
    (lit ''web_compat'', JArr (map JText (label_web_compat c)))]"

definition labels_from_value :: "jvalue \<Rightarrow> github_issue_labels option" where
  "labels_from_value v = do {
    fs \<leftarrow> struct_fields [''crash'', ''web_compat''] v;
    x0 \<leftarrow> field (dec_list dec_text) (None) fs ''crash'';
    x1 \<leftarrow> field (dec_list dec_text) (None) fs ''web_compat'';
    Some \<lparr> label_crash = x0, label_web_compat = x1 \<rparr>
  }"

definition github_to_value :: "github_configuration \<Rightarrow> jvalue" where
  "github_to_value c = JObj [
    (lit ''repository'', JText (repository c)),
    (lit ''authorization_team'', JText (authorization_team c)),
    (lit ''reports_issue_field_id'', opt_to_value JInt (reports_issue_field_id c)),
    (lit ''token_refresh_before_seconds'', JInt (int (token_refresh_before_seconds c))),
    (lit ''membership_recheck_seconds'', JInt (int (membership_recheck_seconds c))),
    (lit ''labels'', labels_to_value (labels c))]"

definition github_from_value :: "jvalue \<Rightarrow> github_configuration option" where
  "github_from_value v = do {
    fs \<leftarrow> struct_fields [''repository'', ''authorization_team'', ''reports_issue_field_id'', ''token_refresh_before_seconds'', ''membership_recheck_seconds'', ''labels''] v;
    x0 \<leftarrow> field (dec_text) (None) fs ''repository'';
    x1 \<leftarrow> field (dec_text) (Some default_github_authorization_team) fs ''authorization_team'';
    x2 \<leftarrow> field (dec_option dec_i64) (Some None) fs ''reports_issue_field_id'';
    x3 \<leftarrow> field (dec_nat u64_max) (Some default_token_refresh_before_seconds) fs ''token_refresh_before_seconds'';
    x4 \<leftarrow> field (dec_nat u64_max) (None) fs ''membership_recheck_seconds'';
    x5 \<leftarrow> field (labels_from_value) (Some github_issue_labels_default) fs ''labels'';
    Some \<lparr> repository = x0, authorization_team = x1, reports_issue_field_id = x2, token_refresh_before_seconds = x3, membership_recheck_seconds = x4, labels = x5 \<rparr>
  }"

definition audit_to_value :: "audit_configuration \<Rightarrow> jvalue" where
  "audit_to_value c = JObj [
    (lit ''denied_sign_in_window_seconds'', JInt (int (denied_sign_in_window_seconds c))),
    (lit ''retention_days'', JInt (int (retention_days c)))]"

definition audit_from_value :: "jvalue \<Rightarrow> audit_configuration option" where
  "audit_from_value v = do {
    fs \<leftarrow> struct_fields [''denied_sign_in_window_seconds'', ''retention_days''] v;
    x0 \<leftarrow> field (dec_nat u64_max) (Some (denied_sign_in_window_seconds audit_configuration_default)) fs ''denied_sign_in_window_seconds'';
    x1 \<leftarrow> field (dec_nat u32_max) (Some (retention_days audit_configuration_default)) fs ''retention_days'';
    Some \<lparr> denied_sign_in_window_seconds = x0, retention_days = x1 \<rparr>
  }"

definition limits_to_value :: "ingestion_limits \<Rightarrow> jvalue" where
  "limits_to_value c = JObj [
    (lit ''public_requests_per_minute'', JInt (int (public_requests_per_minute c))),
    (lit ''public_request_burst'', JInt (int (public_request_burst c))),
    (lit ''challenges_per_minute'', JInt (int (challenges_per_minute c))),
    (lit ''challenge_burst'', JInt (int (challenge_burst c))),
    (lit ''challenges_per_hour'', JInt (int (challenges_per_hour c))),
    (lit ''submissions_per_minute'', JInt (int (submissions_per_minute c))),
    (lit ''submission_burst'', JInt (int (submission_burst c))),
    (lit ''submissions_per_hour'', JInt (int (submissions_per_hour c))),
    (lit ''concurrent_uploads_per_ip'', JInt (int (concurrent_uploads_per_ip c))),
    (lit ''concurrent_uploads_global'', JInt (int (concurrent_uploads_global c))),
    (lit ''maximum_fields'', JInt (int (maximum_fields c))),
    (lit ''short_text_bytes'', JInt (int (short_text_bytes c))),
    (lit ''multiline_text_bytes'', JInt (int (multiline_text_bytes c))),
    (lit ''metadata_bytes'', JInt (int (metadata_bytes c))),
    (lit ''maximum_attachments'', JInt (int (maximum_attachments c))),
    (lit ''attachment_bytes'', JInt (int (attachment_bytes c))),
    (lit ''submission_bytes'', JInt (int (submission_bytes c))),
    (lit ''png_pixels'', JInt (int (png_pixels c))),
    (lit ''png_decoded_bytes'', JInt (int (png_decoded_bytes c))),
    (lit ''upload_timeout_seconds'', JInt (int (upload_timeout_seconds c))),
    (lit ''minimum_free_storage_bytes'', JInt (int (minimum_free_storage_bytes c)))]"

definition limits_from_value :: "jvalue \<Rightarrow> ingestion_limits option" where
  "limits_from_value v = do {
    fs \<leftarrow> struct_fields [''public_requests_per_minute'', ''public_request_burst'', ''challenges_per_minute'', ''challenge_burst'', ''challenges_per_hour'', ''submissions_per_minute'', ''submission_burst'', ''submissions_per_hour'', ''concurrent_uploads_per_ip'', ''concurrent_uploads_global'', ''maximum_fields'', ''short_text_bytes'', ''multiline_text_bytes'', ''metadata_bytes'', ''maximum_attachments'', ''attachment_bytes'', ''submission_bytes'', ''png_pixels'', ''png_decoded_bytes'', ''upload_timeout_seconds'', ''minimum_free_storage_bytes''] v;
    x0 \<leftarrow> field (dec_nat u32_max) (None) fs ''public_requests_per_minute'';
    x1 \<leftarrow> field (dec_nat u32_max) (None) fs ''public_request_burst'';
    x2 \<leftarrow> field (dec_nat u32_max) (None) fs ''challenges_per_minute'';
    x3 \<leftarrow> field (dec_nat u32_max) (None) fs ''challenge_burst'';
    x4 \<leftarrow> field (dec_nat u32_max) (None) fs ''challenges_per_hour'';
    x5 \<leftarrow> field (dec_nat u32_max) (None) fs ''submissions_per_minute'';
    x6 \<leftarrow> field (dec_nat u32_max) (None) fs ''submission_burst'';
    x7 \<leftarrow> field (dec_nat u32_max) (None) fs ''submissions_per_hour'';
    x8 \<leftarrow> field (dec_nat u32_max) (None) fs ''concurrent_uploads_per_ip'';
    x9 \<leftarrow> field (dec_nat u32_max) (None) fs ''concurrent_uploads_global'';
    x10 \<leftarrow> field (dec_nat u64_max) (None) fs ''maximum_fields'';
    x11 \<leftarrow> field (dec_nat u64_max) (None) fs ''short_text_bytes'';
    x12 \<leftarrow> field (dec_nat u64_max) (None) fs ''multiline_text_bytes'';
    x13 \<leftarrow> field (dec_nat u64_max) (None) fs ''metadata_bytes'';
    x14 \<leftarrow> field (dec_nat u64_max) (None) fs ''maximum_attachments'';
    x15 \<leftarrow> field (dec_nat u64_max) (None) fs ''attachment_bytes'';
    x16 \<leftarrow> field (dec_nat u64_max) (None) fs ''submission_bytes'';
    x17 \<leftarrow> field (dec_nat u64_max) (None) fs ''png_pixels'';
    x18 \<leftarrow> field (dec_nat u64_max) (None) fs ''png_decoded_bytes'';
    x19 \<leftarrow> field (dec_nat u64_max) (None) fs ''upload_timeout_seconds'';
    x20 \<leftarrow> field (dec_nat u64_max) (None) fs ''minimum_free_storage_bytes'';
    Some \<lparr> public_requests_per_minute = x0, public_request_burst = x1, challenges_per_minute = x2, challenge_burst = x3, challenges_per_hour = x4, submissions_per_minute = x5, submission_burst = x6, submissions_per_hour = x7, concurrent_uploads_per_ip = x8, concurrent_uploads_global = x9, maximum_fields = x10, short_text_bytes = x11, multiline_text_bytes = x12, metadata_bytes = x13, maximum_attachments = x14, attachment_bytes = x15, submission_bytes = x16, png_pixels = x17, png_decoded_bytes = x18, upload_timeout_seconds = x19, minimum_free_storage_bytes = x20 \<rparr>
  }"

definition proof_of_work_to_value :: "proof_of_work_configuration \<Rightarrow> jvalue" where
  "proof_of_work_to_value c = JObj [
    (lit ''expected_work'', JInt (int (expected_work c))),
    (lit ''challenge_lifetime_seconds'', JInt (int (challenge_lifetime_seconds c)))]"

definition proof_of_work_from_value :: "jvalue \<Rightarrow> proof_of_work_configuration option" where
  "proof_of_work_from_value v = do {
    fs \<leftarrow> struct_fields [''expected_work'', ''challenge_lifetime_seconds''] v;
    x0 \<leftarrow> field (dec_nat u64_max) (None) fs ''expected_work'';
    x1 \<leftarrow> field (dec_nat u64_max) (None) fs ''challenge_lifetime_seconds'';
    Some \<lparr> expected_work = x0, challenge_lifetime_seconds = x1 \<rparr>
  }"

definition maintenance_to_value :: "maintenance_configuration \<Rightarrow> jvalue" where
  "maintenance_to_value c = JObj [
    (lit ''sweep_interval_seconds'', JInt (int (sweep_interval_seconds c))),
    (lit ''staging_retention_seconds'', JInt (int (staging_retention_seconds c))),
    (lit ''report_retention_days'', JInt (int (report_retention_days c))),
    (lit ''submission_source_retention_hours'', JInt (int (submission_source_retention_hours c)))]"

definition maintenance_from_value :: "jvalue \<Rightarrow> maintenance_configuration option" where
  "maintenance_from_value v = do {
    fs \<leftarrow> struct_fields [''sweep_interval_seconds'', ''staging_retention_seconds'', ''report_retention_days'', ''submission_source_retention_hours''] v;
    x0 \<leftarrow> field (dec_nat u64_max) (None) fs ''sweep_interval_seconds'';
    x1 \<leftarrow> field (dec_nat u64_max) (None) fs ''staging_retention_seconds'';
    x2 \<leftarrow> field (dec_nat u32_max) (None) fs ''report_retention_days'';
    x3 \<leftarrow> field (dec_nat u32_max) (None) fs ''submission_source_retention_hours'';
    Some \<lparr> sweep_interval_seconds = x0, staging_retention_seconds = x1, report_retention_days = x2, submission_source_retention_hours = x3 \<rparr>
  }"

definition webhooks_to_value :: "discord_webhook_urls \<Rightarrow> jvalue" where
  "webhooks_to_value c = JObj [
    (lit ''crash'', opt_to_value JText (webhook_crash c)),
    (lit ''web_compat'', opt_to_value JText (webhook_web_compat c))]"

definition webhooks_from_value :: "jvalue \<Rightarrow> discord_webhook_urls option" where
  "webhooks_from_value v = do {
    fs \<leftarrow> struct_fields [''crash'', ''web_compat''] v;
    x0 \<leftarrow> field (dec_option dec_text) (Some None) fs ''crash'';
    x1 \<leftarrow> field (dec_option dec_text) (Some None) fs ''web_compat'';
    Some \<lparr> webhook_crash = x0, webhook_web_compat = x1 \<rparr>
  }"

definition discord_to_value :: "discord_configuration \<Rightarrow> jvalue" where
  "discord_to_value c = JObj [
    (lit ''webhook_urls'', webhooks_to_value (webhook_urls c)),
    (lit ''poll_interval_seconds'', JInt (int (poll_interval_seconds c))),
    (lit ''request_timeout_seconds'', JInt (int (request_timeout_seconds c))),
    (lit ''initial_retry_seconds'', JInt (int (initial_retry_seconds c))),
    (lit ''maximum_retry_seconds'', JInt (int (maximum_retry_seconds c))),
    (lit ''stack_trace_lines'', JInt (int (stack_trace_lines c))),
    (lit ''stack_trace_characters'', JInt (int (stack_trace_characters c)))]"

definition discord_from_value :: "jvalue \<Rightarrow> discord_configuration option" where
  "discord_from_value v = do {
    fs \<leftarrow> struct_fields [''webhook_urls'', ''poll_interval_seconds'', ''request_timeout_seconds'', ''initial_retry_seconds'', ''maximum_retry_seconds'', ''stack_trace_lines'', ''stack_trace_characters''] v;
    x0 \<leftarrow> field (webhooks_from_value) (None) fs ''webhook_urls'';
    x1 \<leftarrow> field (dec_nat u64_max) (None) fs ''poll_interval_seconds'';
    x2 \<leftarrow> field (dec_nat u64_max) (None) fs ''request_timeout_seconds'';
    x3 \<leftarrow> field (dec_nat u64_max) (None) fs ''initial_retry_seconds'';
    x4 \<leftarrow> field (dec_nat u64_max) (None) fs ''maximum_retry_seconds'';
    x5 \<leftarrow> field (dec_nat u64_max) (None) fs ''stack_trace_lines'';
    x6 \<leftarrow> field (dec_nat u64_max) (None) fs ''stack_trace_characters'';
    Some \<lparr> webhook_urls = x0, poll_interval_seconds = x1, request_timeout_seconds = x2, initial_retry_seconds = x3, maximum_retry_seconds = x4, stack_trace_lines = x5, stack_trace_characters = x6 \<rparr>
  }"

text \<open>\<open>trusted_networks\<close> is skipped.\<close>

definition configuration_to_value :: "('net \<Rightarrow> str) \<Rightarrow> 'net runtime_configuration \<Rightarrow> jvalue" where
  "configuration_to_value show_net c = JObj [
    (lit ''public_base_url'', JText (public_base_url c)),
    (lit ''admin_base_url'', JText (admin_base_url c)),
    (lit ''github'', github_to_value (github c)),
    (lit ''trusted_proxies'', JArr (map (\<lambda>p. JText (trusted_proxy_display show_net p)) (trusted_proxies c))),
    (lit ''limits'', limits_to_value (limits c)),
    (lit ''proof_of_work'', proof_of_work_to_value (proof_of_work c)),
    (lit ''maintenance'', maintenance_to_value (maintenance c)),
    (lit ''discord'', discord_to_value (discord c)),
    (lit ''session_lifetime_seconds'', JInt (int (session_lifetime_seconds c))),
    (lit ''audit'', audit_to_value (audit c))]"

definition dec_proxy :: "(str \<Rightarrow> 'net option) \<Rightarrow> (str \<Rightarrow> bool) \<Rightarrow> jvalue \<Rightarrow> 'net trusted_proxy option" where
  "dec_proxy parse_net is_ip v = Option.bind (dec_text v) (\<lambda>t.
    case trusted_proxy_from_str parse_net is_ip t of Inr p \<Rightarrow> Some p | Inl e \<Rightarrow> None)"

definition configuration_from_value :: "(str \<Rightarrow> 'net option) \<Rightarrow> (str \<Rightarrow> bool) \<Rightarrow> jvalue \<Rightarrow> 'net runtime_configuration option" where
  "configuration_from_value parse_net is_ip v = do {
    fs \<leftarrow> struct_fields [''public_base_url'', ''admin_base_url'', ''github'', ''trusted_proxies'', ''limits'', ''proof_of_work'',
      ''maintenance'', ''discord'', ''session_lifetime_seconds'', ''audit''] v;
    x0 \<leftarrow> field dec_text None fs ''public_base_url'';
    x1 \<leftarrow> field dec_text None fs ''admin_base_url'';
    x2 \<leftarrow> field github_from_value None fs ''github'';
    x3 \<leftarrow> field (dec_list (dec_proxy parse_net is_ip)) None fs ''trusted_proxies'';
    x4 \<leftarrow> field limits_from_value None fs ''limits'';
    x5 \<leftarrow> field proof_of_work_from_value None fs ''proof_of_work'';
    x6 \<leftarrow> field maintenance_from_value None fs ''maintenance'';
    x7 \<leftarrow> field discord_from_value (Some discord_configuration_default) fs ''discord'';
    x8 \<leftarrow> field (dec_nat u64_max) (Some default_session_lifetime_seconds) fs ''session_lifetime_seconds'';
    x9 \<leftarrow> field audit_from_value (Some audit_configuration_default) fs ''audit'';
    Some \<lparr> public_base_url = x0, admin_base_url = x1, github = x2, trusted_proxies = x3, trusted_networks = [],
      limits = x4, proof_of_work = x5, maintenance = x6, discord = x7, session_lifetime_seconds = x8, audit = x9 \<rparr>
  }"

section \<open>The settings\<close>

record setting_definition =
  setting_key :: string
  setting_path :: string
  setting_title :: string
  setting_description :: string
  setting_value :: string

definition setting :: "string \<Rightarrow> string \<Rightarrow> string \<Rightarrow> string \<Rightarrow> string \<Rightarrow> setting_definition" where
  "setting key path title description value_description =
    \<lparr> setting_key = key, setting_path = path, setting_title = title, setting_description = description,
      setting_value = value_description \<rparr>"

definition origin_settings :: "setting_definition list" where
  "origin_settings = [
    setting ''public_base_url'' ''public_base_url''
      ''Public base URL''
      ''The externally reachable origin used by reporting clients.''
      ''An HTTPS origin without a path, query, or fragment.'',
    setting ''admin_base_url'' ''admin_base_url''
      ''Admin base URL''
      ''The externally reachable origin used for OAuth callbacks and session cookies.''
      ''An HTTPS origin without a path, query, or fragment.'',
    setting ''repository'' ''github.repository''
      ''GitHub repository''
      ''The repository searched and updated when an internal issue is linked to GitHub.''
      ''An owner and repository name, such as LadybirdBrowser/ladybird.'',
    setting ''authorization_team'' ''github.authorization_team''
      ''GitHub access team''
      ''Only active members of this GitHub organization team can sign in. Changing it signs out existing sessions.''
      ''Organization and team slug, such as LadybirdBrowser/maintainers.'',
    setting ''reports_issue_field_id'' ''github.reports_issue_field_id''
      ''GitHub Reports field''
      ''The organization-only GitHub issue text field that links back to a tracked issue.''
      ''A positive issue field ID, or null to disable the backlink.'',
    setting ''crash'' ''github.labels.crash''
      ''GitHub crash labels''
      ''The labels of a GitHub issue created from a crash report. GitHub only applies them when the maintainer who creates the issue has push access, and creates a label that does not exist yet.''
      ''A list of label names of at most 50 characters, such as [\"crash\"]; an empty list adds no label.'',
    setting ''web_compat'' ''github.labels.web_compat''
      ''GitHub web compatibility labels''
      ''The labels of a GitHub issue created from a web compatibility report. GitHub only applies them when the maintainer who creates the issue has push access, and creates a label that does not exist yet.''
      ''A list of label names of at most 50 characters, such as [\"web compatibility\"]; an empty list adds no label.'',
    setting ''trusted_proxies'' ''trusted_proxies''
      ''Trusted proxies''
      ''Proxies whose forwarding headers may identify the original client address. The public API resolves DNS names itself and uses the addresses for at most five minutes.''
      ''A JSON list of IPv4 or IPv6 CIDR ranges or DNS names.'']"

definition limit_settings :: "setting_definition list" where
  "limit_settings = [
    setting ''public_requests_per_minute'' ''limits.public_requests_per_minute''
      ''Public request rate''
      ''Refills the shared per-address request bucket used by every public API request.''
      ''Requests added to the bucket per minute.'',
    setting ''public_request_burst'' ''limits.public_request_burst''
      ''Public request burst''
      ''Caps short bursts across all public API endpoints from one address.''
      ''Maximum immediately available requests.'',
    setting ''challenges_per_minute'' ''limits.challenges_per_minute''
      ''Challenge rate''
      ''Refills the short-term proof-of-work challenge bucket for one address.''
      ''Challenges added per minute.'',
    setting ''challenge_burst'' ''limits.challenge_burst''
      ''Challenge burst''
      ''Caps how many proof-of-work challenges one address can request immediately.''
      ''Maximum immediately available challenges.'',
    setting ''challenges_per_hour'' ''limits.challenges_per_hour''
      ''Hourly challenge limit''
      ''Limits sustained proof-of-work challenge creation by one address.''
      ''Maximum challenges in the hourly bucket.'',
    setting ''submissions_per_minute'' ''limits.submissions_per_minute''
      ''Submission rate''
      ''Refills the short-term completed report submission bucket for one address.''
      ''Submissions added per minute.'',
    setting ''submission_burst'' ''limits.submission_burst''
      ''Submission burst''
      ''Caps how many reports one address can submit immediately.''
      ''Maximum immediately available submissions.'',
    setting ''submissions_per_hour'' ''limits.submissions_per_hour''
      ''Hourly submission limit''
      ''Limits sustained report submissions by one address.''
      ''Maximum submissions in the hourly bucket.'',
    setting ''concurrent_uploads_per_ip'' ''limits.concurrent_uploads_per_ip''
      ''Concurrent uploads per address''
      ''Limits simultaneous attachment uploads from one source address.''
      ''Number of active uploads.'',
    setting ''concurrent_uploads_global'' ''limits.concurrent_uploads_global''
      ''Global concurrent uploads''
      ''Caps simultaneous uploads across the service to bound memory and disk pressure.''
      ''Number of active uploads across all clients.'',
    setting ''maximum_fields'' ''limits.maximum_fields''
      ''Maximum fields''
      ''Limits the number of diagnostic fields accepted in one report manifest.''
      ''Field count per report.'',
    setting ''short_text_bytes'' ''limits.short_text_bytes''
      ''Short text size''
      ''Caps each text field classified as short text.''
      ''Maximum UTF-8 bytes per value.'',
    setting ''multiline_text_bytes'' ''limits.multiline_text_bytes''
      ''Multiline text size''
      ''Caps each multiline diagnostic such as a native stack trace.''
      ''Maximum UTF-8 bytes per value.'',
    setting ''metadata_bytes'' ''limits.metadata_bytes''
      ''Manifest size''
      ''Caps the JSON manifest before attachments are read.''
      ''Maximum encoded bytes per manifest.'',
    setting ''maximum_attachments'' ''limits.maximum_attachments''
      ''Maximum attachments''
      ''Limits the number of files accepted with one report.''
      ''Attachment count per report.'',
    setting ''attachment_bytes'' ''limits.attachment_bytes''
      ''Attachment size''
      ''Caps the compressed bytes accepted for each attachment.''
      ''Maximum bytes per file.'',
    setting ''submission_bytes'' ''limits.submission_bytes''
      ''Submission size''
      ''Caps the manifest and all attachment bytes in one request.''
      ''Maximum total request payload bytes.'',
    setting ''png_pixels'' ''limits.png_pixels''
      ''PNG pixel count''
      ''Rejects images whose width multiplied by height exceeds this limit.''
      ''Maximum decoded pixel count.'',
    setting ''png_decoded_bytes'' ''limits.png_decoded_bytes''
      ''PNG decode memory''
      ''Bounds decoded PNG frame memory and weights concurrent decoder permits.''
      ''Maximum decoded bytes per image.'',
    setting ''upload_timeout_seconds'' ''limits.upload_timeout_seconds''
      ''Upload timeout''
      ''Stops a report upload that does not complete within the configured window.''
      ''Seconds from manifest acceptance through attachment upload.'',
    setting ''minimum_free_storage_bytes'' ''limits.minimum_free_storage_bytes''
      ''Storage reserve''
      ''Rejects new uploads before the attachment volume consumes its reserved space.''
      ''Bytes that must remain free after a maximum-size submission.'']"

definition operation_settings :: "setting_definition list" where
  "operation_settings = [
    setting ''expected_work'' ''proof_of_work.expected_work''
      ''Proof-of-work target''
      ''Controls the average number of hashes required for a valid submission proof.''
      ''Expected SHA-256 attempts; higher values require more client CPU time.'',
    setting ''challenge_lifetime_seconds'' ''proof_of_work.challenge_lifetime_seconds''
      ''Challenge lifetime''
      ''Controls how long an issued proof-of-work challenge can be submitted.''
      ''Seconds after challenge creation.'',
    setting ''sweep_interval_seconds'' ''maintenance.sweep_interval_seconds''
      ''Maintenance interval''
      ''Controls how often both services remove expired and abandoned data.''
      ''Seconds between maintenance sweeps.'',
    setting ''staging_retention_seconds'' ''maintenance.staging_retention_seconds''
      ''Staging retention''
      ''Keeps interrupted upload directories long enough for active requests, then removes them.''
      ''Seconds since the staging directory was last modified.'',
    setting ''report_retention_days'' ''maintenance.report_retention_days''
      ''Report retention''
      ''Sets the expiry date assigned to new reports and their attachments.''
      ''Days from report creation before deletion is scheduled.'',
    setting ''submission_source_retention_hours'' ''maintenance.submission_source_retention_hours''
      ''Submission source retention''
      ''Keeps a report's keyed source identifier available for blocking, then clears it, and clears inactive block records. Applies to existing reports as well.''
      ''Hours from submission or from when a block ended, 1 to 8760; the default is 48.'',
    setting ''crash'' ''discord.webhook_urls.crash''
      ''Discord crash reports webhook''
      ''Receives a summary when a crash report becomes ready for triage.''
      ''A Discord incoming-webhook HTTPS URL, or null to pause delivery of crash reports.'',
    setting ''web_compat'' ''discord.webhook_urls.web_compat''
      ''Discord web compatibility webhook''
      ''Receives a summary when a web compatibility report becomes ready for triage.''
      ''A Discord incoming-webhook HTTPS URL, or null to pause delivery of web compatibility reports.'',
    setting ''poll_interval_seconds'' ''discord.poll_interval_seconds''
      ''Discord queue interval''
      ''Controls how quickly the dispatcher notices newly queued reports.''
      ''Seconds to wait when the delivery queue is empty or paused.'',
    setting ''request_timeout_seconds'' ''discord.request_timeout_seconds''
      ''Discord request timeout''
      ''Limits how long one webhook request may wait for Discord.''
      ''Seconds before an incomplete request is treated as failed.'',
    setting ''initial_retry_seconds'' ''discord.initial_retry_seconds''
      ''Discord initial retry''
      ''Sets the first circuit-breaker delay after a delivery failure.''
      ''Seconds before the dispatcher tries the oldest message again.'',
    setting ''maximum_retry_seconds'' ''discord.maximum_retry_seconds''
      ''Discord maximum retry''
      ''Caps exponential circuit-breaker delays for repeated failures.''
      ''Maximum seconds between delivery attempts.'',
    setting ''stack_trace_lines'' ''discord.stack_trace_lines''
      ''Discord stack frames''
      ''Limits the parsed stack frames shown in a report notification.''
      ''Maximum number of parsed frames in the preview.'',
    setting ''stack_trace_characters'' ''discord.stack_trace_characters''
      ''Discord stack length''
      ''Keeps the stack excerpt within Discord's message limits.''
      ''Maximum Unicode characters in the stack excerpt.'',
    setting ''session_lifetime_seconds'' ''session_lifetime_seconds''
      ''Session lifetime''
      ''An authenticated request extends the session by this much time.''
      ''Seconds of inactivity before sign-in is required again.'',
    setting ''token_refresh_before_seconds'' ''github.token_refresh_before_seconds''
      ''GitHub token refresh window''
      ''Rotates a GitHub user token before it expires, using its stored refresh token.''
      ''Seconds before access-token expiry at which to refresh it.'',
    setting ''membership_recheck_seconds'' ''github.membership_recheck_seconds''
      ''Membership recheck''
      ''Controls how often an active session revalidates GitHub team membership.''
      ''Seconds between membership checks for one session.'',
    setting ''denied_sign_in_window_seconds'' ''audit.denied_sign_in_window_seconds''
      ''Denied sign-in audit window''
      ''Records a denied sign-in once per GitHub account in this window, so one account cannot flood the audit log.''
      ''Seconds between audit entries for one account; 0 records every denied sign-in.'',
    setting ''audit_retention_days'' ''audit.retention_days''
      ''Audit log retention''
      ''Removes audit events once they are this old, so the log does not grow without bound.''
      ''Days from when an event was recorded; the default is ten years, as for reports.'']"

definition SETTING_DEFINITIONS :: "setting_definition list" where
  "SETTING_DEFINITIONS = origin_settings @ limit_settings @ operation_settings"

definition setting_invalidates_sessions :: "str \<Rightarrow> bool" where
  "setting_invalidates_sessions path \<longleftrightarrow> path = lit ''github.authorization_team''"

section \<open>What changed\<close>

definition sub_path :: "str \<Rightarrow> str \<Rightarrow> str" where
  "sub_path pre key = (if pre = [] then key else pre @ [46] @ key)"

text \<open>The paths at which two values differ, in the order of their keys. Two objects are compared key by key, a key of one alone is a path;
  anything else differs as a whole.\<close>

definition object_keys :: "(str \<times> jvalue) list \<Rightarrow> (str \<times> jvalue) list \<Rightarrow> str list" where
  "object_keys before after = sort (remdups (map fst before @ map fst after))"

lemma map_of_size_lt [termination_simp]:
  "map_of fs k = Some v \<Longrightarrow> size v < Suc (size_list (size_prod (\<lambda>x. 0) size) fs)"
  by (induction fs) (auto split: if_splits)

lemma size_member: "(k, v) \<in> set fs \<Longrightarrow> size v < Suc (size_list (size_prod (\<lambda>x. 0) size) fs)"
  by (induction fs) auto

function changed_paths :: "str \<Rightarrow> jvalue \<Rightarrow> jvalue \<Rightarrow> str list" where
  "changed_paths pre before after =
    (case (before, after) of
      (JObj b, JObj a) \<Rightarrow> concat (map (\<lambda>key.
        case (map_of b key, map_of a key) of
          (Some old, Some new) \<Rightarrow> changed_paths (sub_path pre key) old new
        | _ \<Rightarrow> [sub_path pre key]) (object_keys b a))
    | _ \<Rightarrow> if before \<noteq> after then [pre] else [])"
  by pat_completeness auto
termination
  by (relation "measure (\<lambda>(pre, before, after). size before)") (auto dest: map_of_size_lt [OF sym])

declare changed_paths.simps [simp del]

definition changed_configuration_paths :: "jvalue \<Rightarrow> jvalue \<Rightarrow> str list" where
  "changed_configuration_paths previous current = changed_paths [] previous current"

section \<open>Round trip\<close>

named_theorems json_decode

lemma field_Cons [json_decode]:
  "field dec missing ((k, v) # fs) key = (if lit key = k then dec v else field dec missing fs key)"
  "field dec missing [] key = missing"
  by (simp_all add: field_def)

lemma dec_simps [json_decode]:
  "dec_text (JText t) = Some t"
  "dec_option dec JNull = Some None"
  "n \<le> maximum \<Longrightarrow> dec_nat maximum (JInt (int n)) = Some n"
  by (simp_all add: dec_text_def dec_option_def dec_nat_def)

lemma dec_option_round_trip [json_decode]:
  "(\<And>a. x = Some a \<Longrightarrow> f a \<noteq> JNull \<and> dec (f a) = Some a) \<Longrightarrow> dec_option dec (opt_to_value f x) = Some x"
  by (cases x) (auto simp: dec_option_def opt_to_value_def split: jvalue.split)

lemma dec_list_round_trip [json_decode]:
  "(\<And>x. x \<in> set xs \<Longrightarrow> dec (f x) = Some x) \<Longrightarrow> dec_list dec (JArr (map f xs)) = Some xs"
  by (induction xs) (simp_all add: dec_list_def)

lemma dec_i64_round_trip [json_decode]:
  "- 9223372036854775808 \<le> i \<and> i \<le> 9223372036854775807 \<Longrightarrow> dec_i64 (JInt i) = Some i"
  by (simp add: dec_i64_def)

lemma struct_fields_JObj [json_decode]:
  "struct_fields keys (JObj fs) = (if list_all (\<lambda>(k, _). k \<in> lit ` set keys) fs then Some fs else None)"
  by (simp add: struct_fields_def)

text \<open>The numbers are in the ranges of their types.\<close>

definition github_typed :: "github_configuration \<Rightarrow> bool" where
  "github_typed g \<longleftrightarrow> token_refresh_before_seconds g \<le> u64_max \<and> membership_recheck_seconds g \<le> u64_max \<and>
    (case reports_issue_field_id g of None \<Rightarrow> True | Some i \<Rightarrow> - 9223372036854775808 \<le> i \<and> i \<le> 9223372036854775807)"

definition audit_typed :: "audit_configuration \<Rightarrow> bool" where
  "audit_typed a \<longleftrightarrow> denied_sign_in_window_seconds a \<le> u64_max \<and> retention_days a \<le> u32_max"

definition limits_typed :: "ingestion_limits \<Rightarrow> bool" where
  "limits_typed l \<longleftrightarrow>
    list_all (\<lambda>n. n \<le> u32_max) [public_requests_per_minute l, public_request_burst l, challenges_per_minute l, challenge_burst l,
      challenges_per_hour l, submissions_per_minute l, submission_burst l, submissions_per_hour l, concurrent_uploads_per_ip l,
      concurrent_uploads_global l] \<and>
    list_all (\<lambda>n. n \<le> u64_max) [maximum_fields l, short_text_bytes l, multiline_text_bytes l, metadata_bytes l, maximum_attachments l,
      attachment_bytes l, submission_bytes l, png_pixels l, png_decoded_bytes l, upload_timeout_seconds l, minimum_free_storage_bytes l]"

definition discord_typed :: "discord_configuration \<Rightarrow> bool" where
  "discord_typed d \<longleftrightarrow> list_all (\<lambda>n. n \<le> u64_max) [poll_interval_seconds d, request_timeout_seconds d, initial_retry_seconds d,
    maximum_retry_seconds d, stack_trace_lines d, stack_trace_characters d]"

definition configuration_typed :: "'net runtime_configuration \<Rightarrow> bool" where
  "configuration_typed c \<longleftrightarrow> github_typed (github c) \<and> limits_typed (limits c) \<and>
    expected_work (proof_of_work c) \<le> u64_max \<and> challenge_lifetime_seconds (proof_of_work c) \<le> u64_max \<and>
    sweep_interval_seconds (maintenance c) \<le> u64_max \<and> staging_retention_seconds (maintenance c) \<le> u64_max \<and>
    report_retention_days (maintenance c) \<le> u32_max \<and> submission_source_retention_hours (maintenance c) \<le> u32_max \<and>
    discord_typed (discord c) \<and> session_lifetime_seconds c \<le> u64_max \<and> audit_typed (audit c)"

lemma labels_round_trip [json_decode]: "labels_from_value (labels_to_value l) = Some l"
  by (simp add: labels_from_value_def labels_to_value_def json_decode)

lemma github_round_trip [json_decode]:
  "github_typed g \<Longrightarrow> github_from_value (github_to_value g) = Some g"
  by (cases "reports_issue_field_id g")
    (simp_all add: github_from_value_def github_to_value_def json_decode github_typed_def opt_to_value_def dec_option_def)

lemma audit_round_trip [json_decode]: "audit_typed a \<Longrightarrow> audit_from_value (audit_to_value a) = Some a"
  by (simp add: audit_from_value_def audit_to_value_def json_decode audit_typed_def)

lemma limits_round_trip [json_decode]: "limits_typed l \<Longrightarrow> limits_from_value (limits_to_value l) = Some l"
  by (simp add: limits_from_value_def limits_to_value_def json_decode limits_typed_def)

lemma proof_of_work_round_trip [json_decode]:
  "\<lbrakk>expected_work p \<le> u64_max; challenge_lifetime_seconds p \<le> u64_max\<rbrakk> \<Longrightarrow>
    proof_of_work_from_value (proof_of_work_to_value p) = Some p"
  by (simp add: proof_of_work_from_value_def proof_of_work_to_value_def json_decode)

lemma maintenance_round_trip [json_decode]:
  "\<lbrakk>sweep_interval_seconds m \<le> u64_max; staging_retention_seconds m \<le> u64_max; report_retention_days m \<le> u32_max;
    submission_source_retention_hours m \<le> u32_max\<rbrakk> \<Longrightarrow> maintenance_from_value (maintenance_to_value m) = Some m"
  by (simp add: maintenance_from_value_def maintenance_to_value_def json_decode)

lemma webhooks_round_trip [json_decode]: "webhooks_from_value (webhooks_to_value w) = Some w"
  by (simp add: webhooks_from_value_def webhooks_to_value_def json_decode)

lemma discord_round_trip [json_decode]: "discord_typed d \<Longrightarrow> discord_from_value (discord_to_value d) = Some d"
  by (simp add: discord_from_value_def discord_to_value_def json_decode discord_typed_def)


text \<open>What is read is typed: the numbers are in their ranges and no network is resolved.\<close>

lemma dec_nat_le: "dec_nat maximum v = Some n \<Longrightarrow> n \<le> maximum"
  by (auto simp: dec_nat_def split: jvalue.splits if_splits)

lemma field_le:
  "\<lbrakk>field (dec_nat maximum) missing fs k = Some n; \<And>m. missing = Some m \<Longrightarrow> m \<le> maximum\<rbrakk> \<Longrightarrow> n \<le> maximum"
  by (auto simp: field_def dec_nat_le split: option.splits)

lemma field_typed:
  "\<lbrakk>field dec missing fs k = Some x; \<And>v y. dec v = Some y \<Longrightarrow> P y; \<And>m. missing = Some m \<Longrightarrow> P m\<rbrakk> \<Longrightarrow> P x"
  by (auto simp: field_def split: option.splits)

lemma dec_i64_range: "dec_i64 v = Some i \<Longrightarrow> - 9223372036854775808 \<le> i \<and> i \<le> 9223372036854775807"
  by (auto simp: dec_i64_def split: jvalue.splits if_splits)

lemma dec_option_range:
  "dec_option dec v = Some x \<Longrightarrow> (\<And>y. dec v = Some y \<Longrightarrow> P y) \<Longrightarrow> case x of None \<Rightarrow> True | Some y \<Rightarrow> P y"
  by (auto simp: dec_option_def split: jvalue.splits option.splits)

lemma limits_read_typed: "limits_from_value v = Some l \<Longrightarrow> limits_typed l"
  unfolding limits_from_value_def limits_typed_def
  by (auto simp: bind_eq_Some_conv elim!: field_le)

lemma audit_read_typed: "audit_from_value v = Some a \<Longrightarrow> audit_typed a"
  unfolding audit_from_value_def audit_typed_def
  by (auto simp: bind_eq_Some_conv audit_configuration_default_def elim!: field_le)

lemma discord_read_typed: "discord_from_value v = Some d \<Longrightarrow> discord_typed d"
  unfolding discord_from_value_def discord_typed_def
  by (auto simp: bind_eq_Some_conv elim!: field_le)

lemma github_read_typed:
  assumes "github_from_value v = Some g"
  shows "github_typed g"
proof -
  have id_range: "case x of None \<Rightarrow> True | Some i \<Rightarrow> - 9223372036854775808 \<le> i \<and> i \<le> 9223372036854775807"
    if "field (dec_option dec_i64) (Some None) fs k = Some x" for fs k x
    using that by (rule field_typed) (auto intro: dec_option_range dest: dec_i64_range)
  show ?thesis
    using assms unfolding github_from_value_def github_typed_def
    by (auto simp: bind_eq_Some_conv default_token_refresh_before_seconds_def elim!: field_le dest: id_range split: option.splits)
qed


section \<open>Every setting has its place\<close>

function leaf_paths :: "str \<Rightarrow> jvalue \<Rightarrow> str list" where
  "leaf_paths pre v = (case v of JObj fs \<Rightarrow> concat (map (\<lambda>(k, w). leaf_paths (sub_path pre k) w) fs) | _ \<Rightarrow> [pre])"
  by pat_completeness auto
termination
  by (relation "measure (\<lambda>(pre, v). size v)") (auto dest: size_member)

declare leaf_paths.simps [simp del]

lemma leaf_paths_simps [simp]:
  "leaf_paths pre (JObj fs) = concat (map (\<lambda>(k, w). leaf_paths (sub_path pre k) w) fs)"
  "leaf_paths pre (JInt i) = [pre]" "leaf_paths pre (JText t) = [pre]" "leaf_paths pre (JArr vs) = [pre]"
  "leaf_paths pre JNull = [pre]"
  by (subst leaf_paths.simps, simp)+

lemma leaf_paths_option [simp]:
  "leaf_paths pre (opt_to_value JText x) = [pre]" "leaf_paths pre (opt_to_value JInt y) = [pre]"
  by (cases x; simp add: opt_to_value_def) (cases y; simp add: opt_to_value_def)

lemma sub_path_lit:
  "sub_path [] k = k"
  "p \<noteq> [] \<Longrightarrow> sub_path (lit p) (lit q) = lit (p @ ''.'' @ q)"
  by (simp_all add: sub_path_def lit_def)

definition setting_paths :: "string list" where
  "setting_paths = [
    ''public_base_url'', ''admin_base_url'', ''github.repository'', ''github.authorization_team'',
    ''github.reports_issue_field_id'', ''github.labels.crash'', ''github.labels.web_compat'', ''trusted_proxies'',
    ''limits.public_requests_per_minute'', ''limits.public_request_burst'', ''limits.challenges_per_minute'',
    ''limits.challenge_burst'', ''limits.challenges_per_hour'', ''limits.submissions_per_minute'',
    ''limits.submission_burst'', ''limits.submissions_per_hour'', ''limits.concurrent_uploads_per_ip'',
    ''limits.concurrent_uploads_global'', ''limits.maximum_fields'', ''limits.short_text_bytes'',
    ''limits.multiline_text_bytes'', ''limits.metadata_bytes'', ''limits.maximum_attachments'',
    ''limits.attachment_bytes'', ''limits.submission_bytes'', ''limits.png_pixels'', ''limits.png_decoded_bytes'',
    ''limits.upload_timeout_seconds'', ''limits.minimum_free_storage_bytes'', ''proof_of_work.expected_work'',
    ''proof_of_work.challenge_lifetime_seconds'', ''maintenance.sweep_interval_seconds'',
    ''maintenance.staging_retention_seconds'', ''maintenance.report_retention_days'',
    ''maintenance.submission_source_retention_hours'', ''discord.webhook_urls.crash'',
    ''discord.webhook_urls.web_compat'', ''discord.poll_interval_seconds'', ''discord.request_timeout_seconds'',
    ''discord.initial_retry_seconds'', ''discord.maximum_retry_seconds'', ''discord.stack_trace_lines'',
    ''discord.stack_trace_characters'', ''session_lifetime_seconds'', ''github.token_refresh_before_seconds'',
    ''github.membership_recheck_seconds'', ''audit.denied_sign_in_window_seconds'', ''audit.retention_days'']"

lemma setting_paths: "map setting_path SETTING_DEFINITIONS = setting_paths"
  unfolding SETTING_DEFINITIONS_def origin_settings_def limit_settings_def operation_settings_def setting_def list.map map_append append.simps
    setting_definition.select_convs setting_paths_def by (rule refl)

definition stored_paths :: "string list" where
  "stored_paths = [
    ''public_base_url'', ''admin_base_url'', ''github.repository'', ''github.authorization_team'',
    ''github.reports_issue_field_id'', ''github.token_refresh_before_seconds'',
    ''github.membership_recheck_seconds'', ''github.labels.crash'', ''github.labels.web_compat'',
    ''trusted_proxies'', ''limits.public_requests_per_minute'', ''limits.public_request_burst'',
    ''limits.challenges_per_minute'', ''limits.challenge_burst'', ''limits.challenges_per_hour'',
    ''limits.submissions_per_minute'', ''limits.submission_burst'', ''limits.submissions_per_hour'',
    ''limits.concurrent_uploads_per_ip'', ''limits.concurrent_uploads_global'', ''limits.maximum_fields'',
    ''limits.short_text_bytes'', ''limits.multiline_text_bytes'', ''limits.metadata_bytes'',
    ''limits.maximum_attachments'', ''limits.attachment_bytes'', ''limits.submission_bytes'', ''limits.png_pixels'',
    ''limits.png_decoded_bytes'', ''limits.upload_timeout_seconds'', ''limits.minimum_free_storage_bytes'',
    ''proof_of_work.expected_work'', ''proof_of_work.challenge_lifetime_seconds'',
    ''maintenance.sweep_interval_seconds'', ''maintenance.staging_retention_seconds'',
    ''maintenance.report_retention_days'', ''maintenance.submission_source_retention_hours'',
    ''discord.webhook_urls.crash'', ''discord.webhook_urls.web_compat'', ''discord.poll_interval_seconds'',
    ''discord.request_timeout_seconds'', ''discord.initial_retry_seconds'', ''discord.maximum_retry_seconds'',
    ''discord.stack_trace_lines'', ''discord.stack_trace_characters'', ''session_lifetime_seconds'',
    ''audit.denied_sign_in_window_seconds'', ''audit.retention_days'']"

lemma stored_paths: "leaf_paths [] (configuration_to_value show_net c) = map lit stored_paths"
  by (simp add: configuration_to_value_def github_to_value_def labels_to_value_def limits_to_value_def proof_of_work_to_value_def
      maintenance_to_value_def discord_to_value_def webhooks_to_value_def audit_to_value_def sub_path_lit stored_paths_def)

lemma same_paths: "list_all (\<lambda>p. p \<in> set setting_paths) stored_paths" "list_all (\<lambda>p. p \<in> set stored_paths) setting_paths"
    "distinct setting_paths"
  by code_simp+

text \<open>The settings of the page are exactly the values of a stored configuration: every value of it has one description, and every description is of a value that is there.\<close>

theorem settings_cover_configuration:
  "set (leaf_paths [] (configuration_to_value show_net c)) = (\<lambda>d. lit (setting_path d)) ` set SETTING_DEFINITIONS \<and>
   distinct (map setting_path SETTING_DEFINITIONS)"
proof
  show "distinct (map setting_path SETTING_DEFINITIONS)" by (simp only: setting_paths same_paths(3))
  have "(\<lambda>d. lit (setting_path d)) ` set SETTING_DEFINITIONS = set (map lit setting_paths)"
    unfolding setting_paths [symmetric] by (simp add: image_image)
  moreover have "set stored_paths = set setting_paths" using same_paths(1,2) by (auto simp: list_all_iff)
  ultimately show "set (leaf_paths [] (configuration_to_value show_net c)) = (\<lambda>d. lit (setting_path d)) ` set SETTING_DEFINITIONS"
    by (simp add: stored_paths)
qed

section \<open>Changes\<close>

definition pair_paths :: "str \<Rightarrow> jvalue option \<Rightarrow> jvalue option \<Rightarrow> str set" where
  "pair_paths path old new = (case (old, new) of
    (Some v, Some w) \<Rightarrow> set (changed_paths path v w) | _ \<Rightarrow> {path})"

lemma pair_paths_Some [simp]: "pair_paths path (Some v) (Some w) = set (changed_paths path v w)"
  by (simp add: pair_paths_def)

lemma changed_object:
  "set (changed_paths pre (JObj b) (JObj a)) = (\<Union>k \<in> fst ` set b \<union> fst ` set a. pair_paths (sub_path pre k) (map_of b k) (map_of a k))"
  by (subst changed_paths.simps) (auto simp: object_keys_def pair_paths_def split: option.splits)

lemma changed_object_paths:
  assumes "map fst a = map fst b"
  shows "set (changed_paths pre (JObj b) (JObj a)) = (\<Union>k \<in> set (map fst b). pair_paths (sub_path pre k) (map_of b k) (map_of a k))"
proof -
  have "fst ` set a = fst ` set b" using assms by (metis set_map)
  then show ?thesis by (simp add: changed_object)
qed

lemma changed_leaf:
  "changed_paths pre (JInt i) (JInt j) = (if i = j then [] else [pre])"
  "changed_paths pre (JText t) (JText u) = (if t = u then [] else [pre])"
  "changed_paths pre (JArr vs) (JArr ws) = (if vs = ws then [] else [pre])"
  "changed_paths pre (opt_to_value JText x) (opt_to_value JText y) = (if x = y then [] else [pre])"
  "changed_paths pre (opt_to_value JInt m) (opt_to_value JInt n) = (if m = n then [] else [pre])"
  by (subst changed_paths.simps, simp add: opt_to_value_def split: option.split)+

lemmas values_eval = configuration_to_value_def github_to_value_def labels_to_value_def limits_to_value_def proof_of_work_to_value_def
  maintenance_to_value_def discord_to_value_def webhooks_to_value_def audit_to_value_def

text \<open>Two values with the same keys in the same order at every level, as two configurations have them.\<close>

definition is_object :: "jvalue \<Rightarrow> bool" where
  "is_object v = (case v of JObj _ \<Rightarrow> True | _ \<Rightarrow> False)"

inductive same_shape :: "jvalue \<Rightarrow> jvalue \<Rightarrow> bool" where
  leaf: "\<lbrakk>\<not> is_object v; \<not> is_object w\<rbrakk> \<Longrightarrow> same_shape v w"
| object: "\<lbrakk>map fst a = map fst b; distinct (map fst b);
      \<And>k v w. \<lbrakk>map_of b k = Some v; map_of a k = Some w\<rbrakk> \<Longrightarrow> same_shape v w\<rbrakk> \<Longrightarrow> same_shape (JObj b) (JObj a)"

lemma same_keys_eq:
  "\<lbrakk>map fst a = map fst b; distinct (map fst b); \<And>k. k \<in> set (map fst b) \<Longrightarrow> map_of a k = map_of b k\<rbrakk> \<Longrightarrow> a = b"
proof (induction b arbitrary: a)
  case (Cons kv b)
  obtain k0 w where kv: "kv = (k0, w)" by (cases kv)
  from Cons.prems(1) obtain v a' where a: "a = (k0, v) # a'" "map fst a' = map fst b" by (cases a) (auto simp: kv)
  have "map_of a' k = map_of b k" if "k \<in> set (map fst b)" for k
  proof -
    have "k \<noteq> k0" using Cons.prems(2) that by (auto simp: kv)
    then show ?thesis using Cons.prems(3) [of k] that by (simp add: a(1) kv)
  qed
  then have "a' = b" using Cons.IH [OF a(2)] Cons.prems(2) by simp
  moreover have "v = w" using Cons.prems(3) [of k0] by (simp add: a(1) kv)
  ultimately show ?case using a(1) kv by simp
qed simp

lemma same_shape_changed:
  "same_shape v w \<Longrightarrow> changed_paths pre v w = [] \<longleftrightarrow> v = w"
proof (induction arbitrary: pre rule: same_shape.induct)
  case (leaf v w)
  then show ?case by (subst changed_paths.simps) (auto simp: is_object_def split: jvalue.splits)
next
  case (object a b)
  have both: "\<exists>v w. map_of b k = Some v \<and> map_of a k = Some w" if "k \<in> set (map fst b)" for k
    using that object.hyps(1) by (metis list.set_map map_of_eq_None_iff option.exhaust)
  have "changed_paths pre (JObj b) (JObj a) = [] \<longleftrightarrow>
      (\<forall>k \<in> set (map fst b). pair_paths (sub_path pre k) (map_of b k) (map_of a k) = {})"
    unfolding set_empty [symmetric] changed_object_paths [OF object.hyps(1)] by simp
  also have "\<dots> \<longleftrightarrow> (\<forall>k \<in> set (map fst b). map_of a k = map_of b k)"
  proof (intro ball_cong refl)
    fix k assume "k \<in> set (map fst b)"
    then obtain v w where vw: "map_of b k = Some v" "map_of a k = Some w" using both by blast
    then show "pair_paths (sub_path pre k) (map_of b k) (map_of a k) = {} \<longleftrightarrow> map_of a k = map_of b k"
      using object.IH [OF vw, of "sub_path pre k"] by auto
  qed
  also have "\<dots> \<longleftrightarrow> b = a" using same_keys_eq [OF object.hyps(1,2)] by blast
  finally show ?case by simp
qed

lemma same_shape_leaf [simp]:
  "same_shape (JInt i) (JInt j)" "same_shape (JText t) (JText u)" "same_shape (JArr vs) (JArr ws)"
  "same_shape (opt_to_value JText x) (opt_to_value JText y)" "same_shape (opt_to_value JInt m) (opt_to_value JInt n)"
  by (auto intro!: same_shape.leaf simp: is_object_def opt_to_value_def split: option.split)

lemma same_shape_objects:
  "\<lbrakk>map fst a = map fst b; distinct (map fst b); list_all2 (\<lambda>(_, v) (_, w). same_shape v w) b a\<rbrakk> \<Longrightarrow> same_shape (JObj b) (JObj a)"
proof (rule same_shape.object)
  assume keys: "map fst a = map fst b" "distinct (map fst b)" and all: "list_all2 (\<lambda>(_, v) (_, w). same_shape v w) b a"
  fix k v w assume "map_of b k = Some v" "map_of a k = Some w"
  with all keys show "same_shape v w"
    by (induction b a rule: list_all2_induct) (auto split: if_splits)
qed

lemma same_shape_configurations:
  "same_shape (configuration_to_value show_net c) (configuration_to_value show_net c')"
  unfolding values_eval by (auto intro!: same_shape_objects)

lemma no_change_iff:
  "changed_configuration_paths (configuration_to_value show_net c) (configuration_to_value show_net c') = [] \<longleftrightarrow>
    configuration_to_value show_net c = configuration_to_value show_net c'"
  unfolding changed_configuration_paths_def by (rule same_shape_changed [OF same_shape_configurations])

lemma invalidating_change_iff:
  "list_ex setting_invalidates_sessions
    (changed_configuration_paths (configuration_to_value show_net c) (configuration_to_value show_net c')) \<longleftrightarrow>
    authorization_team (github c) \<noteq> authorization_team (github c')"
proof -
  have "lit ''github.authorization_team'' \<in> set (changed_configuration_paths (configuration_to_value show_net c) (configuration_to_value show_net c')) \<longleftrightarrow>
      authorization_team (github c) \<noteq> authorization_team (github c')"
    by (simp add: changed_configuration_paths_def values_eval changed_object_paths changed_leaf sub_path_lit)
  then show ?thesis by (auto simp: list_ex_iff setting_invalidates_sessions_def)
qed

text \<open>The audit event of a change names a path exactly when the stored value changed: nothing is recorded as changed when the two configurations store the same JSON,
  and the sessions end exactly when the team changed.\<close>

theorem changes_are_named:
  "(changed_configuration_paths (configuration_to_value show_net c) (configuration_to_value show_net c') = [] \<longleftrightarrow>
      configuration_to_value show_net c = configuration_to_value show_net c') \<and>
   (list_ex setting_invalidates_sessions
      (changed_configuration_paths (configuration_to_value show_net c) (configuration_to_value show_net c')) \<longleftrightarrow>
      authorization_team (github c) \<noteq> authorization_team (github c'))"
  by (simp only: no_change_iff invalidating_change_iff simp_thms)

section \<open>The default configuration, stored\<close>

lemma default_typed: "configuration_typed (runtime_configuration_default :: nat runtime_configuration)"
  by (simp add: configuration_typed_def runtime_configuration_default_def github_typed_def github_configuration_default_def
      limits_typed_def ingestion_limits_default_def discord_typed_def discord_configuration_default_def audit_typed_def
      audit_configuration_default_def default_token_refresh_before_seconds_def default_session_lifetime_seconds_def)

lemma default_read:
  "configuration_from_value (\<lambda>_. None) (\<lambda>_. False) (configuration_to_value show_nat (runtime_configuration_default :: nat runtime_configuration)) =
    Some (runtime_configuration_default :: nat runtime_configuration)"
  using default_typed
  by (simp add: configuration_from_value_def configuration_to_value_def json_decode configuration_typed_def)
    (simp add: runtime_configuration_default_def dec_list_def)



end
