(* ===== verification/Session.thy ===== *)
theory Session
  imports Session_Db Configuration_Json
begin

text \<open>
  Signing in and staying signed in: \<open>src/src/web/admin/authentication.rs\<close>, the middleware of
  \<open>src/src/web/admin/session.rs\<close>, the background task of \<open>src/src/application/session_verification.rs\<close>, and the change of the
  configuration in \<open>src/src/infrastructure/database/admin/settings.rs\<close>, which ends all sessions when it changes the team. What GitHub answers, the cipher, the
  hash of a secret, the random tokens and the parsers of addresses are arguments. A page is its status, its location and its cookies.
\<close>

section \<open>What the service calls\<close>

record github_tokens =
  tok_access :: str
  tok_expires :: "int option"
  tok_refresh :: "str option"
  tok_refresh_expires :: "int option"

record github_user =
  usr_id :: int
  usr_login :: str

record uri_parts =
  uri_scheme :: bool
  uri_authority :: bool
  uri_path_and_query :: "str option"

record auth_external =
  ath_hash :: "str \<Rightarrow> str"
  ath_encrypt :: "str \<Rightarrow> str result"
  ath_decrypt :: "str \<Rightarrow> str result"
  ath_authorization_url :: "str \<Rightarrow> str \<Rightarrow> str result"
  ath_exchange :: "str \<Rightarrow> github_tokens result"
  ath_user :: "str \<Rightarrow> github_user result"
  ath_membership :: "str \<Rightarrow> str \<Rightarrow> str \<Rightarrow> unit result"
  ath_identity :: "str \<Rightarrow> str \<Rightarrow> int \<Rightarrow> unit result"
  ath_rotate :: "str \<Rightarrow> github_tokens result"
  ath_latency :: "str \<Rightarrow> nat"
  ath_parse_uri :: "str \<Rightarrow> uri_parts option"
  ath_same_origin :: "str \<Rightarrow> bool"

section \<open>Destinations and cookies\<close>

definition validated_return_to :: "auth_external \<Rightarrow> str \<Rightarrow> str option" where
  "validated_return_to ext target =
    (if byte_len target > 2048 \<or> \<not> starts_with (lit ''/'') target \<or> starts_with (lit ''//'') target \<or>
        list_ex (\<lambda>c. c = 92 \<or> c = 35) target \<or> list_ex is_control target
     then None
     else Option.bind (ath_parse_uri ext target) (\<lambda>uri.
       if uri_scheme uri \<or> uri_authority uri \<or> uri_path_and_query uri \<noteq> Some target then None
       else if \<not> ath_same_origin ext target then None
       else Some target))"

definition show_int :: "int \<Rightarrow> str" where
  "show_int i = (if i < 0 then 45 # show_nat (nat (- i)) else show_nat (nat i))"

definition session_cookie :: "string \<Rightarrow> str \<Rightarrow> int \<Rightarrow> bool \<Rightarrow> str" where
  "session_cookie name v max_age_seconds secure =
    lit name @ lit ''='' @ v @ lit ''; Path=/; HttpOnly; SameSite=Lax; Max-Age='' @ show_int max_age_seconds @
    (if secure then lit ''; Secure'' else [])"

record page =
  page_location :: str
  page_cookies :: "str list"

definition is_secure :: "'net runtime_configuration \<Rightarrow> bool" where
  "is_secure c \<longleftrightarrow> starts_with (lit ''https:'') (admin_base_url c)"

section \<open>Signing in\<close>

definition start_github_login :: "auth_external \<Rightarrow> str \<Rightarrow> str option \<Rightarrow> ('net auth_db, page) prog" where
  "start_github_login ext state_token next_path =
    bind_prog (get_prog auth_configuration) (\<lambda>c.
    let return_to = (case Option.bind next_path (validated_return_to ext) of Some p \<Rightarrow> p | None \<Rightarrow> lit ''/'');
        redirect_uri = trim_end_matches (\<lambda>k. k = 47) (admin_base_url c) @ lit ''/auth/callback'' in
    bind_prog (run_tx (store_oauth_state (ath_hash ext state_token) return_to)) (\<lambda>_.
    bind_prog (lift_prog (ath_authorization_url ext redirect_uri state_token)) (\<lambda>location.
    return_prog \<lparr> page_location = location, page_cookies = [session_cookie ''oauth_state'' state_token 600 (is_secure c)] \<rparr>)))"

record github_callback =
  cb_code :: str
  cb_state :: str

definition callback_is_bound :: "str option \<Rightarrow> github_callback \<Rightarrow> bool" where
  "callback_is_bound cookie_state cb \<longleftrightarrow>
    byte_len (cb_state cb) \<le> 128 \<and> byte_len (cb_code cb) \<le> 512 \<and> cookie_state = Some (cb_state cb)"

text \<open>A definite denial is recorded; what becomes of the record does not matter to the sign-in.\<close>

definition note_denial :: "github_user \<Rightarrow> nat \<Rightarrow> app_error \<Rightarrow> 'net auth_db \<Rightarrow> 'net auth_db" where
  "note_denial user window e s =
    (case e of PermissionDenied _ \<Rightarrow> snd (run_tx (record_denied_sign_in (usr_id user) (usr_login user) window) s) | _ \<Rightarrow> s)"

definition new_session_of ::
    "auth_external \<Rightarrow> 'net runtime_configuration \<Rightarrow> github_user \<Rightarrow> github_tokens \<Rightarrow> str \<Rightarrow> str \<Rightarrow> int \<Rightarrow> new_session result" where
  "new_session_of ext c user token session_token csrf_token time =
    (case (tok_expires token, tok_refresh token, tok_refresh_expires token) of
      (Some access_lifetime, Some refresh_token, Some refresh_lifetime) \<Rightarrow>
        bind_res (fail_if (access_lifetime \<le> 0 \<or> refresh_lifetime \<le> 0) app_error.Unavailable) (\<lambda>_.
        bind_res (ath_encrypt ext (tok_access token)) (\<lambda>access.
        bind_res (ath_encrypt ext refresh_token) (\<lambda>refresh.
        Ok \<lparr> new_person = usr_id user, new_login = usr_login user, new_team = authorization_team (github c),
          new_token = ath_hash ext session_token, new_access = access, new_refresh = Some refresh,
          new_access_expires = Some (time + access_lifetime), new_refresh_expires = Some (time + refresh_lifetime),
          new_csrf = csrf_token, new_lifetime = int (session_lifetime_seconds c) \<rparr>)))
    | _ \<Rightarrow> Err app_error.Unavailable)"

text \<open>The callback in the states it finds: the one that consumes the state, and the one that stores the session after GitHub has answered, with the configuration \<open>c\<close> that the
  service held in between.\<close>

definition callback_begin :: "auth_external \<Rightarrow> str option \<Rightarrow> github_callback \<Rightarrow> ('net auth_db, str) prog" where
  "callback_begin ext cookie_state cb s =
    (if \<not> callback_is_bound cookie_state cb then (Err (PermissionDenied ''Invalid GitHub sign-in state''), s)
     else case run_tx (consume_oauth_state (ath_hash ext (cb_state cb))) s of
       (Inl e, s') \<Rightarrow> (Err e, s')
     | (Inr None, s') \<Rightarrow> (Err (PermissionDenied ''GitHub sign-in state expired or was already used''), s')
     | (Inr (Some return_to), s') \<Rightarrow> (Ok return_to, s'))"

definition callback_finish ::
    "auth_external \<Rightarrow> 'net runtime_configuration \<Rightarrow> github_callback \<Rightarrow> str \<Rightarrow> str \<Rightarrow> str \<Rightarrow> ('net auth_db, page) prog" where
  "callback_finish ext c cb return_to session_token csrf_token s =
    (case bind_res (ath_exchange ext (cb_code cb)) (\<lambda>token. map_sum id (Pair token) (ath_user ext (tok_access token))) of
      Inl e \<Rightarrow> (Err e, s)
    | Inr (token, user) \<Rightarrow>
      (case ath_membership ext (tok_access token) (authorization_team (github c)) (usr_login user) of
        Inl e \<Rightarrow> (Err e, note_denial user (denied_sign_in_window_seconds (audit c)) e s)
      | Inr _ \<Rightarrow>
        (case new_session_of ext c user token session_token csrf_token (auth_clock s) of
          Inl e \<Rightarrow> (Err e, s)
        | Inr n \<Rightarrow> map_prod (map_sum id (\<lambda>_.
            \<lparr> page_location = (case validated_return_to ext return_to of Some p \<Rightarrow> p | None \<Rightarrow> lit ''/''),
              page_cookies = [session_cookie ''session'' session_token (int (session_lifetime_seconds c)) (is_secure c),
                session_cookie ''oauth_state'' [] 0 (is_secure c)] \<rparr>)) id (run_tx (create_session n) s))))"

section \<open>Requests\<close>

record session =
  sn_person :: int
  sn_login :: str
  sn_csrf :: str
  sn_token :: str
  sn_access :: str

definition verify_csrf :: "(str \<Rightarrow> nat list) \<Rightarrow> session \<Rightarrow> str \<Rightarrow> unit result" where
  "verify_csrf sha256 sn submitted =
    fail_if (sha256 submitted \<noteq> sha256 (sn_csrf sn)) (PermissionDenied ''Invalid form token'')"

text \<open>The middleware up to the handler: the session of the request and whether its cookie is set anew, or a redirect to the login.\<close>

definition session_is_current :: "'net runtime_configuration \<Rightarrow> int \<Rightarrow> session_record \<Rightarrow> bool" where
  "session_is_current c time r \<longleftrightarrow>
    \<not> (time - rec_verified r \<ge> int (membership_recheck_seconds (github c))) \<and>
    \<not> (case rec_access_expires r of None \<Rightarrow> False | Some t \<Rightarrow> t \<le> time)"

definition require_session ::
    "auth_external \<Rightarrow> 'net runtime_configuration \<Rightarrow> str option \<Rightarrow> ('net auth_db, (session \<times> bool) option) prog" where
  "require_session ext c session_token s =
    (case session_token of
      None \<Rightarrow> (Ok None, s)
    | Some token \<Rightarrow>
      if byte_len token > 128 then (Ok None, s)
      else
        (case find_session (ath_hash ext token) s of
          None \<Rightarrow> (Ok None, s)
        | Some r \<Rightarrow>
          if \<not> session_is_current c (auth_clock s) r then (Ok None, s)
          else
            (case run_tx (extend_session (ath_hash ext token) (int (session_lifetime_seconds c))) s of
              (Inl e, s') \<Rightarrow> (Err e, s')
            | (Inr extended, s') \<Rightarrow>
              if rec_refresh r \<noteq> None \<and> \<not> extended then (Ok None, s')
              else (Ok (Some (\<lparr> sn_person = rec_person r, sn_login = rec_login r, sn_csrf = rec_csrf r, sn_token = rec_token r,
                sn_access = rec_access r \<rparr>, extended)), s'))))"

definition logout :: "(str \<Rightarrow> nat list) \<Rightarrow> session \<Rightarrow> str \<Rightarrow> ('net, page) atx" where
  "logout sha256 sn csrf =
    bind_tx (lift_tx (verify_csrf sha256 sn csrf)) (\<lambda>_.
    bind_tx (delete_session (sn_token sn) (sn_person sn)) (\<lambda>_.
    bind_tx (get_tx auth_configuration) (\<lambda>c.
    return_tx \<lparr> page_location = lit ''/login'', page_cookies = [session_cookie ''session'' [] 0 (is_secure c)] \<rparr>)))"

section \<open>The background task\<close>

definition rotated_row :: "auth_external \<Rightarrow> int \<Rightarrow> str \<Rightarrow> session_row \<Rightarrow> session_row result" where
  "rotated_row ext time encrypted_refresh_token r =
    bind_res (ath_decrypt ext encrypted_refresh_token) (\<lambda>refresh_token.
    bind_res (ath_rotate ext refresh_token) (\<lambda>tokens.
    case (tok_refresh tokens, tok_expires tokens, tok_refresh_expires tokens) of
      (Some new_refresh_token, Some access_lifetime, Some refresh_lifetime) \<Rightarrow>
        bind_res (fail_if (access_lifetime \<le> 0 \<or> refresh_lifetime \<le> 0) app_error.Unavailable) (\<lambda>_.
        bind_res (ath_encrypt ext (tok_access tokens)) (\<lambda>access.
        bind_res (ath_encrypt ext new_refresh_token) (\<lambda>refresh.
        Ok (r\<lparr> ses_access := access, ses_refresh := Some refresh, ses_access_expires := Some (time + access_lifetime),
          ses_refresh_expires := Some (time + refresh_lifetime) \<rparr>))))
    | _ \<Rightarrow> Err app_error.Unavailable))"

definition refresh_session_token :: "auth_external \<Rightarrow> str \<Rightarrow> int \<Rightarrow> ('net, str option) atx" where
  "refresh_session_token ext token_hash refresh_before s =
    (case find (live_session token_hash (auth_clock s)) (sessions s) of
      None \<Rightarrow> Ok (None, s)
    | Some r \<Rightarrow>
      (case ses_access_expires r of
        None \<Rightarrow> Ok (Some (ses_access r), s)
      | Some access_expires_at \<Rightarrow>
        if access_expires_at > auth_clock s + refresh_before then Ok (Some (ses_access r), s)
        else
          (case (ses_refresh r, ses_refresh_expires r) of
            (Some encrypted_refresh_token, Some refresh_expires_at) \<Rightarrow>
              if refresh_expires_at \<le> auth_clock s then Err AuthenticationRequired
              else bind_res (rotated_row ext (auth_clock s) encrypted_refresh_token r) (\<lambda>r'.
                bind_res (update_sessions (\<lambda>x. ses_token x = token_hash)
                  (\<lambda>x. x\<lparr> ses_access := ses_access r', ses_refresh := ses_refresh r', ses_access_expires := ses_access_expires r',
                    ses_refresh_expires := ses_refresh_expires r' \<rparr>) s) (\<lambda>(_, s').
                Ok (Some (ses_access r'), s')))
          | _ \<Rightarrow> Ok (Some (ses_access r), s))))"

text \<open>One session with an expiring token: a token that cannot be rotated any more ends the session, any other failure is left for later.\<close>

definition sweep_token :: "auth_external \<Rightarrow> 'net runtime_configuration \<Rightarrow> str \<Rightarrow> 'net auth_db \<Rightarrow> 'net auth_db" where
  "sweep_token ext c token_hash s =
    (case run_tx (refresh_session_token ext token_hash (int (token_refresh_before_seconds (github c)))) s of
      (Inr _, s') \<Rightarrow> s'
    | (Inl e, s') \<Rightarrow> if e = AuthenticationRequired then snd (run_tx (revoke_session token_hash) s') else s')"

definition pass_seconds :: "nat \<Rightarrow> 'net auth_db \<Rightarrow> 'net auth_db" where
  "pass_seconds t s = s\<lparr> auth_clock := auth_clock s + int t \<rparr>"

abbreviation (input) FAILED_CHECK_PAUSE :: int where "FAILED_CHECK_PAUSE \<equiv> 300"

text \<open>One person who is due. The check takes the latency of its token, and its success is stored when it is back.\<close>

definition sweep_person ::
    "auth_external \<Rightarrow> 'net runtime_configuration \<Rightarrow> session_record \<Rightarrow> (int \<rightharpoonup> int) \<times> 'net auth_db \<Rightarrow> (int \<rightharpoonup> int) \<times> 'net auth_db" where
  "sweep_person ext c r = (\<lambda>(failed_at, s).
    if failed_at (rec_person r) \<noteq> None then (failed_at, s)
    else
      (case ath_decrypt ext (rec_access r) of
        Inl e \<Rightarrow> (failed_at(rec_person r \<mapsto> auth_clock s), s)
      | Inr access_token \<Rightarrow>
        let s' = pass_seconds (ath_latency ext access_token) s in
        (case ath_identity ext access_token (authorization_team (github c)) (rec_person r) of
          Inl e \<Rightarrow> (failed_at(rec_person r \<mapsto> auth_clock s'), s')
        | Inr _ \<Rightarrow> (failed_at, snd (run_tx (refresh_membership_verification_for_user (rec_person r)) s')))))"

definition sweep_delay :: "'net runtime_configuration \<Rightarrow> nat" where
  "sweep_delay c = max 15 (min 60 (min (membership_recheck_seconds (github c) div 4) (token_refresh_before_seconds (github c) div 2)))"

definition retain_recent :: "int \<Rightarrow> (int \<rightharpoonup> int) \<Rightarrow> int \<rightharpoonup> int" where
  "retain_recent time failed_at person =
    (case failed_at person of None \<Rightarrow> None | Some t \<Rightarrow> if time - t < FAILED_CHECK_PAUSE then Some t else None)"

definition sweep_tokens :: "auth_external \<Rightarrow> 'net runtime_configuration \<Rightarrow> 'net auth_db \<Rightarrow> 'net auth_db" where
  "sweep_tokens ext c s = foldl (\<lambda>s token_hash. sweep_token ext c token_hash s) s
    (sessions_with_expiring_tokens (int (token_refresh_before_seconds (github c))) s)"

definition session_sweep ::
    "auth_external \<Rightarrow> 'net runtime_configuration \<Rightarrow> (int \<rightharpoonup> int) \<times> 'net auth_db \<Rightarrow> nat \<times> (int \<rightharpoonup> int) \<times> 'net auth_db" where
  "session_sweep ext c = (\<lambda>(failed_at, s).
    let s1 = sweep_tokens ext c s
    in (sweep_delay c, foldl (\<lambda>x r. sweep_person ext c r x) (retain_recent (auth_clock s1) failed_at, s1)
          (due_session_per_user (int (membership_recheck_seconds (github c))) s1)))"

section \<open>Changing the configuration\<close>

definition update_configuration ::
    "(str \<Rightarrow> url option) \<Rightarrow> ('net \<Rightarrow> str) \<Rightarrow> 'net runtime_configuration \<Rightarrow> int \<Rightarrow> ('net, unit) atx" where
  "update_configuration parse_url show_net c actor =
    bind_tx (lift_tx (validate parse_url c)) (\<lambda>_.
    bind_tx (get_tx auth_configuration) (\<lambda>previous.
    let changed = changed_configuration_paths (configuration_to_value show_net previous) (configuration_to_value show_net c) in
    if changed = [] then return_tx ()
    else
      bind_tx (\<lambda>s. Ok ((), s\<lparr> auth_configuration := c\<lparr> trusted_networks := [] \<rparr> \<rparr>)) (\<lambda>_.
      bind_tx (when_tx (list_ex setting_invalidates_sessions changed) (\<lambda>s. Ok ((), s\<lparr> sessions := [] \<rparr>))) (\<lambda>_.
      auth_audit (Some actor) ConfigurationUpdate (DObject [(''changed'', DList (map DText changed))])))))"

end
