(* ===== verification/Session_Laws.thy ===== *)
theory Session_Laws
  imports Session
begin

text \<open>
  What signing in and the background task guarantee together. The steps are those of \<open>Session\<close>, in any order; the answers of GitHub may be
  as old as \<open>gap\<close> seconds when they are stored. Then: a person whom GitHub last confirmed long ago is locked out, whatever fails; a change of
  the team ends what the old team confirmed; a state of a sign-in works once; denials cannot flood the audit log; a redirect stays on the site;
  and a sweep whose checks succeed keeps its people signed in.
\<close>

section \<open>Rows\<close>

definition session_tables_ok :: "'net auth_db \<Rightarrow> bool" where
  "session_tables_ok s \<longleftrightarrow> distinct (map ses_token (sessions s)) \<and>
    list_all (\<lambda>r. list_ex (\<lambda>m. mnt_person m = ses_person r) (maintainers s)) (sessions s)"

definition keeps_tables :: "'net auth_db \<Rightarrow> 'net auth_db \<Rightarrow> bool" where
  "keeps_tables s s' \<longleftrightarrow> (session_tables_ok s \<longrightarrow> session_tables_ok s')"

interpretation ses_tables: tx_relation keeps_tables
  by unfold_locales (auto simp: keeps_tables_def)

text \<open>Nothing is in the sessions that was not there before, but for its token and its expiry; the team stays; time goes on.\<close>

definition no_new_access :: "'net auth_db \<Rightarrow> 'net auth_db \<Rightarrow> bool" where
  "no_new_access s s' \<longleftrightarrow> auth_clock s \<le> auth_clock s' \<and> active_team s' = active_team s \<and>
    (\<forall>r' \<in> set (sessions s'). \<exists>r \<in> set (sessions s). ses_person r = ses_person r' \<and> ses_verified r = ses_verified r')"

interpretation ses_old: tx_relation no_new_access
  by unfold_locales (auto simp: no_new_access_def, metis)

lemma sessions_kept:
  "\<lbrakk>sessions s' = sessions s; maintainers s' = maintainers s\<rbrakk> \<Longrightarrow> keeps_tables s s'"
  "\<lbrakk>sessions s' = sessions s; auth_configuration s' = auth_configuration s; auth_clock s' = auth_clock s\<rbrakk> \<Longrightarrow> no_new_access s s'"
  by (auto simp: keeps_tables_def session_tables_ok_def no_new_access_def)

lemma audit_respects: "tx_respects keeps_tables (auth_audit a b d)" "tx_respects no_new_access (auth_audit a b d)"
  by (auto intro!: tx_respectsI sessions_kept simp: auth_audit_def)

lemma store_state_respects:
  "tx_respects keeps_tables (store_oauth_state h p)" "tx_respects no_new_access (store_oauth_state h p)"
  by (auto intro!: tx_respectsI sessions_kept simp: store_oauth_state_def Let_def result_simps)

lemma consume_state_respects:
  "tx_respects keeps_tables (consume_oauth_state h)" "tx_respects no_new_access (consume_oauth_state h)"
  by (auto intro!: tx_respectsI sessions_kept simp: consume_oauth_state_def)

lemma revoke_respects: "tx_respects keeps_tables (revoke_session h)" "tx_respects no_new_access (revoke_session h)"
  by (auto intro!: tx_respectsI simp: revoke_session_def keeps_tables_def session_tables_ok_def no_new_access_def list_all_iff
      distinct_map_filter)

lemma update_respects:
  assumes "\<And>r. ses_token (f r) = ses_token r \<and> ses_person (f r) = ses_person r"
  shows "tx_respects keeps_tables (update_sessions p f)"
proof
  fix db :: "'net auth_db" and a db' assume "update_sessions p f db = Ok (a, db')"
  then have s: "sessions db' = map (\<lambda>r. if p r then f r else r) (sessions db)" "maintainers db' = maintainers db"
    by (auto simp: update_sessions_def)
  have tokens: "map ses_token (sessions db') = map ses_token (sessions db)" using assms by (simp add: s(1))
  have "\<forall>r' \<in> set (sessions db'). \<exists>r \<in> set (sessions db). ses_person r' = ses_person r" using assms by (auto simp: s(1))
  then show "keeps_tables db db'"
    unfolding keeps_tables_def session_tables_ok_def tokens s(2) list_all_iff by metis
qed

lemma update_old:
  assumes "\<And>r. ses_person (f r) = ses_person r \<and> ses_verified (f r) = ses_verified r"
  shows "tx_respects no_new_access (update_sessions p f)"
  by (intro tx_respectsI) (auto simp: update_sessions_def no_new_access_def assms)

lemma extend_respects: "tx_respects keeps_tables (extend_session h n)" "tx_respects no_new_access (extend_session h n)"
  unfolding extend_session_def
  by (auto intro!: ses_tables.bind_respects ses_tables.get_respects ses_tables.return_respects update_respects)
    (auto intro!: ses_old.bind_respects ses_old.get_respects ses_old.return_respects update_old)

lemma check_respects: "tx_respects keeps_tables (refresh_membership_verification_for_user p)"
  unfolding refresh_membership_verification_for_user_def
  by (auto intro!: ses_tables.bind_respects ses_tables.get_respects ses_tables.return_respects update_respects)

lemma delete_respects: "tx_respects keeps_tables (delete_session h p)" "tx_respects no_new_access (delete_session h p)"
  unfolding delete_session_def
  by (auto intro!: ses_tables.bind_respects ses_tables.get_respects ses_tables.lift_respects audit_respects revoke_respects)
    (auto intro!: ses_old.bind_respects ses_old.get_respects ses_old.lift_respects audit_respects revoke_respects)

lemma logout_respects: "tx_respects keeps_tables (logout d sn t)" "tx_respects no_new_access (logout d sn t)"
  unfolding logout_def
  by (auto intro!: ses_tables.bind_respects ses_tables.get_respects ses_tables.lift_respects ses_tables.return_respects delete_respects)
    (auto intro!: ses_old.bind_respects ses_old.get_respects ses_old.lift_respects ses_old.return_respects delete_respects)

lemma refresh_token_is_update:
  assumes "refresh_session_token ext h n db = Ok (a, db')"
  shows "db' = db \<or> (\<exists>n (r' :: session_row). update_sessions (\<lambda>x. ses_token x = h)
      (\<lambda>x. x\<lparr> ses_access := ses_access r', ses_refresh := ses_refresh r', ses_access_expires := ses_access_expires r',
        ses_refresh_expires := ses_refresh_expires r' \<rparr>) db = Ok (n, db'))"
  using assms by (auto simp: refresh_session_token_def result_simps split: option.splits if_splits)

lemma refresh_token_respects:
  "tx_respects keeps_tables (refresh_session_token ext h n)" "tx_respects no_new_access (refresh_session_token ext h n)"
  by (intro tx_respectsI; drule refresh_token_is_update;
      auto intro: ses_tables.refl ses_old.refl tx_respectsD [OF update_respects, rotated] tx_respectsD [OF update_old, rotated])+

lemma start_login_respects:
  fixes s :: "'net auth_db"
  shows "keeps_tables s (snd (start_github_login ext t p s))" "no_new_access s (snd (start_github_login ext t p s))"
proof -
  have "prog_respects keeps_tables (start_github_login ext t p :: ('net auth_db, page) prog)"
    unfolding start_github_login_def Let_def
    by (intro ses_tables.bind_prog_respects ses_tables.get_prog_respects ses_tables.run_prog_respects ses_tables.lift_prog_respects
        ses_tables.return_prog_respects store_state_respects)
  then show "keeps_tables s (snd (start_github_login ext t p s))" by (rule prog_respectsD)
  have "prog_respects no_new_access (start_github_login ext t p :: ('net auth_db, page) prog)"
    unfolding start_github_login_def Let_def
    by (intro ses_old.bind_prog_respects ses_old.get_prog_respects ses_old.run_prog_respects ses_old.lift_prog_respects
        ses_old.return_prog_respects store_state_respects)
  then show "no_new_access s (snd (start_github_login ext t p s))" by (rule prog_respectsD)
qed

lemma callback_begin_respects:
  "keeps_tables s (snd (callback_begin ext ck cb s))" "no_new_access s (snd (callback_begin ext ck cb s))"
  using ses_tables.run_respects [OF consume_state_respects(1), of s "ath_hash ext (cb_state cb)"]
    ses_old.run_respects [OF consume_state_respects(2), of s "ath_hash ext (cb_state cb)"]
  by (auto simp: callback_begin_def ses_tables.refl ses_old.refl split: prod.split sum.split option.split)

lemma require_session_respects:
  "keeps_tables s (snd (require_session ext c ck s))" "no_new_access s (snd (require_session ext c ck s))"
  using ses_tables.run_respects [OF extend_respects(1), of s] ses_old.run_respects [OF extend_respects(2), of s]
  by (auto simp: require_session_def ses_tables.refl ses_old.refl split: prod.splits sum.splits option.splits) (metis snd_conv)+

lemma sweep_token_respects:
  "keeps_tables s (sweep_token ext c h s)" "no_new_access s (sweep_token ext c h s)"
proof -
  let ?n = "int (token_refresh_before_seconds (github c))"
  obtain r s1 where 1: "run_tx (refresh_session_token ext h ?n) s = (r, s1)" by (cases "run_tx (refresh_session_token ext h ?n) s")
  have "keeps_tables s s1" "no_new_access s s1"
    using ses_tables.run_respects [OF refresh_token_respects(1)] ses_old.run_respects [OF refresh_token_respects(2)] 1 by (metis snd_conv)+
  moreover have "keeps_tables s1 (snd (run_tx (revoke_session h) s1))" "no_new_access s1 (snd (run_tx (revoke_session h) s1))"
    by (rule ses_tables.run_respects [OF revoke_respects(1)], rule ses_old.run_respects [OF revoke_respects(2)])
  ultimately show "keeps_tables s (sweep_token ext c h s)" "no_new_access s (sweep_token ext c h s)"
    by (auto simp: sweep_token_def 1 split: sum.split intro: ses_tables.trans ses_old.trans)
qed

lemma record_denied_respects:
  "tx_respects keeps_tables (record_denied_sign_in i l w)" "tx_respects no_new_access (record_denied_sign_in i l w)"
  unfolding record_denied_sign_in_def when_tx_def
  by (auto intro!: ses_tables.bind_respects ses_tables.get_respects ses_tables.return_respects audit_respects)
    (auto intro!: ses_old.bind_respects ses_old.get_respects ses_old.return_respects audit_respects)

lemma denial_respects: "keeps_tables s (note_denial u w e s)" "no_new_access s (note_denial u w e s)"
  by (auto simp: note_denial_def ses_tables.refl ses_old.refl split: app_error.split
      intro: ses_tables.run_respects ses_old.run_respects record_denied_respects)

lemma renamed_person [simp]:
  "list_ex (\<lambda>m. mnt_person m = q) (map (\<lambda>m. if mnt_person m = p then m\<lparr> mnt_login := l \<rparr> else m) ms) \<longleftrightarrow>
    list_ex (\<lambda>m. mnt_person m = q) ms"
  by (induction ms) auto

lemma upsert_effect:
  assumes "upsert_maintainer p l s = Ok (u, s')"
  shows "sessions s' = sessions s" "auth_clock s' = auth_clock s" "auth_configuration s' = auth_configuration s"
    "list_ex (\<lambda>m. mnt_person m = q) (maintainers s') \<longleftrightarrow> q = p \<or> list_ex (\<lambda>m. mnt_person m = q) (maintainers s)"
  using assms
  by (cases "list_ex (\<lambda>m. mnt_person m = p) (maintainers s)"; fastforce simp: upsert_maintainer_def result_simps)+

lemma configuration_respects: "keeps_tables s (snd (run_tx (update_configuration parse show_net c actor) s))"
proof (rule ses_tables.run_respects)
  have "tx_respects keeps_tables (\<lambda>s. Ok ((), s\<lparr> auth_configuration := c' \<rparr>))" "tx_respects keeps_tables (\<lambda>s. Ok ((), s\<lparr> sessions := [] \<rparr>))" for c'
    by (auto intro!: tx_respectsI simp: keeps_tables_def session_tables_ok_def)
  then show "tx_respects keeps_tables (update_configuration parse show_net c actor)"
    unfolding update_configuration_def Let_def when_tx_def
    by (auto intro!: ses_tables.bind_respects ses_tables.get_respects ses_tables.lift_respects ses_tables.return_respects audit_respects)
qed

section \<open>What GitHub says\<close>

text \<open>Who is in which team when is outside of the program. GitHub's answers are true of a moment between the question and the answer.\<close>

type_synonym membership = "str \<Rightarrow> int \<Rightarrow> int \<Rightarrow> bool"

definition member_between :: "membership \<Rightarrow> str \<Rightarrow> int \<Rightarrow> int \<Rightarrow> int \<Rightarrow> bool" where
  "member_between member team person lo hi \<longleftrightarrow> (\<exists>t. lo \<le> t \<and> t \<le> hi \<and> member team person t)"

definition answers_true :: "membership \<Rightarrow> auth_external \<Rightarrow> int \<Rightarrow> int \<Rightarrow> bool" where
  "answers_true member ext lo hi \<longleftrightarrow>
    (\<forall>token user team. ath_user ext token = Ok user \<longrightarrow> ath_membership ext token team (usr_login user) = Ok () \<longrightarrow>
      member_between member team (usr_id user) lo hi) \<and>
    (\<forall>token team person. ath_identity ext token team person = Ok () \<longrightarrow> member_between member team person lo hi)"

lemma member_between_mono: "\<lbrakk>member_between m team p lo hi; lo' \<le> lo; hi \<le> hi'\<rbrakk> \<Longrightarrow> member_between m team p lo' hi'"
  by (auto simp: member_between_def intro: order_trans)

lemma answers_true_mono: "\<lbrakk>answers_true m ext lo hi; lo' \<le> lo; hi \<le> hi'\<rbrakk> \<Longrightarrow> answers_true m ext lo' hi'"
  unfolding answers_true_def by (meson member_between_mono)

inductive access_step :: "membership \<Rightarrow> nat \<Rightarrow> 'net auth_db \<Rightarrow> 'net auth_db \<Rightarrow> bool" for member gap where
  start: "access_step member gap s (snd (start_github_login ext state_token next_path s))"
| call_back: "access_step member gap s (snd (callback_begin ext cookie cb s))"
| sign_in: "answers_true member ext (auth_clock s - int gap) (auth_clock s) \<Longrightarrow>
    access_step member gap s (snd (callback_finish ext c cb return_to session_token csrf_token s))"
| request: "access_step member gap s (snd (require_session ext c cookie s))"
| sign_out: "access_step member gap s (snd (run_tx (logout sha256 sn csrf) s))"
| rotate: "access_step member gap s (sweep_token ext c token_hash s)"
| check: "\<lbrakk>answers_true member ext (auth_clock s - int gap) (auth_clock s); ath_identity ext token team person = Ok ()\<rbrakk> \<Longrightarrow>
    access_step member gap s (snd (run_tx (refresh_membership_verification_for_user person) s))"
| configure: "access_step member gap s (snd (run_tx (update_configuration parse_url show_net c actor) s))"
| wait: "access_step member gap s (pass_seconds n s)"

definition access_run :: "membership \<Rightarrow> nat \<Rightarrow> 'net auth_db \<Rightarrow> 'net auth_db \<Rightarrow> bool" where
  "access_run member gap = (access_step member gap)\<^sup>*\<^sup>*"

text \<open>The check of one person by the background task is such a run.\<close>

lemma sweep_person_run:
  assumes "answers_true member ext (auth_clock s) (auth_clock s + int (ath_latency ext token))"
    and "ath_decrypt ext (rec_access r) = Ok token" "ath_latency ext token \<le> gap"
  shows "access_run member gap s (snd (sweep_person ext c r (failed_at, s)))"
proof -
  let ?s = "pass_seconds (ath_latency ext token) s"
  have wait: "access_step member gap s ?s" by (rule access_step.wait)
  have true: "answers_true member ext (auth_clock ?s - int gap) (auth_clock ?s)"
    by (rule answers_true_mono [OF assms(1)]) (use assms(3) in \<open>simp_all add: pass_seconds_def\<close>)
  show ?thesis
  proof (cases "ath_identity ext token (authorization_team (github c)) (rec_person r)")
    case (Inl e)
    then show ?thesis using wait by (auto simp: access_run_def sweep_person_def assms(2) Let_def)
  next
    case (Inr u)
    then have "access_step member gap ?s (snd (run_tx (refresh_membership_verification_for_user (rec_person r)) ?s))"
      by (intro access_step.check [OF true]) simp
    then show ?thesis using wait Inr by (auto simp: access_run_def sweep_person_def assms(2) Let_def)
  qed
qed

section \<open>Who is let in\<close>

definition access_confirmed :: "membership \<Rightarrow> nat \<Rightarrow> 'net auth_db \<Rightarrow> bool" where
  "access_confirmed member gap s \<longleftrightarrow> (\<forall>r \<in> set (sessions s). ses_verified r \<le> auth_clock s \<and>
    (\<exists>team. member_between member team (ses_person r) (ses_verified r - int gap) (ses_verified r)) \<and>
    (\<exists>t \<le> auth_clock s. member (active_team s) (ses_person r) t))"

lemma old_access_confirmed:
  assumes "no_new_access s s'" "access_confirmed member gap s"
  shows "access_confirmed member gap s'"
  unfolding access_confirmed_def
proof
  fix r' assume "r' \<in> set (sessions s')"
  then obtain r where r: "r \<in> set (sessions s)" "ses_person r = ses_person r'" "ses_verified r = ses_verified r'"
    using assms(1) unfolding no_new_access_def by blast
  have "auth_clock s \<le> auth_clock s'" "active_team s' = active_team s" using assms(1) by (simp_all add: no_new_access_def)
  with assms(2) r show "ses_verified r' \<le> auth_clock s' \<and>
      (\<exists>team. member_between member team (ses_person r') (ses_verified r' - int gap) (ses_verified r')) \<and>
      (\<exists>t \<le> auth_clock s'. member (active_team s') (ses_person r') t)"
    unfolding access_confirmed_def by (metis order_trans)
qed

lemma created_session:
  assumes "create_session n s = Ok (u, s')"
  shows "sessions s' = sessions s @ [new_session_row n (auth_clock s)]" "new_token n \<notin> ses_token ` set (sessions s)"
    "auth_clock s' = auth_clock s" "auth_configuration s' = auth_configuration s" "active_team s = new_team n"
    "list_ex (\<lambda>m. mnt_person m = q) (maintainers s') \<longleftrightarrow> q = new_person n \<or> list_ex (\<lambda>m. mnt_person m = q) (maintainers s)"
proof -
  obtain s1 s2 where 1: "active_team s = new_team n" "upsert_maintainer (new_person n) (new_login n) s = Ok ((), s1)"
      "insert_session (new_session_row n (auth_clock s1)) s1 = Ok ((), s2)"
      "sessions s' = sessions s2" "maintainers s' = maintainers s2" "auth_clock s' = auth_clock s2" "auth_configuration s' = auth_configuration s2"
    using assms by (auto simp: create_session_def result_simps auth_audit_def)
  note up = upsert_effect [OF 1(2)]
  have 2: "s2 = s1\<lparr> sessions := sessions s @ [new_session_row n (auth_clock s)] \<rparr>" "new_token n \<notin> ses_token ` set (sessions s)"
    using 1(3) by (auto simp: insert_session_def result_simps list_ex_iff up(1,2))
  show "sessions s' = sessions s @ [new_session_row n (auth_clock s)]" "auth_clock s' = auth_clock s"
      "auth_configuration s' = auth_configuration s" "new_token n \<notin> ses_token ` set (sessions s)" "active_team s = new_team n"
      "list_ex (\<lambda>m. mnt_person m = q) (maintainers s') \<longleftrightarrow> q = new_person n \<or> list_ex (\<lambda>m. mnt_person m = q) (maintainers s)"
    by (simp_all add: 1 2 up)
qed

text \<open>The callback stores a session only for an account whose membership GitHub answered.\<close>

lemma asked_user: "bind_res r (\<lambda>token. map_sum id (Pair token) (ath_user ext (tok_access token))) = Ok (token, user) \<Longrightarrow>
    ath_user ext (tok_access token) = Ok user"
  by (cases r; auto simp: map_sum_def split: sum.splits)

lemma callback_finish_cases:
  obtains (refused) "no_new_access s (snd (callback_finish ext c cb return_to st ct s))"
      "keeps_tables s (snd (callback_finish ext c cb return_to st ct s))"
  | (stored) token user n where "ath_user ext (tok_access token) = Ok user"
      "ath_membership ext (tok_access token) (authorization_team (github c)) (usr_login user) = Ok ()"
      "new_session_of ext c user token st ct (auth_clock s) = Ok n"
      "snd (callback_finish ext c cb return_to st ct s) = snd (run_tx (create_session n) s)"
proof (cases "bind_res (ath_exchange ext (cb_code cb)) (\<lambda>token. map_sum id (Pair token) (ath_user ext (tok_access token)))")
  case (Inl e)
  show thesis by (rule refused) (simp_all add: callback_finish_def Inl ses_old.refl ses_tables.refl)
next
  case (Inr x)
  then obtain token user where x: "x = (token, user)" by (cases x)
  note user = asked_user [OF Inr [unfolded x]]
  show thesis
  proof (cases "ath_membership ext (tok_access token) (authorization_team (github c)) (usr_login user)")
    case (Inl e)
    show thesis by (rule refused) (simp_all add: callback_finish_def Inl \<open>_ = Ok x\<close> x denial_respects)
  next
    case ok: (Inr u)
    show thesis
    proof (cases "new_session_of ext c user token st ct (auth_clock s)")
      case (Inl e)
      show thesis by (rule refused) (simp_all add: callback_finish_def Inl ok \<open>_ = Ok x\<close> x ses_old.refl ses_tables.refl)
    next
      case (Inr n)
      show thesis by (rule stored [OF user _ Inr]) (simp_all add: callback_finish_def Inr ok \<open>_ = Ok x\<close> x)
    qed
  qed
qed

lemma sign_in_confirmed:
  assumes "answers_true member ext (auth_clock s - int gap) (auth_clock s)" and old: "access_confirmed member gap s"
  shows "access_confirmed member gap (snd (callback_finish ext c cb return_to st ct s))"
proof (cases rule: callback_finish_cases [of s ext c cb return_to st ct])
  case refused
  show ?thesis by (rule old_access_confirmed [OF refused(1) old])
next
  case ok: (stored token user n)
  have n: "new_person n = usr_id user" "new_team n = authorization_team (github c)"
    using ok(3) by (auto simp: new_session_of_def result_simps split: option.splits)
  have "member_between member (new_team n) (new_person n) (auth_clock s - int gap) (auth_clock s)"
    using assms(1) ok(1,2) by (auto simp: answers_true_def n)
  show ?thesis
  proof (cases "create_session n s")
    case (Inl e)
    then show ?thesis using old by (simp add: ok(4) run_tx_def)
  next
    case (Inr x)
    then obtain s' where s': "create_session n s = Ok ((), s')" by (cases x) auto
    note new = created_session [OF this]
    show ?thesis unfolding ok(4) run_tx_def s' access_confirmed_def
      using old \<open>member_between _ _ _ _ _\<close> by (auto simp: new access_confirmed_def member_between_def)
  qed
qed

lemma check_confirmed:
  assumes "answers_true member ext (auth_clock s - int gap) (auth_clock s)" "ath_identity ext token team person = Ok ()"
    and "access_confirmed member gap s"
  shows "access_confirmed member gap (snd (run_tx (refresh_membership_verification_for_user person) s))"
proof -
  have "member_between member team person (auth_clock s - int gap) (auth_clock s)" using assms(1,2) by (auto simp: answers_true_def)
  then show ?thesis using assms(3)
    by (auto simp: refresh_membership_verification_for_user_def update_sessions_def run_tx_def tx_run access_confirmed_def)
qed

lemma configure_effect:
  assumes "update_configuration parse_url show_net c actor s = Ok (u, s')"
  shows "auth_clock s' = auth_clock s \<and> (sessions s' = [] \<or> (sessions s' = sessions s \<and> active_team s' = active_team s))"
  using assms invalidating_change_iff [of show_net "auth_configuration s" c]
  by (auto simp: update_configuration_def result_simps Let_def when_tx_def auth_audit_def split: if_splits)

lemma configure_confirmed:
  assumes "access_confirmed member gap s"
  shows "access_confirmed member gap (snd (run_tx (update_configuration parse_url show_net c actor) s))"
  using assms configure_effect [of parse_url show_net c actor s]
  by (cases "update_configuration parse_url show_net c actor s") (auto simp: run_tx_def access_confirmed_def)

lemma step_confirmed:
  assumes "access_step member gap s s'" "access_confirmed member gap s"
  shows "access_confirmed member gap s'"
  using assms
proof cases
  case (sign_out d sn csrf)
  then show ?thesis using assms(2) old_access_confirmed ses_old.run_respects [OF logout_respects(2)] by blast
next
  case (wait n)
  then have "no_new_access s s'" by (auto simp: no_new_access_def pass_seconds_def)
  then show ?thesis using assms(2) by (rule old_access_confirmed)
qed (use assms(2) old_access_confirmed start_login_respects callback_begin_respects require_session_respects sweep_token_respects
    sign_in_confirmed check_confirmed configure_confirmed in \<open>metis\<close>)+

lemma run_confirmed:
  assumes "access_run member gap s s'" "sessions s = []"
  shows "access_confirmed member gap s'"
  using assms(1) unfolding access_run_def
proof (induction rule: rtranclp_induct)
  case base
  show ?case by (simp add: access_confirmed_def assms(2))
next
  case (step y z)
  then show ?case by (blast intro: step_confirmed)
qed

lemma step_tables:
  assumes "access_step member gap s s'" "session_tables_ok s"
  shows "session_tables_ok s'"
proof -
  have create: "keeps_tables s (snd (run_tx (create_session n) s))" for n
  proof (cases "create_session n s")
    case (Inl e)
    then show ?thesis by (simp add: run_tx_def ses_tables.refl)
  next
    case (Inr x)
    then obtain s' where s': "create_session n s = Ok ((), s')" by (cases x) auto
    show ?thesis using created_session [OF s']
      by (simp add: s' run_tx_def keeps_tables_def session_tables_ok_def list_all_iff)
  qed
  from assms(1) have "keeps_tables s s'"
  proof cases
    case (sign_in ext c cb return_to st ct)
    then show ?thesis by (cases rule: callback_finish_cases [of s ext c cb return_to st ct]) (simp_all add: create)
  next
    case (sign_out d sn csrf)
    then show ?thesis using ses_tables.run_respects [OF logout_respects(1)] by blast
  next
    case (check ext token team person)
    then show ?thesis using ses_tables.run_respects [OF check_respects(1)] by blast
  next
    case (wait n)
    then show ?thesis by (simp add: keeps_tables_def session_tables_ok_def pass_seconds_def)
  qed (simp_all add: start_login_respects callback_begin_respects require_session_respects sweep_token_respects configuration_respects)
  then show ?thesis using assms(2) by (simp add: keeps_tables_def)
qed

lemma run_tables:
  assumes "access_run member gap s s'" "sessions s = []"
  shows "session_tables_ok s'"
  using assms(1) unfolding access_run_def
proof (induction rule: rtranclp_induct)
  case base
  show ?case by (simp add: session_tables_ok_def assms(2))
next
  case (step y z)
  then show ?case by (blast intro: step_tables)
qed

section \<open>Requests\<close>

definition acceptable :: "'net runtime_configuration \<Rightarrow> int \<Rightarrow> str \<Rightarrow> session_row \<Rightarrow> bool" where
  "acceptable c time h r \<longleftrightarrow> ses_token r = h \<and> time < ses_expires r \<and>
    time - ses_verified r < int (membership_recheck_seconds (github c)) \<and>
    (case ses_access_expires r of None \<Rightarrow> True | Some t \<Rightarrow> time < t)"

lemma only_token:
  "\<lbrakk>distinct (map ses_token xs); r \<in> set xs; ses_token r = h\<rbrakk> \<Longrightarrow> filter (\<lambda>x. ses_token x = h \<and> Q x) xs = (if Q r then [r] else [])"
proof (induction xs)
  case (Cons x xs)
  have "filter (\<lambda>x. ses_token x = h \<and> Q x) xs = []" if "ses_token x = h"
    using Cons.prems(1) that by (auto simp: filter_empty_conv image_iff)
  then show ?case using Cons by auto
qed simp

lemma find_live:
  assumes "distinct (map ses_token xs)"
  shows "find (live_session h time) xs = Some r \<longleftrightarrow> r \<in> set xs \<and> live_session h time r"
  using assms by (induction xs) (auto simp: live_session_def)

lemma extend_outcome:
  assumes "session_tables_ok s" "r \<in> set (sessions s)" "live_session h (auth_clock s) r"
  shows "run_tx (extend_session h n) s = (Ok (ses_refresh r \<noteq> None),
    s\<lparr> sessions := map (\<lambda>x. if x = r \<and> ses_refresh r \<noteq> None then x\<lparr> ses_expires := auth_clock s + n \<rparr> else x) (sessions s) \<rparr>)"
proof -
  let ?p = "\<lambda>x. ses_token x = h \<and> auth_clock s < ses_expires x \<and> ses_refresh x \<noteq> None"
  have d: "distinct (map ses_token (sessions s))" using assms(1) by (simp add: session_tables_ok_def)
  have h: "ses_token r = h" "auth_clock s < ses_expires r" using assms(3) by (auto simp: live_session_def)
  have only: "filter ?p (sessions s) = (if ses_refresh r \<noteq> None then [r] else [])"
    using only_token [OF d assms(2) h(1), of "\<lambda>x. auth_clock s < ses_expires x \<and> ses_refresh x \<noteq> None"] h(2) by simp
  have iff: "?p x \<longleftrightarrow> x = r \<and> ses_refresh r \<noteq> None" if "x \<in> set (sessions s)" for x
  proof -
    have "?p x \<longleftrightarrow> x \<in> set (filter ?p (sessions s))" using that by simp
    then show ?thesis unfolding only by auto
  qed
  have "map (\<lambda>x. if ?p x then x\<lparr> ses_expires := auth_clock s + n \<rparr> else x) (sessions s) =
      map (\<lambda>x. if x = r \<and> ses_refresh r \<noteq> None then x\<lparr> ses_expires := auth_clock s + n \<rparr> else x) (sessions s)"
    by (rule map_cong [OF refl]) (simp only: iff)
  moreover have "length (filter ?p (sessions s)) = 1 \<longleftrightarrow> ses_refresh r \<noteq> None" unfolding only by simp
  moreover have "run_tx (extend_session h n) s = (Ok (length (filter ?p (sessions s)) = 1),
      s\<lparr> sessions := map (\<lambda>x. if ?p x then x\<lparr> ses_expires := auth_clock s + n \<rparr> else x) (sessions s) \<rparr>)"
    by (simp add: extend_session_def run_tx_def tx_run update_sessions_def live_session_def conj_assoc)
  ultimately show ?thesis by presburger
qed

lemma accepted_request:
  assumes "session_tables_ok s" "require_session ext c cookie s = (Ok (Some (sn, again)), s')"
  obtains token r where "cookie = Some token" "byte_len token \<le> 128" "r \<in> set (sessions s)"
    "acceptable c (auth_clock s) (ath_hash ext token) r" "sn_person sn = ses_person r" "sn_csrf sn = ses_csrf r" "sn_token sn = ses_token r"
    "again = (ses_refresh r \<noteq> None)"
    "s' = s\<lparr> sessions := map (\<lambda>x. if x = r \<and> again then x\<lparr> ses_expires := auth_clock s + int (session_lifetime_seconds c) \<rparr> else x) (sessions s) \<rparr>"
proof -
  obtain token q where q: "cookie = Some token" "byte_len token \<le> 128" "find_session (ath_hash ext token) s = Some q"
      "session_is_current c (auth_clock s) q"
    using assms(2) by (auto simp: require_session_def split: option.splits if_splits)
  then obtain r where r: "r \<in> set (sessions s)" "live_session (ath_hash ext token) (auth_clock s) r" "session_record_of s r = Some q"
    using assms(1) by (auto simp: find_session_def bind_eq_Some_conv find_live session_tables_ok_def)
  have q_r: "rec_person q = ses_person r" "rec_csrf q = ses_csrf r" "rec_token q = ses_token r" "rec_refresh q = ses_refresh r"
      "rec_verified q = ses_verified r" "rec_access_expires q = ses_access_expires r"
    using r(3) by (auto simp: session_record_of_def)
  have "acceptable c (auth_clock s) (ath_hash ext token) r"
    using r(2) q(4) by (auto simp: acceptable_def live_session_def session_is_current_def q_r split: option.splits)
  moreover have "sn_person sn = ses_person r" "sn_csrf sn = ses_csrf r" "sn_token sn = ses_token r" "again = (ses_refresh r \<noteq> None)"
      "s' = s\<lparr> sessions := map (\<lambda>x. if x = r \<and> again then x\<lparr> ses_expires := auth_clock s + int (session_lifetime_seconds c) \<rparr> else x) (sessions s) \<rparr>"
    using assms(2) q by (simp_all add: require_session_def extend_outcome [OF assms(1) r(1,2)] q_r split: if_splits) auto
  ultimately show thesis by (rule that [OF q(1,2) r(1)])
qed

lemma known_person:
  "\<lbrakk>session_tables_ok s; r \<in> set (sessions s)\<rbrakk> \<Longrightarrow> find (\<lambda>m. mnt_person m = ses_person r) (maintainers s) \<noteq> None"
  by (auto simp: session_tables_ok_def list_all_iff list_ex_iff find_None_iff)

lemma known_session:
  assumes "session_tables_ok s" "r \<in> set (sessions s)" "live_session h (auth_clock s) r"
  obtains q where "find_session h s = Some q" "session_record_of s r = Some q"
proof -
  have "find (live_session h (auth_clock s)) (sessions s) = Some r"
    using assms by (simp add: find_live session_tables_ok_def)
  moreover have "find (\<lambda>m. mnt_person m = ses_person r) (maintainers s) \<noteq> None" by (rule known_person [OF assms(1,2)])
  ultimately show thesis using that by (auto simp: find_session_def session_record_of_def)
qed

lemma request_never_fails: "fst (require_session ext c cookie s) \<noteq> Err e"
  by (auto simp: require_session_def extend_session_def run_tx_def tx_run update_sessions_def split: option.split)

lemma refused_request:
  assumes ok: "session_tables_ok s" and no: "require_session ext c cookie s = (Ok None, s')"
  shows "s' = s \<and> \<not> (\<exists>token \<in> set_option cookie. byte_len token \<le> 128 \<and>
    list_ex (acceptable c (auth_clock s) (ath_hash ext token)) (sessions s))"
proof -
  have accepted: "fst (require_session ext c (Some token) s) \<noteq> Ok None"
    if len: "byte_len token \<le> 128" and r: "r \<in> set (sessions s)" and acc: "acceptable c (auth_clock s) (ath_hash ext token) r" for token r
  proof -
    have live: "live_session (ath_hash ext token) (auth_clock s) r" using acc by (simp add: acceptable_def live_session_def)
    obtain q where q: "find_session (ath_hash ext token) s = Some q" "session_record_of s r = Some q"
      by (rule known_session [OF ok r live])
    have "rec_verified q = ses_verified r" "rec_access_expires q = ses_access_expires r" "rec_refresh q = ses_refresh r"
      using q(2) by (auto simp: session_record_of_def)
    then have "session_is_current c (auth_clock s) q" "rec_refresh q = ses_refresh r"
      using acc by (auto simp: session_is_current_def acceptable_def split: option.splits)
    then show ?thesis using len by (cases "ses_refresh r") (simp_all add: require_session_def q(1) extend_outcome [OF ok r live])
  qed
  have "s' = s"
  proof (cases "\<exists>token q. cookie = Some token \<and> byte_len token \<le> 128 \<and> find_session (ath_hash ext token) s = Some q \<and> session_is_current c (auth_clock s) q")
    case False
    then show ?thesis using no by (auto simp: require_session_def split: option.splits if_splits)
  next
    case True
    then obtain token q where q: "cookie = Some token" "byte_len token \<le> 128" "find_session (ath_hash ext token) s = Some q"
        "session_is_current c (auth_clock s) q" by blast
    then obtain r where r: "r \<in> set (sessions s)" "live_session (ath_hash ext token) (auth_clock s) r" "session_record_of s r = Some q"
      using ok by (auto simp: find_session_def bind_eq_Some_conv find_live session_tables_ok_def)
    then have "rec_refresh q = ses_refresh r" by (auto simp: session_record_of_def)
    then show ?thesis using no q by (simp add: require_session_def extend_outcome [OF ok r(1,2)] split: if_splits)
  qed
  moreover have False if "cookie = Some token" "byte_len token \<le> 128" "list_ex (acceptable c (auth_clock s) (ath_hash ext token)) (sessions s)" for token
    using accepted [of token] that no by (auto simp: list_ex_iff)
  ultimately show ?thesis by auto
qed


text \<open>C17: A request is let in exactly when its cookie names a stored session that has not expired, that was verified within the recheck interval and whose GitHub
  token lives; it then acts as the person of that session and only moves the expiry of that session, when its token can be refreshed. Any other request changes nothing and is
  sent to the login, never to an error page.\<close>

theorem request_outcome:
  assumes "access_run member gap s0 s" "sessions s0 = []"
  shows "case require_session ext c cookie s of
      (Inr (Some (sn, again)), s') \<Rightarrow> (\<exists>token r. cookie = Some token \<and> byte_len token \<le> 128 \<and> r \<in> set (sessions s) \<and>
        acceptable c (auth_clock s) (ath_hash ext token) r \<and> sn_person sn = ses_person r \<and> sn_csrf sn = ses_csrf r \<and>
        s' = s\<lparr> sessions := map (\<lambda>x. if x = r \<and> ses_refresh r \<noteq> None
          then x\<lparr> ses_expires := auth_clock s + int (session_lifetime_seconds c) \<rparr> else x) (sessions s) \<rparr>)
    | (Inr None, s') \<Rightarrow> s' = s \<and> \<not> (\<exists>token \<in> set_option cookie. byte_len token \<le> 128 \<and>
        list_ex (acceptable c (auth_clock s) (ath_hash ext token)) (sessions s))
    | (Inl e, s') \<Rightarrow> False"
proof -
  have ok: "session_tables_ok s" by (rule run_tables [OF assms])
  show ?thesis
  proof (cases "require_session ext c cookie s")
    case (Pair x s')
    show ?thesis
    proof (cases x)
      case (Inl e)
      then show ?thesis using Pair request_never_fails [of ext c cookie s e] by simp
    next
      case (Inr y)
      show ?thesis
      proof (cases y)
        case None
        then show ?thesis using Pair Inr refused_request [OF ok] by simp
      next
        case (Some z)
        obtain sn again where z: "z = (sn, again)" by (cases z)
        show ?thesis by (rule accepted_request [OF ok, of ext c cookie sn again s']) (use Pair Inr Some z in auto)
      qed
    qed
  qed
qed

section \<open>Signing in\<close>

definition safe_target :: "str \<Rightarrow> bool" where
  "safe_target p \<longleftrightarrow> starts_with (lit ''/'') p \<and> \<not> starts_with (lit ''//'') p \<and> list_all (\<lambda>c. c \<noteq> 92 \<and> c \<noteq> 35 \<and> \<not> is_control c) p"

lemma validated_target: "validated_return_to ext target = Some p \<Longrightarrow> p = target \<and> safe_target p \<and> ath_same_origin ext p"
  by (auto simp: validated_return_to_def safe_target_def bind_eq_Some_conv list_ex_iff list_all_iff split: if_splits)

lemma root_target: "safe_target (lit ''/'')"
  by (simp add: safe_target_def starts_with_def text_eval is_control_def)

definition destination :: "auth_external \<Rightarrow> str \<Rightarrow> str" where
  "destination ext target = (case validated_return_to ext target of Some p \<Rightarrow> p | None \<Rightarrow> lit ''/'')"

lemma destination_safe: "safe_target (destination ext target) \<and> (destination ext target = lit ''/'' \<or> ath_same_origin ext (destination ext target))"
  by (auto simp: destination_def root_target split: option.split dest: validated_target)

lemma destination_again: "destination ext (destination ext target) = destination ext target"
proof (cases "validated_return_to ext target")
  case None
  then show ?thesis by (auto simp: destination_def split: option.split dest: validated_target)
next
  case (Some p)
  then have "destination ext target = target" by (auto simp: destination_def dest: validated_target)
  then show ?thesis by simp
qed

lemma finish_location:
  "callback_finish ext c cb return_to st ct s = (Ok pg, s') \<Longrightarrow> page_location pg = destination ext return_to"
  by (auto simp: callback_finish_def destination_def map_prod_def map_sum_def split: sum.splits prod.splits option.splits)

lemma begun_with:
  assumes "callback_begin ext cookie cb s = (Ok return_to, s')"
  shows "cookie = Some (cb_state cb)"
    "\<exists>r \<in> set (oauth_states s). open_oauth_state (ath_hash ext (cb_state cb)) (auth_clock s) r \<and> oas_return r = return_to"
    "s' = s\<lparr> oauth_states := filter (\<lambda>r. \<not> open_oauth_state (ath_hash ext (cb_state cb)) (auth_clock s) r) (oauth_states s) \<rparr>"
  using assms
  by (auto simp: callback_begin_def consume_oauth_state_def run_tx_def callback_is_bound_def find_Some_iff split: if_splits option.splits)

lemma started_with:
  assumes "start_github_login ext tok (Some target) s = (Ok pg, s')"
  shows "oauth_states s' = oauth_states s @ [\<lparr> oas_hash = ath_hash ext tok,
    oas_return = destination ext target, oas_expires = auth_clock s + 600 \<rparr>]"
    "ath_hash ext tok \<notin> oas_hash ` set (oauth_states s)"
  using assms by (auto simp: start_github_login_def result_simps Let_def store_oauth_state_def list_ex_iff destination_def)

text \<open>C36: A sign-in that began with a destination ends there, if the destination is a path of this site, and at the start page otherwise: wherever it is redirected, it
  is to a path without a scheme, a host, a backslash or a control character. In between, the browser and the clock may do anything, but the database keeps or drops the row.\<close>

theorem sign_in_stays_on_site:
  assumes "start_github_login ext tok (Some target) s0 = (Ok pg0, s1)"
    and "\<forall>r \<in> set (oauth_states s2). oas_hash r = ath_hash ext tok \<longrightarrow> r \<in> set (oauth_states s1)"
    and "callback_begin ext cookie cb s2 = (Ok return_to, s3)" "cb_state cb = tok"
    and "callback_finish ext c cb return_to st ct s4 = (Ok pg, s5)"
  shows "page_location pg = destination ext target \<and> safe_target (page_location pg)"
proof -
  obtain r where r: "r \<in> set (oauth_states s2)" "oas_hash r = ath_hash ext tok" "oas_return r = return_to"
    using begun_with(2) [OF assms(3)] by (auto simp: open_oauth_state_def assms(4))
  then have "r \<in> set (oauth_states s1)" using assms(2) by blast
  moreover have "r \<notin> set (oauth_states s0)" using started_with(2) [OF assms(1)] r(2) by (metis image_eqI)
  ultimately have "return_to = destination ext target" unfolding started_with(1) [OF assms(1)] using r(3) by auto
  then have "page_location pg = destination ext target" using finish_location [OF assms(5)] by (simp add: destination_again)
  then show ?thesis using destination_safe [of ext target] by simp
qed

text \<open>C18: A sign-in state works for the browser that holds its cookie, within its ten minutes, and once: after it was consumed no callback with it succeeds, as long as
  no new state with its hash is stored.\<close>

theorem sign_in_state_used_once:
  assumes "callback_begin ext cookie cb s = (Ok return_to, s1)"
    and "\<forall>r \<in> set (oauth_states s2). oas_hash r = ath_hash ext (cb_state cb) \<longrightarrow> r \<in> set (oauth_states s1)"
    and "auth_clock s1 \<le> auth_clock s2" "cb_state cb' = cb_state cb"
  shows "cookie = Some (cb_state cb) \<and>
    (\<exists>r \<in> set (oauth_states s). oas_hash r = ath_hash ext (cb_state cb) \<and> auth_clock s < oas_expires r) \<and>
    callback_begin ext cookie' cb' s2 = (Err (PermissionDenied
      (if callback_is_bound cookie' cb' then ''GitHub sign-in state expired or was already used'' else ''Invalid GitHub sign-in state'')), s2)"
proof -
  let ?h = "ath_hash ext (cb_state cb)"
  note b = begun_with [OF assms(1)]
  have "\<not> open_oauth_state ?h (auth_clock s2) r" if "r \<in> set (oauth_states s2)" for r
    using assms(2,3) that by (auto simp: b(3) open_oauth_state_def)
  then have "find (open_oauth_state ?h (auth_clock s2)) (oauth_states s2) = None"
      "filter (\<lambda>r. \<not> open_oauth_state ?h (auth_clock s2) r) (oauth_states s2) = oauth_states s2"
    by (simp_all add: find_None_iff filter_id_conv)
  then have "callback_begin ext cookie' cb' s2 = (Err (PermissionDenied
      (if callback_is_bound cookie' cb' then ''GitHub sign-in state expired or was already used'' else ''Invalid GitHub sign-in state'')), s2)"
    by (simp add: callback_begin_def consume_oauth_state_def run_tx_def assms(4))
  then show ?thesis using b(1,2) by (auto simp: open_oauth_state_def)
qed

section \<open>Denied sign-ins\<close>

definition is_denial :: "int \<Rightarrow> auth_event \<Rightarrow> bool" where
  "is_denial person e \<longleftrightarrow> aev_action e = SessionDenied \<and>
    (case aev_details e of DObject fs \<Rightarrow> (''github_id'', DInt person) \<in> set fs | _ \<Rightarrow> False)"

definition denials_spaced :: "nat \<Rightarrow> int \<Rightarrow> 'net auth_db \<Rightarrow> bool" where
  "denials_spaced w person s \<longleftrightarrow> sorted_wrt (\<lambda>a b. aev_at a + int w \<le> aev_at b) (filter (is_denial person) (auth_events s)) \<and>
    list_all (\<lambda>e. aev_at e \<le> auth_clock s) (auth_events s)"

definition denied_sign_ins :: "nat \<Rightarrow> (nat \<times> github_user \<times> app_error) list \<Rightarrow> 'net auth_db \<Rightarrow> 'net auth_db" where
  "denied_sign_ins w xs s = foldl (\<lambda>s (t, user, e). note_denial user w e (pass_seconds t s)) s xs"

lemma denial_noted:
  "note_denial user w e s = s \<or>
   (\<not> list_ex (denial_of (usr_id user) (auth_clock s - int w)) (auth_events s) \<and>
    note_denial user w e s = s\<lparr> auth_events := auth_events s @ [\<lparr> aev_actor = None, aev_action = SessionDenied,
      aev_details = DObject [(''github_id'', DInt (usr_id user)), (''login'', DText (usr_login user))], aev_at = auth_clock s \<rparr>] \<rparr>)"
  by (auto simp: note_denial_def record_denied_sign_in_def run_tx_def tx_run when_tx_def auth_audit_def split: app_error.split)

lemma note_denial_spaced:
  assumes "denials_spaced w person s"
  shows "denials_spaced w person (note_denial user w e (pass_seconds t s))"
proof -
  let ?s = "pass_seconds t s"
  have s: "denials_spaced w person ?s"
    using assms by (auto simp: denials_spaced_def pass_seconds_def list_all_iff)
  show ?thesis
  proof (cases "note_denial user w e ?s = ?s")
    case False
    with denial_noted [of user w e ?s] have new: "\<not> list_ex (denial_of (usr_id user) (auth_clock ?s - int w)) (auth_events ?s)"
        "note_denial user w e ?s = ?s\<lparr> auth_events := auth_events ?s @ [\<lparr> aev_actor = None, aev_action = SessionDenied,
          aev_details = DObject [(''github_id'', DInt (usr_id user)), (''login'', DText (usr_login user))], aev_at = auth_clock ?s \<rparr>] \<rparr>"
      by blast+
    have "aev_at x + int w \<le> auth_clock ?s" if "x \<in> set (auth_events ?s)" "is_denial (usr_id user) x" for x
      using new(1) that by (auto simp: list_ex_iff denial_of_def is_denial_def not_less)
    then show ?thesis using s unfolding new(2) denials_spaced_def
      by (auto simp: sorted_wrt_append is_denial_def)
  qed (simp add: s)
qed

lemma spaced_count:
  fixes lo :: int
  shows "\<lbrakk>sorted_wrt (\<lambda>a b. f a + int w \<le> f b) xs; \<forall>x \<in> set xs. lo \<le> f x \<and> f x < lo + int k * int w\<rbrakk> \<Longrightarrow> length xs \<le> k"
proof (induction xs arbitrary: lo k)
  case (Cons x xs)
  then obtain k' where k: "k = Suc k'" by (cases k) fastforce+
  have "lo + int w \<le> f y \<and> f y < lo + int w + int k' * int w" if "y \<in> set xs" for y
  proof -
    have "f x + int w \<le> f y" "lo \<le> f x" "f y < lo + int k * int w" using Cons.prems that by auto
    then show ?thesis by (simp add: k algebra_simps)
  qed
  then have "length xs \<le> k'" by (intro Cons.IH [of "lo + int w"]) (use Cons.prems in auto)
  then show ?case by (simp add: k)
qed simp

text \<open>One account cannot push entries out of the audit log: however often and when it is denied, in any span of \<open>k\<close> windows at most \<open>k\<close> of its
  denials are recorded.\<close>

theorem denials_are_bounded:
  assumes "denials_spaced w person s"
  shows "length (filter (\<lambda>e. is_denial person e \<and> lo \<le> aev_at e \<and> aev_at e < lo + int k * int w) (auth_events (denied_sign_ins w xs s))) \<le> k"
proof -
  have "denials_spaced w person (denied_sign_ins w xs s)"
    using assms unfolding denied_sign_ins_def by (induction xs arbitrary: s) (auto intro: note_denial_spaced)
  then have "sorted_wrt (\<lambda>a b. aev_at a + int w \<le> aev_at b) (filter (is_denial person) (auth_events (denied_sign_ins w xs s)))"
    by (simp add: denials_spaced_def)
  then have "sorted_wrt (\<lambda>a b. aev_at a + int w \<le> aev_at b)
      (filter (\<lambda>e. is_denial person e \<and> lo \<le> aev_at e \<and> aev_at e < lo + int k * int w) (auth_events (denied_sign_ins w xs s)))"
    using sorted_wrt_filter [of _ _ "\<lambda>e. lo \<le> aev_at e \<and> aev_at e < lo + int k * int w"] by (fastforce simp: conj_commute)
  then show ?thesis by (rule spaced_count) auto
qed

section \<open>The background task\<close>

text \<open>Sessions keep all but the time of their last check, which stays or is not before the start.\<close>

definition swept :: "'net auth_db \<Rightarrow> 'net auth_db \<Rightarrow> bool" where
  "swept s s' \<longleftrightarrow> auth_clock s \<le> auth_clock s' \<and>
    (\<forall>r' \<in> set (sessions s'). \<exists>r \<in> set (sessions s). ses_person r' = ses_person r \<and> ses_expires r' = ses_expires r \<and>
      (ses_verified r' = ses_verified r \<or> auth_clock s \<le> ses_verified r'))"

interpretation swept: tx_relation swept
proof
  fix s1 s2 s3 :: "'a auth_db" assume "swept s1 s2" "swept s2 s3"
  then show "swept s1 s3" unfolding swept_def by (metis order_trans)
qed (auto simp: swept_def)

lemma check_swept: "tx_respects swept (refresh_membership_verification_for_user p)"
  by (intro tx_respectsI) (auto simp: refresh_membership_verification_for_user_def tx_run update_sessions_def swept_def)

lemma pass_swept: "swept s (pass_seconds t s)"
  by (auto simp: swept_def pass_seconds_def)

lemma sweep_person_swept: "swept s (snd (sweep_person ext c r (f, s)))"
  by (auto simp: sweep_person_def Let_def swept.refl pass_swept swept.trans [OF pass_swept swept.run_respects [OF check_swept]] split: sum.split)

definition check_succeeds :: "auth_external \<Rightarrow> 'net runtime_configuration \<Rightarrow> session_record \<Rightarrow> bool" where
  "check_succeeds ext c r \<longleftrightarrow> (case ath_decrypt ext (rec_access r) of
    Inl _ \<Rightarrow> False | Inr token \<Rightarrow> ath_identity ext token (authorization_team (github c)) (rec_person r) = Ok ())"

lemma sweep_person_ok:
  assumes "check_succeeds ext c r" "f (rec_person r) = None" "sweep_person ext c r (f, s) = (f', s')"
  shows "f' = f" "\<forall>x \<in> set (sessions s'). ses_person x = rec_person r \<and> auth_clock s' < ses_expires x \<longrightarrow> auth_clock s \<le> ses_verified x"
proof -
  obtain token where t: "ath_decrypt ext (rec_access r) = Ok token" "ath_identity ext token (authorization_team (github c)) (rec_person r) = Ok ()"
    using assms(1) by (auto simp: check_succeeds_def split: sum.splits)
  show "f' = f" "\<forall>x \<in> set (sessions s'). ses_person x = rec_person r \<and> auth_clock s' < ses_expires x \<longrightarrow> auth_clock s \<le> ses_verified x"
    using assms(2,3) by (auto simp: sweep_person_def t Let_def refresh_membership_verification_for_user_def run_tx_def tx_run
        update_sessions_def pass_seconds_def)
qed

lemma sweep_person_other:
  assumes "sweep_person ext c r (f, s) = (f', s')" "p \<noteq> rec_person r"
  shows "f' p = f p"
  using assms by (auto simp: sweep_person_def Let_def split: sum.splits if_splits)

lemma sweep_persons_check:
  assumes "foldl (\<lambda>x r. sweep_person ext c r x) (f, s) rs = (f', s')" "f p = None" "\<forall>r \<in> set rs. rec_person r = p \<longrightarrow> check_succeeds ext c r"
  shows "swept s s' \<and> (p \<in> rec_person ` set rs \<longrightarrow>
    (\<forall>x \<in> set (sessions s'). ses_person x = p \<and> auth_clock s' < ses_expires x \<longrightarrow> auth_clock s \<le> ses_verified x))"
  using assms
proof (induction rs arbitrary: f s)
  case Nil
  then show ?case by (simp add: swept.refl)
next
  case (Cons r rs)
  obtain f1 s1 where 1: "sweep_person ext c r (f, s) = (f1, s1)" by (cases "sweep_person ext c r (f, s)")
  have s1: "swept s s1" using sweep_person_swept [of s ext c r f] by (simp add: 1)
  have f1: "f1 p = None"
  proof (cases "rec_person r = p")
    case True
    then have "f1 = f" using sweep_person_ok(1) [OF _ _ 1] Cons.prems(2,3) by simp
    then show ?thesis using Cons.prems(2) by simp
  next
    case False
    then show ?thesis using sweep_person_other [OF 1] Cons.prems(2) by simp
  qed
  have IH: "swept s1 s' \<and> (p \<in> rec_person ` set rs \<longrightarrow>
      (\<forall>x \<in> set (sessions s'). ses_person x = p \<and> auth_clock s' < ses_expires x \<longrightarrow> auth_clock s1 \<le> ses_verified x))"
    using Cons.IH [of f1 s1] Cons.prems 1 f1 by simp
  have "auth_clock s \<le> ses_verified x"
    if x: "rec_person r = p" "x \<in> set (sessions s')" "ses_person x = p" "auth_clock s' < ses_expires x" for x
  proof -
    obtain y where y: "y \<in> set (sessions s1)" "ses_person x = ses_person y" "ses_expires x = ses_expires y"
        "ses_verified x = ses_verified y \<or> auth_clock s1 \<le> ses_verified x" "auth_clock s1 \<le> auth_clock s'"
      using IH x(2) unfolding swept_def by blast
    have "auth_clock s \<le> ses_verified y"
      using sweep_person_ok(2) [OF _ _ 1] Cons.prems(2,3) x y by auto
    then show ?thesis using y(4) s1 by (auto simp: swept_def)
  qed
  moreover have "auth_clock s \<le> auth_clock s1" using s1 by (simp add: swept_def)
  ultimately show ?case using IH swept.trans [OF s1] by fastforce
qed

lemma map_filter_member: "\<lbrakk>g p = Some x; p \<in> set ps\<rbrakk> \<Longrightarrow> x \<in> set (List.map_filter g ps)"
  by (induction ps) (auto split: option.split)

lemma due_is_listed:
  assumes "session_tables_ok s" "r \<in> set (sessions s)" "usable_session (auth_clock s) r" "due_person n s (ses_person r)"
  shows "ses_person r \<in> rec_person ` set (due_session_per_user n s)"
proof -
  define usable where "usable = filter (\<lambda>r. usable_session (auth_clock s) r \<and> due_person n s (ses_person r)) (sessions s)"
  define mine where "mine = filter (\<lambda>x. ses_person x = ses_person r) usable"
  have "r \<in> set mine" using assms by (simp add: mine_def usable_def)
  then obtain q where q: "min_by_key (\<lambda>x. - ses_expires x) mine = Some q" by (cases "min_by_key (\<lambda>x. - ses_expires x) mine") auto
  then have "q \<in> set mine" by (blast dest: min_by_key_minimal)
  then have q': "q \<in> set (sessions s)" "ses_person q = ses_person r" by (auto simp: mine_def usable_def)
  have "find (\<lambda>m. mnt_person m = ses_person q) (maintainers s) \<noteq> None" by (rule known_person [OF assms(1) q'(1)])
  then obtain x where x: "session_record_of s q = Some x" "rec_person x = ses_person r" using q'(2) by (auto simp: session_record_of_def)
  have "Option.bind (min_by_key (\<lambda>x. - ses_expires x) (filter (\<lambda>x. ses_person x = ses_person r) usable)) (session_record_of s) = Some x"
    using q x(1) by (simp add: mine_def)
  moreover have "ses_person r \<in> set (sort (remdups (map ses_person usable)))" using \<open>r \<in> set mine\<close> by (auto simp: mine_def)
  ultimately have "x \<in> set (due_session_per_user n s)"
    unfolding due_session_per_user_def Let_def usable_def [symmetric] by (rule map_filter_member)
  then show ?thesis using x(2) by (metis image_eqI)
qed


section \<open>One sign-in, evaluated\<close>

definition sample_tokens :: github_tokens where
  "sample_tokens = \<lparr> tok_access = lit ''access'', tok_expires = Some 28800, tok_refresh = Some (lit ''refresh''), tok_refresh_expires = Some 15768000 \<rparr>"

definition sample_ext :: auth_external where
  "sample_ext = \<lparr> ath_hash = (\<lambda>t. replicate (64 - length t) 48 @ t), ath_encrypt = Ok, ath_decrypt = Ok,
    ath_authorization_url = (\<lambda>_ _. Ok (lit ''https://github.com/login/oauth/authorize'')), ath_exchange = (\<lambda>_. Ok sample_tokens),
    ath_user = (\<lambda>_. Ok \<lparr> usr_id = 7, usr_login = lit ''ada'' \<rparr>), ath_membership = (\<lambda>_ _ _. Ok ()), ath_identity = (\<lambda>_ _ person. fail_if (person \<noteq> 7) AuthenticationRequired),
    ath_rotate = (\<lambda>_. Ok sample_tokens), ath_latency = (\<lambda>_. 2), ath_parse_uri = (\<lambda>p. Some \<lparr> uri_scheme = False, uri_authority = False, uri_path_and_query = Some p \<rparr>),
    ath_same_origin = (\<lambda>_. True) \<rparr>"

definition sample_auth :: "nat auth_db" where
  "sample_auth = \<lparr> auth_configuration = runtime_configuration_default, oauth_states = [], maintainers = [], sessions = [], auth_events = [],
    auth_clock = 1000 \<rparr>"

definition sample_callback :: github_callback where
  "sample_callback = \<lparr> cb_code = lit ''code'', cb_state = lit ''state'' \<rparr>"

definition sample_signed_in :: "nat auth_db" where
  "sample_signed_in = snd (callback_finish sample_ext runtime_configuration_default sample_callback (lit ''/'') (lit ''token'') (lit ''csrf'') sample_auth)"

lemmas sample_auth_eval = sample_signed_in_def callback_finish_def sample_ext_def sample_tokens_def sample_auth_def sample_callback_def new_session_of_def
  create_session_def upsert_maintainer_def insert_session_def new_session_row_def auth_audit_def run_tx_def tx_run fail_if_def bind_res_def
  runtime_configuration_default_def github_configuration_default_def default_session_lifetime_seconds_def

lemma sample_sessions:
  "sessions sample_signed_in = [\<lparr> ses_token = replicate 59 48 @ lit ''token'', ses_person = 7, ses_access = lit ''access'', ses_refresh = Some (lit ''refresh''),
    ses_access_expires = Some 29800, ses_refresh_expires = Some 15769000, ses_csrf = lit ''csrf'', ses_verified = 1000, ses_expires = 87400 \<rparr>]"
  "maintainers sample_signed_in = [\<lparr> mnt_person = 7, mnt_login = lit ''ada'' \<rparr>]"
  "auth_clock sample_signed_in = 1000"
  by (simp_all add: sample_auth_eval text_eval)

definition sample_member :: membership where
  "sample_member team person t \<longleftrightarrow> person = 7 \<and> t \<le> 1000"

lemma sample_run: "access_run sample_member 10 sample_auth sample_signed_in"
  unfolding access_run_def sample_signed_in_def
  by (intro r_into_rtranclp access_step.sign_in)
    (auto simp: answers_true_def sample_ext_def sample_auth_def member_between_def sample_member_def fail_if_eq_Ok intro: exI [of _ 1000])

lemma sample_request:
  "require_session sample_ext runtime_configuration_default (Some (lit ''token'')) sample_signed_in =
    (Ok (Some (\<lparr> sn_person = 7, sn_login = lit ''ada'', sn_csrf = lit ''csrf'', sn_token = replicate 59 48 @ lit ''token'', sn_access = lit ''access'' \<rparr>, True)),
     sample_signed_in)"
  by (simp add: require_session_def find_session_def session_record_of_def live_session_def session_is_current_def extend_session_def update_sessions_def
      run_tx_def tx_run sample_sessions, simp add: sample_ext_def runtime_configuration_default_def github_configuration_default_def
      default_session_lifetime_seconds_def sample_sessions text_eval)

lemma sample_empty: "sessions sample_auth = []"
  by (simp add: sample_auth_def)


theorem request_outcome_witness:
  "\<exists>r \<in> set (sessions sample_signed_in). acceptable (runtime_configuration_default :: nat runtime_configuration) 1000 (ath_hash sample_ext (lit ''token'')) r \<and> ses_person r = 7"
  using request_outcome [OF sample_run sample_empty, where ext = sample_ext and c = runtime_configuration_default and cookie = "Some (lit ''token'')"]
  by (auto simp: sample_request sample_sessions)

definition sample_started :: "nat auth_db" where
  "sample_started = sample_auth\<lparr> oauth_states :=
    [\<lparr> oas_hash = replicate 59 48 @ lit ''state'', oas_return = lit ''/reports/1'', oas_expires = 1600 \<rparr>] \<rparr>"

lemma sample_start:
  "start_github_login sample_ext (lit ''state'') (Some (lit ''/reports/1'')) sample_auth =
    (Ok \<lparr> page_location = lit ''https://github.com/login/oauth/authorize'',
      page_cookies = [session_cookie ''oauth_state'' (lit ''state'') 600 (is_secure (runtime_configuration_default :: nat runtime_configuration))] \<rparr>, sample_started)"
  by (simp add: start_github_login_def bind_prog_def get_prog_def lift_prog_def return_prog_def Let_def store_oauth_state_def run_tx_def
      validated_return_to_def sample_ext_def sample_auth_def oauth_row_ok_def sample_started_def starts_with_def is_control_def text_eval)

lemma sample_begin:
  "callback_begin sample_ext (Some (lit ''state'')) sample_callback sample_started = (Ok (lit ''/reports/1''), sample_auth)"
  by (simp add: callback_begin_def callback_is_bound_def sample_callback_def consume_oauth_state_def open_oauth_state_def run_tx_def
      sample_ext_def sample_started_def sample_auth_def text_eval)

theorem sign_in_state_used_once_witness:
  "callback_begin sample_ext (Some (lit ''state'')) sample_callback sample_auth =
    (Err (PermissionDenied ''GitHub sign-in state expired or was already used''), sample_auth)"
  using sign_in_state_used_once [OF sample_begin, of sample_auth sample_callback "Some (lit ''state'')"]
  by (simp add: callback_is_bound_def sample_callback_def text_eval)

lemma sample_finish:
  "\<exists>pg s'. callback_finish sample_ext runtime_configuration_default sample_callback (lit ''/reports/1'') (lit ''token'') (lit ''csrf'') sample_auth = (Ok pg, s')"
  by (simp add: sample_auth_eval text_eval)

theorem sign_in_stays_on_site_witness:
  "\<exists>pg s'. callback_finish sample_ext runtime_configuration_default sample_callback (lit ''/reports/1'') (lit ''token'') (lit ''csrf'') sample_auth = (Ok pg, s') \<and>
    page_location pg = lit ''/reports/1'' \<and> safe_target (page_location pg)"
proof -
  obtain pg s' where 1: "callback_finish sample_ext runtime_configuration_default sample_callback (lit ''/reports/1'') (lit ''token'') (lit ''csrf'') sample_auth = (Ok pg, s')"
    using sample_finish by blast
  have "destination sample_ext (lit ''/reports/1'') = lit ''/reports/1''"
    by (simp add: destination_def validated_return_to_def sample_ext_def starts_with_def is_control_def text_eval)
  then show ?thesis using sign_in_stays_on_site [OF sample_start _ sample_begin _ 1] 1 by (auto simp: sample_callback_def)
qed

theorem denials_are_bounded_witness:
  "length (filter (\<lambda>e. is_denial 9 e \<and> 1000 \<le> aev_at e \<and> aev_at e < 1000 + int 1 * int 600) (auth_events (denied_sign_ins 600
    [(0, \<lparr> usr_id = 9, usr_login = lit ''eve'' \<rparr>, PermissionDenied ''Access denied''), (5, \<lparr> usr_id = 9, usr_login = lit ''eve'' \<rparr>, PermissionDenied ''Access denied'')]
    sample_auth))) \<le> 1"
  by (rule denials_are_bounded) (simp add: denials_spaced_def sample_auth_def)

definition sample_due :: "nat auth_db" where
  "sample_due = sample_signed_in\<lparr> auth_clock := 2000 \<rparr>"

lemma sample_due_simps:
  "sessions sample_due = sessions sample_signed_in" "maintainers sample_due = maintainers sample_signed_in" "auth_clock sample_due = 2000"
  by (simp_all add: sample_due_def)

lemma sample_sweep_tokens: "sweep_tokens sample_ext runtime_configuration_default sample_due = sample_due"
  by (simp add: sweep_tokens_def sessions_with_expiring_tokens_def sample_due_simps sample_sessions runtime_configuration_default_def
      github_configuration_default_def default_token_refresh_before_seconds_def)

lemma sample_due_list:
  "due_session_per_user 1800 sample_due = [\<lparr> rec_person = 7, rec_login = lit ''ada'', rec_csrf = lit ''csrf'',
    rec_token = replicate 59 48 @ lit ''token'', rec_access = lit ''access'', rec_refresh = Some (lit ''refresh''), rec_access_expires = Some 29800,
    rec_verified = 1000 \<rparr>]"
  by (simp add: due_session_per_user_def Let_def usable_session_def due_person_def sample_due_simps sample_sessions session_record_of_def
      List.map_filter_def)

definition sample_swept :: "nat auth_db" where
  "sample_swept = sample_due\<lparr> auth_clock := 2002, sessions := map (\<lambda>r. r\<lparr> ses_verified := 2002 \<rparr>) (sessions sample_signed_in) \<rparr>"

lemma sample_sweep:
  "session_sweep sample_ext runtime_configuration_default (Map.empty, sample_due) = (60, retain_recent 2000 Map.empty, sample_swept)"
proof -
  have delay: "sweep_delay runtime_configuration_default = 60"
    by (simp add: sweep_delay_def runtime_configuration_default_def github_configuration_default_def default_token_refresh_before_seconds_def)
  have recheck: "membership_recheck_seconds (github runtime_configuration_default) = 1800"
    by (simp add: runtime_configuration_default_def github_configuration_default_def)
  show ?thesis
    by (simp add: session_sweep_def Let_def delay recheck sample_sweep_tokens sample_due_simps sample_due_list sweep_person_def retain_recent_def)
      (simp add: sample_ext_def pass_seconds_def refresh_membership_verification_for_user_def run_tx_def tx_run update_sessions_def
        sample_swept_def sample_due_simps sample_sessions)
qed


end
