(* ===== verification/Github_Client.thy ===== *)
theory Github_Client
  imports Github_Sync Configuration_Json Session
begin

text \<open>
  \<open>src/src/infrastructure/github/client.rs\<close>: what the service asks GitHub and what it makes of the answers. A request names its
  host, method, path (the text joined to the host's address), query pairs, bearer token, API version and body. GitHub is the argument that answers
  a request, given the requests before it; no answer is a failed connection. An answer has its status, its JSON, if its body is JSON, and what the
  download of an image reads of it. The signer of application tokens, the clock and the parser of times are fields of the client. The state of a
  call is the list of requests that were sent, which is not rolled back.
\<close>

section \<open>Requests and answers\<close>

datatype github_host = Api | Oauth | Uploads

datatype http_body = NoBody | Json jvalue | Form "(str \<times> str) list" | Bytes "nat list"

record http_request =
  rq_host :: github_host
  rq_method :: string
  rq_path :: str
  rq_query :: "(str \<times> str) list"
  rq_token :: "str option"
  rq_headers :: "(string \<times> str) list"
  rq_body :: http_body

record http_response =
  rs_status :: nat
  rs_json :: "jvalue option"
  rs_content_type :: "str option"
  rs_length :: "nat option"
  rs_chunks :: "nat list option list"

record github_client =
  gc_transport :: "http_request list \<Rightarrow> http_request \<Rightarrow> http_response option"
  gc_client_id :: str
  gc_client_secret :: str
  gc_upload_token :: str
  gc_sign :: "(int \<Rightarrow> int \<Rightarrow> str \<Rightarrow> str result) option"
  gc_now :: int
  gc_time :: "str \<Rightarrow> int option"
  gc_oauth_url :: "(str \<times> str) list \<Rightarrow> str"

type_synonym 'a call = "(http_request list, 'a) prog"

definition send :: "github_client \<Rightarrow> http_request \<Rightarrow> http_response call" where
  "send g r sent = (case gc_transport g sent r of
    Some a \<Rightarrow> (Ok a, sent @ [r]) | None \<Rightarrow> (Err (Internal ''error sending request''), sent @ [r]))"

definition decode_json :: "(jvalue \<Rightarrow> 'a option) \<Rightarrow> http_response \<Rightarrow> 'a result" where
  "decode_json dec a = ok_or (Option.bind (rs_json a) dec) (Internal ''error decoding response body'')"

definition is_success :: "http_response \<Rightarrow> bool" where
  "is_success a \<longleftrightarrow> 200 \<le> rs_status a \<and> rs_status a < 300"

definition decode_github_response :: "(jvalue \<Rightarrow> 'a option) \<Rightarrow> http_response \<Rightarrow> 'a result" where
  "decode_github_response dec a =
    (if is_success a then decode_json dec a
     else if rs_status a = 404 then Err (NotFound ''GitHub resource not found'')
     else if rs_status a = 410 then Err (Gone ''GitHub issue was deleted'')
     else if rs_status a = 401 \<or> rs_status a = 403 then Err (PermissionDenied ''GitHub denied the request'')
     else if rs_status a = 429 then Err RateLimited
     else if rs_status a = 422 then Err (InvalidRequest ''GitHub rejected the issue contents'')
     else Err app_error.Unavailable)"

definition request_json_url_version ::
    "github_client \<Rightarrow> string \<Rightarrow> str \<Rightarrow> (str \<times> str) list \<Rightarrow> str \<Rightarrow> http_body \<Rightarrow> string \<Rightarrow> (jvalue \<Rightarrow> 'a option) \<Rightarrow> 'a call" where
  "request_json_url_version g method path query token body api_version dec =
    bind_prog (send g \<lparr> rq_host = Api, rq_method = method, rq_path = path, rq_query = query, rq_token = Some token,
      rq_headers = [(''accept'', lit ''application/vnd.github+json''), (''x-github-api-version'', lit api_version)], rq_body = body \<rparr>)
      (\<lambda>a. lift_prog (decode_github_response dec a))"

definition request_json_url ::
    "github_client \<Rightarrow> string \<Rightarrow> str \<Rightarrow> (str \<times> str) list \<Rightarrow> str \<Rightarrow> http_body \<Rightarrow> (jvalue \<Rightarrow> 'a option) \<Rightarrow> 'a call" where
  "request_json_url g method path query token body dec = request_json_url_version g method path query token body ''2022-11-28'' dec"

definition request_json :: "github_client \<Rightarrow> string \<Rightarrow> str \<Rightarrow> str \<Rightarrow> http_body \<Rightarrow> (jvalue \<Rightarrow> 'a option) \<Rightarrow> 'a call" where
  "request_json g method path token body dec = request_json_url g method path [] token body dec"

section \<open>What the answers hold\<close>

definition object_fields :: "jvalue \<Rightarrow> (str \<times> jvalue) list option" where
  "object_fields v = (case v of JObj fs \<Rightarrow> Some fs | _ \<Rightarrow> None)"

definition opt_field :: "(jvalue \<Rightarrow> 'a option) \<Rightarrow> (str \<times> jvalue) list \<Rightarrow> string \<Rightarrow> 'a option option" where
  "opt_field dec fs key = field (dec_option dec) (Some None) fs key"

definition dec_access_token :: "jvalue \<Rightarrow> github_tokens option" where
  "dec_access_token v = do {
    fs \<leftarrow> object_fields v;
    a \<leftarrow> field dec_text None fs ''access_token'';
    e \<leftarrow> opt_field dec_i64 fs ''expires_in'';
    r \<leftarrow> opt_field dec_text fs ''refresh_token'';
    x \<leftarrow> opt_field dec_i64 fs ''refresh_token_expires_in'';
    Some \<lparr> tok_access = a, tok_expires = e, tok_refresh = r, tok_refresh_expires = x \<rparr>
  }"

definition dec_user :: "jvalue \<Rightarrow> github_user option" where
  "dec_user v = do {
    fs \<leftarrow> object_fields v;
    i \<leftarrow> field dec_i64 None fs ''id'';
    l \<leftarrow> field dec_text None fs ''login'';
    Some \<lparr> usr_id = i, usr_login = l \<rparr>
  }"

definition dec_time :: "(str \<Rightarrow> int option) \<Rightarrow> jvalue \<Rightarrow> int option" where
  "dec_time parse_time v = Option.bind (dec_text v) parse_time"

definition dec_issue_state :: "jvalue \<Rightarrow> github_issue_state option" where
  "dec_issue_state v = Option.bind (dec_text v) (\<lambda>t.
    if t = lit ''open'' then Some github_issue_state.Open else if t = lit ''closed'' then Some github_issue_state.Closed else None)"

definition dec_issue :: "(str \<Rightarrow> int option) \<Rightarrow> jvalue \<Rightarrow> github_issue option" where
  "dec_issue parse_time v = do {
    fs \<leftarrow> object_fields v;
    i \<leftarrow> field dec_i64 None fs ''id'';
    n \<leftarrow> field dec_i64 None fs ''number'';
    t \<leftarrow> field dec_text None fs ''title'';
    b \<leftarrow> opt_field dec_text fs ''body'';
    u \<leftarrow> field dec_text None fs ''html_url'';
    s \<leftarrow> field dec_issue_state None fs ''state'';
    w \<leftarrow> field (dec_time parse_time) None fs ''updated_at'';
    r \<leftarrow> opt_field dec_text fs ''state_reason'';
    Some \<lparr> gh_id = i, gh_number = n, gh_title = t, gh_body = b, gh_html_url = u, gh_state = s, gh_updated_at = w, gh_state_reason = r \<rparr>
  }"

record github_pull_request =
  pul_number :: int
  pul_title :: str
  pul_html_url :: str
  pul_merged_at :: "int option"

definition dec_pull_request :: "(str \<Rightarrow> int option) \<Rightarrow> jvalue \<Rightarrow> github_pull_request option" where
  "dec_pull_request parse_time v = do {
    fs \<leftarrow> object_fields v;
    n \<leftarrow> field dec_i64 None fs ''number'';
    t \<leftarrow> field dec_text None fs ''title'';
    u \<leftarrow> field dec_text None fs ''html_url'';
    m \<leftarrow> opt_field (dec_time parse_time) fs ''merged_at'';
    Some \<lparr> pul_number = n, pul_title = t, pul_html_url = u, pul_merged_at = m \<rparr>
  }"

record github_commit =
  cmt_sha :: str
  cmt_html_url :: str
  cmt_message :: str

definition commit_subject :: "github_commit \<Rightarrow> str" where
  "commit_subject c = (case lines (cmt_message c) of [] \<Rightarrow> [] | l # _ \<Rightarrow> l)"

definition dec_commit :: "jvalue \<Rightarrow> github_commit option" where
  "dec_commit v = do {
    fs \<leftarrow> object_fields v;
    s \<leftarrow> field dec_text None fs ''sha'';
    u \<leftarrow> field dec_text None fs ''html_url'';
    m \<leftarrow> field (\<lambda>w. Option.bind (object_fields w) (\<lambda>ds. field dec_text None ds ''message'')) None fs ''commit'';
    Some \<lparr> cmt_sha = s, cmt_html_url = u, cmt_message = m \<rparr>
  }"

definition dec_member :: "(jvalue \<Rightarrow> 'a option) \<Rightarrow> string \<Rightarrow> jvalue \<Rightarrow> 'a option" where
  "dec_member dec key v = Option.bind (object_fields v) (\<lambda>fs. field dec None fs key)"

section \<open>Tokens and people\<close>

definition installation_token :: "github_client \<Rightarrow> int \<Rightarrow> str call" where
  "installation_token g installation_id =
    (case gc_sign g of
      None \<Rightarrow> lift_prog (Err app_error.Unavailable)
    | Some sign \<Rightarrow>
        bind_prog (lift_prog (sign (gc_now g - 60) (gc_now g + 540) (gc_client_id g))) (\<lambda>jwt.
        request_json g ''POST'' (lit ''/app/installations/'' @ show_int installation_id @ lit ''/access_tokens'') jwt
          (Json (JObj [(lit ''permissions'', JObj [(lit ''issues'', JText (lit ''read''))])])) (dec_member dec_text ''token'')))"

definition authorization_url :: "github_client \<Rightarrow> str \<Rightarrow> str \<Rightarrow> str result" where
  "authorization_url g redirect_uri state =
    Ok (gc_oauth_url g [(lit ''client_id'', gc_client_id g), (lit ''redirect_uri'', redirect_uri), (lit ''state'', state)])"

definition oauth_request :: "github_client \<Rightarrow> (str \<times> str) list \<Rightarrow> http_request" where
  "oauth_request g pairs = \<lparr> rq_host = Oauth, rq_method = ''POST'', rq_path = lit ''/login/oauth/access_token'', rq_query = [], rq_token = None,
    rq_headers = [(''accept'', lit ''application/json'')],
    rq_body = Form ([(lit ''client_id'', gc_client_id g), (lit ''client_secret'', gc_client_secret g)] @ pairs) \<rparr>"

definition exchange_code :: "github_client \<Rightarrow> str \<Rightarrow> github_tokens call" where
  "exchange_code g code =
    bind_prog (send g (oauth_request g [(lit ''code'', code)])) (\<lambda>a. lift_prog (decode_github_response dec_access_token a))"

definition member_of :: "jvalue \<Rightarrow> string \<Rightarrow> jvalue option" where
  "member_of v key = Option.bind (object_fields v) (\<lambda>fs. map_of fs (lit key))"

definition refresh_user_token :: "github_client \<Rightarrow> str \<Rightarrow> github_tokens call" where
  "refresh_user_token g refresh_token =
    bind_prog (send g (oauth_request g [(lit ''grant_type'', lit ''refresh_token''), (lit ''refresh_token'', refresh_token)])) (\<lambda>a.
    bind_prog (lift_prog (decode_json Some a)) (\<lambda>body.
    if Option.bind (member_of body ''error'') dec_text = Some (lit ''bad_refresh_token'') then lift_prog (Err AuthenticationRequired)
    else if \<not> is_success a \<or> member_of body ''error'' \<noteq> None then lift_prog (Err app_error.Unavailable)
    else lift_prog (ok_or (dec_access_token body) (Internal ''error decoding response body''))))"

definition current_user :: "github_client \<Rightarrow> str \<Rightarrow> github_user call" where
  "current_user g token = request_json g ''GET'' (lit ''/user'') token NoBody dec_user"

text \<open>\<open>None\<close> is the panic of \<open>expect\<close> on a team without a slash; the stored configuration is validated against it.\<close>

definition team_membership_path :: "str \<Rightarrow> str \<Rightarrow> str option" where
  "team_membership_path team user_login =
    map_option (\<lambda>(org, slug). lit ''/orgs/'' @ org @ lit ''/teams/'' @ slug @ lit ''/memberships/'' @ user_login)
      (split_once 47 team)"

definition membership_error :: "app_error \<Rightarrow> app_error" where
  "membership_error e =
    (case e of NotFound _ \<Rightarrow> PermissionDenied ''Access denied'' | PermissionDenied _ \<Rightarrow> PermissionDenied ''Access denied'' | _ \<Rightarrow> e)"

definition map_err_prog :: "(app_error \<Rightarrow> app_error) \<Rightarrow> ('s, 'a) prog \<Rightarrow> ('s, 'a) prog" where
  "map_err_prog f m s = (case m s of (Inl e, s') \<Rightarrow> (Err (f e), s') | (Inr a, s') \<Rightarrow> (Ok a, s'))"

definition verify_team_membership :: "github_client \<Rightarrow> str \<Rightarrow> str \<Rightarrow> str \<Rightarrow> unit option call" where
  "verify_team_membership g token team login =
    (case team_membership_path team login of
      None \<Rightarrow> return_prog None
    | Some path \<Rightarrow>
        bind_prog (map_err_prog membership_error (request_json g ''GET'' path token NoBody (dec_member dec_text ''state''))) (\<lambda>st.
        bind_prog (lift_prog (fail_if (st \<noteq> lit ''active'') (PermissionDenied ''Access denied''))) (\<lambda>_.
        return_prog (Some ()))))"

definition verify_team_member_identity :: "github_client \<Rightarrow> str \<Rightarrow> str \<Rightarrow> int \<Rightarrow> unit option call" where
  "verify_team_member_identity g token team github_id =
    bind_prog (current_user g token) (\<lambda>user.
    bind_prog (lift_prog (fail_if (usr_id user \<noteq> github_id) (PermissionDenied ''Access denied''))) (\<lambda>_.
    verify_team_membership g token team (usr_login user)))"

section \<open>Issues, fixes and links\<close>

definition repo_path :: "str \<Rightarrow> str \<Rightarrow> str" where
  "repo_path repo rest = lit ''/repos/'' @ repo @ rest"

definition get_issue :: "github_client \<Rightarrow> str \<Rightarrow> str \<Rightarrow> int \<Rightarrow> github_issue call" where
  "get_issue g token repo number =
    request_json g ''GET'' (repo_path repo (lit ''/issues/'' @ show_int number)) token NoBody (dec_issue (gc_time g))"

definition search_items :: "github_client \<Rightarrow> str \<Rightarrow> string \<Rightarrow> str \<Rightarrow> string \<Rightarrow> (jvalue \<Rightarrow> 'a option) \<Rightarrow> 'a list call" where
  "search_items g token path q per_page dec =
    request_json_url g ''GET'' (lit path) [(lit ''q'', q), (lit ''per_page'', lit per_page)] token NoBody (dec_member (dec_list dec) ''items'')"

definition search_issues :: "github_client \<Rightarrow> str \<Rightarrow> str \<Rightarrow> str \<Rightarrow> github_issue list call" where
  "search_issues g token repo query =
    search_items g token ''/search/issues'' (lit ''repo:'' @ repo @ lit '' is:issue '' @ query) ''20'' (dec_issue (gc_time g))"

definition search_merged_pull_requests :: "github_client \<Rightarrow> str \<Rightarrow> str \<Rightarrow> str \<Rightarrow> github_issue list call" where
  "search_merged_pull_requests g token repo query =
    search_items g token ''/search/issues'' (lit ''repo:'' @ repo @ lit '' is:pr is:merged '' @ query) ''10'' (dec_issue (gc_time g))"

definition pull_request :: "github_client \<Rightarrow> str \<Rightarrow> str \<Rightarrow> int \<Rightarrow> github_pull_request call" where
  "pull_request g token repo number =
    request_json g ''GET'' (repo_path repo (lit ''/pulls/'' @ show_int number)) token NoBody (dec_pull_request (gc_time g))"

definition get_commit :: "github_client \<Rightarrow> str \<Rightarrow> str \<Rightarrow> str \<Rightarrow> github_commit call" where
  "get_commit g token repo reference = request_json g ''GET'' (repo_path repo (lit ''/commits/'' @ reference)) token NoBody dec_commit"

definition is_commit_hash_prefix :: "str \<Rightarrow> bool" where
  "is_commit_hash_prefix query \<longleftrightarrow> 7 \<le> byte_len query \<and> byte_len query \<le> 40 \<and> list_all is_ascii_hexdigit query"

definition search_commits :: "github_client \<Rightarrow> str \<Rightarrow> str \<Rightarrow> str \<Rightarrow> github_commit list call" where
  "search_commits g token repo query =
    (if is_commit_hash_prefix query then bind_prog (get_commit g token repo query) (\<lambda>c. return_prog [c])
     else search_items g token ''/search/commits'' (lit ''repo:'' @ repo @ lit '' '' @ query) ''10'' dec_commit)"

definition default_branch :: "github_client \<Rightarrow> str \<Rightarrow> str \<Rightarrow> str call" where
  "default_branch g token repo = request_json g ''GET'' (repo_path repo []) token NoBody (dec_member dec_text ''default_branch'')"

definition branch_contains :: "github_client \<Rightarrow> str \<Rightarrow> str \<Rightarrow> str \<Rightarrow> str \<Rightarrow> bool call" where
  "branch_contains g token repo branch sha =
    bind_prog (request_json g ''GET'' (repo_path repo (lit ''/compare/'' @ branch @ lit ''...'' @ sha)) token NoBody (dec_member dec_text ''status''))
      (\<lambda>comparison. return_prog (comparison = lit ''behind'' \<or> comparison = lit ''identical''))"

definition default_branch_contains :: "github_client \<Rightarrow> str \<Rightarrow> str \<Rightarrow> str \<Rightarrow> bool call" where
  "default_branch_contains g token repo sha = bind_prog (default_branch g token repo) (\<lambda>branch. branch_contains g token repo branch sha)"

definition create_github_issue :: "github_client \<Rightarrow> str \<Rightarrow> str \<Rightarrow> str \<Rightarrow> str \<Rightarrow> str list \<Rightarrow> github_issue call" where
  "create_github_issue g token repo title body label_names =
    request_json g ''POST'' (repo_path repo (lit ''/issues'')) token
      (Json (JObj [(lit ''title'', JText title), (lit ''body'', JText body), (lit ''labels'', JArr (map JText label_names))])) (dec_issue (gc_time g))"

record github_issue_field =
  gif_id :: int
  gif_data_type :: str
  gif_visibility :: "str option"

definition dec_issue_field :: "jvalue \<Rightarrow> github_issue_field option" where
  "dec_issue_field v = do {
    fs \<leftarrow> object_fields v;
    i \<leftarrow> field dec_i64 None fs ''id'';
    t \<leftarrow> field dec_text None fs ''data_type'';
    w \<leftarrow> opt_field dec_text fs ''visibility'';
    Some \<lparr> gif_id = i, gif_data_type = t, gif_visibility = w \<rparr>
  }"

definition verify_private_text_issue_field :: "github_client \<Rightarrow> str \<Rightarrow> str \<Rightarrow> int \<Rightarrow> unit call" where
  "verify_private_text_issue_field g token organization field_id =
    bind_prog (request_json_url_version g ''GET'' (lit ''/orgs/'' @ organization @ lit ''/issue-fields'') [] token NoBody ''2026-03-10'' (dec_list dec_issue_field)) (\<lambda>fs.
    bind_prog (lift_prog (ok_or (find (\<lambda>f. gif_id f = field_id) fs) (Conflict ''GitHub Reports field was not found''))) (\<lambda>f.
    lift_prog (fail_if (gif_data_type f \<noteq> lit ''text'' \<or> gif_visibility f \<noteq> Some (lit ''organization_members_only''))
      (Conflict ''GitHub Reports field must be an organization-only text field''))))"

definition add_issue_field_link :: "github_client \<Rightarrow> str \<Rightarrow> str \<Rightarrow> int \<Rightarrow> int \<Rightarrow> str \<Rightarrow> unit call" where
  "add_issue_field_link g token repo issue_number field_id link =
    bind_prog (request_json_url_version g ''POST'' (repo_path repo (lit ''/issues/'' @ show_int issue_number @ lit ''/issue-field-values'')) [] token
      (Json (JObj [(lit ''issue_field_values'', JArr [JObj [(lit ''field_id'', JInt field_id), (lit ''value'', JText link)]])])) ''2026-03-10'' Some)
      (\<lambda>_. return_prog ())"

section \<open>Duplicates\<close>

record canonical_issue =
  can_type_name :: str
  can_database_id :: "int option"
  can_number :: "int option"
  can_title :: "str option"
  can_body :: "str option"
  can_url :: "str option"
  can_state :: "str option"
  can_updated_at :: "int option"

definition dec_canonical_issue :: "(str \<Rightarrow> int option) \<Rightarrow> jvalue \<Rightarrow> canonical_issue option" where
  "dec_canonical_issue parse_time v = do {
    fs \<leftarrow> object_fields v;
    k \<leftarrow> field dec_text None fs ''__typename'';
    i \<leftarrow> opt_field dec_i64 fs ''databaseId'';
    n \<leftarrow> opt_field dec_i64 fs ''number'';
    t \<leftarrow> opt_field dec_text fs ''title'';
    b \<leftarrow> opt_field dec_text fs ''body'';
    u \<leftarrow> opt_field dec_text fs ''url'';
    s \<leftarrow> opt_field dec_text fs ''state'';
    w \<leftarrow> opt_field (dec_time parse_time) fs ''updatedAt'';
    Some \<lparr> can_type_name = k, can_database_id = i, can_number = n, can_title = t, can_body = b, can_url = u, can_state = s, can_updated_at = w \<rparr>
  }"

record duplicate_source =
  dsr_state_reason :: "str option"
  dsr_duplicate_of :: "canonical_issue option"

definition dec_duplicate_source :: "(str \<Rightarrow> int option) \<Rightarrow> jvalue \<Rightarrow> duplicate_source option" where
  "dec_duplicate_source parse_time v = do {
    fs \<leftarrow> object_fields v;
    r \<leftarrow> opt_field dec_text fs ''stateReason'';
    d \<leftarrow> opt_field (dec_canonical_issue parse_time) fs ''duplicateOf'';
    Some \<lparr> dsr_state_reason = r, dsr_duplicate_of = d \<rparr>
  }"

definition dec_opt_member :: "(jvalue \<Rightarrow> 'a option) \<Rightarrow> string \<Rightarrow> jvalue \<Rightarrow> 'a option option" where
  "dec_opt_member dec key v = Option.bind (object_fields v) (\<lambda>fs. opt_field dec fs key)"

text \<open>The answer of the lookup: the messages of errors, or the data down to the issue.\<close>

definition dec_graphql :: "(str \<Rightarrow> int option) \<Rightarrow> jvalue \<Rightarrow> (str list option \<times> duplicate_source option) option" where
  "dec_graphql parse_time v = do {
    fs \<leftarrow> object_fields v;
    d \<leftarrow> opt_field (dec_opt_member (dec_opt_member (dec_duplicate_source parse_time) ''issue'') ''repository'') fs ''data'';
    e \<leftarrow> opt_field (dec_list (dec_member dec_text ''message'')) fs ''errors'';
    Some (e, Option.bind (Option.bind d id) id)
  }"

definition canonical_of :: "canonical_issue \<Rightarrow> github_issue result" where
  "canonical_of c =
    bind_res (fail_if (can_type_name c \<noteq> lit ''Issue'') (Conflict ''Duplicate target is not a GitHub issue'')) (\<lambda>_.
    bind_res (if can_state c = Some (lit ''OPEN'') then Ok github_issue_state.Open
      else if can_state c = Some (lit ''CLOSED'') then Ok github_issue_state.Closed else Err app_error.Unavailable) (\<lambda>st.
    bind_res (ok_or (can_database_id c) app_error.Unavailable) (\<lambda>i.
    bind_res (ok_or (can_number c) app_error.Unavailable) (\<lambda>n.
    bind_res (ok_or (can_title c) app_error.Unavailable) (\<lambda>t.
    bind_res (ok_or (can_url c) app_error.Unavailable) (\<lambda>u.
    bind_res (ok_or (can_updated_at c) app_error.Unavailable) (\<lambda>w.
    Ok \<lparr> gh_id = i, gh_number = n, gh_title = t, gh_body = can_body c, gh_html_url = u, gh_state = st, gh_updated_at = w,
      gh_state_reason = None \<rparr>)))))))"

definition duplicate_query :: "str \<Rightarrow> str \<Rightarrow> str \<Rightarrow> int \<Rightarrow> jvalue" where
  "duplicate_query query owner name number =
    JObj [(lit ''query'', JText query),
      (lit ''variables'', JObj [(lit ''owner'', JText owner), (lit ''name'', JText name), (lit ''number'', JInt number)])]"

text \<open>The text of the GraphQL query is an argument.\<close>

definition duplicate_of :: "github_client \<Rightarrow> str \<Rightarrow> int \<Rightarrow> str \<Rightarrow> int \<Rightarrow> github_issue option call" where
  "duplicate_of g query installation_id repo number =
    bind_prog (lift_prog (ok_or (split_once 47 repo) (InvalidRequest ''Invalid GitHub repository''))) (\<lambda>(owner, name).
    bind_prog (installation_token g installation_id) (\<lambda>token.
    bind_prog (request_json_url g ''POST'' (lit ''/graphql'') [] token (Json (duplicate_query query owner name number)) (dec_graphql (gc_time g))) (\<lambda>(errors, source).
    bind_prog (lift_prog (fail_if (errors \<noteq> None) app_error.Unavailable)) (\<lambda>_.
    bind_prog (lift_prog (ok_or source (NotFound ''GitHub issue not found''))) (\<lambda>source.
    if dsr_state_reason source \<noteq> Some (lit ''DUPLICATE'') then return_prog None
    else
      bind_prog (lift_prog (ok_or (dsr_duplicate_of source) app_error.Unavailable)) (\<lambda>canonical.
      bind_prog (lift_prog (canonical_of canonical)) (\<lambda>issue.
      return_prog (Some issue))))))))"

section \<open>Images\<close>

definition is_attachment_url :: "str \<Rightarrow> bool" where
  "is_attachment_url u = (case strip_prefix (lit ''https://github.com/user-attachments/assets/'') u of
    Some i \<Rightarrow> i \<noteq> [] \<and> list_all (\<lambda>c. is_ascii_alphanumeric c \<or> c = 45) i | None \<Rightarrow> False)"

definition upload_attachment :: "github_client \<Rightarrow> str \<Rightarrow> str \<Rightarrow> str \<Rightarrow> nat list \<Rightarrow> str call" where
  "upload_attachment g repo name content_type bytes =
    bind_prog (request_json g ''GET'' (repo_path repo []) (gc_upload_token g) NoBody (dec_member dec_i64 ''id'')) (\<lambda>repository_id.
    bind_prog (send g \<lparr> rq_host = Uploads, rq_method = ''POST'', rq_path = lit ''/user-attachments/assets'',
      rq_query = [(lit ''name'', name), (lit ''content_type'', content_type), (lit ''repository_id'', show_int repository_id)],
      rq_token = Some (gc_upload_token g), rq_headers = [(''accept'', lit ''application/json''), (''content-type'', content_type)],
      rq_body = Bytes bytes \<rparr>) (\<lambda>a.
    bind_prog (lift_prog (fail_if (\<not> is_success a)
      (if rs_status a = 401 \<or> rs_status a = 403 then PermissionDenied ''GitHub denied the upload'' else app_error.Unavailable))) (\<lambda>_.
    bind_prog (lift_prog (decode_json (dec_member dec_text ''url'') a)) (\<lambda>u.
    bind_prog (lift_prog (fail_if (\<not> is_attachment_url u) (Internal ''GitHub returned an unexpected attachment address''))) (\<lambda>_.
    return_prog u)))))"

definition image_content_type :: "str \<Rightarrow> str option" where
  "image_content_type content_type =
    find (\<lambda>allowed. lower content_type = lower allowed) (map lit [''image/png'', ''image/jpeg'', ''image/gif'', ''image/webp''])"

abbreviation (input) MAXIMUM_BYTES :: nat where
  "MAXIMUM_BYTES \<equiv> 10485760"

fun read_image :: "nat list \<Rightarrow> nat list option list \<Rightarrow> nat list result" where
  "read_image bytes [] = Ok bytes"
| "read_image bytes (None # cs) = Err (Internal ''error reading response body'')"
| "read_image bytes (Some c # cs) =
    (if MAXIMUM_BYTES < length bytes + length c then Err PayloadTooLarge else read_image (bytes @ c) cs)"

definition issue_image :: "github_client \<Rightarrow> str \<Rightarrow> (str \<times> nat list) call" where
  "issue_image g shown_id =
    bind_prog (send g \<lparr> rq_host = Oauth, rq_method = ''GET'', rq_path = lit ''/user-attachments/assets/'' @ shown_id, rq_query = [], rq_token = None,
      rq_headers = [(''accept'', lit ''image/*'')], rq_body = NoBody \<rparr>) (\<lambda>a.
    bind_prog (lift_prog (fail_if (\<not> is_success a) (if rs_status a = 404 then NotFound ''Image not found'' else app_error.Unavailable))) (\<lambda>_.
    bind_prog (lift_prog (ok_or (Option.bind (rs_content_type a) (\<lambda>t. image_content_type (trim (takeWhile (\<lambda>c. c \<noteq> 59) t))))
      (NotFound ''Image not found''))) (\<lambda>content_type.
    bind_prog (lift_prog (fail_if (case rs_length a of Some n \<Rightarrow> MAXIMUM_BYTES < n | None \<Rightarrow> False) PayloadTooLarge)) (\<lambda>_.
    bind_prog (lift_prog (read_image [] (rs_chunks a))) (\<lambda>bytes.
    return_prog (content_type, bytes))))))"

record redirect_target =
  rdt_origin :: str
  rdt_scheme :: str
  rdt_port :: "nat option"
  rdt_username :: str
  rdt_host :: "str option"

definition is_image_redirect_allowed :: "redirect_target \<Rightarrow> str \<Rightarrow> bool" where
  "is_image_redirect_allowed target github_origin \<longleftrightarrow>
    rdt_origin target = github_origin \<or>
    (rdt_scheme target = lit ''https'' \<and> rdt_port target = None \<and> rdt_username target = [] \<and>
     (case rdt_host target of Some host \<Rightarrow> ends_with (lit ''.amazonaws.com'') host | None \<Rightarrow> False))"

text \<open>Whether the image client follows a redirect after the requests it already made.\<close>

definition follows_redirect :: "str \<Rightarrow> 'u list \<Rightarrow> redirect_target \<Rightarrow> bool" where
  "follows_redirect github_origin previous target \<longleftrightarrow> is_image_redirect_allowed target github_origin \<and> length previous < 5"

section \<open>What the answers mean\<close>

lemma request_json_result:
  "fst (request_json g method path token body dec sent) = Ok x \<longleftrightarrow>
    (\<exists>a. gc_transport g sent \<lparr> rq_host = Api, rq_method = method, rq_path = path, rq_query = [], rq_token = Some token,
        rq_headers = [(''accept'', lit ''application/vnd.github+json''), (''x-github-api-version'', lit ''2022-11-28'')], rq_body = body \<rparr> = Some a \<and>
      is_success a \<and> Option.bind (rs_json a) dec = Some x)"
  by (auto simp: request_json_def request_json_url_def request_json_url_version_def send_def bind_prog_def lift_prog_def
      decode_github_response_def decode_json_def ok_or_def split: option.splits if_splits)

definition api_get :: "str \<Rightarrow> str \<Rightarrow> http_request" where
  "api_get path token = \<lparr> rq_host = Api, rq_method = ''GET'', rq_path = path, rq_query = [], rq_token = Some token,
    rq_headers = [(''accept'', lit ''application/vnd.github+json''), (''x-github-api-version'', lit ''2022-11-28'')], rq_body = NoBody \<rparr>"

lemma request_json_get:
  "request_json g ''GET'' path token NoBody dec sent =
    (case gc_transport g sent (api_get path token) of
      None \<Rightarrow> (Err (Internal ''error sending request''), sent @ [api_get path token])
    | Some a \<Rightarrow> (decode_github_response dec a, sent @ [api_get path token]))"
  by (simp add: request_json_def request_json_url_def request_json_url_version_def send_def bind_prog_def lift_prog_def api_get_def
      split: option.splits)

text \<open>What GitHub says of a person in a team: the state of the membership in an answer that succeeds.\<close>

definition membership_state :: "http_response \<Rightarrow> str option" where
  "membership_state a = (if is_success a then Option.bind (rs_json a) (dec_member dec_text ''state'') else None)"

lemma verify_team_membership_run:
  assumes "split_once 47 team = Some (org, slug)"
  shows "verify_team_membership g token team user_login sent =
    (let r = api_get (lit ''/orgs/'' @ org @ lit ''/teams/'' @ slug @ lit ''/memberships/'' @ user_login) token in
     ((case gc_transport g sent r of
        None \<Rightarrow> Err (Internal ''error sending request'')
      | Some a \<Rightarrow>
          if membership_state a = Some (lit ''active'') then Ok (Some ())
          else if membership_state a \<noteq> None \<or> rs_status a \<in> {401, 403, 404} then Err (PermissionDenied ''Access denied'')
          else (case decode_github_response (dec_member dec_text ''state'') a of Inl e \<Rightarrow> Err e | Inr _ \<Rightarrow> Ok None)),
      sent @ [r]))"
  by (auto simp: verify_team_membership_def team_membership_path_def assms Let_def request_json_get map_err_prog_def membership_error_def
      bind_prog_def lift_prog_def return_prog_def fail_if_def membership_state_def decode_github_response_def decode_json_def ok_or_def is_success_def
      split: option.splits if_splits bind_splits)

text \<open>C27: A person is let in exactly when GitHub answers that the membership is active. Access is denied exactly when GitHub says so (another state, or no such membership, or no
  right to know); every other failure is an error of its own, so an outage of GitHub is not taken for a denial. One request is sent, to the API, for the configured
  team and with the token of the person.\<close>

theorem membership_is_what_github_says:
  assumes "split_once 47 team = Some (org, slug)"
    and "r = api_get (lit ''/orgs/'' @ org @ lit ''/teams/'' @ slug @ lit ''/memberships/'' @ user_login) token"
    and "verify_team_membership g token team user_login sent = (outcome, sent')"
  shows "sent' = sent @ [r] \<and> outcome \<noteq> Ok None \<and>
    (outcome = Ok (Some ()) \<longleftrightarrow> (\<exists>a. gc_transport g sent r = Some a \<and> membership_state a = Some (lit ''active''))) \<and>
    ((\<exists>m. outcome = Err (PermissionDenied m)) \<longleftrightarrow>
      (\<exists>a. gc_transport g sent r = Some a \<and>
        (rs_status a \<in> {401, 403, 404} \<or> (\<exists>s. membership_state a = Some s \<and> s \<noteq> lit ''active''))))"
proof -
  have run: "verify_team_membership g token team user_login sent = (outcome, sent')" by (rule assms(3))
  show ?thesis
  proof (cases "gc_transport g sent r")
    case None
    then show ?thesis using run verify_team_membership_run [OF assms(1), of g token user_login sent]
      by (auto simp: Let_def simp flip: assms(2))
  next
    case (Some a)
    have no_state: "decode_github_response (dec_member dec_text ''state'') a \<noteq> Ok s" if "membership_state a = None" for s
      using that by (auto simp: membership_state_def decode_github_response_def decode_json_def ok_or_def split: option.splits if_splits)
    have denied: "decode_github_response (dec_member dec_text ''state'') a \<noteq> Err (PermissionDenied m)"
      if "membership_state a = None" "rs_status a \<notin> {401, 403, 404}" for m
      using that by (auto simp: membership_state_def decode_github_response_def decode_json_def ok_or_def split: option.splits if_splits)
    have live: "rs_status a \<notin> {401, 403, 404}" if "membership_state a = Some s" for s
      using that by (auto simp: membership_state_def is_success_def split: if_splits)
    show ?thesis using run verify_team_membership_run [OF assms(1), of g token user_login sent] Some no_state denied live
      by (auto simp: Let_def simp flip: assms(2) split: sum.splits if_splits)
  qed
qed

definition sample_client :: "(http_request \<Rightarrow> http_response option) \<Rightarrow> github_client" where
  "sample_client answer = \<lparr> gc_transport = (\<lambda>_. answer), gc_client_id = lit ''id'', gc_client_secret = lit ''secret'', gc_upload_token = lit ''upload'',
    gc_sign = None, gc_now = 0, gc_time = (\<lambda>_. Some 0), gc_oauth_url = (\<lambda>_. []) \<rparr>"

definition json_answer :: "jvalue \<Rightarrow> http_response option" where
  "json_answer v = Some \<lparr> rs_status = 200, rs_json = Some v, rs_content_type = None, rs_length = None, rs_chunks = [] \<rparr>"

theorem membership_is_what_github_says_witness:
  "fst (verify_team_membership (sample_client (\<lambda>_. json_answer (JObj [(lit ''state'', JText (lit ''pending''))]))) (lit ''t'') (lit ''Org/team'') (lit ''me'') [])
    \<noteq> Ok (Some ())"
proof -
  let ?g = "sample_client (\<lambda>_. json_answer (JObj [(lit ''state'', JText (lit ''pending''))]))"
  obtain x s where run: "verify_team_membership ?g (lit ''t'') (lit ''Org/team'') (lit ''me'') [] = (x, s)" by fastforce
  have "split_once 47 (lit ''Org/team'') = Some (lit ''Org'', lit ''team'')" by (simp add: split_once_def text_eval)
  from membership_is_what_github_says [OF this refl run]
  have "x = Ok (Some ()) \<Longrightarrow> \<exists>a. json_answer (JObj [(lit ''state'', JText (lit ''pending''))]) = Some a \<and> membership_state a = Some (lit ''active'')"
    by (simp add: sample_client_def)
  then have "x \<noteq> Ok (Some ())"
    by (auto simp: json_answer_def membership_state_def dec_member_def object_fields_def field_def dec_text_def text_eval split: if_splits)
  then show ?thesis by (simp add: run)
qed

section \<open>What comes back of an upload\<close>

lemma read_image_Ok:
  "read_image bytes cs = Ok b \<Longrightarrow> b = bytes @ concat (map the cs) \<and> (length bytes \<le> 10485760 \<longrightarrow> length b \<le> 10485760)"
  by (induction bytes cs rule: read_image.induct) (auto split: if_splits)

lemma is_attachment_url_chars:
  "is_attachment_url u \<Longrightarrow> \<exists>i. i \<noteq> [] \<and> u = lit ''https://github.com/user-attachments/assets/'' @ i \<and>
    list_all (\<lambda>c. is_ascii_alphanumeric c \<or> c = 45) i"
  by (auto simp: is_attachment_url_def strip_prefix_Some split: option.splits)

text \<open>An image that is passed on has one of four content types and at most ten mebibytes, whatever length the answer announces. An address that an upload
  returns is one of GitHub's attachments followed by letters, digits and hyphens, so nothing in it ends the Markdown it is put in.\<close>

theorem images_are_bounded:
  "(\<forall>t b sent'. issue_image g shown_id sent = (Ok (t, b), sent') \<longrightarrow>
      t \<in> lit ` {''image/png'', ''image/jpeg'', ''image/gif'', ''image/webp''} \<and> length b \<le> 10 * 1024 * 1024) \<and>
    (\<forall>u sent'. upload_attachment g repo name content_type bytes sent = (Ok u, sent') \<longrightarrow>
      (\<exists>i. i \<noteq> [] \<and> u = lit ''https://github.com/user-attachments/assets/'' @ i \<and> list_all (\<lambda>c. is_ascii_alphanumeric c \<or> c = 45) i))"
proof (intro conjI allI impI)
  fix t b sent' assume "issue_image g shown_id sent = (Ok (t, b), sent')"
  then obtain a :: http_response where a: "Option.bind (rs_content_type a) (\<lambda>t. image_content_type (trim (takeWhile (\<lambda>c. c \<noteq> 59) t))) = Some t"
      "read_image [] (rs_chunks a) = Ok b"
    by (auto simp: issue_image_def bind_prog_def lift_prog_def return_prog_def ok_or_def fail_if_def split: prod.splits sum.splits option.splits if_splits)
  then show "t \<in> lit ` {''image/png'', ''image/jpeg'', ''image/gif'', ''image/webp''}"
    by (auto simp: image_content_type_def bind_eq_Some_conv split: if_splits)
  show "length b \<le> 10 * 1024 * 1024" using read_image_Ok [OF a(2)] by auto
next
  fix u sent' assume "upload_attachment g repo name content_type bytes sent = (Ok u, sent')"
  then have "is_attachment_url u" by (auto simp: upload_attachment_def result_simps fail_if_def split: if_splits)
  then show "\<exists>i. i \<noteq> [] \<and> u = lit ''https://github.com/user-attachments/assets/'' @ i \<and> list_all (\<lambda>c. is_ascii_alphanumeric c \<or> c = 45) i"
    by (rule is_attachment_url_chars)
qed

end
