(* ===== verification/Issue_Proposal.thy ===== *)
theory Issue_Proposal
  imports Discord_Message States
begin

text \<open>
  What the administration writes about a report on GitHub: the title in both styles
  (\<open>src/src/application/report_titles.rs\<close>), the proposed issue with its quoted stack trace, its environment and its screenshot placeholder
  (\<open>src/src/application/issue_proposal.rs\<close>). \<open>None\<close> of a title is the panic of \<open>concise_function_name\<close>. The Unicode tables
  \<open>char::is_alphanumeric\<close> and \<open>str::to_lowercase\<close> are arguments.
\<close>

section \<open>A stored report\<close>

record 'num stored_diagnostic_field =
  sdf_key :: str
  sdf_kind :: field_kind
  sdf_value :: "'num json"
  sdf_recognized :: bool
  sdf_label :: "str option"
  sdf_current_kind :: "field_kind option"

record attachment_row =
  atr_id :: uuid
  atr_name :: str
  atr_media_type :: str
  atr_size :: int
  atr_storage_key :: str

record 'num report_details =
  dtl_kind :: report_kind
  dtl_client_version :: str
  dtl_build :: str
  dtl_fields :: "'num stored_diagnostic_field list"
  dtl_attachments :: "attachment_row list"

definition is_stack_trace :: "'num stored_diagnostic_field \<Rightarrow> bool" where
  "is_stack_trace f \<longleftrightarrow> sdf_kind f = field_kind.StackTrace \<or> sdf_current_kind f = Some field_kind.StackTrace \<or>
    (sdf_key f = lit ''stack'' \<and> sdf_kind f = field_kind.Multiline)"

section \<open>Titles\<close>

definition stack_trace_for_report :: "'num report_details \<Rightarrow> str option" where
  "stack_trace_for_report d =
    map_option snd (min_by_key (\<lambda>(f, v). if sdf_key f \<noteq> lit ''stack'' then 1 else 0 :: nat)
      (List.map_filter (\<lambda>f. map_option (Pair f) (json_as_str (sdf_value f))) (filter is_stack_trace (dtl_fields d))))"

definition text_of_field :: "'num stored_diagnostic_field list \<Rightarrow> string \<Rightarrow> str option" where
  "text_of_field fs key = Option.bind (find (\<lambda>f. sdf_key f = lit key) fs) (\<lambda>f. json_as_str (sdf_value f))"

definition title_in_style :: "(uchar \<Rightarrow> bool) \<Rightarrow> 'num report_details \<Rightarrow> title_style \<Rightarrow> str option" where
  "title_in_style alnum d style =
    generate_report_title alnum
      \<lparr> title_style = style, title_kind = dtl_kind d, title_url = text_of_field (dtl_fields d) ''url'',
        title_client_version = dtl_client_version d, title_failure_reason = text_of_field (dtl_fields d) ''failure_reason'',
        title_stack_trace = stack_trace_for_report d, title_process = text_of_field (dtl_fields d) ''process'',
        title_platform = text_of_field (dtl_fields d) ''platform'', title_signal = text_of_field (dtl_fields d) ''signal'' \<rparr>"

definition title_for_report :: "(uchar \<Rightarrow> bool) \<Rightarrow> 'num report_details \<Rightarrow> str option" where
  "title_for_report alnum d = title_in_style alnum d ReportTitle"

definition issue_title_for_report :: "(uchar \<Rightarrow> bool) \<Rightarrow> 'num report_details \<Rightarrow> str option" where
  "issue_title_for_report alnum d = title_in_style alnum d IssueTitle"

section \<open>The proposed issue\<close>

definition SCREENSHOT_PLACEHOLDER :: str where
  "SCREENSHOT_PLACEHOLDER = lit ''{screenshot}''"

record issue_proposal =
  prp_title :: str
  prp_description :: str

definition screenshot_attachment :: "(str \<Rightarrow> str) \<Rightarrow> attachment_row list \<Rightarrow> attachment_row option" where
  "screenshot_attachment lower attachments =
    min_by_key (\<lambda>a. lower (atr_name a)) (filter (\<lambda>a. atr_media_type a = lit ''image/png'') attachments)"

text \<open>\<open>replace\<close>: the occurrences from the left, which do not overlap. The pattern is never empty.\<close>

function replace_str :: "str \<Rightarrow> str \<Rightarrow> str \<Rightarrow> str" where
  "replace_str p t [] = []"
| "replace_str p t (c # s) =
    (case strip_prefix p (c # s) of Some r \<Rightarrow> t @ replace_str p t (drop (length p - 1) s) | None \<Rightarrow> c # replace_str p t s)"
  by pat_completeness auto
termination
  by (relation "measure (\<lambda>(p, t, s). length s)") auto

definition embed_screenshot :: "str \<Rightarrow> str \<Rightarrow> str" where
  "embed_screenshot description url =
    replace_str SCREENSHOT_PLACEHOLDER (lit ''![Screenshot of the page in the report]('' @ url @ lit '')'') description"

definition proposal_page_url :: "'num report_details \<Rightarrow> str option" where
  "proposal_page_url d =
    Option.bind (find (\<lambda>f. sdf_key f = lit ''url'' \<and> (sdf_kind f = field_kind.Text \<or> sdf_kind f = field_kind.Url)) (dtl_fields d)) (\<lambda>f.
    Option.bind (json_as_str (sdf_value f)) (\<lambda>v.
      let u = trim v in if u = [] then None else Some (map page_char u)))"

fun backtick_runs :: "nat \<Rightarrow> str \<Rightarrow> nat list" where
  "backtick_runs n [] = [n]"
| "backtick_runs n (c # s) = (if c = BACKTICK then backtick_runs (n + 1) s else n # backtick_runs 0 s)"

definition fence_for :: "str \<Rightarrow> str" where
  "fence_for stack_trace = replicate (max (foldr max (backtick_runs 0 stack_trace) 0 + 1) 3) BACKTICK"

definition add_stack_trace :: "str \<Rightarrow> str" where
  "add_stack_trace stack_trace =
    [10] @ lit ''## Stack trace'' @ [10, 10] @ fence_for stack_trace @ lit ''text'' @ [10] @ stack_trace @
    (if ends_with [10] stack_trace then [] else [10]) @ fence_for stack_trace @ [10]"

definition is_safe_char :: "(uchar \<Rightarrow> bool) \<Rightarrow> uchar \<Rightarrow> bool" where
  "is_safe_char alnum c \<longleftrightarrow> alnum c \<or> c \<in> set (lit '' ._-+()/:,'') \<or> c = 183"

definition safe_value :: "(uchar \<Rightarrow> bool) \<Rightarrow> str \<Rightarrow> nat \<Rightarrow> str option" where
  "safe_value alnum v maximum_characters =
    (let v = trim v in
     if v = [] \<or> maximum_characters < length v \<or> contains_str (lit ''://'') v \<or> list_ex (\<lambda>c. \<not> is_safe_char alnum c) v
     then None else Some v)"

definition safe_field :: "(uchar \<Rightarrow> bool) \<Rightarrow> 'num report_details \<Rightarrow> string \<Rightarrow> nat \<Rightarrow> str option" where
  "safe_field alnum d key maximum_characters =
    Option.bind (Option.bind (find (\<lambda>f. sdf_key f = lit key \<and> sdf_kind f = field_kind.Text) (dtl_fields d)) (\<lambda>f. json_as_str (sdf_value f)))
      (\<lambda>v. safe_value alnum v maximum_characters)"

definition add_detail :: "string \<Rightarrow> str option \<Rightarrow> str" where
  "add_detail label v = (case v of
    Some v \<Rightarrow> lit ''- '' @ lit label @ lit '': '' @ replace_char 95 [92, 95] v @ [10] | None \<Rightarrow> [])"

definition environment_details :: "(uchar \<Rightarrow> bool) \<Rightarrow> 'num report_details \<Rightarrow> (string \<times> str option) list" where
  "environment_details alnum d = [
    (''Ladybird version'', safe_value alnum (dtl_client_version d) 100), (''Build'', safe_value alnum (dtl_build d) 100),
    (''Platform'', safe_field alnum d ''platform'' 40), (''Architecture'', safe_field alnum d ''architecture'' 40),
    (''Signal'', safe_field alnum d ''signal'' 40)]"

definition proposal_summary :: "(str \<Rightarrow> str) \<Rightarrow> 'num report_details \<Rightarrow> str" where
  "proposal_summary lower d =
    lit ''## Summary'' @ [10, 10] @
    (case dtl_kind d of Crash \<Rightarrow> lit ''Crash'' | WebCompat \<Rightarrow> lit ''Web compatibility issue'') @
    lit '' reported by a Ladybird user.'' @ [10] @
    (if screenshot_attachment lower (dtl_attachments d) \<noteq> None
     then [10] @ lit ''## Screenshot'' @ [10, 10] @ SCREENSHOT_PLACEHOLDER @ [10] else [])"

definition proposal_environment :: "(uchar \<Rightarrow> bool) \<Rightarrow> 'num report_details \<Rightarrow> str" where
  "proposal_environment alnum d =
    [10] @ lit ''## Environment'' @ [10, 10] @ concat (map (\<lambda>(label, v). add_detail label v) (environment_details alnum d))"

definition proposal_description :: "(uchar \<Rightarrow> bool) \<Rightarrow> (str \<Rightarrow> str) \<Rightarrow> 'num report_details \<Rightarrow> str" where
  "proposal_description alnum lower d =
    proposal_summary lower d @
    (case stack_trace_for_report d of Some s \<Rightarrow> if s \<noteq> [] then add_stack_trace s else [] | None \<Rightarrow> []) @
    proposal_environment alnum d @
    (case proposal_page_url d of Some u \<Rightarrow> lit ''- Page URL: '' @ [BACKTICK] @ u @ [BACKTICK, 10] | None \<Rightarrow> [])"

definition propose_issue :: "(uchar \<Rightarrow> bool) \<Rightarrow> (str \<Rightarrow> str) \<Rightarrow> 'num report_details \<Rightarrow> issue_proposal option" where
  "propose_issue alnum lower d =
    map_option (\<lambda>title. \<lparr> prp_title = title, prp_description = proposal_description alnum lower d \<rparr>) (issue_title_for_report alnum d)"

section \<open>The screenshot\<close>

text \<open>A description from which a maintainer removed the placeholder is left as it is.\<close>

lemma embed_without_placeholder: "\<not> contains_str p s \<Longrightarrow> replace_str p t s = s"
proof (induction s)
  case (Cons c s)
  have "strip_prefix p (c # s) = None" using Cons.prems by (auto simp: contains_str_def split: option.splits)
  moreover have "\<not> contains_str p s" using Cons.prems by (auto simp: contains_str_def split: option.splits)
  ultimately show ?case using Cons.IH by simp
qed simp

section \<open>Client text stays quoted\<close>

text \<open>A report of a page whose stack trace has a Markdown fence in it.\<close>

definition sample_details :: "nat report_details" where
  "sample_details = \<lparr> dtl_kind = WebCompat, dtl_client_version = lit ''1.0'', dtl_build = lit ''@team'',
    dtl_fields = [\<lparr> sdf_key = lit ''stack'', sdf_kind = field_kind.StackTrace, sdf_value = JsonString (lit ''a```b''), sdf_recognized = True,
      sdf_label = None, sdf_current_kind = None \<rparr>,
      \<lparr> sdf_key = lit ''url'', sdf_kind = field_kind.Url, sdf_value = JsonString (lit ''https://a.test/''), sdf_recognized = True,
      sdf_label = None, sdf_current_kind = None \<rparr>],
    dtl_attachments = [] \<rparr>"

lemma split_once_str_occurs: "split_once_str p (a @ p @ b) \<noteq> None"
proof (induction a)
  case Nil
  show ?case
  proof (cases "p @ b")
    case (Cons c s)
    have "strip_prefix p (c # s) = Some b" by (simp add: strip_prefix_Some flip: Cons)
    then show ?thesis by (simp add: Cons)
  qed simp
next
  case (Cons c a)
  then show ?case by (auto split: option.split)
qed

lemma contains_str_iff: "contains_str p s \<longleftrightarrow> (\<exists>a b. s = a @ p @ b)"
proof
  assume "contains_str p s"
  then show "\<exists>a b. s = a @ p @ b" unfolding contains_str_def by (auto dest: split_once_str_append)
next
  assume "\<exists>a b. s = a @ p @ b"
  then show "contains_str p s" unfolding contains_str_def using split_once_str_occurs by blast
qed

lemma contains_str_inside: "contains_str p s \<Longrightarrow> contains_str p (a @ s @ b)"
  unfolding contains_str_iff by (metis append.assoc)

lemma backtick_runs_start: "\<exists>m \<in> set (backtick_runs n s). n \<le> m"
proof (induction n s rule: backtick_runs.induct)
  case (2 n c s)
  show ?case
  proof (cases "c = BACKTICK")
    case True
    then obtain m where "m \<in> set (backtick_runs (n + 1) s)" "n + 1 \<le> m" using 2 by blast
    then show ?thesis using True by (intro bexI [of _ m]) simp_all
  qed simp
qed simp

lemma backtick_runs_replicate: "backtick_runs n (replicate k BACKTICK @ b) = backtick_runs (n + k) b"
  by (induction k arbitrary: n) auto

lemma backtick_runs_bound: "\<exists>m \<in> set (backtick_runs n (a @ replicate k BACKTICK @ b)). k \<le> m"
proof (induction n a rule: backtick_runs.induct)
  case (1 n)
  obtain m where "m \<in> set (backtick_runs (n + k) b)" "n + k \<le> m" using backtick_runs_start by blast
  then show ?case by (intro bexI [of _ m]) (simp_all add: backtick_runs_replicate)
next
  case (2 n c s)
  then show ?case by (cases "c = BACKTICK") auto
qed

lemma member_le_foldr_max: "m \<in> set ms \<Longrightarrow> m \<le> foldr max ms (0 :: nat)"
  by (induction ms) auto

lemma fence_not_inside: "\<not> contains_str (fence_for s) s"
proof
  let ?n = "max (foldr max (backtick_runs 0 s) 0 + 1) 3"
  assume "contains_str (fence_for s) s"
  then obtain a b where s: "s = a @ replicate ?n BACKTICK @ b" unfolding contains_str_iff fence_for_def by blast
  have "\<exists>m \<in> set (backtick_runs 0 (a @ replicate ?n BACKTICK @ b)). ?n \<le> m" by (rule backtick_runs_bound)
  then obtain m where "m \<in> set (backtick_runs 0 s)" "?n \<le> m" using s by metis
  then show False using member_le_foldr_max [of m "backtick_runs 0 s"] by simp
qed

lemma safe_value_Some:
  "safe_value alnum v n = Some w \<longleftrightarrow> w = trim v \<and> w \<noteq> [] \<and> length w \<le> n \<and> \<not> contains_str (lit ''://'') w \<and> list_all (is_safe_char alnum) w"
  by (auto simp: safe_value_def Let_def list_ex_iff list_all_iff)

lemma environment_safe:
  "(label, Some w) \<in> set (environment_details alnum d) \<Longrightarrow> \<exists>v n. n \<le> 100 \<and> safe_value alnum v n = Some w"
proof -
  assume "(label, Some w) \<in> set (environment_details alnum d)"
  then consider v where "safe_value alnum v 100 = Some w" | v where "safe_value alnum v 40 = Some w"
    by (auto simp: environment_details_def safe_field_def bind_eq_Some_conv dest!: sym [of "Some w"])
  then show ?thesis by cases (rule exI, rule exI, rule conjI [rotated], assumption, simp)+
qed


lemma sample_proposal: "propose_issue is_ascii_alphanumeric (\<lambda>s. s) sample_details \<noteq> None"
proof -
  let ?i = "\<lparr> title_style = IssueTitle, title_kind = WebCompat, title_url = text_of_field (dtl_fields sample_details) ''url'',
    title_client_version = dtl_client_version sample_details, title_failure_reason = text_of_field (dtl_fields sample_details) ''failure_reason'',
    title_stack_trace = stack_trace_for_report sample_details, title_process = text_of_field (dtl_fields sample_details) ''process'',
    title_platform = text_of_field (dtl_fields sample_details) ''platform'', title_signal = text_of_field (dtl_fields sample_details) ''signal'' \<rparr>"
  have url: "text_of_field (dtl_fields sample_details) ''url'' = Some (lit ''https://a.test/'')"
    by (simp add: sample_details_def text_of_field_def text_eval)
  have "title_page ?i \<noteq> None" by (simp add: title_page_def url page_url_def kind_name_def text_eval)
  moreover have "title_location ?i = None" by (simp add: title_location_def)
  moreover have "dtl_kind sample_details = WebCompat" by (simp add: sample_details_def)
  ultimately show ?thesis by (auto simp: propose_issue_def issue_title_for_report_def title_in_style_def generate_report_title_def)
qed


end
