(* ===== verification/Admin_Actions.thy ===== *)
theory Admin_Actions
  imports Tracker Github_Client Issue_Proposal
begin

text \<open>
  The forms of the administration (\<open>src/src/web/admin/handlers/reports.rs\<close>, \<open>issues.rs\<close>) and the webhook of GitHub
  (\<open>github_webhook.rs\<close>), over the tables of the tracker and the requests of the GitHub client. A form gives the address it redirects to. The state has
  the tables and the requests that were sent: a transaction that fails leaves the tables, a request stays sent. What a handler reads besides
  (configuration, stored report and files, the session's secrets, parsers of identifiers and addresses) is its environment.
\<close>

section \<open>What a handler works on\<close>

record desk =
  dsk_db :: db
  dsk_sent :: "http_request list"

type_synonym 'a act = "(desk, 'a) prog"

record ('net, 'num) action_env =
  env_github :: github_client
  env_configuration :: "'net runtime_configuration result"
  env_auth :: auth_external
  env_sha256 :: "str \<Rightarrow> nat list"
  env_parse_url :: "str \<Rightarrow> url option"
  env_parse_uuid :: "str \<Rightarrow> uuid option"
  env_show_uuid :: "uuid \<Rightarrow> str"
  env_lower :: "str \<Rightarrow> str"
  env_details :: "report_id \<Rightarrow> 'num report_details option"
  env_read_file :: "str \<Rightarrow> nat list result"
  env_fresh :: issue_id
  env_parse_json :: "nat list \<Rightarrow> jvalue option"
  env_hmac :: "str \<Rightarrow> nat list \<Rightarrow> nat list"
  env_hex_decode :: "str \<Rightarrow> nat list option"
  env_webhook_secret :: "str option"

definition on_db :: "'a tx \<Rightarrow> 'a act" where
  "on_db m s = (case m (dsk_db s) of Inl e \<Rightarrow> (Err e, s) | Inr (a, db') \<Rightarrow> (Ok a, s\<lparr> dsk_db := db' \<rparr>))"

definition on_db_prog :: "(db, 'a) prog \<Rightarrow> 'a act" where
  "on_db_prog m s = (let (r, db') = m (dsk_db s) in (r, s\<lparr> dsk_db := db' \<rparr>))"

definition ask :: "'a call \<Rightarrow> 'a act" where
  "ask m s = (let (r, sent') = m (dsk_sent s) in (r, s\<lparr> dsk_sent := sent' \<rparr>))"

definition configured_repository :: "('net, 'num) action_env \<Rightarrow> str act" where
  "configured_repository env = bind_prog (lift_prog (env_configuration env)) (\<lambda>c. return_prog (github_configuration.repository (github c)))"

definition github_access_token :: "('net, 'num) action_env \<Rightarrow> session \<Rightarrow> str act" where
  "github_access_token env sn = lift_prog (ath_decrypt (env_auth env) (sn_access sn))"

definition parse_server_id :: "('net, 'num) action_env \<Rightarrow> str \<Rightarrow> uuid option" where
  "parse_server_id env t =
    (case identifier_from_str (env_parse_uuid env) is_uuid_v7 ''identifier must be a UUIDv7'' t of Inl _ \<Rightarrow> None | Inr u \<Rightarrow> Some u)"

definition report_page :: "('net, 'num) action_env \<Rightarrow> report_id \<Rightarrow> str" where
  "report_page env rid = lit ''/reports/'' @ env_show_uuid env rid"

definition issue_page :: "('net, 'num) action_env \<Rightarrow> issue_id \<Rightarrow> str" where
  "issue_page env iid = lit ''/issues/'' @ env_show_uuid env iid"

definition ensure_report_unassigned :: "report_id \<Rightarrow> unit tx" where
  "ensure_report_unassigned rid =
    bind_tx (get_tx (ready_report rid)) (\<lambda>row.
    lift_tx (case row of
      None \<Rightarrow> Err (NotFound ''Report not found'')
    | Some r \<Rightarrow> fail_if (rpt_issue r \<noteq> None) (Conflict ''Unlink the report before adding it to another issue'')))"

section \<open>Fixes and issues a maintainer selects\<close>

abbreviation (input) FIX_TITLE_LIMIT :: nat where
  "FIX_TITLE_LIMIT \<equiv> 512"

definition selected_pull_request :: "('net, 'num) action_env \<Rightarrow> str \<Rightarrow> str \<Rightarrow> str \<Rightarrow> report_fix act" where
  "selected_pull_request env repo token v =
    bind_prog (lift_prog (ok_or (case parse_signed I64_MAX v of Some n \<Rightarrow> if 0 < n then Some n else None | None \<Rightarrow> None)
      (InvalidRequest ''Select a pull request''))) (\<lambda>number.
    bind_prog (ask (pull_request (env_github env) token repo number)) (\<lambda>p.
    bind_prog (lift_prog (fail_if (pul_merged_at p = None) (InvalidRequest ''Only a merged pull request resolves a report''))) (\<lambda>_.
    return_prog \<lparr> fix_kind = report_fix_kind.PullRequest, fix_reference = show_int (pul_number p),
      fix_title = take FIX_TITLE_LIMIT (pul_title p), fix_url = pul_html_url p \<rparr>)))"

definition selected_commit :: "('net, 'num) action_env \<Rightarrow> str \<Rightarrow> str \<Rightarrow> str \<Rightarrow> report_fix act" where
  "selected_commit env repo token v =
    bind_prog (lift_prog (fail_if (\<not> is_commit_hash_prefix v) (InvalidRequest ''Select a commit''))) (\<lambda>_.
    bind_prog (ask (get_commit (env_github env) token repo v)) (\<lambda>c.
    bind_prog (ask (default_branch_contains (env_github env) token repo (cmt_sha c))) (\<lambda>contained.
    bind_prog (lift_prog (fail_if (\<not> contained) (InvalidRequest ''Only a commit on the default branch resolves a report''))) (\<lambda>_.
    return_prog \<lparr> fix_kind = report_fix_kind.Commit, fix_reference = cmt_sha c,
      fix_title = take FIX_TITLE_LIMIT (commit_subject c), fix_url = cmt_html_url c \<rparr>))))"

definition selected_fix :: "('net, 'num) action_env \<Rightarrow> session \<Rightarrow> str \<Rightarrow> report_fix act" where
  "selected_fix env sn selection =
    (case (strip_prefix (lit ''pull:'') selection, strip_prefix (lit ''commit:'') selection) of
      (None, None) \<Rightarrow> lift_prog (Err (InvalidRequest ''Select a pull request or a commit''))
    | (pull, commit) \<Rightarrow>
        bind_prog (configured_repository env) (\<lambda>repo.
        bind_prog (github_access_token env sn) (\<lambda>token.
        case pull of
          Some v \<Rightarrow> selected_pull_request env repo token v
        | None \<Rightarrow> selected_commit env repo token (the commit))))"

definition add_reports_to_selected_issue :: "('net, 'num) action_env \<Rightarrow> session \<Rightarrow> str \<Rightarrow> report_id list \<Rightarrow> issue_id act" where
  "add_reports_to_selected_issue env sn selection ids =
    (case strip_prefix (lit ''issue:'') selection of
      Some v \<Rightarrow>
        bind_prog (lift_prog (ok_or (parse_server_id env v) (InvalidRequest ''Select an issue''))) (\<lambda>iid.
        bind_prog (on_db (assign_reports_to_issue ids iid (sn_person sn))) (\<lambda>_.
        return_prog iid))
    | None \<Rightarrow>
        (case strip_prefix (lit ''github:'') selection of
          None \<Rightarrow> lift_prog (Err (InvalidRequest ''Select an issue''))
        | Some v \<Rightarrow>
            bind_prog (lift_prog (ok_or (parse_signed I64_MAX v) (InvalidRequest ''Select an issue''))) (\<lambda>number.
            bind_prog (lift_prog (fail_if (number < 1) (InvalidRequest ''Select an issue''))) (\<lambda>_.
            bind_prog (configured_repository env) (\<lambda>repo.
            bind_prog (github_access_token env sn) (\<lambda>token.
            bind_prog (ask (get_issue (env_github env) token repo number)) (\<lambda>g.
            bind_prog (on_db_prog (assign_reports_to_github_issue (env_parse_url env) (env_fresh env) g ids repo (sn_person sn))) (\<lambda>(iid, _).
            return_prog iid))))))))"

section \<open>The forms of a report\<close>

definition assign_to_issue :: "('net, 'num) action_env \<Rightarrow> session \<Rightarrow> report_id \<Rightarrow> str \<Rightarrow> str act" where
  "assign_to_issue env sn rid selection =
    bind_prog (on_db (ensure_report_unassigned rid)) (\<lambda>_.
    bind_prog (add_reports_to_selected_issue env sn selection [rid]) (\<lambda>iid.
    return_prog (issue_page env iid)))"

definition resolve_with_fix :: "('net, 'num) action_env \<Rightarrow> session \<Rightarrow> report_id \<Rightarrow> str \<Rightarrow> str act" where
  "resolve_with_fix env sn rid selection =
    bind_prog (selected_fix env sn selection) (\<lambda>fx.
    bind_prog (on_db (resolve_reports_with_fix [rid] fx (sn_person sn))) (\<lambda>_.
    return_prog (report_page env rid)))"

abbreviation (input) REJECTION_REASON_LIMIT :: nat where
  "REJECTION_REASON_LIMIT \<equiv> 500"

definition rejection_reason :: "str \<Rightarrow> str option result" where
  "rejection_reason reason =
    (let reason = trim reason in
     bind_res (fail_if (REJECTION_REASON_LIMIT < length reason) (InvalidRequest ''Give a reason of at most 500 characters'')) (\<lambda>_.
     Ok (if reason = [] then None else Some reason)))"

datatype bulk_report_action = AddToIssue | ResolveWithFix | Confirm | ReturnToTriage | Reject

record bulk_report_form =
  blk_action :: bulk_report_action
  blk_reports :: str
  blk_issue_selection :: str
  blk_fix_selection :: str
  blk_reason :: str
  blk_return_to :: str

abbreviation (input) BULK_REPORT_LIMIT :: nat where
  "BULK_REPORT_LIMIT \<equiv> 200"

definition selected_reports :: "('net, 'num) action_env \<Rightarrow> str \<Rightarrow> report_id list result" where
  "selected_reports env t =
    bind_res (ok_or (those (map (parse_server_id env) (split_whitespace t))) (InvalidRequest ''Select reports'')) (\<lambda>ids.
    bind_res (fail_if (ids = []) (InvalidRequest ''Select reports'')) (\<lambda>_.
    bind_res (fail_if (BULK_REPORT_LIMIT < length ids) (InvalidRequest ''Select at most 200 reports at a time'')) (\<lambda>_.
    Ok ids)))"

definition back_to_list :: "('net, 'num) action_env \<Rightarrow> str \<Rightarrow> str" where
  "back_to_list env target = (case validated_return_to (env_auth env) target of Some p \<Rightarrow> p | None \<Rightarrow> lit ''/'')"

definition bulk_state_action ::
    "('net, 'num) action_env \<Rightarrow> session \<Rightarrow> bulk_report_form \<Rightarrow> report_id list \<Rightarrow> report_state_action \<Rightarrow> str act" where
  "bulk_state_action env sn form ids action =
    bind_prog (lift_prog (if action = report_state_action.Reject then rejection_reason (blk_reason form) else Ok None)) (\<lambda>reason.
    bind_prog (on_db (apply_report_state_action ids action (sn_person sn) reason)) (\<lambda>_.
    return_prog (back_to_list env (blk_return_to form))))"

definition bulk_action :: "('net, 'num) action_env \<Rightarrow> session \<Rightarrow> bulk_report_form \<Rightarrow> str act" where
  "bulk_action env sn form =
    bind_prog (lift_prog (selected_reports env (blk_reports form))) (\<lambda>ids.
    case blk_action form of
      ResolveWithFix \<Rightarrow>
        bind_prog (selected_fix env sn (blk_fix_selection form)) (\<lambda>fx.
        bind_prog (on_db (resolve_reports_with_fix ids fx (sn_person sn))) (\<lambda>_.
        return_prog (back_to_list env (blk_return_to form))))
    | AddToIssue \<Rightarrow>
        bind_prog (add_reports_to_selected_issue env sn (blk_issue_selection form) ids) (\<lambda>iid.
        return_prog (issue_page env iid))
    | Confirm \<Rightarrow> bulk_state_action env sn form ids report_state_action.Confirm
    | ReturnToTriage \<Rightarrow> bulk_state_action env sn form ids report_state_action.ReturnToTriage
    | Reject \<Rightarrow> bulk_state_action env sn form ids report_state_action.Reject)"

definition unlink_from_issue :: "('net, 'num) action_env \<Rightarrow> session \<Rightarrow> report_id \<Rightarrow> issue_id \<Rightarrow> str act" where
  "unlink_from_issue env sn rid iid =
    bind_prog (on_db (unlink_report_from_issue iid rid (sn_person sn))) (\<lambda>_. return_prog (report_page env rid))"

datatype report_workflow_state = Triage | Confirmed

primrec workflow_target :: "report_workflow_state \<Rightarrow> report_state" where
  "workflow_target report_workflow_state.Triage = report_state.Triage"
| "workflow_target report_workflow_state.Confirmed = report_state.Confirmed"

definition set_state :: "('net, 'num) action_env \<Rightarrow> session \<Rightarrow> report_id \<Rightarrow> report_workflow_state \<Rightarrow> str act" where
  "set_state env sn rid target =
    bind_prog (on_db (set_report_state rid (workflow_target target) (sn_person sn) None)) (\<lambda>_. return_prog (report_page env rid))"

definition reject_report :: "('net, 'num) action_env \<Rightarrow> session \<Rightarrow> report_id \<Rightarrow> str \<Rightarrow> str act" where
  "reject_report env sn rid reason =
    bind_prog (lift_prog (rejection_reason reason)) (\<lambda>reason.
    bind_prog (on_db (set_report_state rid report_state.Rejected (sn_person sn) reason)) (\<lambda>_. return_prog (report_page env rid)))"

definition block_ip :: "('net, 'num) action_env \<Rightarrow> session \<Rightarrow> report_id \<Rightarrow> bool \<Rightarrow> str act" where
  "block_ip env sn rid remove_triage_reports =
    bind_prog (on_db (block_report_source rid (sn_person sn) remove_triage_reports)) (\<lambda>_. return_prog (report_page env rid))"

definition unblock_ip :: "('net, 'num) action_env \<Rightarrow> session \<Rightarrow> report_id \<Rightarrow> str act" where
  "unblock_ip env sn rid = bind_prog (on_db (unblock_report_source rid (sn_person sn))) (\<lambda>_. return_prog (report_page env rid))"

section \<open>The forms of an issue\<close>

definition upload_screenshot :: "('net, 'num) action_env \<Rightarrow> str \<Rightarrow> 'num report_details \<Rightarrow> str act" where
  "upload_screenshot env repo d =
    bind_prog (lift_prog (ok_or (screenshot_attachment (env_lower env) (dtl_attachments d))
      (InvalidRequest ''This report has no screenshot. Remove {screenshot} from the description.''))) (\<lambda>a.
    bind_prog (lift_prog (env_read_file env (atr_storage_key a))) (\<lambda>bytes.
    ask (upload_attachment (env_github env) repo (atr_name a) (atr_media_type a) bytes)))"

definition create_from_report :: "('net, 'num) action_env \<Rightarrow> session \<Rightarrow> report_id \<Rightarrow> str \<Rightarrow> str \<Rightarrow> str act" where
  "create_from_report env sn rid issue_title description =
    bind_prog (on_db (ensure_report_unassigned rid)) (\<lambda>_.
    bind_prog (lift_prog (ok_or (env_details env rid) (NotFound ''Report not found''))) (\<lambda>d.
    bind_prog (lift_prog (validate_issue_text issue_title description)) (\<lambda>_.
    bind_prog (lift_prog (env_configuration env)) (\<lambda>c.
    bind_prog (github_access_token env sn) (\<lambda>token.
    bind_prog (if contains_str SCREENSHOT_PLACEHOLDER description
      then bind_prog (upload_screenshot env (github_configuration.repository (github c)) d) (\<lambda>u. return_prog (embed_screenshot description u))
      else return_prog description) (\<lambda>description.
    bind_prog (ask (create_github_issue (env_github env) token (github_configuration.repository (github c)) (trim issue_title) description
      (github_issue_labels_for_kind (github_configuration.labels (github c)) (dtl_kind d)))) (\<lambda>g.
    bind_prog (on_db_prog (assign_reports_to_github_issue (env_parse_url env) (env_fresh env) g [rid]
      (github_configuration.repository (github c)) (sn_person sn))) (\<lambda>(iid, _).
    return_prog (issue_page env iid)))))))))"

definition unlink_report_of_issue :: "('net, 'num) action_env \<Rightarrow> session \<Rightarrow> issue_id \<Rightarrow> report_id \<Rightarrow> str act" where
  "unlink_report_of_issue env sn iid rid =
    bind_prog (on_db (unlink_report_from_issue iid rid (sn_person sn))) (\<lambda>_. return_prog (issue_page env iid))"

definition reject_issue_form :: "('net, 'num) action_env \<Rightarrow> session \<Rightarrow> issue_id \<Rightarrow> str \<Rightarrow> str act" where
  "reject_issue_form env sn iid action =
    bind_prog (lift_prog (ok_or (text_enum_parse issue_report_action_all issue_report_action_as_str action) (InvalidRequest ''Invalid report action''))) (\<lambda>action.
    bind_prog (on_db (reject_issue iid (sn_person sn) action)) (\<lambda>_. return_prog (issue_page env iid)))"

definition issue_number_from_url :: "(str \<Rightarrow> url option) \<Rightarrow> str \<Rightarrow> str \<Rightarrow> int result" where
  "issue_number_from_url parse_url t repo =
    bind_res (ok_or (parse_url t) (InvalidRequest ''Enter a GitHub issue URL'')) (\<lambda>u.
    bind_res (fail_if (url_scheme u \<noteq> lit ''https'' \<or> url_host_str u \<noteq> Some (lit ''github.com'')) (InvalidRequest ''Enter a GitHub issue URL'')) (\<lambda>_.
    bind_res (ok_or (url_path_segments u) (InvalidRequest ''Enter a GitHub issue URL'')) (\<lambda>segments.
    bind_res (case segments of
        [owner, name, kind, number] \<Rightarrow>
          if lower (owner @ lit ''/'' @ name) = lower repo \<and> kind = lit ''issues'' then Ok number
          else Err (InvalidRequest ''Issue is not in the configured repository'')
      | _ \<Rightarrow> Err (InvalidRequest ''Issue is not in the configured repository'')) (\<lambda>number.
    bind_res (ok_or (parse_signed I64_MAX number) (InvalidRequest ''Enter a GitHub issue URL'')) (\<lambda>n.
    bind_res (fail_if (n < 1) (InvalidRequest ''Enter a GitHub issue URL'')) (\<lambda>_. Ok n))))))"

definition replace_github_link :: "('net, 'num) action_env \<Rightarrow> session \<Rightarrow> issue_id \<Rightarrow> str \<Rightarrow> str act" where
  "replace_github_link env sn iid github_url =
    bind_prog (configured_repository env) (\<lambda>repo.
    bind_prog (lift_prog (issue_number_from_url (env_parse_url env) github_url repo)) (\<lambda>number.
    bind_prog (github_access_token env sn) (\<lambda>token.
    bind_prog (ask (get_issue (env_github env) token repo number)) (\<lambda>g.
    bind_prog (on_db (replace_github_issue (env_parse_url env) iid repo g (sn_person sn))) (\<lambda>_.
    return_prog (issue_page env iid))))))"

definition create_replacement :: "('net, 'num) action_env \<Rightarrow> session \<Rightarrow> issue_id \<Rightarrow> str act" where
  "create_replacement env sn iid =
    bind_prog (on_db (get_tx (\<lambda>db. find_issue iid (issues db)))) (\<lambda>row.
    bind_prog (lift_prog (ok_or row (NotFound ''Issue not found''))) (\<lambda>i.
    bind_prog (lift_prog (fail_if (\<not> is_unreachable (iss_link i)) (Conflict ''Current GitHub issue is still available''))) (\<lambda>_.
    bind_prog (configured_repository env) (\<lambda>repo.
    bind_prog (github_access_token env sn) (\<lambda>token.
    bind_prog (ask (create_github_issue (env_github env) token repo (iss_title i) (iss_description i) [])) (\<lambda>g.
    bind_prog (on_db (replace_github_issue (env_parse_url env) iid repo g (sn_person sn))) (\<lambda>_.
    return_prog (issue_page env iid))))))))"

definition ensure_github_reports_link :: "('net, 'num) action_env \<Rightarrow> session \<Rightarrow> issue_id \<Rightarrow> unit act" where
  "ensure_github_reports_link env sn iid =
    bind_prog (lift_prog (env_configuration env)) (\<lambda>c.
    case reports_issue_field_id (github c) of
      None \<Rightarrow> return_prog ()
    | Some field_id \<Rightarrow>
        bind_prog (on_db (get_tx (\<lambda>db. find_issue iid (issues db)))) (\<lambda>row.
        bind_prog (lift_prog (ok_or row (NotFound ''Issue not found''))) (\<lambda>i.
        let link = admin_base_url c @ issue_page env iid in
        if iss_merged_into i \<noteq> None \<or> is_unreachable (iss_link i) \<or>
          (iss_reports_field i = Some field_id \<and> iss_reports_link i = Some link)
        then return_prog ()
        else
          bind_prog (github_access_token env sn) (\<lambda>token.
          bind_prog (ask (verify_private_text_issue_field (env_github env) token
            (takeWhile (\<lambda>ch. ch \<noteq> 47) (github_configuration.repository (github c))) field_id)) (\<lambda>_.
          bind_prog (ask (add_issue_field_link (env_github env) token (iss_repository i) (iss_number i) field_id link)) (\<lambda>_.
          on_db (record_github_reports_link iid (iss_github_id i) field_id link)))))))"

section \<open>The webhook\<close>

datatype issue_event_action = Opened | Edited | Closed | Reopened | Deleted | Transferred | Other

record issue_event =
  iev_action :: issue_event_action
  iev_issue :: github_issue
  iev_repository :: str
  iev_installation :: "int option"

definition dec_event_action :: "jvalue \<Rightarrow> issue_event_action option" where
  "dec_event_action v = map_option (\<lambda>t.
    if t = lit ''opened'' then issue_event_action.Opened else if t = lit ''edited'' then issue_event_action.Edited
    else if t = lit ''closed'' then issue_event_action.Closed else if t = lit ''reopened'' then issue_event_action.Reopened
    else if t = lit ''deleted'' then issue_event_action.Deleted else if t = lit ''transferred'' then issue_event_action.Transferred
    else issue_event_action.Other) (dec_text v)"

definition dec_issue_event :: "(str \<Rightarrow> int option) \<Rightarrow> jvalue \<Rightarrow> issue_event option" where
  "dec_issue_event parse_time v = do {
    fs \<leftarrow> object_fields v;
    a \<leftarrow> field dec_event_action None fs ''action'';
    i \<leftarrow> field (dec_issue parse_time) None fs ''issue'';
    r \<leftarrow> field (dec_member dec_text ''full_name'') None fs ''repository'';
    n \<leftarrow> opt_field (dec_member dec_i64 ''id'') fs ''installation'';
    Some \<lparr> iev_action = a, iev_issue = i, iev_repository = r, iev_installation = n \<rparr>
  }"

record webhook_request =
  whk_signature :: "str option"
  whk_event :: "str option"
  whk_body :: "nat list"

definition verify_signature :: "('net, 'num) action_env \<Rightarrow> str \<Rightarrow> webhook_request \<Rightarrow> unit result" where
  "verify_signature env secret w =
    bind_res (ok_or (Option.bind (Option.bind (whk_signature w) (strip_prefix (lit ''sha256=''))) (env_hex_decode env))
      (PermissionDenied ''Invalid GitHub webhook signature'')) (\<lambda>signature.
    fail_if (signature \<noteq> env_hmac env secret (whk_body w)) (PermissionDenied ''Invalid GitHub webhook signature''))"

definition apply_issue_event :: "('net, 'num) action_env \<Rightarrow> issue_event \<Rightarrow> issue_id option tx" where
  "apply_issue_event env e =
    (case iev_action e of
      issue_event_action.Deleted \<Rightarrow> mark_github_issue_unavailable (iev_repository e) (gh_number (iev_issue e)) (Some (gh_id (iev_issue e)))
        github_link_state.Missing github_sync_source.Webhook
    | issue_event_action.Transferred \<Rightarrow> mark_github_issue_unavailable (iev_repository e) (gh_number (iev_issue e)) (Some (gh_id (iev_issue e)))
        github_link_state.Moved github_sync_source.Webhook
    | issue_event_action.Other \<Rightarrow> return_tx None
    | _ \<Rightarrow> sync_github_issue_with_installation (env_parse_url env) (iev_repository e) (iev_issue e) None github_sync_source.Webhook (iev_installation e))"

definition receive_webhook :: "('net, 'num) action_env \<Rightarrow> webhook_request \<Rightarrow> unit act" where
  "receive_webhook env w =
    bind_prog (lift_prog (ok_or (env_webhook_secret env) app_error.Unavailable)) (\<lambda>secret.
    bind_prog (lift_prog (verify_signature env secret w)) (\<lambda>_.
    if whk_event w \<noteq> Some (lit ''issues'') then return_prog ()
    else
      bind_prog (lift_prog (ok_or (Option.bind (env_parse_json env (whk_body w)) (dec_issue_event (gc_time (env_github env))))
        (InvalidRequest ''Invalid GitHub issue event''))) (\<lambda>e.
      bind_prog (configured_repository env) (\<lambda>repo.
      if iev_action e \<noteq> issue_event_action.Transferred \<and> lower (iev_repository e) \<noteq> lower repo then return_prog ()
      else bind_prog (on_db (apply_issue_event env e)) (\<lambda>_. return_prog ())))))"

section \<open>Every form\<close>

text \<open>The forms with the route parameters and fields their handlers take; all of them carry the form token.\<close>

datatype form =
    AssignForm report_id str
  | FixForm report_id str
  | BulkForm bulk_report_form
  | UnlinkForm report_id issue_id
  | StateForm report_id report_workflow_state
  | RejectForm report_id str
  | BlockForm report_id bool
  | UnblockForm report_id
  | CreateForm report_id str str
  | UnlinkReportForm issue_id report_id
  | RejectIssueForm issue_id str
  | ReplaceForm issue_id str
  | CreateReplacementForm issue_id

primrec run_form :: "('net, 'num) action_env \<Rightarrow> session \<Rightarrow> form \<Rightarrow> str act" where
  "run_form env sn (AssignForm rid selection) = assign_to_issue env sn rid selection"
| "run_form env sn (FixForm rid selection) = resolve_with_fix env sn rid selection"
| "run_form env sn (BulkForm form) = bulk_action env sn form"
| "run_form env sn (UnlinkForm rid iid) = unlink_from_issue env sn rid iid"
| "run_form env sn (StateForm rid target) = set_state env sn rid target"
| "run_form env sn (RejectForm rid reason) = reject_report env sn rid reason"
| "run_form env sn (BlockForm rid remove_triage_reports) = block_ip env sn rid remove_triage_reports"
| "run_form env sn (UnblockForm rid) = unblock_ip env sn rid"
| "run_form env sn (CreateForm rid issue_title description) = create_from_report env sn rid issue_title description"
| "run_form env sn (UnlinkReportForm iid rid) = unlink_report_of_issue env sn iid rid"
| "run_form env sn (RejectIssueForm iid action) = reject_issue_form env sn iid action"
| "run_form env sn (ReplaceForm iid github_url) = replace_github_link env sn iid github_url"
| "run_form env sn (CreateReplacementForm iid) = create_replacement env sn iid"

definition submit_form :: "('net, 'num) action_env \<Rightarrow> session \<Rightarrow> str \<Rightarrow> form \<Rightarrow> str act" where
  "submit_form env sn csrf form =
    bind_prog (lift_prog (verify_csrf (env_sha256 env) sn csrf)) (\<lambda>_. run_form env sn form)"

end
