(* ===== verification/Admin_Laws.thy ===== *)
theory Admin_Laws
  imports Admin_Actions Session_Laws
begin

text \<open>
  What the forms and the webhook do to the tracker: nothing without the form token or the signature, otherwise a run of tracker steps; what a failure
  leaves; that a fix is one GitHub confirms; that a screenshot that cannot be uploaded stops the issue.
\<close>

section \<open>Requests are only added\<close>

definition sends_on :: "http_request list \<Rightarrow> http_request list \<Rightarrow> bool" where
  "sends_on sent sent' \<longleftrightarrow> (\<exists>rs. sent' = sent @ rs)"

interpretation sends: tx_relation sends_on
  by unfold_locales (auto simp: sends_on_def)

lemma send_sends: "prog_respects sends_on (send g r)"
  by (auto simp: prog_respects_def send_def sends_on_def split: option.split)

lemmas sends_rules = sends.bind_prog_respects sends.lift_prog_respects sends.return_prog_respects send_sends

lemma request_sends: "prog_respects sends_on (request_json_url_version g method path query token body v dec)"
  unfolding request_json_url_version_def by (intro sends_rules)

lemmas request_defs = request_json_def request_json_url_def

lemma calls_send:
  "prog_respects sends_on (pull_request g token repo n)"
  "prog_respects sends_on (get_commit g token repo reference)"
  "prog_respects sends_on (default_branch_contains g token repo sha)"
  "prog_respects sends_on (get_issue g token repo n)"
  "prog_respects sends_on (create_github_issue g token repo issue_title body ls)"
  "prog_respects sends_on (upload_attachment g repo name content_type bytes)"
  "prog_respects sends_on (verify_private_text_issue_field g token org field_id)"
  "prog_respects sends_on (add_issue_field_link g token repo n field_id link)"
  unfolding pull_request_def get_commit_def default_branch_contains_def default_branch_def branch_contains_def get_issue_def create_github_issue_def
    upload_attachment_def verify_private_text_issue_field_def add_issue_field_link_def request_defs
  by (intro sends_rules request_sends)+

section \<open>A handler is a run of the tracker\<close>

definition desk_run :: "desk \<Rightarrow> desk \<Rightarrow> bool" where
  "desk_run s s' \<longleftrightarrow> logged_step\<^sup>*\<^sup>* (dsk_db s) (dsk_db s') \<and> sends_on (dsk_sent s) (dsk_sent s')"

interpretation desk: tx_relation desk_run
  by unfold_locales (auto simp: desk_run_def intro: sends.refl sends.trans rtranclp_trans)

lemma on_db_runs: "(\<And>db a db'. m db = Ok (a, db') \<Longrightarrow> logged_step\<^sup>*\<^sup>* db db') \<Longrightarrow> prog_respects desk_run (on_db m)"
  by (auto simp: prog_respects_def on_db_def desk_run_def sends.refl split: sum.split)

lemma on_db_read_runs: "(\<And>db a db'. m db = Ok (a, db') \<Longrightarrow> db' = db) \<Longrightarrow> prog_respects desk_run (on_db m)"
  by (rule on_db_runs) (metis rtranclp.rtrancl_refl)

lemma ask_runs: "prog_respects sends_on m \<Longrightarrow> prog_respects desk_run (ask m)"
  by (auto simp: prog_respects_def ask_def desk_run_def case_prod_beta Let_def)

lemma assign_github_runs:
  "prog_respects desk_run (on_db_prog (assign_reports_to_github_issue parse_url fresh g ids repo actor))"
proof -
  have "logged_step db (snd (assign_reports_to_github_issue parse_url fresh g ids repo actor db))" for db
    by (rule logged_step.github_assign) (rule prod.collapse [symmetric])
  then show ?thesis by (auto simp: prog_respects_def on_db_prog_def desk_run_def case_prod_beta Let_def sends.refl)
qed

lemma table_runs:
  "prog_respects desk_run (on_db (assign_reports_to_issue ids iid actor))"
  "prog_respects desk_run (on_db (unlink_report_from_issue iid rid actor))"
  "prog_respects desk_run (on_db (set_report_state rid target actor reason))"
  "prog_respects desk_run (on_db (resolve_reports_with_fix ids fx actor))"
  "prog_respects desk_run (on_db (apply_report_state_action ids action actor reason))"
  "prog_respects desk_run (on_db (block_report_source rid actor remove))"
  "prog_respects desk_run (on_db (unblock_report_source rid actor))"
  "prog_respects desk_run (on_db (reject_issue iid actor act))"
  "prog_respects desk_run (on_db (replace_github_issue parse_url iid repo g actor))"
  "prog_respects desk_run (on_db (record_github_reports_link iid gid field_id link))"
  "prog_respects desk_run (on_db (mark_github_issue_unavailable repo number gid_opt state source))"
  "prog_respects desk_run (on_db (sync_github_issue_with_installation parse_url repo g actor_opt source inst))"
  by (rule on_db_runs, rule r_into_rtranclp, erule logged_step.intros)+

lemma read_runs:
  "prog_respects desk_run (on_db (ensure_report_unassigned rid))"
  "prog_respects desk_run (on_db (get_tx f))"
  "prog_respects desk_run (on_db (return_tx a))"
  by (rule on_db_read_runs, auto simp: ensure_report_unassigned_def result_simps)+

lemmas desk_rules = desk.bind_prog_respects desk.lift_prog_respects desk.return_prog_respects
  assign_github_runs table_runs read_runs ask_runs calls_send

lemma respects_if: "(c \<Longrightarrow> prog_respects R m) \<Longrightarrow> (\<not> c \<Longrightarrow> prog_respects R n) \<Longrightarrow> prog_respects R (if c then m else n)"
  by simp

lemma respects_option: "prog_respects R m \<Longrightarrow> (\<And>x. prog_respects R (f x)) \<Longrightarrow> prog_respects R (case v of None \<Rightarrow> m | Some x \<Rightarrow> f x)"
  by (cases v) simp_all

lemma respects_pair: "(\<And>a b. prog_respects R (f a b)) \<Longrightarrow> prog_respects R (case p of (a, b) \<Rightarrow> f a b)"
  by (cases p) simp

lemmas branch_rules = respects_if respects_option respects_pair

lemma configured_repository_runs: "prog_respects desk_run (configured_repository env)"
  unfolding configured_repository_def by (intro desk_rules)

lemma access_token_runs: "prog_respects desk_run (github_access_token env sn)"
  unfolding github_access_token_def by (intro desk_rules)

lemma selected_fix_runs: "prog_respects desk_run (selected_fix env sn selection)"
  unfolding selected_fix_def selected_pull_request_def selected_commit_def
  by (intro desk_rules branch_rules configured_repository_runs access_token_runs)

lemma selected_issue_runs: "prog_respects desk_run (add_reports_to_selected_issue env sn selection ids)"
  unfolding add_reports_to_selected_issue_def
  by (intro desk_rules branch_rules configured_repository_runs access_token_runs)

lemma bulk_runs: "prog_respects desk_run (bulk_action env sn form)"
  unfolding bulk_action_def bulk_state_action_def
  by (cases "blk_action form") (simp_all, (intro desk_rules branch_rules selected_fix_runs selected_issue_runs)+)

lemma upload_screenshot_runs: "prog_respects desk_run (upload_screenshot env repo d)"
  unfolding upload_screenshot_def by (intro desk_rules)

lemma create_from_report_runs: "prog_respects desk_run (create_from_report env sn rid issue_title description)"
  unfolding create_from_report_def
  by (intro desk_rules branch_rules upload_screenshot_runs access_token_runs)

lemma create_replacement_runs: "prog_respects desk_run (create_replacement env sn iid)"
  unfolding create_replacement_def by (intro desk_rules configured_repository_runs access_token_runs)

lemma replace_github_link_runs: "prog_respects desk_run (replace_github_link env sn iid u)"
  unfolding replace_github_link_def by (intro desk_rules configured_repository_runs access_token_runs)

lemma run_form_runs: "prog_respects desk_run (run_form env sn form)"
  by (cases form) (simp_all add: assign_to_issue_def resolve_with_fix_def unlink_from_issue_def set_state_def reject_report_def
      block_ip_def unblock_ip_def unlink_report_of_issue_def reject_issue_form_def,
    (intro desk_rules branch_rules selected_fix_runs selected_issue_runs bulk_runs create_from_report_runs create_replacement_runs
      replace_github_link_runs)+)

lemma submit_form_runs: "prog_respects desk_run (submit_form env sn csrf form)"
  unfolding submit_form_def by (intro desk_rules run_form_runs)

lemma ensure_link_runs: "prog_respects desk_run (ensure_github_reports_link env sn iid)"
  unfolding ensure_github_reports_link_def Let_def
  by (intro desk_rules branch_rules access_token_runs)

lemma apply_issue_event_runs: "prog_respects desk_run (on_db (apply_issue_event env e))"
  by (cases "iev_action e") (simp_all add: apply_issue_event_def table_runs read_runs)

lemma receive_webhook_runs: "prog_respects desk_run (receive_webhook env w)"
  unfolding receive_webhook_def by (intro desk_rules branch_rules configured_repository_runs apply_issue_event_runs)

section \<open>No form without its token\<close>

lemma run_sound: "logged_step\<^sup>*\<^sup>* db db' \<Longrightarrow> sound db db'"
  by (induction rule: rtranclp_induct) (auto intro: sound.refl sound.trans logged_step_sound)

lemma run_steps: "logged_step\<^sup>*\<^sup>* db db' \<Longrightarrow> step\<^sup>*\<^sup>* db db'"
  by (induction rule: rtranclp_induct) (auto intro: step.logged rtranclp.rtrancl_into_rtrancl)

lemma desk_run_of: "prog_respects desk_run m \<Longrightarrow> m s = (r, s') \<Longrightarrow> desk_run s s'"
  by (metis prog_respectsD snd_conv)

text \<open>C3: Whatever a maintainer submits, with whatever GitHub answers: without the form token nothing happens; with it, success or failure, the tables end where a
  run of the tracker ends, so its invariant still holds and the audit events account for every change of a report. What was sent to GitHub stays sent.\<close>

theorem forms_are_tracker_runs:
  assumes "submit_form env sn csrf form s = (r, s')"
  shows "(env_sha256 env csrf \<noteq> env_sha256 env (sn_csrf sn) \<longrightarrow> r = Err (PermissionDenied ''Invalid form token'') \<and> s' = s) \<and>
    step\<^sup>*\<^sup>* (dsk_db s) (dsk_db s') \<and>
    (tracker_ok (dsk_db s) \<longrightarrow> tracker_ok (dsk_db s') \<and> explains (dsk_db s) (dsk_db s')) \<and>
    (\<exists>rs. dsk_sent s' = dsk_sent s @ rs)"
proof -
  have run: "desk_run s s'" by (rule desk_run_of [OF submit_form_runs assms])
  then have steps: "step\<^sup>*\<^sup>* (dsk_db s) (dsk_db s')" by (simp add: desk_run_def run_steps)
  have "tracker_ok (dsk_db s) \<Longrightarrow> explains (dsk_db s) (dsk_db s')"
    using run run_sound by (auto simp: desk_run_def sound_def tracker_ok_def)
  moreover have "tracker_ok (dsk_db s) \<Longrightarrow> tracker_ok (dsk_db s')" by (rule run_ok [OF steps])
  moreover have "env_sha256 env csrf \<noteq> env_sha256 env (sn_csrf sn) \<Longrightarrow> r = Err (PermissionDenied ''Invalid form token'') \<and> s' = s"
    using assms by (simp add: submit_form_def bind_prog_def lift_prog_def verify_csrf_def fail_if_def)
  ultimately show ?thesis using steps run by (auto simp: desk_run_def sends_on_def)
qed

section \<open>What a failure leaves\<close>

definition same_tables :: "desk \<Rightarrow> desk \<Rightarrow> bool" where
  "same_tables s s' \<longleftrightarrow> dsk_db s' = dsk_db s"

interpretation tables: tx_relation same_tables
  by unfold_locales (auto simp: same_tables_def)

lemma ask_keeps_tables: "prog_respects same_tables (ask m)"
  by (simp add: prog_respects_def ask_def same_tables_def case_prod_beta Let_def)

lemma reads_keep_tables:
  "prog_respects same_tables (on_db (ensure_report_unassigned rid))"
  "prog_respects same_tables (on_db (get_tx f))"
  by (auto simp: prog_respects_def on_db_def same_tables_def ensure_report_unassigned_def result_simps split: sum.split)

lemmas tables_rules = tables.bind_prog_respects tables.lift_prog_respects tables.return_prog_respects ask_keeps_tables reads_keep_tables

lemma selected_fix_keeps_tables: "prog_respects same_tables (selected_fix env sn selection)"
  unfolding selected_fix_def selected_pull_request_def selected_commit_def configured_repository_def github_access_token_def
  by (intro tables_rules branch_rules)

text \<open>A program whose failures move the tables along \<open>P\<close> at most.\<close>

definition fails_within :: "(db \<Rightarrow> db \<Rightarrow> bool) \<Rightarrow> 'a act \<Rightarrow> bool" where
  "fails_within P m \<longleftrightarrow> (\<forall>s e s'. m s = (Err e, s') \<longrightarrow> P (dsk_db s) (dsk_db s'))"

lemma fails_within_bind:
  "prog_respects same_tables m \<Longrightarrow> reflp P \<Longrightarrow> (\<And>a. fails_within P (f a)) \<Longrightarrow> fails_within P (bind_prog m f)"
  unfolding fails_within_def
proof (intro allI impI)
  fix s e s' assume m: "prog_respects same_tables m" and P: "reflp P" and f: "\<And>a. \<forall>s e s'. f a s = (Err e, s') \<longrightarrow> P (dsk_db s) (dsk_db s')"
    and run: "bind_prog m f s = (Err e, s')"
  from run consider "m s = (Err e, s')" | a s1 where "m s = (Ok a, s1)" "f a s1 = (Err e, s')" by (auto simp: result_simps)
  then show "P (dsk_db s) (dsk_db s')"
  proof cases
    case 1
    then show ?thesis using prog_respectsD [OF m, of s] P by (simp add: same_tables_def reflpD)
  next
    case 2
    then show ?thesis using prog_respectsD [OF m, of s] f by (fastforce simp: same_tables_def)
  qed
qed

lemma fails_within_quiet:
  assumes "prog_respects same_tables m" and "reflp P"
  shows "fails_within P m"
  unfolding fails_within_def
proof (intro allI impI)
  fix s e s' assume "m s = (Err e, s')"
  then have "dsk_db s' = dsk_db s" using prog_respectsD [OF assms(1), of s] by (simp add: same_tables_def)
  then show "P (dsk_db s) (dsk_db s')" using reflpD [OF assms(2)] by simp
qed

lemma fails_within_on_db: "reflp P \<Longrightarrow> fails_within P (on_db m)"
  by (auto simp: fails_within_def on_db_def reflpD split: sum.splits)

lemma fails_within_last: "fails_within P m \<Longrightarrow> fails_within P (bind_prog m (\<lambda>a. return_prog (f a)))"
  by (auto simp: fails_within_def bind_prog_def return_prog_def split: prod.splits sum.splits)

lemma fails_within_last_pair: "fails_within P m \<Longrightarrow> fails_within P (bind_prog m (\<lambda>(a, b). return_prog (f a b)))"
  by (auto simp: fails_within_def bind_prog_def return_prog_def split: prod.splits sum.splits)

text \<open>Linking to a GitHub issue first brings the issue up to date in a transaction of its own.\<close>

definition synced_at_most :: "('net, 'num) action_env \<Rightarrow> session \<Rightarrow> db \<Rightarrow> db \<Rightarrow> bool" where
  "synced_at_most env sn db db' \<longleftrightarrow> db' = db \<or>
    (\<exists>repo g x. sync_github_issue (env_parse_url env) repo g (Some (sn_person sn)) github_sync_source.Assignment db = Ok (x, db'))"

lemma synced_reflp: "reflp (synced_at_most env sn)"
  by (rule reflpI) (simp add: synced_at_most_def)

lemma assign_github_fails_within:
  "fails_within (synced_at_most env sn) (on_db_prog (assign_reports_to_github_issue (env_parse_url env) fresh g ids repo (sn_person sn)))"
  by (auto simp: fails_within_def on_db_prog_def synced_at_most_def assign_reports_to_github_issue_def Let_def run_tx_def
      split: sum.splits prod.splits)

lemma fails_within_if: "(c \<Longrightarrow> fails_within P m) \<Longrightarrow> (\<not> c \<Longrightarrow> fails_within P n) \<Longrightarrow> fails_within P (if c then m else n)"
  by simp

lemma fails_within_option:
  "fails_within P m \<Longrightarrow> (\<And>x. fails_within P (f x)) \<Longrightarrow> fails_within P (case v of None \<Rightarrow> m | Some x \<Rightarrow> f x)"
  by (cases v) simp_all

lemma fails_within_lift: "reflp P \<Longrightarrow> fails_within P (lift_prog r)"
  by (rule fails_within_quiet [OF tables.lift_prog_respects])

lemmas within_rules = fails_within_option fails_within_if fails_within_last fails_within_last_pair fails_within_on_db assign_github_fails_within
  fails_within_lift synced_reflp fails_within_bind [of "lift_prog _"] fails_within_bind [of "bind_prog _ _"] fails_within_bind [of "ask _"]
  fails_within_bind [of "on_db (ensure_report_unassigned _)"] fails_within_bind [of "on_db (get_tx _)"] fails_within_bind [of "selected_fix _ _ _"]
  tables_rules branch_rules selected_fix_keeps_tables

lemma selected_issue_fails_within: "fails_within (synced_at_most env sn) (add_reports_to_selected_issue env sn selection ids)"
  unfolding add_reports_to_selected_issue_def configured_repository_def github_access_token_def
  by (intro within_rules)

lemma bulk_fails_within: "fails_within (synced_at_most env sn) (bulk_action env sn form)"
  unfolding bulk_action_def bulk_state_action_def
  by (cases "blk_action form") (simp_all, (intro within_rules selected_issue_fails_within)+)

lemma create_from_report_fails_within: "fails_within (synced_at_most env sn) (create_from_report env sn rid issue_title description)"
  unfolding create_from_report_def github_access_token_def upload_screenshot_def
  by (intro within_rules fails_within_bind [of "if _ then _ else _"])

lemma run_form_fails_within: "fails_within (synced_at_most env sn) (run_form env sn form)"
  by (cases form) (simp_all add: assign_to_issue_def resolve_with_fix_def unlink_from_issue_def set_state_def reject_report_def
      block_ip_def unblock_ip_def unlink_report_of_issue_def reject_issue_form_def replace_github_link_def create_replacement_def
      configured_repository_def github_access_token_def,
    (intro within_rules selected_issue_fails_within bulk_fails_within create_from_report_fails_within)+)

lemma sync_links: "tx_respects same_links (sync_github_issue_with_installation parse_url repo g actor source inst)"
proof -
  have "tx_respects same_links (sync_duplicate_job iid repo g inst)" for iid
    by (auto simp: sync_duplicate_job_def tx_respects_def set_duplicate_jobs_def same_links_def links_def result_simps split: option.splits if_splits)
  then have "tx_respects same_links (apply_sync repo g actor source inst link row)" for link row
    unfolding apply_sync_def when_tx_def
    by (auto intro!: same_links.bind_respects same_links.get_respects same_links.return_respects update_issues_links event_links)
  then show ?thesis
    unfolding sync_github_issue_with_installation_def
    by (auto simp: Let_def split: option.split
        intro!: same_links.bind_respects same_links.lift_respects same_links.get_respects same_links.return_respects)
qed

text \<open>C24: A form that fails leaves every table as it was. The one exception is a GitHub issue that was brought up to date before its reports could not be
  linked: then the tables are what that synchronization made of them, and no report is linked.\<close>

theorem failed_form_leaves_tables:
  assumes "submit_form env sn csrf form s = (Err e, s')"
  shows "(dsk_db s' = dsk_db s \<or>
    (\<exists>repo g x. sync_github_issue (env_parse_url env) repo g (Some (sn_person sn)) github_sync_source.Assignment (dsk_db s) = Ok (x, dsk_db s'))) \<and>
    map (\<lambda>r. (rpt_id r, rpt_issue r)) (reports (dsk_db s')) = map (\<lambda>r. (rpt_id r, rpt_issue r)) (reports (dsk_db s))"
proof -
  have links: "links db' = links db"
    if "sync_github_issue (env_parse_url env) repo g (Some (sn_person sn)) github_sync_source.Assignment db = Ok (x, db')" for repo g x db db'
    using tx_respectsD [OF sync_links] that by (auto simp: sync_github_issue_def same_links_def)
  have "fails_within (synced_at_most env sn) (submit_form env sn csrf form)"
    unfolding submit_form_def by (intro within_rules run_form_fails_within)
  then have "synced_at_most env sn (dsk_db s) (dsk_db s')" using assms unfolding fails_within_def by blast
  then show ?thesis using links unfolding synced_at_most_def links_def by auto
qed

section \<open>Issues that are created on GitHub\<close>

definition creates :: "http_request \<Rightarrow> bool" where
  "creates r \<longleftrightarrow> rq_method r = ''POST'' \<and> (\<exists>repo. rq_path r = repo_path repo (lit ''/issues''))"

definition creates_nothing :: "http_request list \<Rightarrow> http_request list \<Rightarrow> bool" where
  "creates_nothing sent sent' \<longleftrightarrow> (\<exists>rs. sent' = sent @ rs \<and> filter creates rs = [])"

interpretation quiet: tx_relation creates_nothing
  by unfold_locales (auto simp: creates_nothing_def)

lemma send_quiet: "\<not> creates r \<Longrightarrow> prog_respects creates_nothing (send g r)"
  by (auto simp: prog_respects_def send_def creates_nothing_def split: option.split)

lemma get_creates_nothing: "rq_method r = ''GET'' \<Longrightarrow> \<not> creates r"
  by (simp add: creates_def)

lemma upload_creates_nothing: "rq_path r = lit ''/user-attachments/assets'' \<Longrightarrow> \<not> creates r"
  by (simp add: creates_def repo_path_def text_eval)

lemmas quiet_rules = quiet.bind_prog_respects quiet.lift_prog_respects quiet.return_prog_respects

lemma request_quiet: "prog_respects creates_nothing (request_json_url_version g ''GET'' path query token body v dec)"
  unfolding request_json_url_version_def by (intro quiet_rules send_quiet get_creates_nothing) simp

lemma calls_quiet:
  "prog_respects creates_nothing (pull_request g token repo n)"
  "prog_respects creates_nothing (get_commit g token repo reference)"
  "prog_respects creates_nothing (default_branch_contains g token repo sha)"
  "prog_respects creates_nothing (get_issue g token repo n)"
  unfolding pull_request_def get_commit_def default_branch_contains_def default_branch_def branch_contains_def get_issue_def request_defs
  by (intro quiet_rules request_quiet)+

lemma upload_quiet: "prog_respects creates_nothing (upload_attachment g repo name content_type bytes)"
  unfolding upload_attachment_def request_defs
  by (intro quiet_rules request_quiet send_quiet upload_creates_nothing) simp

definition desk_quiet :: "desk \<Rightarrow> desk \<Rightarrow> bool" where
  "desk_quiet s s' \<longleftrightarrow> creates_nothing (dsk_sent s) (dsk_sent s')"

interpretation quiet_desk: tx_relation desk_quiet
  by unfold_locales (auto simp: desk_quiet_def intro: quiet.refl quiet.trans)

lemma on_db_quiet: "prog_respects desk_quiet (on_db m)"
  by (auto simp: prog_respects_def on_db_def desk_quiet_def quiet.refl split: sum.split)

lemma on_db_prog_quiet: "prog_respects desk_quiet (on_db_prog m)"
  by (auto simp: prog_respects_def on_db_prog_def desk_quiet_def quiet.refl case_prod_beta Let_def)

lemma ask_quiet: "prog_respects creates_nothing m \<Longrightarrow> prog_respects desk_quiet (ask m)"
  by (auto simp: prog_respects_def ask_def desk_quiet_def case_prod_beta Let_def)

lemmas quiet_desk_rules = quiet_desk.bind_prog_respects quiet_desk.lift_prog_respects quiet_desk.return_prog_respects
  on_db_quiet on_db_prog_quiet ask_quiet calls_quiet upload_quiet branch_rules

lemma selected_fix_quiet: "prog_respects desk_quiet (selected_fix env sn selection)"
  unfolding selected_fix_def selected_pull_request_def selected_commit_def configured_repository_def github_access_token_def
  by (intro quiet_desk_rules)

lemma selected_issue_quiet: "prog_respects desk_quiet (add_reports_to_selected_issue env sn selection ids)"
  unfolding add_reports_to_selected_issue_def configured_repository_def github_access_token_def
  by (intro quiet_desk_rules)

lemma bulk_quiet: "prog_respects desk_quiet (bulk_action env sn form)"
  unfolding bulk_action_def bulk_state_action_def
  by (cases "blk_action form") (simp_all, (intro quiet_desk_rules selected_fix_quiet selected_issue_quiet)+)

text \<open>A program that creates at most one issue.\<close>

definition creates_one :: "desk \<Rightarrow> desk \<Rightarrow> bool" where
  "creates_one s s' \<longleftrightarrow> (\<exists>rs. dsk_sent s' = dsk_sent s @ rs \<and> length (filter creates rs) \<le> 1)"

lemma quiet_creates_one: "prog_respects desk_quiet m \<Longrightarrow> prog_respects creates_one m"
  by (fastforce simp: prog_respects_def desk_quiet_def creates_nothing_def creates_one_def)

lemma quiet_then_one: "desk_quiet s s1 \<Longrightarrow> creates_one s1 s2 \<Longrightarrow> creates_one s s2"
  by (fastforce simp: desk_quiet_def creates_nothing_def creates_one_def)

lemma one_then_quiet: "creates_one s s1 \<Longrightarrow> desk_quiet s1 s2 \<Longrightarrow> creates_one s s2"
  by (fastforce simp: desk_quiet_def creates_nothing_def creates_one_def)

lemma bind_prog_run: "snd (bind_prog m f s) = (case m s of (Inl e, s1) \<Rightarrow> s1 | (Inr a, s1) \<Rightarrow> snd (f a s1))"
  by (simp add: bind_prog_def split: prod.split sum.split)

lemma one_bind_quiet:
  assumes "prog_respects desk_quiet m" and "\<And>a. prog_respects creates_one (f a)"
  shows "prog_respects creates_one (bind_prog m f)"
  unfolding prog_respects_def
proof
  fix s
  obtain r s1 where m: "m s = (r, s1)" by fastforce
  have q: "desk_quiet s s1" using prog_respectsD [OF assms(1), of s] m by simp
  have "creates_one s s1" using q by (fastforce simp: desk_quiet_def creates_nothing_def creates_one_def)
  then show "creates_one s (snd (bind_prog m f s))"
    using quiet_then_one [OF q] prog_respectsD [OF assms(2)] m by (auto simp: bind_prog_run split: sum.split)
qed

lemma one_bind_last:
  assumes "prog_respects creates_one m" and "\<And>a. prog_respects desk_quiet (f a)"
  shows "prog_respects creates_one (bind_prog m f)"
  unfolding prog_respects_def
proof
  fix s
  obtain r s1 where m: "m s = (r, s1)" by fastforce
  have one: "creates_one s s1" using prog_respectsD [OF assms(1), of s] m by simp
  then show "creates_one s (snd (bind_prog m f s))"
    using one_then_quiet [OF one] prog_respectsD [OF assms(2)] m by (auto simp: bind_prog_run split: sum.split)
qed

lemma create_issue_creates_one: "prog_respects creates_one (ask (create_github_issue g token repo issue_title body ls))"
  by (auto simp: prog_respects_def ask_def creates_one_def create_github_issue_def request_defs request_json_url_version_def bind_prog_def
      lift_prog_def send_def case_prod_beta Let_def split: option.split)

lemma create_steps:
  "prog_respects desk_quiet (github_access_token env sn)"
  "prog_respects desk_quiet (configured_repository env)"
  "prog_respects desk_quiet (upload_screenshot env repo d)"
  unfolding github_access_token_def configured_repository_def upload_screenshot_def by (intro quiet_desk_rules)+

lemma then_assign_creates_one:
  "prog_respects creates_one (bind_prog (ask (create_github_issue g token repo issue_title body ls)) (\<lambda>i.
    bind_prog (on_db_prog (assign i)) (\<lambda>(iid, _). return_prog (page_of iid))))"
  "prog_respects creates_one (bind_prog (ask (create_github_issue g token repo issue_title body ls)) (\<lambda>i.
    bind_prog (on_db (replace i)) (\<lambda>_. return_prog p)))"
  by (rule one_bind_last [OF create_issue_creates_one], intro quiet_desk_rules)+

lemma create_from_report_creates_one: "prog_respects creates_one (create_from_report env sn rid issue_title description)"
  unfolding create_from_report_def
  by (intro one_bind_quiet then_assign_creates_one quiet_desk_rules create_steps)

lemma create_replacement_creates_one: "prog_respects creates_one (create_replacement env sn iid)"
  unfolding create_replacement_def
  by (intro one_bind_quiet then_assign_creates_one quiet_desk_rules create_steps)

definition creates_issue :: "form \<Rightarrow> bool" where
  "creates_issue form = (case form of CreateForm _ _ _ \<Rightarrow> True | CreateReplacementForm _ \<Rightarrow> True | _ \<Rightarrow> False)"

lemma other_forms_quiet: "\<not> creates_issue form \<Longrightarrow> prog_respects desk_quiet (run_form env sn form)"
  by (cases form) (simp_all add: creates_issue_def assign_to_issue_def resolve_with_fix_def unlink_from_issue_def set_state_def reject_report_def
      block_ip_def unblock_ip_def unlink_report_of_issue_def reject_issue_form_def replace_github_link_def,
    (intro quiet_desk_rules selected_fix_quiet selected_issue_quiet bulk_quiet create_steps)+)

lemma run_form_creates_one: "prog_respects creates_one (run_form env sn form)"
proof (cases "creates_issue form")
  case True
  then show ?thesis
    by (cases form) (simp_all add: creates_issue_def create_from_report_creates_one create_replacement_creates_one)
next
  case False
  then show ?thesis by (rule quiet_creates_one [OF other_forms_quiet])
qed

text \<open>A screenshot that cannot be uploaded stops the form before the issue is requested.\<close>

lemma failed_upload_stops:
  assumes "contains_str SCREENSHOT_PLACEHOLDER description" and "env_configuration env = Ok c" and "env_details env rid = Some d"
    and "fst (upload_screenshot env (github_configuration.repository (github c)) d s) = Err e"
  shows "desk_quiet s (snd (create_from_report env sn rid issue_title description s))"
    and "\<exists>e. fst (create_from_report env sn rid issue_title description s) = Err e"
proof -
  define up where "up = upload_screenshot env (github_configuration.repository (github c)) d"
  obtain s1 where up: "up s = (Err e, s1)" using assms(4) by (cases "up s") (simp add: up_def)
  have quiet: "desk_quiet s s1" using prog_respectsD [OF create_steps(3), of s env _ d] up unfolding up_def by (metis snd_conv)
  have here: "on_db (ensure_report_unassigned rid) s = (Ok (), s) \<or> (\<exists>e. on_db (ensure_report_unassigned rid) s = (Err e, s))"
    by (auto simp: on_db_def ensure_report_unassigned_def result_simps split: sum.split)
  show "desk_quiet s (snd (create_from_report env sn rid issue_title description s))"
    and "\<exists>e. fst (create_from_report env sn rid issue_title description s) = Err e"
    using here up quiet assms(1-3)
    by (auto simp: create_from_report_def bind_prog_def lift_prog_def ok_or_def github_access_token_def quiet_desk.refl simp flip: up_def
        split: sum.splits)
qed

lemma bind_failure: "bind_prog (lift_prog (Err e)) f = lift_prog (Err e)"
  by (rule ext) (simp add: bind_prog_def lift_prog_def)

lemma run_form_needs:
  assumes "create_from_report env sn rid issue_title description s = (r, s')"
  shows "desk_quiet s s' \<or> (\<exists>c d. env_configuration env = Ok c \<and> env_details env rid = Some d)"
proof (cases "env_configuration env")
  case (Inl e)
  have "prog_respects desk_quiet (create_from_report env sn rid issue_title description)"
    unfolding create_from_report_def Inl bind_failure by (intro quiet_desk_rules)
  then show ?thesis using prog_respectsD assms by (metis snd_conv)
next
  case (Inr c)
  then show ?thesis
  proof (cases "env_details env rid")
    case None
    then have missing: "ok_or (env_details env rid) (NotFound ''Report not found'') = Err (NotFound ''Report not found'')"
      by (simp add: ok_or_def)
    have "prog_respects desk_quiet (create_from_report env sn rid issue_title description)"
      unfolding create_from_report_def missing bind_failure by (intro quiet_desk_rules)
    then show ?thesis using prog_respectsD assms by (metis snd_conv)
  qed simp
qed


section \<open>Fixes\<close>

definition github_confirms :: "('net, 'num) action_env \<Rightarrow> session \<Rightarrow> report_fix \<Rightarrow> bool" where
  "github_confirms env sn fx \<longleftrightarrow> (\<exists>c token sent sent'. env_configuration env = Ok c \<and> ath_decrypt (env_auth env) (sn_access sn) = Ok token \<and>
    ((\<exists>n p. 0 < n \<and> pull_request (env_github env) token (github_configuration.repository (github c)) n sent = (Ok p, sent') \<and> pul_merged_at p \<noteq> None \<and>
        fx = \<lparr> fix_kind = report_fix_kind.PullRequest, fix_reference = show_int (pul_number p), fix_title = take 512 (pul_title p), fix_url = pul_html_url p \<rparr>) \<or>
     (\<exists>h m sent1. is_commit_hash_prefix h \<and> get_commit (env_github env) token (github_configuration.repository (github c)) h sent = (Ok m, sent1) \<and>
        default_branch_contains (env_github env) token (github_configuration.repository (github c)) (cmt_sha m) sent1 = (Ok True, sent') \<and>
        fx = \<lparr> fix_kind = report_fix_kind.Commit, fix_reference = cmt_sha m, fix_title = take 512 (commit_subject m), fix_url = cmt_html_url m \<rparr>)))"

lemma ask_Ok: "ask m s = (Ok a, s') \<longleftrightarrow> (\<exists>sent'. m (dsk_sent s) = (Ok a, sent') \<and> s' = s\<lparr> dsk_sent := sent' \<rparr>)"
  by (auto simp: ask_def split: prod.split)

lemma on_db_Ok: "on_db m s = (Ok a, s') \<longleftrightarrow> (\<exists>db'. m (dsk_db s) = Ok (a, db') \<and> s' = s\<lparr> dsk_db := db' \<rparr>)"
  by (auto simp: on_db_def split: sum.split)

lemma lift_prog_Ok: "lift_prog r s = (Ok a, s') \<longleftrightarrow> r = Ok a \<and> s' = s"
  by (auto simp: lift_prog_def)

lemma fail_if_Ok: "fail_if b e = Ok u \<longleftrightarrow> \<not> b"
  by (cases u) (simp add: fail_if_def)

lemmas ok_steps = ask_Ok on_db_Ok lift_prog_Ok fail_if_Ok prog_simps(1,3,4)

lemma selected_pull_request_Ok:
  assumes "selected_pull_request env repo token v s = (Ok fx, s')"
  shows "\<exists>n p sent'. 0 < n \<and> pull_request (env_github env) token repo n (dsk_sent s) = (Ok p, sent') \<and> pul_merged_at p \<noteq> None \<and>
    fx = \<lparr> fix_kind = report_fix_kind.PullRequest, fix_reference = show_int (pul_number p), fix_title = take 512 (pul_title p), fix_url = pul_html_url p \<rparr>"
  using assms by (fastforce simp: selected_pull_request_def ok_steps ok_or_def split: option.splits if_splits)

lemma selected_commit_Ok:
  assumes "selected_commit env repo token v s = (Ok fx, s')"
  shows "\<exists>m sent1 sent'. is_commit_hash_prefix v \<and> get_commit (env_github env) token repo v (dsk_sent s) = (Ok m, sent1) \<and>
    default_branch_contains (env_github env) token repo (cmt_sha m) sent1 = (Ok True, sent') \<and>
    fx = \<lparr> fix_kind = report_fix_kind.Commit, fix_reference = cmt_sha m, fix_title = take 512 (commit_subject m), fix_url = cmt_html_url m \<rparr>"
  using assms by (auto simp: selected_commit_def ok_steps)

lemma selected_fix_confirmed:
  assumes "selected_fix env sn selection s = (Ok fx, s')"
  shows "github_confirms env sn fx"
proof -
  obtain c token where c: "env_configuration env = Ok c" "ath_decrypt (env_auth env) (sn_access sn) = Ok token"
    and "(\<exists>v. selected_pull_request env (github_configuration.repository (github c)) token v s = (Ok fx, s')) \<or>
      (\<exists>v. selected_commit env (github_configuration.repository (github c)) token v s = (Ok fx, s'))"
    using assms by (auto simp: selected_fix_def configured_repository_def github_access_token_def ok_steps split: option.splits)
  then show ?thesis
    unfolding github_confirms_def using c selected_pull_request_Ok selected_commit_Ok by metis
qed

text \<open>C23: A report, alone or in a bulk action, that a maintainer resolves with a fix keeps the number or hash of a pull request that GitHub calls merged, or of a
  commit that GitHub finds on the default branch, both in the configured repository and as the maintainer's own token sees them.\<close>

theorem recorded_fix_is_confirmed:
  assumes "db_ok (dsk_db s)" and "submit_form env sn csrf form s = (Ok target, s')"
    and "form = FixForm rid selection \<and> ids = [rid] \<or>
      (\<exists>b. form = BulkForm b \<and> blk_action b = ResolveWithFix \<and> selected_reports env (blk_reports b) = Ok ids)"
  shows "\<exists>fx. github_confirms env sn fx \<and> (\<forall>rid \<in> set ids. \<exists>r g. ready_report rid (dsk_db s') = Some r \<and>
    rpt_state r = report_state.Resolved \<and> rpt_issue r = None \<and> rpt_fix r = Some g \<and> fix_kind g = fix_kind fx \<and> fix_reference g = fix_reference fx)"
proof -
  have run: "run_form env sn form s = (Ok target, s')" using assms(2) by (auto simp: submit_form_def ok_steps)
  obtain sel fx n s1 where sel: "selected_fix env sn sel s = (Ok fx, s1)"
    and res: "resolve_reports_with_fix ids fx (sn_person sn) (dsk_db s1) = Ok (n, dsk_db s')"
    using run assms(3) by (auto simp: resolve_with_fix_def bulk_action_def ok_steps)
  have "dsk_db s1 = dsk_db s" using prog_respectsD [OF selected_fix_keeps_tables, of s env sn sel] sel by (simp add: same_tables_def)
  with resolve_with_fix_outcome [OF _ res] assms(1) selected_fix_confirmed [OF sel] show ?thesis by auto
qed

section \<open>The webhook\<close>

definition is_signed :: "('net, 'num) action_env \<Rightarrow> webhook_request \<Rightarrow> bool" where
  "is_signed env w \<longleftrightarrow> (\<exists>secret t. env_webhook_secret env = Some secret \<and> whk_signature w = Some (lit ''sha256='' @ t) \<and>
    env_hex_decode env t = Some (env_hmac env secret (whk_body w)))"

lemma verify_signature_Ok:
  assumes "env_webhook_secret env = Some secret"
  shows "verify_signature env secret w = Ok () \<longleftrightarrow> is_signed env w"
proof -
  have prefix: "strip_prefix (lit ''sha256='') (lit ''sha256='' @ t) = Some t" for t by (simp add: strip_prefix_Some)
  show ?thesis
    using assms by (auto simp: prefix verify_signature_def is_signed_def result_simps ok_or_def fail_if_def bind_eq_Some_conv strip_prefix_Some
        split: option.splits if_splits)
qed

text \<open>C26: A webhook sends nothing and changes no table unless its body is signed under the shared secret, names an issue event, and that event is about the
  configured repository or a transfer; then it does what the event says and is a run of the tracker. Without the signature it fails.\<close>

theorem webhook_needs_signature:
  assumes "receive_webhook env w s = (r, s')"
  shows "(\<not> is_signed env w \<longrightarrow> (\<exists>e. r = Err e) \<and> s' = s) \<and> dsk_sent s' = dsk_sent s \<and> step\<^sup>*\<^sup>* (dsk_db s) (dsk_db s') \<and>
    (s' \<noteq> s \<longrightarrow> whk_event w = Some (lit ''issues'') \<and> (\<exists>c e x. env_configuration env = Ok c \<and>
      Option.bind (env_parse_json env (whk_body w)) (dec_issue_event (gc_time (env_github env))) = Some e \<and>
      (iev_action e = issue_event_action.Transferred \<or> lower (iev_repository e) = lower (github_configuration.repository (github c))) \<and>
      apply_issue_event env e (dsk_db s) = Ok (x, dsk_db s')))"
proof -
  have steps: "step\<^sup>*\<^sup>* (dsk_db s) (dsk_db s')"
    using desk_run_of [OF receive_webhook_runs assms] by (simp add: desk_run_def run_steps)
  have unsigned: "(\<exists>e. r = Err e) \<and> s' = s" if unsigned: "\<not> is_signed env w"
  proof (cases "env_webhook_secret env")
    case (Some secret)
    then obtain e where "verify_signature env secret w = Err e"
      using unsigned verify_signature_Ok [OF Some, of w] by (cases "verify_signature env secret w") (auto split: unit.splits)
    note e = this
    show ?thesis using assms Some by (auto simp: receive_webhook_def bind_prog_def lift_prog_def ok_or_def e)
  qed (use assms in \<open>auto simp: receive_webhook_def bind_prog_def lift_prog_def ok_or_def\<close>)
  have effect: "s' = s \<or> (whk_event w = Some (lit ''issues'') \<and> (\<exists>c e x db'. env_configuration env = Ok c \<and>
      Option.bind (env_parse_json env (whk_body w)) (dec_issue_event (gc_time (env_github env))) = Some e \<and>
      (iev_action e = issue_event_action.Transferred \<or> lower (iev_repository e) = lower (github_configuration.repository (github c))) \<and>
      apply_issue_event env e (dsk_db s) = Ok (x, db') \<and> s' = s\<lparr> dsk_db := db' \<rparr>))"
    using assms
    by (auto simp: receive_webhook_def bind_prog_def lift_prog_def return_prog_def ok_or_def configured_repository_def on_db_def
        split: sum.splits prod.splits option.splits if_splits)
  then show ?thesis using steps unsigned by auto
qed

section \<open>The properties at work\<close>

definition sample_answer :: "http_request \<Rightarrow> http_response option" where
  "sample_answer r = json_answer (JObj [(lit ''number'', JInt 7), (lit ''title'', JText (lit ''Fix the crash'')),
    (lit ''html_url'', JText (lit ''https://github.com/LadybirdBrowser/ladybird/pull/7'')), (lit ''merged_at'', JText (lit ''now''))])"

definition sample_env :: "(nat, nat) action_env" where
  "sample_env = \<lparr> env_github = sample_client sample_answer, env_configuration = Ok runtime_configuration_default, env_auth = sample_ext,
    env_sha256 = (\<lambda>t. t), env_parse_url = sample_parse_url, env_parse_uuid = (\<lambda>_. None), env_show_uuid = (\<lambda>_. lit ''id''), env_lower = (\<lambda>t. t),
    env_details = (\<lambda>_. None), env_read_file = (\<lambda>_. Ok []), env_fresh = 99, env_parse_json = (\<lambda>_. None), env_hmac = (\<lambda>k b. k @ b),
    env_hex_decode = Some, env_webhook_secret = Some (lit ''secret'') \<rparr>"

definition sample_session :: session where
  "sample_session = \<lparr> sn_person = 7, sn_login = lit ''me'', sn_csrf = lit ''csrf'', sn_token = lit ''hash'', sn_access = lit ''token'' \<rparr>"

definition sample_desk :: desk where
  "sample_desk = \<lparr> dsk_db = sample_db, dsk_sent = [] \<rparr>"

theorem forms_are_tracker_runs_witness:
  "fst (submit_form sample_env sample_session (lit ''other'') (StateForm 1 report_workflow_state.Confirmed) sample_desk) =
      Err (PermissionDenied ''Invalid form token'') \<and>
   tracker_ok (dsk_db (snd (submit_form sample_env sample_session (lit ''csrf'') (StateForm 1 report_workflow_state.Confirmed) sample_desk)))"
proof -
  obtain r s' where wrong: "submit_form sample_env sample_session (lit ''other'') (StateForm 1 report_workflow_state.Confirmed) sample_desk = (r, s')"
    by fastforce
  have "env_sha256 sample_env (lit ''other'') \<noteq> env_sha256 sample_env (sn_csrf sample_session)"
    by (simp add: sample_env_def sample_session_def text_eval)
  then have 1: "r = Err (PermissionDenied ''Invalid form token'')" using forms_are_tracker_runs [OF wrong] by simp
  obtain r2 s2 where right: "submit_form sample_env sample_session (lit ''csrf'') (StateForm 1 report_workflow_state.Confirmed) sample_desk = (r2, s2)"
    by fastforce
  have "tracker_ok (dsk_db s2)" using forms_are_tracker_runs [OF right] sample_tracker_ok by (simp add: sample_desk_def)
  with 1 wrong right show ?thesis by simp
qed

theorem failed_form_leaves_tables_witness:
  "\<exists>e s'. submit_form sample_env sample_session (lit ''csrf'') (AssignForm 2 (lit ''issue:x'')) sample_desk = (Err e, s') \<and> dsk_db s' = sample_db"
proof -
  have "\<exists>e. submit_form sample_env sample_session (lit ''csrf'') (AssignForm 2 (lit ''issue:x'')) sample_desk = (Err e, sample_desk)"
    by (simp add: submit_form_def assign_to_issue_def bind_prog_def lift_prog_def verify_csrf_def sample_env_def sample_session_def fail_if_def
        on_db_def ensure_report_unassigned_def sample_desk_def db_eval)
  then obtain e where run: "submit_form sample_env sample_session (lit ''csrf'') (AssignForm 2 (lit ''issue:x'')) sample_desk = (Err e, sample_desk)"
    by blast
  from failed_form_leaves_tables [OF run] run show ?thesis by (auto simp: sample_desk_def)
qed


lemma sample_selected_fix:
  "\<exists>fx sent. selected_fix sample_env sample_session (lit ''pull:7'') sample_desk = (Ok fx, \<lparr> dsk_db = sample_db, dsk_sent = sent \<rparr>) \<and>
    fix_kind fx = report_fix_kind.PullRequest"
  by (simp add: selected_fix_def selected_pull_request_def configured_repository_def github_access_token_def sample_env_def sample_session_def
      sample_ext_def sample_desk_def prog_run ask_def pull_request_def request_json_get sample_client_def sample_answer_def json_answer_def
      decode_github_response_def is_success_def decode_json_def dec_pull_request_def object_fields_def field_def opt_field_def dec_i64_def
      dec_text_def dec_option_def dec_time_def ok_or_def fail_if_def runtime_configuration_default_def text_eval)

theorem recorded_fix_is_confirmed_witness:
  "\<exists>target s' r g. submit_form sample_env sample_session (lit ''csrf'') (FixForm 1 (lit ''pull:7'')) sample_desk = (Ok target, s') \<and>
    ready_report 1 (dsk_db s') = Some r \<and> rpt_state r = report_state.Resolved \<and> rpt_fix r = Some g"
proof -
  obtain fx sent where fx: "selected_fix sample_env sample_session (lit ''pull:7'') sample_desk = (Ok fx, \<lparr> dsk_db = sample_db, dsk_sent = sent \<rparr>)"
    using sample_selected_fix by blast
  have "\<exists>db'. resolve_reports_with_fix [1] fx 7 sample_db = Ok (1, db')"
    by (simp add: resolve_reports_with_fix_def fix_change_def apply_fix_def db_eval)
  then obtain db' where res: "resolve_reports_with_fix [1] fx 7 sample_db = Ok (1, db')" by blast
  have person: "sn_person sample_session = 7" by (simp add: sample_session_def)
  have csrf: "verify_csrf (env_sha256 sample_env) sample_session (lit ''csrf'') = Ok ()"
    by (simp add: verify_csrf_def sample_session_def fail_if_def)
  have run: "submit_form sample_env sample_session (lit ''csrf'') (FixForm 1 (lit ''pull:7'')) sample_desk =
      (Ok (report_page sample_env 1), \<lparr> dsk_db = db', dsk_sent = sent \<rparr>)"
    using res by (simp add: submit_form_def csrf bind_prog_def lift_prog_def resolve_with_fix_def fx on_db_def return_prog_def person)
  have ok: "db_ok (dsk_db sample_desk)" by (simp add: sample_desk_def sample_db_ok)
  from recorded_fix_is_confirmed [OF ok run, of 1 "lit ''pull:7''" "[1]"] run show ?thesis by auto
qed

theorem webhook_needs_signature_witness:
  "snd (receive_webhook sample_env \<lparr> whk_signature = Some (lit ''sha256=0''), whk_event = Some (lit ''issues''), whk_body = [1] \<rparr> sample_desk) = sample_desk"
proof -
  let ?w = "\<lparr> whk_signature = Some (lit ''sha256=0''), whk_event = Some (lit ''issues''), whk_body = [1] \<rparr>"
  obtain r s' where run: "receive_webhook sample_env ?w sample_desk = (r, s')" by fastforce
  have "\<not> is_signed sample_env ?w" by (auto simp: is_signed_def sample_env_def text_eval)
  with webhook_needs_signature [OF run] run show ?thesis by simp
qed

end
