(* ===== verification/Selectors.thy ===== *)
theory Selectors
  imports Admin_Laws
begin

text \<open>
  What the selectors of the administration offer for a search (\<open>src/src/web/admin/handlers/github.rs\<close>): issues that are tracked or on GitHub, and fixes. A search
  of GitHub that fails or takes too long offers nothing; whether it is in time is an argument, as are the query for tracked issues and the text of a
  date. The searches that run side by side are modelled one after the other.
\<close>

section \<open>Options\<close>

record search_option =
  opt_value :: str
  opt_label :: str
  opt_description :: str
  opt_identifier :: str
  opt_badge :: str
  opt_badge_tone :: string
  opt_footnote :: str
  opt_group :: string

record issue_summary =
  sum_id :: issue_id
  sum_title :: str
  sum_state :: issue_state
  sum_number :: int
  sum_report_count :: int
  sum_created :: int

record issue_link =
  lnk_issue :: issue_id
  lnk_number :: int
  lnk_title :: str
  lnk_state :: github_link_state

abbreviation (input) TRACKED_ISSUES :: string where "TRACKED_ISSUES \<equiv> ''Tracked issues''"
abbreviation (input) GITHUB_ISSUES :: string where "GITHUB_ISSUES \<equiv> ''GitHub issues''"
abbreviation (input) RESOLVED_ISSUES :: string where "RESOLVED_ISSUES \<equiv> ''Resolved issues''"
abbreviation (input) MERGED_PULL_REQUESTS :: string where "MERGED_PULL_REQUESTS \<equiv> ''Merged pull requests''"
abbreviation (input) COMMITS :: string where "COMMITS \<equiv> ''Commits''"

definition issues_linked_to_github_numbers :: "str \<Rightarrow> int list \<Rightarrow> db \<Rightarrow> issue_link list" where
  "issues_linked_to_github_numbers repo numbers db =
    (let live = (\<lambda>i. iss_state i \<noteq> issue_state.Rejected);
         direct = map (\<lambda>i. (iss_number i, i)) (filter (\<lambda>i. lower (iss_repository i) = lower repo \<and> iss_number i \<in> set numbers \<and> live i) (issues db));
         aliased = List.map_filter (\<lambda>a. Option.bind (find_issue (als_issue a) (issues db)) (\<lambda>i. if live i then Some (als_number a, i) else None))
           (filter (\<lambda>a. lower (als_repository a) = lower repo \<and> als_number a \<in> set numbers) (aliases db)) in
     List.map_filter (\<lambda>(n, i). Option.bind (follow_merges MERGE_DEPTH live (issues db) 0 i) (\<lambda>(iid, _).
       map_option (\<lambda>r. \<lparr> lnk_issue = iid, lnk_number = n, lnk_title = iss_title r, lnk_state = iss_link r \<rparr>) (find_issue iid (issues db))))
     (direct @ aliased))"

definition within_limit :: "(http_request list \<Rightarrow> bool) \<Rightarrow> 'a call \<Rightarrow> http_request list \<Rightarrow> 'a result option \<times> http_request list" where
  "within_limit in_time m sent = (let (r, sent') = m sent in (if in_time sent' then Some r else None, sent'))"

definition github_results :: "'a list result option \<Rightarrow> 'a list" where
  "github_results outcome = (case outcome of Some (Inr results) \<Rightarrow> results | _ \<Rightarrow> [])"

definition search_github :: "(http_request list \<Rightarrow> bool) \<Rightarrow> 'a list call \<Rightarrow> 'a list act" where
  "search_github in_time m = ask (\<lambda>sent. let (outcome, sent') = within_limit in_time m sent in (Ok (github_results outcome), sent'))"

section \<open>Issues\<close>

definition tracked_option :: "('net, 'num) action_env \<Rightarrow> (int \<Rightarrow> str) \<Rightarrow> issue_summary \<Rightarrow> search_option" where
  "tracked_option env show_date i =
    (let resolved = sum_state i = issue_state.Resolved in
     \<lparr> opt_value = lit ''issue:'' @ env_show_uuid env (sum_id i), opt_label = sum_title i,
       opt_description = lit ''GitHub issue #'' @ show_int (sum_number i), opt_identifier = lit ''#'' @ show_int (sum_number i),
       opt_badge = show_int (sum_report_count i) @ lit '' reports'', opt_badge_tone = (if resolved then ''resolved'' else ''assigned''),
       opt_footnote = lit ''Tracked since '' @ show_date (sum_created i), opt_group = (if resolved then RESOLVED_ISSUES else TRACKED_ISSUES) \<rparr>)"

definition linked_option :: "('net, 'num) action_env \<Rightarrow> github_issue \<Rightarrow> issue_link \<Rightarrow> search_option" where
  "linked_option env g l =
    (let resolved = lnk_state l = github_link_state.Closed in
     \<lparr> opt_value = lit ''issue:'' @ env_show_uuid env (lnk_issue l), opt_label = lnk_title l, opt_description = gh_title g,
       opt_identifier = lit ''#'' @ show_int (gh_number g), opt_badge = lit ''Tracked'',
       opt_badge_tone = (if resolved then ''resolved'' else ''assigned''), opt_footnote = lit ''Already tracked in Reports'',
       opt_group = (if resolved then RESOLVED_ISSUES else TRACKED_ISSUES) \<rparr>)"

definition untracked_option :: "github_issue \<Rightarrow> search_option" where
  "untracked_option g =
    \<lparr> opt_value = lit ''github:'' @ show_int (gh_number g), opt_label = gh_title g, opt_description = gh_html_url g,
      opt_identifier = lit ''#'' @ show_int (gh_number g), opt_badge = lit ''GitHub'', opt_badge_tone = ''neutral'',
      opt_footnote = lit ''Not yet tracked in Reports'', opt_group = GITHUB_ISSUES \<rparr>"

fun github_issue_options :: "('net, 'num) action_env \<Rightarrow> (int \<Rightarrow> issue_link option) \<Rightarrow> issue_id set \<Rightarrow> github_issue list \<Rightarrow> search_option list" where
  "github_issue_options env linked included [] = []"
| "github_issue_options env linked included (g # gs) =
    (case linked (gh_number g) of
      Some l \<Rightarrow>
        if is_unreachable (lnk_state l) then github_issue_options env linked included gs
        else if lnk_issue l \<in> included then github_issue_options env linked included gs
        else linked_option env g l # github_issue_options env linked (insert (lnk_issue l) included) gs
    | None \<Rightarrow>
        if gh_state g \<noteq> github_issue_state.Open then github_issue_options env linked included gs
        else untracked_option g # github_issue_options env linked included gs)"

definition group_rank :: "search_option \<Rightarrow> nat" where
  "group_rank opt = (if opt_group opt = TRACKED_ISSUES then 0 else if opt_group opt = GITHUB_ISSUES then 1 else 2)"

definition issue_results :: "('net, 'num) action_env \<Rightarrow> (int \<Rightarrow> str) \<Rightarrow> issue_summary list \<Rightarrow> issue_link list \<Rightarrow> github_issue list \<Rightarrow> search_option list" where
  "issue_results env show_date tracked found gs =
    sort_key group_rank (map (tracked_option env show_date) tracked @
      github_issue_options env (map_of (rev (map (\<lambda>l. (lnk_number l, l)) found))) (set (map sum_id tracked)) gs)"

definition issue_options ::
    "('net, 'num) action_env \<Rightarrow> session \<Rightarrow> (http_request list \<Rightarrow> bool) \<Rightarrow> (int \<Rightarrow> str) \<Rightarrow> (str \<Rightarrow> issue_summary list result) \<Rightarrow> str \<Rightarrow> search_option list act" where
  "issue_options env sn in_time show_date search_tracked query =
    (let query = trim query in
     bind_prog (lift_prog (fail_if (128 < byte_len query) (InvalidRequest ''Issue search is too long''))) (\<lambda>_.
     bind_prog (configured_repository env) (\<lambda>repo.
     bind_prog (github_access_token env sn) (\<lambda>token.
     bind_prog (search_github in_time (search_issues (env_github env) token repo query)) (\<lambda>gs.
     bind_prog (lift_prog (search_tracked query)) (\<lambda>tracked.
     bind_prog (on_db (get_tx (issues_linked_to_github_numbers repo (map gh_number gs)))) (\<lambda>found.
     return_prog (issue_results env show_date tracked found gs))))))))"

section \<open>Fixes\<close>

fun check_commits :: "github_client \<Rightarrow> (http_request list \<Rightarrow> bool) \<Rightarrow> str \<Rightarrow> str \<Rightarrow> str \<Rightarrow> github_commit list \<Rightarrow> github_commit list call" where
  "check_commits g in_time token repo branch [] sent = (Ok [], sent)"
| "check_commits g in_time token repo branch (c # cs) sent =
    (let (contains, sent1) = within_limit in_time (branch_contains g token repo branch (cmt_sha c)) sent;
         (kept, sent2) = check_commits g in_time token repo branch cs sent1 in
     (map_sum id (\<lambda>k. if contains = Some (Ok True) then c # k else k) kept, sent2))"

definition commits_on_default_branch :: "github_client \<Rightarrow> (http_request list \<Rightarrow> bool) \<Rightarrow> str \<Rightarrow> str \<Rightarrow> github_commit list \<Rightarrow> github_commit list call" where
  "commits_on_default_branch g in_time token repo commits sent =
    (if commits = [] then (Ok [], sent)
     else case within_limit in_time (default_branch g token repo) sent of
       (Some (Inr branch), sent1) \<Rightarrow> check_commits g in_time token repo branch commits sent1
     | (_, sent1) \<Rightarrow> (Ok [], sent1))"

definition pull_option :: "github_issue \<Rightarrow> search_option" where
  "pull_option p =
    \<lparr> opt_value = lit ''pull:'' @ show_int (gh_number p), opt_label = gh_title p, opt_description = gh_html_url p,
      opt_identifier = lit ''#'' @ show_int (gh_number p), opt_badge = lit ''Merged'', opt_badge_tone = ''resolved'',
      opt_footnote = lit ''Resolves the report'', opt_group = MERGED_PULL_REQUESTS \<rparr>"

definition commit_option :: "github_commit \<Rightarrow> search_option" where
  "commit_option c =
    \<lparr> opt_value = lit ''commit:'' @ cmt_sha c, opt_label = commit_subject c, opt_description = cmt_html_url c,
      opt_identifier = take 11 (cmt_sha c), opt_badge = lit ''Commit'', opt_badge_tone = ''resolved'',
      opt_footnote = lit ''Resolves the report'', opt_group = COMMITS \<rparr>"

definition fix_options :: "('net, 'num) action_env \<Rightarrow> session \<Rightarrow> (http_request list \<Rightarrow> bool) \<Rightarrow> str \<Rightarrow> search_option list act" where
  "fix_options env sn in_time query =
    (let query = trim query in
     bind_prog (lift_prog (fail_if (128 < byte_len query) (InvalidRequest ''Fix search is too long''))) (\<lambda>_.
     if query = [] then return_prog []
     else
       bind_prog (configured_repository env) (\<lambda>repo.
       bind_prog (github_access_token env sn) (\<lambda>token.
       bind_prog (search_github in_time (search_merged_pull_requests (env_github env) token repo query)) (\<lambda>pulls.
       bind_prog (search_github in_time (search_commits (env_github env) token repo query)) (\<lambda>commits.
       bind_prog (ask (commits_on_default_branch (env_github env) in_time token repo
         (filter (\<lambda>c. contains_str (lit ''/'' @ repo @ lit ''/commit/'') (cmt_html_url c)) commits))) (\<lambda>commits.
       return_prog (map pull_option (filter (\<lambda>p. contains_str (lit ''/'' @ repo @ lit ''/pull/'') (gh_html_url p)) pulls) @
         map commit_option commits))))))))"

section \<open>What is offered\<close>

lemma check_commits_result:
  "check_commits g in_time token repo branch cs sent = (r, sent') \<Longrightarrow>
    \<exists>kept. r = Ok kept \<and> (\<forall>c \<in> set kept. c \<in> set cs \<and> (\<exists>s. fst (branch_contains g token repo branch (cmt_sha c) s) = Ok True))"
proof (induction cs arbitrary: sent r sent')
  case (Cons c cs)
  obtain con sent1 where one: "within_limit in_time (branch_contains g token repo branch (cmt_sha c)) sent = (con, sent1)" by fastforce
  obtain k sent2 where rest: "check_commits g in_time token repo branch cs sent1 = (k, sent2)" by fastforce
  obtain kept where kept: "k = Ok kept" "\<forall>c \<in> set kept. c \<in> set cs \<and> (\<exists>s. fst (branch_contains g token repo branch (cmt_sha c) s) = Ok True)"
    using Cons.IH [OF rest] by blast
  have "\<exists>s. fst (branch_contains g token repo branch (cmt_sha c) s) = Ok True" if "con = Some (Ok True)"
    using one that by (intro exI [of _ sent]) (simp add: within_limit_def case_prod_beta Let_def split: if_splits)
  then show ?case using Cons.prems one rest kept by (auto split: if_splits)
qed simp

lemma commits_on_default_branch_result:
  "commits_on_default_branch g in_time token repo cs sent = (Ok kept, sent') \<Longrightarrow> c \<in> set kept \<Longrightarrow>
    c \<in> set cs \<and> (\<exists>branch s. fst (branch_contains g token repo branch (cmt_sha c) s) = Ok True \<and> (\<exists>t. fst (default_branch g token repo t) = Ok branch))"
proof -
  assume run: "commits_on_default_branch g in_time token repo cs sent = (Ok kept, sent')" and c: "c \<in> set kept"
  then obtain branch sent1 where b: "within_limit in_time (default_branch g token repo) sent = (Some (Ok branch), sent1)"
      "check_commits g in_time token repo branch cs sent1 = (Ok kept, sent')"
    by (auto simp: commits_on_default_branch_def split: if_splits prod.splits option.splits sum.splits)
  have "fst (default_branch g token repo sent) = Ok branch"
    using b(1) by (simp add: within_limit_def case_prod_beta Let_def split: if_splits)
  with check_commits_result [OF b(2)] c show ?thesis by fastforce
qed

text \<open>A fix that is offered names the configured repository in its address, and a commit among them is one GitHub finds on the default branch. Searching changes
  no table.\<close>

theorem offered_fixes_belong:
  assumes "fix_options env sn in_time query s = (Ok opts, s')" and "env_configuration env = Ok c" and "repo = github_configuration.repository (github c)"
  shows "dsk_db s' = dsk_db s \<and> (\<forall>opt \<in> set opts.
    (\<exists>p. opt = pull_option p \<and> contains_str (lit ''/'' @ repo @ lit ''/pull/'') (gh_html_url p)) \<or>
    (\<exists>m token branch s t. opt = commit_option m \<and> contains_str (lit ''/'' @ repo @ lit ''/commit/'') (cmt_html_url m) \<and>
      fst (default_branch (env_github env) token repo t) = Ok branch \<and> fst (branch_contains (env_github env) token repo branch (cmt_sha m) s) = Ok True))"
proof (cases "trim query = []")
  case True
  then show ?thesis using assms(1)
    by (auto simp: fix_options_def Let_def bind_prog_def lift_prog_def return_prog_def split: sum.splits)
next
  case False
  let ?named = "filter (\<lambda>m. contains_str (lit ''/'' @ repo @ lit ''/commit/'') (cmt_html_url m))"
  from False assms obtain token pulls commits kept s1 s2 where parts:
      "search_github in_time (search_merged_pull_requests (env_github env) token repo (trim query)) s = (Ok pulls, s1)"
      "search_github in_time (search_commits (env_github env) token repo (trim query)) s1 = (Ok commits, s2)"
      "ask (commits_on_default_branch (env_github env) in_time token repo (?named commits)) s2 = (Ok kept, s')"
      "opts = map pull_option (filter (\<lambda>p. contains_str (lit ''/'' @ repo @ lit ''/pull/'') (gh_html_url p)) pulls) @ map commit_option kept"
    by (auto simp: fix_options_def Let_def configured_repository_def github_access_token_def prog_simps(1,2,4))
  have db: "dsk_db s' = dsk_db s"
    using parts(1-3) by (auto simp: search_github_def ask_def Let_def split: prod.splits)
  obtain sent' where "commits_on_default_branch (env_github env) in_time token repo (?named commits) (dsk_sent s2) = (Ok kept, sent')"
    using parts(3) by (auto simp: ask_def split: prod.splits)
  from commits_on_default_branch_result [OF this] show ?thesis unfolding parts(4) using db by fastforce
qed

lemma github_issue_options_sound:
  "opt \<in> set (github_issue_options env linked included gs) \<Longrightarrow>
    (\<exists>g \<in> set gs. \<exists>l. linked (gh_number g) = Some l \<and> \<not> is_unreachable (lnk_state l) \<and> lnk_issue l \<notin> included \<and> opt = linked_option env g l) \<or>
    (\<exists>g \<in> set gs. linked (gh_number g) = None \<and> gh_state g = github_issue_state.Open \<and> opt = untracked_option g)"
  by (induction env linked included gs rule: github_issue_options.induct) (auto split: option.splits if_splits)

text \<open>The issue selector shows open tracked issues, then issues of GitHub, then resolved ones. Every tracked issue that matches is there; an issue of GitHub is
  there as the tracked issue it is linked to, unless that is listed already or its link is unreachable, and as itself only when it is open.\<close>

theorem issue_selector_offers:
  "sorted (map group_rank (issue_results env show_date tracked found gs)) \<and>
   (\<forall>i \<in> set tracked. tracked_option env show_date i \<in> set (issue_results env show_date tracked found gs)) \<and>
   (\<forall>opt \<in> set (issue_results env show_date tracked found gs).
      (\<exists>i \<in> set tracked. opt = tracked_option env show_date i) \<or>
      (\<exists>g \<in> set gs. \<exists>l \<in> set found. lnk_number l = gh_number g \<and> \<not> is_unreachable (lnk_state l) \<and>
        lnk_issue l \<notin> set (map sum_id tracked) \<and> opt = linked_option env g l) \<or>
      (\<exists>g \<in> set gs. gh_number g \<notin> lnk_number ` set found \<and> gh_state g = github_issue_state.Open \<and> opt = untracked_option g))"
proof (intro conjI ballI)
  let ?m = "map_of (rev (map (\<lambda>l. (lnk_number l, l)) found))"
  show "sorted (map group_rank (issue_results env show_date tracked found gs))" by (simp add: issue_results_def)
  show "tracked_option env show_date i \<in> set (issue_results env show_date tracked found gs)" if "i \<in> set tracked" for i
    using that by (simp add: issue_results_def)
  fix opt assume "opt \<in> set (issue_results env show_date tracked found gs)"
  then consider i where "i \<in> set tracked" "opt = tracked_option env show_date i"
    | "opt \<in> set (github_issue_options env ?m (set (map sum_id tracked)) gs)" by (auto simp: issue_results_def)
  then show "(\<exists>i \<in> set tracked. opt = tracked_option env show_date i) \<or>
      (\<exists>g \<in> set gs. \<exists>l \<in> set found. lnk_number l = gh_number g \<and> \<not> is_unreachable (lnk_state l) \<and>
        lnk_issue l \<notin> set (map sum_id tracked) \<and> opt = linked_option env g l) \<or>
      (\<exists>g \<in> set gs. gh_number g \<notin> lnk_number ` set found \<and> gh_state g = github_issue_state.Open \<and> opt = untracked_option g)"
  proof cases
    case 2
    have hit: "l \<in> set found \<and> lnk_number l = n" if "?m n = Some l" for n l using map_of_SomeD [OF that] by auto
    have miss: "n \<notin> lnk_number ` set found" if "?m n = None" for n using that by (auto simp: map_of_eq_None_iff image_image)
    from github_issue_options_sound [OF 2] hit miss show ?thesis by blast
  qed blast
qed

definition foreign_answer :: "http_request \<Rightarrow> http_response option" where
  "foreign_answer r = json_answer (JObj [(lit ''items'', JArr [JObj [(lit ''id'', JInt 500), (lit ''number'', JInt 5), (lit ''title'', JText (lit ''Theirs'')),
    (lit ''html_url'', JText (lit ''https://github.com/other/other/issues/5'')), (lit ''state'', JText (lit ''open'')), (lit ''updated_at'', JText (lit ''now''))]])])"

definition foreign_env :: "(nat, nat) action_env" where
  "foreign_env = sample_env\<lparr> env_github := sample_client foreign_answer \<rparr>"

lemma foreign_search:
  "search_issues (env_github foreign_env) token repo q sent =
    (Ok [\<lparr> gh_id = 500, gh_number = 5, gh_title = lit ''Theirs'', gh_body = None, gh_html_url = lit ''https://github.com/other/other/issues/5'',
      gh_state = github_issue_state.Open, gh_updated_at = 0, gh_state_reason = None \<rparr>],
     sent @ [\<lparr> rq_host = Api, rq_method = ''GET'', rq_path = lit ''/search/issues'',
       rq_query = [(lit ''q'', lit ''repo:'' @ repo @ lit '' is:issue '' @ q), (lit ''per_page'', lit ''20'')], rq_token = Some token,
       rq_headers = [(''accept'', lit ''application/vnd.github+json''), (''x-github-api-version'', lit ''2022-11-28'')], rq_body = NoBody \<rparr>])"
  by (simp add: search_issues_def search_items_def request_json_url_def request_json_url_version_def send_def foreign_env_def sample_env_def
      sample_client_def foreign_answer_def json_answer_def prog_run decode_github_response_def is_success_def decode_json_def dec_member_def dec_list_def
      dec_issue_def object_fields_def field_def opt_field_def dec_i64_def dec_text_def dec_option_def dec_time_def dec_issue_state_def ok_or_def text_eval)

text \<open>A search of a maintainer who names another repository. The issue it finds there is offered under its title and address, but what is selected is only its
  number, and that is looked up in the configured repository: the report ends on another issue, or on one that is tracked under that number. The selector
  of fixes leaves such results out; this one does not.\<close>

theorem selector_offers_foreign_issue:
  "\<exists>opt s'. issue_options foreign_env sample_session (\<lambda>_. True) (\<lambda>_. []) (\<lambda>_. Ok []) (lit ''repo:other/other'') sample_desk = (Ok [opt], s') \<and>
    opt_description opt = lit ''https://github.com/other/other/issues/5'' \<and> opt_value opt = lit ''github:5'' \<and>
    map_sum id (\<lambda>c. github_configuration.repository (github c)) (env_configuration foreign_env) = Ok (lit ''LadybirdBrowser/ladybird'')"
proof -
  have config: "env_configuration foreign_env = Ok runtime_configuration_default" by (simp add: foreign_env_def sample_env_def)
  have repo: "github_configuration.repository (github (runtime_configuration_default :: nat runtime_configuration)) = lit ''LadybirdBrowser/ladybird''"
    by (simp add: runtime_configuration_default_def github_configuration_default_def)
  have token: "ath_decrypt (env_auth foreign_env) (sn_access sample_session) = Ok (lit ''token'')"
    by (simp add: foreign_env_def sample_env_def sample_ext_def sample_session_def)
  have none: "issues_linked_to_github_numbers (lit ''LadybirdBrowser/ladybird'') [5] sample_db = []"
    by (simp add: issues_linked_to_github_numbers_def sample_db_def sample_issue_def Let_def List.map_filter_simps)
  have length: "byte_len (trim (lit ''repo:other/other'')) \<le> 128" by (simp add: text_eval)
  have five: "show_int 5 = lit ''5''" by (simp add: show_int_def show_nat.simps text_eval)
  show ?thesis
    using length
    by (simp add: issue_options_def Let_def prog_run fail_if_def configured_repository_def config github_access_token_def token search_github_def ask_def
        within_limit_def foreign_search github_results_def on_db_def get_tx_def none repo sample_desk_def issue_results_def untracked_option_def five
        flip: lit_append)
qed

text \<open>A search whose pull request is in the configured repository, and whose commits cannot be read.\<close>

definition pull_answer :: "http_request \<Rightarrow> http_response option" where
  "pull_answer r = json_answer (JObj [(lit ''items'', JArr [JObj [(lit ''id'', JInt 700), (lit ''number'', JInt 7), (lit ''title'', JText (lit ''Fix'')),
    (lit ''html_url'', JText (lit ''https://github.com/LadybirdBrowser/ladybird/pull/7'')), (lit ''state'', JText (lit ''closed'')),
    (lit ''updated_at'', JText (lit ''now''))]])])"

definition pull_env :: "(nat, nat) action_env" where
  "pull_env = sample_env\<lparr> env_github := sample_client pull_answer \<rparr>"

lemma pull_searches:
  "\<exists>sent'. search_merged_pull_requests (env_github pull_env) token repo q sent =
    (Ok [\<lparr> gh_id = 700, gh_number = 7, gh_title = lit ''Fix'', gh_body = None, gh_html_url = lit ''https://github.com/LadybirdBrowser/ladybird/pull/7'',
      gh_state = github_issue_state.Closed, gh_updated_at = 0, gh_state_reason = None \<rparr>], sent')"
  "is_commit_hash_prefix q = False \<Longrightarrow> \<exists>e sent'. search_commits (env_github pull_env) token repo q sent = (Err e, sent')"
  by (simp_all add: search_merged_pull_requests_def search_commits_def search_items_def request_json_url_def request_json_url_version_def send_def
      pull_env_def sample_env_def sample_client_def pull_answer_def json_answer_def prog_run decode_github_response_def is_success_def decode_json_def
      dec_member_def dec_list_def dec_issue_def dec_commit_def object_fields_def field_def opt_field_def dec_i64_def dec_text_def dec_option_def
      dec_time_def dec_issue_state_def ok_or_def text_eval)

theorem offered_fixes_belong_witness:
  "\<exists>p s'. fix_options pull_env sample_session (\<lambda>_. True) (lit ''crash'') sample_desk = (Ok [pull_option p], s') \<and>
    contains_str (lit ''/LadybirdBrowser/ladybird/pull/'') (gh_html_url p)"
proof -
  let ?repo = "github_configuration.repository (github (runtime_configuration_default :: nat runtime_configuration))"
  have config: "env_configuration pull_env = Ok runtime_configuration_default" by (simp add: pull_env_def sample_env_def)
  have repo: "?repo = lit ''LadybirdBrowser/ladybird''" by (simp add: runtime_configuration_default_def github_configuration_default_def)
  have token: "ath_decrypt (env_auth pull_env) (sn_access sample_session) = Ok (lit ''token'')"
    by (simp add: pull_env_def sample_env_def sample_ext_def sample_session_def)
  define p where "p = \<lparr> gh_id = 700, gh_number = 7, gh_title = lit ''Fix'', gh_body = None, gh_html_url = lit ''https://github.com/LadybirdBrowser/ladybird/pull/7'',
      gh_state = github_issue_state.Closed, gh_updated_at = 0, gh_state_reason = None \<rparr>"
  obtain s1 where pulls: "search_merged_pull_requests (env_github pull_env) (lit ''token'') (lit ''LadybirdBrowser/ladybird'') (lit ''crash'') [] = (Ok [p], s1)"
    using pull_searches(1) unfolding p_def by blast
  have "is_commit_hash_prefix (lit ''crash'') = False" by (simp add: is_commit_hash_prefix_def text_eval)
  then obtain e s2 where commits: "search_commits (env_github pull_env) (lit ''token'') (lit ''LadybirdBrowser/ladybird'') (lit ''crash'') s1 = (Err e, s2)"
    using pull_searches(2) by blast
  have named: "contains_str (lit ''/LadybirdBrowser/ladybird/pull/'') (gh_html_url p)" by (simp add: p_def contains_str_def text_eval)
  have query: "trim (lit ''crash'') = lit ''crash''" "byte_len (lit ''crash'') \<le> 128" "lit ''crash'' \<noteq> []" by (simp_all add: text_eval)
  have run: "fix_options pull_env sample_session (\<lambda>_. True) (lit ''crash'') sample_desk = (Ok [pull_option p], \<lparr> dsk_db = sample_db, dsk_sent = s2 \<rparr>)"
    using query named
    by (simp add: fix_options_def Let_def prog_run fail_if_def configured_repository_def config github_access_token_def token search_github_def ask_def
        within_limit_def sample_desk_def repo pulls commits github_results_def commits_on_default_branch_def flip: lit_append)
  from offered_fixes_belong [OF run config refl] have "dsk_db \<lparr> dsk_db = sample_db, dsk_sent = s2 \<rparr> = dsk_db sample_desk" by blast
  with run named show ?thesis by blast
qed

end
