(* ===== verification/Retention.thy ===== *)
theory Retention
  imports Attachment_Store Configuration "HOL-Library.Product_Lexorder"
begin

text \<open>
  The maintenance of the administration (\<open>src/src/infrastructure/database/admin/maintenance.rs\<close> and the loop of \<open>src/src/bin/admin.rs\<close> that runs it): what expires, and
  reports with their files. The rows hold the columns that the sweep reads or writes. Removing a directory may fail; for which reports it
  does is an argument.
\<close>

section \<open>What the sweep sees\<close>

record kept_report =
  kpr_id :: uuid
  kpr_source :: "str option"
  kpr_created :: int
  kpr_expires :: "int option"
  kpr_attachments :: "int option list"

record source_block =
  blk_report :: "uuid option"
  blk_lifted :: "int option"
  blk_expires :: "int option"

record retention_db =
  rtn_now :: int
  rtn_sessions :: "int list"
  rtn_oauth_states :: "int list"
  rtn_reports :: "kept_report list"
  rtn_blocks :: "source_block list"
  rtn_events :: "int list"
  rtn_shares :: "(uuid \<times> int) list"
  rtn_challenges :: "uuid list"

record admin_sweep_result =
  swp_sessions :: nat
  swp_oauth_states :: nat
  swp_sources :: nat
  swp_blocks :: nat
  swp_events :: nat
  swp_shares :: nat
  swp_ready :: "uuid list"

text \<open>\<open>as i32\<close> of a \<open>u32\<close>.\<close>

definition as_i32 :: "nat \<Rightarrow> int" where
  "as_i32 n = (if n < 2 ^ 31 then int n else int n - 2 ^ 32)"

definition past :: "int \<Rightarrow> int option \<Rightarrow> bool" where
  "past limit t = (case t of Some t \<Rightarrow> t \<le> limit | None \<Rightarrow> False)"

definition clear_source :: "int \<Rightarrow> kept_report \<Rightarrow> kept_report" where
  "clear_source limit r = (if kpr_source r \<noteq> None \<and> kpr_created r \<le> limit then r\<lparr> kpr_source := None \<rparr> else r)"

definition set_expiry :: "int \<Rightarrow> kept_report \<Rightarrow> kept_report" where
  "set_expiry days r =
    (let r = (if kpr_expires r = None then r\<lparr> kpr_expires := Some (kpr_created r + 86400 * days) \<rparr> else r) in
     r\<lparr> kpr_attachments := map (\<lambda>a. if a = None then kpr_expires r else a) (kpr_attachments r) \<rparr>)"

abbreviation (input) PURGE_BATCH :: nat where
  "PURGE_BATCH \<equiv> 100"

definition expiry_order :: "kept_report \<Rightarrow> int \<times> nat" where
  "expiry_order r = (case kpr_expires r of Some t \<Rightarrow> t | None \<Rightarrow> 0, unat (kpr_id r))"

definition expired_reports :: "int \<Rightarrow> kept_report list \<Rightarrow> kept_report list" where
  "expired_reports t rs = sort_key expiry_order (filter (\<lambda>r. past t (kpr_expires r)) rs)"

definition begin_maintenance_sweep :: "nat \<Rightarrow> nat \<Rightarrow> nat \<Rightarrow> retention_db \<Rightarrow> admin_sweep_result \<times> retention_db" where
  "begin_maintenance_sweep report_days source_hours audit_days s =
    (let t = rtn_now s;
         source_limit = t - 3600 * as_i32 source_hours;
         gone_block = (\<lambda>b. past source_limit (blk_lifted b) \<or> past source_limit (blk_expires b));
         old_event = (\<lambda>e. e \<le> t - 86400 * as_i32 audit_days);
         reps = map (\<lambda>r. set_expiry (as_i32 report_days) (clear_source source_limit r)) (rtn_reports s) in
     (\<lparr> swp_sessions = length (filter (\<lambda>e. e \<le> t) (rtn_sessions s)),
        swp_oauth_states = length (filter (\<lambda>e. e \<le> t) (rtn_oauth_states s)),
        swp_sources = length (filter (\<lambda>r. kpr_source r \<noteq> None \<and> kpr_created r \<le> source_limit) (rtn_reports s)),
        swp_blocks = length (filter gone_block (rtn_blocks s)),
        swp_events = length (filter old_event (rtn_events s)),
        swp_shares = length (filter (\<lambda>(_, e). e \<le> t) (rtn_shares s)),
        swp_ready = map kpr_id (take PURGE_BATCH (expired_reports t reps)) \<rparr>,
      s\<lparr> rtn_sessions := filter (\<lambda>e. \<not> e \<le> t) (rtn_sessions s),
        rtn_oauth_states := filter (\<lambda>e. \<not> e \<le> t) (rtn_oauth_states s),
        rtn_reports := reps,
        rtn_blocks := filter (\<lambda>b. \<not> gone_block b) (rtn_blocks s),
        rtn_events := filter (\<lambda>e. \<not> old_event e) (rtn_events s),
        rtn_shares := filter (\<lambda>(_, e). \<not> e \<le> t) (rtn_shares s) \<rparr>))"

text \<open>A report that a challenge still names cannot be deleted; its share links go with it and a block forgets it.\<close>

definition finish_report_purge :: "uuid \<Rightarrow> (retention_db, bool) prog" where
  "finish_report_purge rid s =
    (let hit = (\<lambda>r. kpr_id r = rid \<and> past (rtn_now s) (kpr_expires r)) in
     if filter hit (rtn_reports s) = [] then (Ok False, s)
     else if rid \<in> set (rtn_challenges s) then (Err (Io ''challenges_report_id_fkey''), s)
     else (Ok (length (filter hit (rtn_reports s)) = 1),
       s\<lparr> rtn_reports := filter (\<lambda>r. \<not> hit r) (rtn_reports s),
         rtn_shares := filter (\<lambda>(r, _). r \<noteq> rid) (rtn_shares s),
         rtn_blocks := map (\<lambda>b. if blk_report b = Some rid then b\<lparr> blk_report := None \<rparr> else b) (rtn_blocks s) \<rparr>))"

section \<open>The loop\<close>

record upkeep =
  upk_db :: retention_db
  upk_files :: file_store

definition remove_report :: "(uuid \<Rightarrow> bool) \<Rightarrow> uuid \<Rightarrow> (file_store, unit) prog" where
  "remove_report broken rid fs =
    (if broken rid \<and> rid \<in> set (map fst (report_dirs fs)) then (Err (Io ''cannot remove directory''), fs) else remove_report_files rid fs)"

fun purge_reports :: "(uuid \<Rightarrow> bool) \<Rightarrow> uuid list \<Rightarrow> upkeep \<Rightarrow> upkeep" where
  "purge_reports broken [] s = s"
| "purge_reports broken (rid # rids) s =
    (case remove_report broken rid (upk_files s) of
      (Inl _, fs) \<Rightarrow> purge_reports broken rids (s\<lparr> upk_files := fs \<rparr>)
    | (Inr _, fs) \<Rightarrow> purge_reports broken rids (s\<lparr> upk_files := fs, upk_db := snd (finish_report_purge rid (upk_db s)) \<rparr>))"

definition maintenance_round :: "(uuid \<Rightarrow> bool) \<Rightarrow> 'net runtime_configuration \<Rightarrow> upkeep \<Rightarrow> upkeep" where
  "maintenance_round broken c s =
    (let (result, db') = begin_maintenance_sweep (report_retention_days (maintenance c)) (submission_source_retention_hours (maintenance c))
        (audit_configuration.retention_days (audit c)) (upk_db s) in
     purge_reports broken (swp_ready result) (s\<lparr> upk_db := db' \<rparr>))"

text \<open>One pass of the loop: what it leaves and the seconds it waits.\<close>

definition run_maintenance :: "(uuid \<Rightarrow> bool) \<Rightarrow> 'net runtime_configuration result \<Rightarrow> upkeep \<Rightarrow> upkeep \<times> nat" where
  "run_maintenance broken configuration s =
    (case configuration of
      Inr c \<Rightarrow> (maintenance_round broken c s, sweep_interval_seconds (maintenance c))
    | Inl _ \<Rightarrow> (s, 900))"

section \<open>Purging\<close>

definition swept_report :: "int \<Rightarrow> int \<Rightarrow> kept_report \<Rightarrow> kept_report" where
  "swept_report limit days r = set_expiry days (clear_source limit r)"

lemma swept_report_simps [simp]:
  "kpr_id (swept_report limit days r) = kpr_id r"
  "kpr_created (swept_report limit days r) = kpr_created r"
  "kpr_expires (swept_report limit days r) \<noteq> None"
  by (simp_all add: swept_report_def set_expiry_def clear_source_def Let_def)

lemma swept_report_source: "kpr_source (swept_report limit days r) = Some k \<Longrightarrow> limit < kpr_created r"
  by (auto simp: swept_report_def set_expiry_def clear_source_def Let_def split: if_splits)

lemma swept_report_attachments: "None \<notin> set (kpr_attachments (swept_report limit days r))"
  by (auto simp: swept_report_def set_expiry_def clear_source_def Let_def)

text \<open>Only the reports of the list that are expired go, each after its directory; the rest of the tables stays.\<close>

lemma remove_report_cases:
  obtains "broken rid" "rid \<in> set (map fst (report_dirs fs))" "remove_report broken rid fs = (Err (Io ''cannot remove directory''), fs)"
  | "\<not> (broken rid \<and> rid \<in> set (map fst (report_dirs fs)))"
    "remove_report broken rid fs = (Ok (), fs\<lparr> report_dirs := AList.delete rid (report_dirs fs) \<rparr>)"
  by (cases "broken rid \<and> rid \<in> set (map fst (report_dirs fs))") (auto simp: remove_report_def remove_report_files_def)

definition purge_one :: "uuid \<Rightarrow> upkeep \<Rightarrow> upkeep" where
  "purge_one rid s = s\<lparr> upk_files := (upk_files s)\<lparr> report_dirs := AList.delete rid (report_dirs (upk_files s)) \<rparr>,
      upk_db := snd (finish_report_purge rid (upk_db s)) \<rparr>"

lemma purge_reports_stuck:
  "broken rid \<and> rid \<in> set (map fst (report_dirs (upk_files s))) \<Longrightarrow> purge_reports broken (rid # rids) s = purge_reports broken rids s"
  by (cases rule: remove_report_cases [of broken rid "upk_files s"]) simp_all

lemma purge_reports_goes:
  "\<not> (broken rid \<and> rid \<in> set (map fst (report_dirs (upk_files s)))) \<Longrightarrow>
    purge_reports broken (rid # rids) s = purge_reports broken rids (purge_one rid s)"
  by (cases rule: remove_report_cases [of broken rid "upk_files s"]) (simp_all add: purge_one_def)

lemma purge_reports_Cons:
  "purge_reports broken (rid # rids) s = purge_reports broken rids s \<or> purge_reports broken (rid # rids) s = purge_reports broken rids (purge_one rid s)"
  by (cases "broken rid \<and> rid \<in> set (map fst (report_dirs (upk_files s)))") (simp_all only: purge_reports_stuck purge_reports_goes simp_thms)

lemma finish_report_purge_frame:
  "rtn_now (snd (finish_report_purge rid d)) = rtn_now d"
  "rtn_sessions (snd (finish_report_purge rid d)) = rtn_sessions d"
  "rtn_oauth_states (snd (finish_report_purge rid d)) = rtn_oauth_states d"
  "rtn_events (snd (finish_report_purge rid d)) = rtn_events d"
  "rtn_challenges (snd (finish_report_purge rid d)) = rtn_challenges d"
  "set (rtn_shares (snd (finish_report_purge rid d))) \<subseteq> set (rtn_shares d)"
  by (auto simp: finish_report_purge_def Let_def)

lemma finish_report_purge_reports:
  "rtn_reports (snd (finish_report_purge rid d)) =
    filter (\<lambda>r. \<not> (kpr_id r = rid \<and> rid \<notin> set (rtn_challenges d) \<and> past (rtn_now d) (kpr_expires r))) (rtn_reports d)"
proof (cases "filter (\<lambda>r. kpr_id r = rid \<and> past (rtn_now d) (kpr_expires r)) (rtn_reports d) = []")
  case True
  then have "filter (\<lambda>r. \<not> (kpr_id r = rid \<and> rid \<notin> set (rtn_challenges d) \<and> past (rtn_now d) (kpr_expires r))) (rtn_reports d) = rtn_reports d"
    by (auto simp: filter_empty_conv filter_id_conv)
  then show ?thesis using True by (simp add: finish_report_purge_def Let_def)
next
  case False
  then show ?thesis by (simp add: finish_report_purge_def Let_def)
qed

lemma purge_one_db [simp]:
  "upk_db (purge_one rid s) = snd (finish_report_purge rid (upk_db s))"
  "map_of (report_dirs (upk_files (purge_one rid s))) x = (if x = rid then None else map_of (report_dirs (upk_files s)) x)"
  by (simp_all add: purge_one_def delete_conv')

lemma purge_reports_shares: "set (rtn_shares (upk_db (purge_reports broken rids s))) \<subseteq> set (rtn_shares (upk_db s))"
proof (induction rids arbitrary: s)
  case (Cons rid rids)
  from purge_reports_Cons [of broken rid rids s] show ?case
  proof
    assume "purge_reports broken (rid # rids) s = purge_reports broken rids s"
    then show ?thesis using Cons.IH [of s] by simp
  next
    assume "purge_reports broken (rid # rids) s = purge_reports broken rids (purge_one rid s)"
    then show ?thesis using Cons.IH [of "purge_one rid s"] finish_report_purge_frame(6) [of rid "upk_db s"] by fastforce
  qed
qed simp

lemma purge_reports_frame:
  "rtn_now (upk_db (purge_reports broken rids s)) = rtn_now (upk_db s) \<and>
   rtn_sessions (upk_db (purge_reports broken rids s)) = rtn_sessions (upk_db s) \<and>
   rtn_events (upk_db (purge_reports broken rids s)) = rtn_events (upk_db s) \<and>
   rtn_challenges (upk_db (purge_reports broken rids s)) = rtn_challenges (upk_db s)"
proof (induction rids arbitrary: s)
  case (Cons rid rids)
  show ?case
    using purge_reports_Cons [of broken rid rids s] Cons.IH [of s] Cons.IH [of "purge_one rid s"]
    by (elim disjE) (simp_all add: finish_report_purge_frame del: purge_reports.simps(2))
qed simp

lemma purge_reports_filter:
  "\<exists>f. rtn_reports (upk_db (purge_reports broken rids s)) = filter f (rtn_reports (upk_db s)) \<and>
    (\<forall>r. \<not> f r \<longrightarrow> kpr_id r \<in> set rids \<and> past (rtn_now (upk_db s)) (kpr_expires r))"
proof (induction rids arbitrary: s)
  case Nil
  show ?case by (intro exI [of _ "\<lambda>_. True"]) simp
next
  case (Cons rid rids)
  from purge_reports_Cons [of broken rid rids s] show ?case
  proof
    assume "purge_reports broken (rid # rids) s = purge_reports broken rids s"
    then show ?thesis using Cons.IH [of s] by (auto simp del: purge_reports.simps(2))
  next
    assume step: "purge_reports broken (rid # rids) s = purge_reports broken rids (purge_one rid s)"
    obtain f where f: "rtn_reports (upk_db (purge_reports broken rids (purge_one rid s))) = filter f (rtn_reports (upk_db (purge_one rid s)))"
      "\<forall>r. \<not> f r \<longrightarrow> kpr_id r \<in> set rids \<and> past (rtn_now (upk_db s)) (kpr_expires r)"
      using Cons.IH [of "purge_one rid s"] by (auto simp: finish_report_purge_frame)
    let ?g = "\<lambda>r. f r \<and> \<not> (kpr_id r = rid \<and> rid \<notin> set (rtn_challenges (upk_db s)) \<and> past (rtn_now (upk_db s)) (kpr_expires r))"
    have "rtn_reports (upk_db (purge_reports broken (rid # rids) s)) = filter ?g (rtn_reports (upk_db s))"
      unfolding step f(1) by (simp add: finish_report_purge_reports conj_commute)
    moreover have "\<forall>r. \<not> ?g r \<longrightarrow> kpr_id r \<in> set (rid # rids) \<and> past (rtn_now (upk_db s)) (kpr_expires r)" using f(2) by auto
    ultimately show ?thesis by blast
  qed
qed

lemma purge_reports_dirs:
  "map_of (report_dirs (upk_files (purge_reports broken rids s))) x = map_of (report_dirs (upk_files s)) x \<or>
    x \<in> set rids \<and> map_of (report_dirs (upk_files (purge_reports broken rids s))) x = None"
proof (induction rids arbitrary: s)
  case (Cons rid rids)
  from purge_reports_Cons [of broken rid rids s] show ?case
  proof
    assume "purge_reports broken (rid # rids) s = purge_reports broken rids s"
    then show ?thesis using Cons.IH [of s] by (auto simp del: purge_reports.simps(2))
  next
    assume "purge_reports broken (rid # rids) s = purge_reports broken rids (purge_one rid s)"
    then show ?thesis using Cons.IH [of "purge_one rid s"] by (auto simp del: purge_reports.simps(2) split: if_splits)
  qed
qed simp

lemma purged_row_has_no_directory:
  assumes "r \<in> set (rtn_reports (upk_db s))" and "r \<notin> set (rtn_reports (upk_db (purge_reports broken rids s)))"
  shows "map_of (report_dirs (upk_files (purge_reports broken rids s))) (kpr_id r) = None"
  using assms
proof (induction rids arbitrary: s)
  case (Cons rid rids)
  from purge_reports_Cons [of broken rid rids s] show ?case
  proof
    assume "purge_reports broken (rid # rids) s = purge_reports broken rids s"
    then show ?thesis using Cons by (auto simp del: purge_reports.simps(2))
  next
    assume step: "purge_reports broken (rid # rids) s = purge_reports broken rids (purge_one rid s)"
    show ?thesis
    proof (cases "r \<in> set (rtn_reports (upk_db (purge_one rid s)))")
      case True
      then show ?thesis using Cons.IH [of "purge_one rid s"] Cons.prems(2) unfolding step by blast
    next
      case False
      then have "kpr_id r = rid" using Cons.prems(1) by (auto simp: finish_report_purge_reports)
      then show ?thesis using purge_reports_dirs [of broken rids "purge_one rid s" "kpr_id r"] unfolding step by auto
    qed
  qed
qed simp

section \<open>Privacy and retention\<close>

lemma operational_retention:
  assumes "validate_operational_limits c = Ok ()"
  shows "as_i32 (report_retention_days (maintenance c)) = int (report_retention_days (maintenance c))"
    and "as_i32 (submission_source_retention_hours (maintenance c)) = int (submission_source_retention_hours (maintenance c))"
    and "as_i32 (audit_configuration.retention_days (audit c)) = int (audit_configuration.retention_days (audit c))"
  using assms by (auto simp: validate_operational_limits_def Let_def fail_if_def as_i32_def split: if_splits)

definition swept :: "'net runtime_configuration \<Rightarrow> upkeep \<Rightarrow> kept_report \<Rightarrow> kept_report" where
  "swept c s = swept_report (rtn_now (upk_db s) - 3600 * int (submission_source_retention_hours (maintenance c)))
    (int (report_retention_days (maintenance c)))"

definition sweep :: "'net runtime_configuration \<Rightarrow> upkeep \<Rightarrow> admin_sweep_result \<times> retention_db" where
  "sweep c s = begin_maintenance_sweep (report_retention_days (maintenance c)) (submission_source_retention_hours (maintenance c))
    (audit_configuration.retention_days (audit c)) (upk_db s)"

lemma maintenance_round_unfold: "maintenance_round broken c s = purge_reports broken (swp_ready (fst (sweep c s))) (s\<lparr> upk_db := snd (sweep c s) \<rparr>)"
  by (simp add: maintenance_round_def sweep_def case_prod_beta)

lemma sweep_facts:
  assumes "validate parse_url c = Ok ()"
  shows "rtn_reports (snd (sweep c s)) = map (swept c s) (rtn_reports (upk_db s))"
    and "rtn_now (snd (sweep c s)) = rtn_now (upk_db s)"
    and "rtn_challenges (snd (sweep c s)) = rtn_challenges (upk_db s)"
    and "rtn_sessions (snd (sweep c s)) = filter (\<lambda>e. rtn_now (upk_db s) < e) (rtn_sessions (upk_db s))"
    and "rtn_shares (snd (sweep c s)) = filter (\<lambda>(_, e). rtn_now (upk_db s) < e) (rtn_shares (upk_db s))"
    and "rtn_events (snd (sweep c s)) =
      filter (\<lambda>e. rtn_now (upk_db s) - 86400 * int (audit_configuration.retention_days (audit c)) < e) (rtn_events (upk_db s))"
    and "swp_ready (fst (sweep c s)) = map kpr_id (take PURGE_BATCH (expired_reports (rtn_now (upk_db s)) (map (swept c s) (rtn_reports (upk_db s)))))"
  using operational_retention [OF validate_OkD(9) [OF assms]]
  by (simp_all add: sweep_def begin_maintenance_sweep_def Let_def swept_def swept_report_def [abs_def] not_le)


section \<open>What a round removes\<close>

lemma purge_reports_healthy:
  assumes "\<forall>x \<in> set rids. \<not> broken x"
  shows "rtn_reports (upk_db (purge_reports broken rids s)) =
    filter (\<lambda>r. \<not> (kpr_id r \<in> set rids \<and> kpr_id r \<notin> set (rtn_challenges (upk_db s)) \<and> past (rtn_now (upk_db s)) (kpr_expires r)))
      (rtn_reports (upk_db s))"
  using assms
proof (induction rids arbitrary: s)
  case (Cons rid rids)
  have step: "purge_reports broken (rid # rids) s = purge_reports broken rids (purge_one rid s)" using Cons.prems by (intro purge_reports_goes) simp
  show ?case unfolding step using Cons
    by (auto simp: finish_report_purge_frame finish_report_purge_reports intro!: filter_cong simp del: purge_reports.simps(2))
qed simp

lemma purge_reports_all_stuck:
  "\<forall>x \<in> set rids. broken x \<and> x \<in> set (map fst (report_dirs (upk_files s))) \<Longrightarrow> purge_reports broken rids s = s"
  by (induction rids) (simp_all add: purge_reports_stuck del: purge_reports.simps(2))

text \<open>When directories can be removed and no challenge holds a report, a round deletes the hundred reports that expired first, and what is left
  of the expired ones is the rest in the same order: a backlog of \<open>n\<close> expired reports is gone after \<open>n / 100\<close> rounds.\<close>

theorem maintenance_keeps_up:
  assumes "validate parse_url c = Ok ()" and "distinct (map kpr_id (rtn_reports (upk_db s)))" and "rtn_challenges (upk_db s) = []"
    and "\<forall>x. \<not> broken x" and "s' = maintenance_round broken c s"
  shows "expired_reports (rtn_now (upk_db s')) (rtn_reports (upk_db s')) =
      drop PURGE_BATCH (expired_reports (rtn_now (upk_db s)) (map (swept c s) (rtn_reports (upk_db s))))"
proof -
  let ?t = "rtn_now (upk_db s)" and ?rs = "map (swept c s) (rtn_reports (upk_db s))"
  let ?E = "expired_reports ?t ?rs"
  note sw = sweep_facts [OF assms(1), of s]
  have now': "rtn_now (upk_db s') = ?t" using purge_reports_frame unfolding assms(5) maintenance_round_unfold by (simp add: sw)
  have reps: "rtn_reports (upk_db s') = filter (\<lambda>r. \<not> (kpr_id r \<in> kpr_id ` set (take PURGE_BATCH ?E) \<and> past ?t (kpr_expires r))) ?rs"
    unfolding assms(5) maintenance_round_unfold using assms(3,4) by (subst purge_reports_healthy) (simp_all add: sw)
  have "expired_reports ?t (rtn_reports (upk_db s')) = filter (\<lambda>r. kpr_id r \<notin> kpr_id ` set (take PURGE_BATCH ?E)) ?E"
    unfolding reps expired_reports_def by (simp add: filter_sort conj_commute cong: conj_cong)
  moreover have "distinct (map kpr_id ?E)"
  proof -
    have "distinct (map kpr_id ?rs)" using assms(2) by (simp add: swept_def comp_def)
    then have parts: "distinct ?rs" "inj_on kpr_id (set ?rs)" by (simp_all only: distinct_map)
    have "distinct ?E" unfolding expired_reports_def distinct_sort by (rule distinct_filter [OF parts(1)])
    moreover have "inj_on kpr_id (set ?E)" by (rule inj_on_subset [OF parts(2)]) (auto simp: expired_reports_def)
    ultimately show ?thesis by (simp only: distinct_map simp_thms)
  qed
  ultimately show ?thesis by (simp only: now' filter_take_ids)
qed

text \<open>A row goes after its directory: a report that a round deletes was expired and has no directory any more, and a directory that
  a round removes belongs to an expired report.\<close>

theorem rows_go_after_directories:
  assumes "validate parse_url c = Ok ()" and "s' = maintenance_round broken c s"
  shows "(\<forall>r \<in> swept c s ` set (rtn_reports (upk_db s)). r \<notin> set (rtn_reports (upk_db s')) \<longrightarrow>
      past (rtn_now (upk_db s)) (kpr_expires r) \<and> map_of (report_dirs (upk_files s')) (kpr_id r) = None) \<and>
    (\<forall>x. map_of (report_dirs (upk_files s')) x \<noteq> map_of (report_dirs (upk_files s)) x \<longrightarrow>
      (\<exists>r \<in> swept c s ` set (rtn_reports (upk_db s)). kpr_id r = x \<and> past (rtn_now (upk_db s)) (kpr_expires r)))"
proof -
  let ?t = "rtn_now (upk_db s)" and ?s = "s\<lparr> upk_db := snd (sweep c s) \<rparr>" and ?rids = "swp_ready (fst (sweep c s))"
  note sw = sweep_facts [OF assms(1), of s]
  have s': "s' = purge_reports broken ?rids ?s" by (simp add: assms(2) maintenance_round_unfold)
  have gone: "past ?t (kpr_expires r) \<and> map_of (report_dirs (upk_files s')) (kpr_id r) = None"
    if r: "r \<in> swept c s ` set (rtn_reports (upk_db s))" "r \<notin> set (rtn_reports (upk_db s'))" for r
  proof -
    have r': "r \<in> set (rtn_reports (upk_db ?s))" using r(1) by (simp add: sw)
    obtain f where f: "rtn_reports (upk_db s') = filter f (rtn_reports (upk_db ?s))"
        "\<forall>r. \<not> f r \<longrightarrow> kpr_id r \<in> set ?rids \<and> past (rtn_now (upk_db ?s)) (kpr_expires r)"
      using purge_reports_filter [of broken ?rids ?s, folded s'] by blast
    have "\<not> f r" using r(2) r' unfolding f(1) by simp
    then have "past ?t (kpr_expires r)" using f(2) by (simp add: sw(2))
    then show ?thesis using purged_row_has_no_directory [OF r' r(2) [unfolded s']] by (simp add: s')
  qed
  have dirs: "\<exists>r \<in> swept c s ` set (rtn_reports (upk_db s)). kpr_id r = x \<and> past ?t (kpr_expires r)"
    if x: "map_of (report_dirs (upk_files s')) x \<noteq> map_of (report_dirs (upk_files s)) x" for x
  proof -
    have "x \<in> set ?rids" using purge_reports_dirs [of broken ?rids ?s x, folded s'] x by auto
    then obtain r where "r \<in> set (expired_reports ?t (map (swept c s) (rtn_reports (upk_db s))))" "x = kpr_id r"
      by (auto simp: sw dest: in_set_takeD)
    then show ?thesis by (auto simp: expired_reports_def)
  qed
  show ?thesis
    by (intro conjI ballI allI impI; (rule gone [THEN conjunct1] gone [THEN conjunct2] dirs, assumption+)?)
qed

text \<open>When the directories of the hundred reports that expired first cannot be removed, a round deletes no report, also none of those that
  expired later and whose directories could be removed.\<close>

theorem failed_batch_holds_up_the_rest:
  assumes "validate parse_url c = Ok ()"
    and "\<forall>r \<in> set (take PURGE_BATCH (expired_reports (rtn_now (upk_db s)) (map (swept c s) (rtn_reports (upk_db s))))).
      broken (kpr_id r) \<and> kpr_id r \<in> set (map fst (report_dirs (upk_files s)))"
  shows "rtn_reports (upk_db (maintenance_round broken c s)) = map (swept c s) (rtn_reports (upk_db s))"
  using assms(2) unfolding maintenance_round_unfold
  by (subst purge_reports_all_stuck) (auto simp: sweep_facts [OF assms(1)])

section \<open>Samples\<close>

abbreviation sample_configuration :: "nat runtime_configuration" where
  "sample_configuration \<equiv> runtime_configuration_default"

lemma sample_configuration_valid: "validate example_parse_url sample_configuration = Ok ()"
  by (rule default_valid) (simp_all add: example_parse_url_def)

definition sample_kept :: "nat \<Rightarrow> kept_report" where
  "sample_kept n = \<lparr> kpr_id = of_nat n, kpr_source = None, kpr_created = 0, kpr_expires = Some (int n), kpr_attachments = [] \<rparr>"

definition sample_upkeep :: "nat \<Rightarrow> nat \<Rightarrow> upkeep" where
  "sample_upkeep n m =
    \<lparr> upk_db = \<lparr> rtn_now = 1000, rtn_sessions = [5, 2000], rtn_oauth_states = [], rtn_reports = map sample_kept [0..<n], rtn_blocks = [],
        rtn_events = [], rtn_shares = [(7, 3000)], rtn_challenges = [] \<rparr>,
      upk_files = \<lparr> staging_dirs = [], report_dirs = map (\<lambda>i. (of_nat i, [])) [0..<m], free_space = 0 \<rparr> \<rparr>"

lemma swept_sample: "swept c s (sample_kept n) = sample_kept n"
  by (simp add: swept_def swept_report_def set_expiry_def clear_source_def sample_kept_def)

lemma sample_expired: "n \<le> 1000 \<Longrightarrow> expired_reports 1000 (map sample_kept [0..<n]) = map sample_kept [0..<n]"
proof -
  assume "n \<le> 1000"
  then have "filter (\<lambda>r. past 1000 (kpr_expires r)) (map sample_kept [0..<n]) = map sample_kept [0..<n]"
    by (auto simp: filter_id_conv past_def sample_kept_def)
  moreover have "sorted (map expiry_order (map sample_kept [0..<n]))"
    by (auto simp: sorted_iff_nth_mono expiry_order_def sample_kept_def less_eq_prod_def le_less)
  ultimately show ?thesis unfolding expired_reports_def by (simp only: sort_key_id_if_sorted)
qed

lemma unat_small: "i < 1000 \<Longrightarrow> unat (of_nat i :: uuid) = i"
  by (simp add: unat_of_nat take_bit_eq_mod)

theorem maintenance_keeps_up_witness:
  "expired_reports 1000 (rtn_reports (upk_db (maintenance_round (\<lambda>_. False) sample_configuration (sample_upkeep 101 101)))) = [sample_kept 100]"
proof -
  let ?s = "sample_upkeep 101 101"
  have ids: "distinct (map kpr_id (rtn_reports (upk_db ?s)))" 
    by (auto simp: sample_upkeep_def sample_kept_def distinct_map inj_on_def comp_def simp del: upt_Suc dest!: arg_cong [where f = unat] simp: unat_small)
  have "rtn_challenges (upk_db ?s) = []" by (simp add: sample_upkeep_def)
  note fact = maintenance_keeps_up [OF sample_configuration_valid ids this _ refl, of "\<lambda>_. False"]
  have "rtn_now (upk_db (maintenance_round (\<lambda>_. False) sample_configuration ?s)) = 1000"
    using purge_reports_frame unfolding maintenance_round_unfold by (simp add: sweep_facts [OF sample_configuration_valid] sample_upkeep_def)
  moreover have "map (swept sample_configuration ?s) (rtn_reports (upk_db ?s)) = map sample_kept [0..<101]"
    by (simp add: sample_upkeep_def swept_sample comp_def del: upt_Suc)
  moreover have "drop 100 (map sample_kept [0..<101]) = [sample_kept 100]" by (simp add: drop_map del: upt_Suc)
  moreover have "rtn_now (upk_db ?s) = 1000" by (simp add: sample_upkeep_def)
  ultimately show ?thesis using fact by (simp add: sample_expired del: upt_Suc)
qed

theorem rows_go_after_directories_witness:
  "sample_kept 1 \<in> set (rtn_reports (upk_db (maintenance_round (\<lambda>x. x = 0) sample_configuration (sample_upkeep 2 2)))) \<or>
   map_of (report_dirs (upk_files (maintenance_round (\<lambda>x. x = 0) sample_configuration (sample_upkeep 2 2)))) 1 = None"
proof -
  have "sample_kept 1 \<in> swept sample_configuration (sample_upkeep 2 2) ` set (rtn_reports (upk_db (sample_upkeep 2 2)))"
    by (auto simp: sample_upkeep_def swept_sample image_iff)
  moreover have "kpr_id (sample_kept 1) = 1" by (simp add: sample_kept_def)
  ultimately show ?thesis
    using rows_go_after_directories [OF sample_configuration_valid refl, where broken = "\<lambda>x. x = 0" and s = "sample_upkeep 2 2"] by metis
qed


theorem failed_batch_holds_up_the_rest_witness:
  "rtn_reports (upk_db (maintenance_round (\<lambda>x. x < 100) sample_configuration (sample_upkeep 101 101))) = map sample_kept [0..<101]"
proof -
  let ?s = "sample_upkeep 101 101"
  have swept: "map (swept sample_configuration ?s) (rtn_reports (upk_db ?s)) = map sample_kept [0..<101]"
    by (simp add: sample_upkeep_def swept_sample comp_def del: upt_Suc)
  have "take 100 (map sample_kept [0..<101]) = map sample_kept [0..<100]" by (simp add: take_map del: upt_Suc)
  moreover have "\<forall>n \<in> set [0..<100]. (of_nat n :: uuid) < 100 \<and> of_nat n \<in> set (map fst (report_dirs (upk_files ?s)))"
    by (auto simp: sample_upkeep_def word_less_nat_alt unat_small image_iff simp del: upt_Suc intro!: bexI)
  ultimately have "\<forall>r \<in> set (take PURGE_BATCH (expired_reports (rtn_now (upk_db ?s)) (map (swept sample_configuration ?s) (rtn_reports (upk_db ?s))))).
      kpr_id r < 100 \<and> kpr_id r \<in> set (map fst (report_dirs (upk_files ?s)))"
    unfolding swept by (auto simp: sample_upkeep_def sample_expired sample_kept_def simp del: upt_Suc)
  from failed_batch_holds_up_the_rest [OF sample_configuration_valid this] show ?thesis unfolding swept .
qed

end
