(* ===== verification/Proxy_Addresses.thy ===== *)
theory Proxy_Addresses
  imports Configuration_Json "HOL-Library.AList"
begin

text \<open>
  The configuration that a service holds in memory (\<open>src/src/infrastructure/database/configuration_cache.rs\<close>) and the addresses of the proxies named by
  DNS names (\<open>src/src/infrastructure/database/proxy_addresses.rs\<close>). A look-up is an argument: for a name and the time at which it starts, the addresses
  or no answer, and the time at which it ends. A look-up that runs for longer than ten seconds counts as failed after those ten seconds. Times are whole
  seconds of a monotonic clock; the lock around the table makes every \<open>apply\<close> run alone.
\<close>

section \<open>Resolutions\<close>

record 'addr resolution =
  rsl_addresses :: "'addr list"
  rsl_resolved_at :: nat

record 'addr proxy_addresses =
  lifetime :: nat
  refresh_interval :: nat
  resolutions :: "(str \<times> 'addr resolution) list"

type_synonym 'addr lookup = "str \<Rightarrow> nat \<Rightarrow> 'addr list option \<times> nat"

abbreviation (input) RESOLVE_TIMEOUT :: nat where
  "RESOLVE_TIMEOUT \<equiv> 10"

definition resolve_host :: "('addr :: linorder) lookup \<Rightarrow> str \<Rightarrow> nat \<Rightarrow> 'addr list result \<times> nat" where
  "resolve_host lookup host t =
    (case lookup host t of (answer, t') \<Rightarrow>
      if t' - t > RESOLVE_TIMEOUT then (Err (Internal ''cannot resolve trusted proxy''), t + RESOLVE_TIMEOUT)
      else (case answer of
        None \<Rightarrow> Err (Internal ''cannot resolve trusted proxy'')
      | Some addresses \<Rightarrow>
          let addresses = remdups_adj (sort addresses) in
          if addresses = [] then Err (Internal ''cannot resolve trusted proxy'') else Ok addresses, max t t'))"

definition expires_before_next_run :: "'addr proxy_addresses \<Rightarrow> nat \<Rightarrow> 'addr resolution \<Rightarrow> bool" where
  "expires_before_next_run p t r = (t - rsl_resolved_at r + refresh_interval p \<ge> lifetime p)"

section \<open>Applying\<close>

fun refresh_hosts ::
    "('addr :: linorder) lookup \<Rightarrow> str list \<Rightarrow> nat \<Rightarrow> 'addr proxy_addresses \<Rightarrow> unit result \<times> 'addr proxy_addresses \<times> nat" where
  "refresh_hosts lookup [] t p = (Ok (), p, t)"
| "refresh_hosts lookup (host # hosts) t p =
    (let previous = map_of (resolutions p) host in
     if (case previous of Some r \<Rightarrow> \<not> expires_before_next_run p t r | None \<Rightarrow> False) then refresh_hosts lookup hosts t p
     else (case resolve_host lookup host t of
       (Inr addresses, t') \<Rightarrow> refresh_hosts lookup hosts t'
         (p\<lparr> resolutions := AList.update host \<lparr> rsl_addresses = addresses, rsl_resolved_at = t' \<rparr> (resolutions p) \<rparr>)
     | (Inl e, t') \<Rightarrow> if previous \<noteq> None then refresh_hosts lookup hosts t' p else (Err e, p, t')))"

definition apply_addresses ::
    "('addr \<Rightarrow> 'net) \<Rightarrow> ('addr :: linorder) lookup \<Rightarrow> nat \<Rightarrow> 'net runtime_configuration \<Rightarrow> 'addr proxy_addresses \<Rightarrow>
     'net runtime_configuration result \<times> 'addr proxy_addresses \<times> nat" where
  "apply_addresses net_of lookup t c p =
    (let p = p\<lparr> resolutions := filter (\<lambda>(host, _). host \<in> set (trusted_proxy_hosts c)) (resolutions p) \<rparr> in
     case refresh_hosts lookup (trusted_proxy_hosts c) t p of
       (Inl e, p, t') \<Rightarrow> (Err e, p, t')
     | (Inr _, p, t') \<Rightarrow> (Ok (resolve_trusted_networks net_of (\<lambda>host. map_option rsl_addresses (map_of (resolutions p) host)) c), p, t'))"

section \<open>The cache\<close>

record ('net, 'addr) configuration_cache =
  current :: "'net runtime_configuration option"
  proxy_table :: "'addr proxy_addresses option"

abbreviation (input) RECHECK_INTERVAL :: nat where
  "RECHECK_INTERVAL \<equiv> 60"

abbreviation (input) RETRY_DELAY :: nat where
  "RETRY_DELAY \<equiv> 5"

abbreviation (input) PROXY_ADDRESS_LIFETIME :: nat where
  "PROXY_ADDRESS_LIFETIME \<equiv> 5 * 60"

definition resolving_proxy_hosts :: "('net, 'addr) configuration_cache" where
  "resolving_proxy_hosts = \<lparr> current = None,
     proxy_table = Some \<lparr> lifetime = PROXY_ADDRESS_LIFETIME, refresh_interval = RECHECK_INTERVAL, resolutions = [] \<rparr> \<rparr>"

definition cache_default :: "('net, 'addr) configuration_cache" where
  "cache_default = \<lparr> current = None, proxy_table = None \<rparr>"

text \<open>What reading the stored value takes: the network of an address, reading a network, an address and a URL, and the look-up.\<close>

record ('net, 'addr) cache_env =
  env_net_of :: "'addr \<Rightarrow> 'net"
  env_parse_net :: "str \<Rightarrow> 'net option"
  env_is_ip :: "str \<Rightarrow> bool"
  env_parse_url :: "str \<Rightarrow> url option"
  env_lookup :: "'addr lookup"

definition read_configuration :: "('net, 'addr) cache_env \<Rightarrow> jvalue \<Rightarrow> 'net runtime_configuration result" where
  "read_configuration env v =
    (case configuration_from_value (env_parse_net env) (env_is_ip env) v of
      None \<Rightarrow> Err (Internal ''configuration'')
    | Some c \<Rightarrow> (case validate (env_parse_url env) c of Inl e \<Rightarrow> Err e | Inr _ \<Rightarrow> Ok c))"

definition reload ::
    "('net, 'addr :: linorder) cache_env \<Rightarrow> jvalue result \<Rightarrow> nat \<Rightarrow> ('net, 'addr) configuration_cache \<Rightarrow>
     unit result \<times> ('net, 'addr) configuration_cache \<times> nat" where
  "reload env stored t s =
    (case bind_res stored (read_configuration env) of
      Inl e \<Rightarrow> (Err e, s, t)
    | Inr c \<Rightarrow> (case proxy_table s of
        None \<Rightarrow> (Ok (), s\<lparr> current := Some (resolve_trusted_networks (env_net_of env) (\<lambda>_. None) c) \<rparr>, t)
      | Some p \<Rightarrow> (case apply_addresses (env_net_of env) (env_lookup env) t c p of
          (Inl e, p, t') \<Rightarrow> (Err e, s\<lparr> proxy_table := Some p \<rparr>, t')
        | (Inr c, p, t') \<Rightarrow> (Ok (), s\<lparr> proxy_table := Some p, current := Some c \<rparr>, t'))))"

text \<open>One turn of the task: a notification, a reconnect or sixty seconds without one (\<open>Some stored\<close>, with what the query then returns), or a failure
  of the listener. Returned are the cache and the time of the next turn at the earliest.\<close>

definition cache_turn ::
    "('net, 'addr :: linorder) cache_env \<Rightarrow> jvalue result option \<Rightarrow> nat \<Rightarrow> ('net, 'addr) configuration_cache \<Rightarrow>
     ('net, 'addr) configuration_cache \<times> nat" where
  "cache_turn env event t s =
    (case event of
      Some stored \<Rightarrow> (case reload env stored t s of (Inl _, s', t') \<Rightarrow> (s', t' + RETRY_DELAY) | (Inr _, s', t') \<Rightarrow> (s', t'))
    | None \<Rightarrow> (s, t + RETRY_DELAY))"

section \<open>What the table holds\<close>

lemma resolve_host_later: "resolve_host lookup host t = (r, t') \<Longrightarrow> t \<le> t'"
  by (auto simp: resolve_host_def Let_def split: prod.splits if_splits option.splits)

definition answers :: "('addr :: linorder) lookup \<Rightarrow> nat \<Rightarrow> 'addr proxy_addresses \<Rightarrow> bool" where
  "answers lookup t p = (\<forall>host r. map_of (resolutions p) host = Some r \<longrightarrow> rsl_resolved_at r \<le> t \<and>
    (\<exists>t0. resolve_host lookup host t0 = (Ok (rsl_addresses r), rsl_resolved_at r)))"

lemma answers_later: "answers lookup t p \<Longrightarrow> t \<le> t' \<Longrightarrow> answers lookup t' p"
  unfolding answers_def using le_trans by blast

lemma answers_update:
  "answers lookup t p \<Longrightarrow> resolve_host lookup host t = (Ok addrs, t') \<Longrightarrow>
    answers lookup t' (p\<lparr> resolutions := AList.update host \<lparr> rsl_addresses = addrs, rsl_resolved_at = t' \<rparr> (resolutions p) \<rparr>)"
  using resolve_host_later [of lookup host t "Ok addrs" t'] by (fastforce simp: answers_def update_conv' split: if_splits)

lemma refresh_hosts_answers:
  "answers lookup t p \<Longrightarrow> refresh_hosts lookup hosts t p = (r, p', t') \<Longrightarrow>
    answers lookup t' p' \<and> t \<le> t' \<and> lifetime p' = lifetime p \<and> refresh_interval p' = refresh_interval p"
proof (induction hosts arbitrary: t p)
  case (Cons host hosts)
  obtain a u where a: "resolve_host lookup host t = (a, u)" by (cases "resolve_host lookup host t")
  have u: "t \<le> u" by (rule resolve_host_later [OF a])
  show ?case
  proof (cases "case map_of (resolutions p) host of Some r \<Rightarrow> \<not> expires_before_next_run p t r | None \<Rightarrow> False")
    case True
    then show ?thesis using Cons by (simp add: Let_def)
  next
    case again: False
    show ?thesis
    proof (cases a)
      case (Inr addrs)
      let ?p = "p\<lparr> resolutions := AList.update host \<lparr> rsl_addresses = addrs, rsl_resolved_at = u \<rparr> (resolutions p) \<rparr>"
      have "refresh_hosts lookup hosts u ?p = (r, p', t')" using Cons.prems(2) again a Inr by (simp add: Let_def)
      from Cons.IH [OF answers_update [OF Cons.prems(1) a [unfolded Inr]] this] show ?thesis using u by auto
    next
      case (Inl e)
      note later = answers_later [OF Cons.prems(1) u]
      show ?thesis
      proof (cases "map_of (resolutions p) host")
        case None
        then show ?thesis using Cons.prems(2) again a Inl later u by (simp add: Let_def)
      next
        case (Some q)
        then have "refresh_hosts lookup hosts u p = (r, p', t')" using Cons.prems(2) again a Inl by (simp add: Let_def)
        from Cons.IH [OF later this] show ?thesis using u by auto
      qed
    qed
  qed
qed simp

lemma map_of_retain: "map_of (filter (\<lambda>(k, _). P k) xs) k = (if P k then map_of xs k else None)"
  by (induction xs) auto

lemma apply_addresses_answers:
  assumes "answers lookup t p" and "apply_addresses net_of lookup t c p = (r, p', t')"
  shows "answers lookup t' p' \<and> t \<le> t' \<and>
    (\<forall>c'. r = Ok c' \<longrightarrow> c' = resolve_trusted_networks net_of (\<lambda>host. map_option rsl_addresses (map_of (resolutions p') host)) c)"
proof -
  let ?p = "p\<lparr> resolutions := filter (\<lambda>(host, _). host \<in> set (trusted_proxy_hosts c)) (resolutions p) \<rparr>"
  have old: "answers lookup t ?p" using assms(1) by (auto simp: answers_def map_of_retain split: if_splits)
  obtain r0 where run: "refresh_hosts lookup (trusted_proxy_hosts c) t ?p = (r0, p', t')"
    using assms(2) by (auto simp: apply_addresses_def Let_def split: prod.splits sum.splits)
  show ?thesis
    using refresh_hosts_answers [OF old run] assms(2) unfolding apply_addresses_def Let_def run by (cases r0) auto
qed

section \<open>The cache over time\<close>

inductive cache_reach :: "('net, 'addr :: linorder) cache_env \<Rightarrow> nat \<Rightarrow> ('net, 'addr) configuration_cache \<Rightarrow> bool" for env where
  start: "s \<in> {resolving_proxy_hosts, cache_default} \<Longrightarrow> reload env stored t s = (Ok (), s', t') \<Longrightarrow> cache_reach env t' s'"
| turn: "cache_reach env t s \<Longrightarrow> t \<le> u \<Longrightarrow> cache_turn env event u s = (s', t') \<Longrightarrow> cache_reach env t' s'"

definition holds_answers :: "('net, 'addr :: linorder) cache_env \<Rightarrow> nat \<Rightarrow> ('net, 'addr) configuration_cache \<Rightarrow> bool" where
  "holds_answers env t s =
    ((case proxy_table s of Some p \<Rightarrow> answers (env_lookup env) t p | None \<Rightarrow> True) \<and>
     (\<forall>c. current s = Some c \<longrightarrow> (\<exists>c0 table. validate (env_parse_url env) c0 = Ok () \<and> c = resolve_trusted_networks (env_net_of env) table c0 \<and>
       (\<forall>host addrs. table host = Some addrs \<longrightarrow> (\<exists>t0 t1. t1 \<le> t \<and> resolve_host (env_lookup env) host t0 = (Ok addrs, t1))))))"

lemma holds_answers_later: "holds_answers env t s \<Longrightarrow> t \<le> t' \<Longrightarrow> holds_answers env t' s"
proof -
  assume held: "holds_answers env t s" and later: "t \<le> t'"
  have "\<exists>c0 table. validate (env_parse_url env) c0 = Ok () \<and> c = resolve_trusted_networks (env_net_of env) table c0 \<and>
      (\<forall>host addrs. table host = Some addrs \<longrightarrow> (\<exists>t0 t1. t1 \<le> t' \<and> resolve_host (env_lookup env) host t0 = (Ok addrs, t1)))"
    if "current s = Some c" for c
    using held that le_trans [OF _ later] unfolding holds_answers_def by blast
  moreover have "case proxy_table s of Some p \<Rightarrow> answers (env_lookup env) t' p | None \<Rightarrow> True"
    using conjunct1 [OF held [unfolded holds_answers_def]] answers_later [OF _ later] by (auto split: option.splits)
  ultimately show ?thesis unfolding holds_answers_def by blast
qed

lemma read_configuration_valid: "read_configuration env v = Ok c \<Longrightarrow> validate (env_parse_url env) c = Ok ()"
  by (auto simp: read_configuration_def split: option.splits sum.splits)

lemma reload_holds_answers:
  assumes "holds_answers env t s" and "reload env stored t s = (r, s', t')"
  shows "holds_answers env t' s' \<and> t \<le> t' \<and> (r = Ok () \<longrightarrow> current s' \<noteq> None) \<and> (r \<noteq> Ok () \<longrightarrow> current s' = current s)"
proof (cases "bind_res stored (read_configuration env)")
  case (Inl e)
  then show ?thesis using assms by (auto simp: reload_def)
next
  case (Inr c)
  have valid: "validate (env_parse_url env) c = Ok ()" using Inr read_configuration_valid by (auto simp: bind_res_eq_Ok)
  show ?thesis
  proof (cases "proxy_table s")
    case None
    then show ?thesis using assms Inr valid by (fastforce simp: reload_def holds_answers_def)
  next
    case (Some p)
    obtain a p' u where a: "apply_addresses (env_net_of env) (env_lookup env) t c p = (a, p', u)"
      by (cases "apply_addresses (env_net_of env) (env_lookup env) t c p")
    have "answers (env_lookup env) t p" using assms(1) Some by (simp add: holds_answers_def)
    note applied = apply_addresses_answers [OF this a]
    have kept: "holds_answers env u s" using holds_answers_later [OF assms(1)] applied by blast
    show ?thesis
    proof (cases a)
      case (Inl e)
      then show ?thesis using assms(2) Inr Some a applied kept by (auto simp: reload_def holds_answers_def)
    next
      case ok: (Inr c')
      have "\<exists>t0 t1. t1 \<le> u \<and> resolve_host (env_lookup env) host t0 = (Ok addrs, t1)"
        if "map_option rsl_addresses (map_of (resolutions p') host) = Some addrs" for host addrs
        using applied that by (fastforce simp: answers_def)
      moreover have "c' = resolve_trusted_networks (env_net_of env) (\<lambda>host. map_option rsl_addresses (map_of (resolutions p') host)) c"
        using applied ok by blast
      ultimately have "\<exists>c0 table. validate (env_parse_url env) c0 = Ok () \<and> c' = resolve_trusted_networks (env_net_of env) table c0 \<and>
          (\<forall>host addrs. table host = Some addrs \<longrightarrow> (\<exists>t0 t1. t1 \<le> u \<and> resolve_host (env_lookup env) host t0 = (Ok addrs, t1)))"
        using valid by blast
      then have "holds_answers env u (s\<lparr> proxy_table := Some p', current := Some c' \<rparr>)"
        unfolding holds_answers_def using applied by simp
      then show ?thesis using assms(2) Inr Some a ok applied by (auto simp: reload_def)
    qed
  qed
qed

lemma cache_reach_invariant: "cache_reach env t s \<Longrightarrow> holds_answers env t s \<and> current s \<noteq> None"
proof (induction rule: cache_reach.induct)
  case (start s stored t s' t')
  have "holds_answers env t s" using start(1) by (auto simp: holds_answers_def resolving_proxy_hosts_def cache_default_def answers_def)
  from reload_holds_answers [OF this start(2)] show ?case by blast
next
  case (turn t s u event s' t')
  have before: "holds_answers env u s" using turn holds_answers_later by blast
  show ?case
  proof (cases event)
    case None
    then show ?thesis using turn holds_answers_later [OF before, of "u + RETRY_DELAY"] by (auto simp: cache_turn_def)
  next
    case (Some stored)
    obtain r s1 t1 where run: "reload env stored u s = (r, s1, t1)" by (cases "reload env stored u s")
    note after = reload_holds_answers [OF before run]
    have "s' = s1" "t1 \<le> t'" using turn(3) Some run by (auto simp: cache_turn_def split: sum.splits)
    then show ?thesis using after holds_answers_later turn.IH by (cases "r = Ok ()") auto
  qed
qed


text \<open>A reload that fails, because the stored value cannot be read or is invalid or because a new name does not resolve, leaves the configuration
  that is served.\<close>

theorem failed_reload_keeps_configuration:
  assumes "cache_reach env t s" and "t \<le> u" and "reload env stored u s = (Err e, s', t')"
  shows "current s' = current s \<and> current s' \<noteq> None \<and>
    cache_turn env (Some stored) u s = (s', t' + RETRY_DELAY) \<and> cache_reach env (t' + RETRY_DELAY) s'"
proof -
  have held: "holds_answers env u s" "current s \<noteq> None" using cache_reach_invariant [OF assms(1)] holds_answers_later [OF _ assms(2)] by blast+
  have turned: "cache_turn env (Some stored) u s = (s', t' + RETRY_DELAY)" by (simp add: cache_turn_def assms(3))
  have "current s' = current s" using reload_holds_answers [OF held(1) assms(3)] by simp
  then show ?thesis using held(2) turned cache_reach.turn [OF assms(1,2) turned] by simp
qed

section \<open>How old addresses become\<close>

lemma refresh_hosts_fresh:
  assumes "refresh_hosts lookup hosts t p = (Ok (), p', t')"
    and "\<forall>host u. host \<in> set hosts \<longrightarrow> (\<exists>addrs. fst (resolve_host lookup host u) = Ok addrs)" and "refresh_interval p < lifetime p"
    and "x \<in> set hosts \<or> (\<exists>r. map_of (resolutions p) x = Some r \<and> t0 + refresh_interval p < lifetime p + rsl_resolved_at r)" and "t0 \<le> t"
  shows "\<exists>r. map_of (resolutions p') x = Some r \<and> t0 + refresh_interval p < lifetime p + rsl_resolved_at r"
  using assms
proof (induction hosts arbitrary: t p)
  case (Cons host hosts)
  obtain addrs u where a: "resolve_host lookup host t = (Ok addrs, u)" using Cons.prems(2) by (metis list.set_intros(1) prod.collapse)
  have u: "t \<le> u" by (rule resolve_host_later [OF a])
  show ?case
  proof (cases "case map_of (resolutions p) host of Some r \<Rightarrow> \<not> expires_before_next_run p t r | None \<Rightarrow> False")
    case True
    then obtain r where r: "map_of (resolutions p) host = Some r" "\<not> expires_before_next_run p t r" by (auto split: option.splits)
    have "t0 + refresh_interval p < lifetime p + rsl_resolved_at r" using r(2) Cons.prems(5) by (simp add: expires_before_next_run_def)
    then have "x \<in> set hosts \<or> (\<exists>r. map_of (resolutions p) x = Some r \<and> t0 + refresh_interval p < lifetime p + rsl_resolved_at r)"
      using Cons.prems(4) r(1) by auto
    moreover have "refresh_hosts lookup hosts t p = (Ok (), p', t')" using Cons.prems(1) True by (simp add: Let_def)
    ultimately show ?thesis using Cons.IH Cons.prems(2,3,5) by simp
  next
    case False
    let ?p = "p\<lparr> resolutions := AList.update host \<lparr> rsl_addresses = addrs, rsl_resolved_at = u \<rparr> (resolutions p) \<rparr>"
    have "refresh_hosts lookup hosts u ?p = (Ok (), p', t')" using Cons.prems(1) False a by (simp add: Let_def)
    moreover have "x \<in> set hosts \<or> (\<exists>r. map_of (resolutions ?p) x = Some r \<and> t0 + refresh_interval ?p < lifetime ?p + rsl_resolved_at r)"
      using Cons.prems(3,4,5) u by (auto simp: update_conv')
    ultimately show ?thesis using Cons.IH [of u ?p] Cons.prems(2,3,5) u by simp
  qed
qed simp

text \<open>When every look-up answers, the addresses in use are, until the next run, younger than the lifetime.\<close>

theorem answered_addresses_stay_fresh:
  assumes "apply_addresses net_of lookup t c p = (Ok c', p', t')" and "refresh_interval p < lifetime p"
    and "\<forall>host u. host \<in> set (trusted_proxy_hosts c) \<longrightarrow> (\<exists>addrs. fst (resolve_host lookup host u) = Ok addrs)"
    and "host \<in> set (trusted_proxy_hosts c)"
  shows "\<exists>r. map_of (resolutions p') host = Some r \<and> (\<forall>u \<le> t + refresh_interval p. u - rsl_resolved_at r < lifetime p)"
proof -
  let ?p = "p\<lparr> resolutions := filter (\<lambda>(host, _). host \<in> set (trusted_proxy_hosts c)) (resolutions p) \<rparr>"
  have run: "refresh_hosts lookup (trusted_proxy_hosts c) t ?p = (Ok (), p', t')"
    using assms(1) by (auto simp: apply_addresses_def Let_def split: prod.splits sum.splits)
  obtain r where r: "map_of (resolutions p') host = Some r" "t + refresh_interval ?p < lifetime ?p + rsl_resolved_at r"
    using refresh_hosts_fresh [OF run assms(3), of host t] assms(2,4) by auto
  then have "\<forall>u \<le> t + refresh_interval p. u - rsl_resolved_at r < lifetime p" using assms(2) by auto
  then show ?thesis using r(1) by blast
qed

lemma refresh_hosts_failing:
  assumes "\<forall>host u. \<exists>e. fst (resolve_host lookup host u) = Err e" and "\<forall>host \<in> set hosts. map_of (resolutions p) host \<noteq> None"
  shows "\<exists>t'. refresh_hosts lookup hosts t p = (Ok (), p, t')"
  using assms(2)
proof (induction hosts arbitrary: t)
  case (Cons host hosts)
  obtain e u where a: "resolve_host lookup host t = (Err e, u)" using assms(1) by (metis prod.collapse)
  have "\<exists>t'. refresh_hosts lookup hosts v p = (Ok (), p, t')" for v using Cons by simp
  then show ?case using Cons.prems a by (simp add: Let_def)
qed simp

text \<open>When look-ups fail, addresses that were resolved once stay in use at every later time, whatever the lifetime is.\<close>

theorem failing_lookups_keep_addresses:
  assumes "\<forall>host u. \<exists>e. fst (resolve_host lookup host u) = Err e" and "\<forall>host \<in> set (trusted_proxy_hosts c). map_of (resolutions p) host \<noteq> None"
    and "host \<in> set (trusted_proxy_hosts c)" and "map_of (resolutions p) host = Some r" and "a \<in> set (rsl_addresses r)"
  shows "\<exists>c' p' t'. apply_addresses net_of lookup t c p = (Ok c', p', t') \<and> map_of (resolutions p') host = Some r \<and>
    net_of a \<in> set (trusted_networks c')"
proof -
  let ?p = "p\<lparr> resolutions := filter (\<lambda>(host, _). host \<in> set (trusted_proxy_hosts c)) (resolutions p) \<rparr>"
  have kept: "\<forall>host \<in> set (trusted_proxy_hosts c). map_of (resolutions ?p) host = map_of (resolutions p) host" by (simp add: map_of_retain)
  obtain t' where run: "refresh_hosts lookup (trusted_proxy_hosts c) t ?p = (Ok (), ?p, t')"
    using refresh_hosts_failing [OF assms(1), of "trusted_proxy_hosts c" ?p t] assms(2) kept by auto
  have named: "Host host \<in> set (trusted_proxies c)"
    using assms(3) by (auto simp: trusted_proxy_hosts_def map_filter_def split: trusted_proxy.splits)
  let ?c = "resolve_trusted_networks net_of (\<lambda>host. map_option rsl_addresses (map_of (resolutions ?p) host)) c"
  have "apply_addresses net_of lookup t c p = (Ok ?c, ?p, t')" by (simp add: apply_addresses_def run)
  moreover have "map_of (resolutions ?p) host = Some r" using assms(3,4) kept by simp
  moreover have "net_of a \<in> set (trusted_networks ?c)"
    using named assms(5) calculation(2) unfolding resolve_trusted_networks_set by (metis (no_types, lifting) option.simps(9))
  ultimately show ?thesis by blast
qed

section \<open>Samples\<close>

definition proxied :: "nat runtime_configuration" where
  "proxied = runtime_configuration_default\<lparr> trusted_proxies := [Host (lit ''p'')] \<rparr>"

lemma validate_proxies: "validate parse_url (c\<lparr> trusted_proxies := ps \<rparr>) = validate parse_url c"
  by (simp add: validate_def validate_github_repository_def validate_github_authorization_team_def validate_github_labels_def
      validate_rate_limits_def validate_payload_limits_def validate_operational_limits_def validate_discord_def)

lemma proxied_valid: "validate example_parse_url proxied = Ok ()"
  unfolding proxied_def validate_proxies by (rule default_valid) (simp_all add: example_parse_url_def)

lemma proxied_hosts [simp]: "trusted_proxy_hosts proxied = [lit ''p'']"
  by (simp add: trusted_proxy_hosts_def proxied_def map_filter_def)

lemma proxied_read: "configuration_from_value (\<lambda>_. None) (\<lambda>_. False) (configuration_to_value show_nat proxied) = Some proxied"
proof -
  have host: "trusted_proxy_from_str (\<lambda>_. None :: nat option) (\<lambda>_. False) (lit ''p'') = Ok (Host (lit ''p''))" 
    by (simp add: trusted_proxy_from_str_def is_host_name_def is_host_label_def is_host_char_def text_eval)
  show ?thesis
    using default_typed
    by (simp add: configuration_from_value_def configuration_to_value_def json_decode configuration_typed_def proxied_def)
      (simp add: runtime_configuration_default_def dec_list_def dec_proxy_def dec_text_def trusted_proxy_display_def host)
qed

definition sample_cache_env :: "(nat, nat) cache_env" where
  "sample_cache_env = \<lparr> env_net_of = \<lambda>a. a, env_parse_net = \<lambda>_. None, env_is_ip = \<lambda>_. False, env_parse_url = example_parse_url,
    env_lookup = \<lambda>_ t. (Some [7, 9, 7], Suc t) \<rparr>"

definition sample_table :: "nat \<Rightarrow> nat proxy_addresses" where
  "sample_table t = \<lparr> lifetime = 300, refresh_interval = 60, resolutions = [(lit ''p'', \<lparr> rsl_addresses = [7, 9], rsl_resolved_at = t \<rparr>)] \<rparr>"

definition sample_cache :: "(nat, nat) configuration_cache" where
  "sample_cache = \<lparr> current = Some (proxied\<lparr> trusted_networks := [7, 9] \<rparr>), proxy_table = Some (sample_table 6) \<rparr>"

lemma sample_lookup: "resolve_host (\<lambda>_ t. (Some [7, 9, 7 :: nat], Suc t)) host t = (Ok [7, 9], Suc t)"
  by (simp add: resolve_host_def)

lemma sample_cache_start: "reload sample_cache_env (Ok (configuration_to_value show_nat proxied)) 5 resolving_proxy_hosts = (Ok (), sample_cache, 6)"
  by (simp add: reload_def read_configuration_def sample_cache_env_def proxied_read proxied_valid resolving_proxy_hosts_def apply_addresses_def
      sample_lookup sample_cache_def sample_table_def resolve_trusted_networks_def)
    (simp add: proxied_def)

lemma sample_cache_reach: "cache_reach sample_cache_env 6 sample_cache"
  by (rule cache_reach.start [OF _ sample_cache_start]) simp


theorem failed_reload_keeps_configuration_witness:
  "cache_turn sample_cache_env (Some (Err (Database ''down''))) 70 sample_cache = (sample_cache, 75)"
  using failed_reload_keeps_configuration [OF sample_cache_reach, of 70 "Err (Database ''down'')" "Database ''down''" sample_cache 70]
  by (simp add: reload_def)

theorem answered_addresses_stay_fresh_witness:
  "\<exists>c' p' t' r. apply_addresses (\<lambda>a. a) (\<lambda>_ t. (Some [7, 9, 7], Suc t)) 400 proxied (sample_table 6) = (Ok c', p', t') \<and>
    map_of (resolutions p') (lit ''p'') = Some r \<and> 460 - rsl_resolved_at r < 300"
proof -
  obtain c' p' t' where run: "apply_addresses (\<lambda>a. a) (\<lambda>_ t. (Some [7, 9, 7], Suc t)) 400 proxied (sample_table 6) = (Ok c', p', t')"
    by (simp add: apply_addresses_def sample_table_def expires_before_next_run_def sample_lookup)
  from answered_addresses_stay_fresh [OF this, of "lit ''p''"] show ?thesis using run by (force simp: sample_table_def sample_lookup)
qed

theorem failing_lookups_keep_addresses_witness:
  "\<exists>c' p' t'. apply_addresses (\<lambda>a. a) (\<lambda>_ t. (None, t)) 1000000 proxied (sample_table 6) = (Ok c', p', t') \<and> 7 \<in> set (trusted_networks c')"
  using failing_lookups_keep_addresses [where lookup = "\<lambda>_ t. (None, t)" and c = proxied and p = "sample_table 6" and host = "lit ''p''"
    and net_of = "\<lambda>a. a" and t = 1000000 and a = 7 and r = "\<lparr> rsl_addresses = [7, 9], rsl_resolved_at = 6 \<rparr>"]
  by (fastforce simp: resolve_host_def sample_table_def)

end
