(* ===== verification/Failure_Reason.thy ===== *)
theory Failure_Reason
  imports Attachment_Store
begin

text \<open>
  The reason of a crash, taken from the diagnostics that the browser attaches (\<open>src/src/application/failure_reasons.rs\<close>,
  \<open>src/src/infrastructure/database/admin/failure_reasons.rs\<close>, and its loop in \<open>src/src/bin/admin.rs\<close>). Reading a stored file is an argument. PostgreSQL
  refuses a text with the character zero.
\<close>

section \<open>Reading diagnostics\<close>

definition FAILURE_PREFIXES :: "str list" where
  "FAILURE_PREFIXES = [lit ''Verification failed: '', lit ''Assertion failed: '', lit ''Rust panic: '']"

definition source_roots :: "str list" where
  "source_roots = [lit ''AK/'', lit ''Libraries/'', lit ''Services/'', lit ''Tests/'', lit ''UI/'']"

fun below_root :: "str list \<Rightarrow> str \<Rightarrow> str option" where
  "below_root [] location = None"
| "below_root (root # roots) location =
    (case split_once_str (47 # root) location of Some (_, tail) \<Rightarrow> Some (root @ tail) | None \<Rightarrow> below_root roots location)"

definition last_component :: "str \<Rightarrow> str" where
  "last_component location = rev (takeWhile (\<lambda>c. c \<noteq> 47 \<and> c \<noteq> 92) (rev location))"

definition sanitize_location :: "str \<Rightarrow> str" where
  "sanitize_location location =
    (if \<not> starts_with [47] location \<and> 92 \<notin> set location then location
     else case below_root source_roots location of Some l \<Rightarrow> l | None \<Rightarrow> last_component location)"

definition line_reason :: "str \<Rightarrow> str option" where
  "line_reason line =
    (let line = trim_end_matches (\<lambda>c. c = 13) line in
     if byte_len line > 4096 \<or> \<not> list_ex (\<lambda>p. starts_with p line) FAILURE_PREFIXES then None
     else case rsplit_once_str (lit '' at '') line of
       Some (message, location) \<Rightarrow>
         let location = sanitize_location location in if location = [] then None else Some (message @ lit '' at '' @ location)
     | None \<Rightarrow> Some line)"

definition failure_reason_from_diagnostics :: "bytes \<Rightarrow> str option" where
  "failure_reason_from_diagnostics bytes =
    Option.bind (from_utf8 bytes) (\<lambda>text.
      let header = (case split_once_str (10 # lit ''Native stack (binary build ID, object address):'') text of Some (h, _) \<Rightarrow> h | None \<Rightarrow> text) in
      Option.bind (find (\<lambda>line. line_reason line \<noteq> None) (lines header)) line_reason)"

section \<open>The backfill\<close>

record diagnostics_row =
  dgr_id :: uuid
  dgr_report :: uuid
  dgr_name :: str
  dgr_media_type :: str
  dgr_storage_key :: str
  dgr_created :: int
  dgr_ready :: bool
  dgr_processed :: "int option"

record failure_db =
  fdb_now :: int
  fdb_attachments :: "diagnostics_row list"
  fdb_fields :: "((uuid \<times> str) \<times> str) list"

abbreviation (input) FAILURE_REASON_BATCH_SIZE :: nat where
  "FAILURE_REASON_BATCH_SIZE \<equiv> 50"

definition awaits_reason :: "diagnostics_row \<Rightarrow> bool" where
  "awaits_reason a \<longleftrightarrow> dgr_processed a = None \<and> dgr_name a = lit ''crash-diagnostics.txt'' \<and> dgr_media_type a = lit ''text/plain'' \<and> dgr_ready a"

definition waiting_diagnostics :: "failure_db \<Rightarrow> diagnostics_row list" where
  "waiting_diagnostics s = sort_key dgr_created (filter awaits_reason (fdb_attachments s))"

definition pending_failure_reasons :: "failure_db \<Rightarrow> diagnostics_row list" where
  "pending_failure_reasons s = take FAILURE_REASON_BATCH_SIZE (waiting_diagnostics s)"

definition finish_failure_reason :: "diagnostics_row \<Rightarrow> str option \<Rightarrow> (failure_db, unit) prog" where
  "finish_failure_reason a reason s =
    (if (case reason of Some r \<Rightarrow> 0 \<in> set r | None \<Rightarrow> False) then (Err (Database ''invalid byte sequence for encoding UTF8''), s)
     else (Ok (), s\<lparr>
       fdb_fields := (case reason of
           Some r \<Rightarrow> if map_of (fdb_fields s) (dgr_report a, lit ''failure_reason'') = None
             then fdb_fields s @ [((dgr_report a, lit ''failure_reason''), r)] else fdb_fields s
         | None \<Rightarrow> fdb_fields s),
       fdb_attachments := map (\<lambda>b. if dgr_id b = dgr_id a then b\<lparr> dgr_processed := Some (fdb_now s) \<rparr> else b) (fdb_attachments s) \<rparr>))"

definition attachment_reason :: "(str \<Rightarrow> bytes result) \<Rightarrow> diagnostics_row \<Rightarrow> str option" where
  "attachment_reason read a = (case read (dgr_storage_key a) of Inr bytes \<Rightarrow> failure_reason_from_diagnostics bytes | Inl _ \<Rightarrow> None)"

fun finish_all :: "(str \<Rightarrow> bytes result) \<Rightarrow> diagnostics_row list \<Rightarrow> (failure_db, unit) prog" where
  "finish_all read [] s = (Ok (), s)"
| "finish_all read (a # as) s = bind_prog (finish_failure_reason a (attachment_reason read a)) (\<lambda>_. finish_all read as) s"

definition backfill_failure_reasons :: "(str \<Rightarrow> bytes result) \<Rightarrow> (failure_db, nat) prog" where
  "backfill_failure_reasons read =
    bind_prog (get_prog pending_failure_reasons) (\<lambda>pending. bind_prog (finish_all read pending) (\<lambda>_. return_prog (length pending)))"

text \<open>One turn of the loop: the tables and the milliseconds it waits.\<close>

definition run_failure_reason_backfill :: "(str \<Rightarrow> bytes result) \<Rightarrow> failure_db \<Rightarrow> failure_db \<times> nat" where
  "run_failure_reason_backfill read s =
    (case backfill_failure_reasons read s of
      (Inr n, s') \<Rightarrow> (s', if n = FAILURE_REASON_BATCH_SIZE then 100 else if n = 0 then 30000 else 1000)
    | (Inl _, s') \<Rightarrow> (s', 30000))"

section \<open>What a reason looks like\<close>

lemma below_root_Some: "below_root roots location = Some l \<Longrightarrow> \<exists>root \<in> set roots. \<exists>tail. l = root @ tail"
  by (induction roots) (auto split: option.splits)

lemma last_component_bare: "47 \<notin> set (last_component l) \<and> 92 \<notin> set (last_component l)"
  by (auto simp: last_component_def dest: set_takeWhileD)

text \<open>A location is kept when it is relative; otherwise it begins at a directory of the sources or is a bare file name.\<close>

lemma sanitize_location_cases:
  "sanitize_location l = l \<and> \<not> starts_with [47] l \<and> 92 \<notin> set l \<or> (\<exists>root \<in> set source_roots. \<exists>tail. sanitize_location l = root @ tail) \<or>
    47 \<notin> set (sanitize_location l) \<and> 92 \<notin> set (sanitize_location l)"
  using below_root_Some [of source_roots l] last_component_bare [of l] by (auto simp: sanitize_location_def split: option.splits)

lemma sanitized_relative: "\<not> starts_with [47] (sanitize_location l)"
proof -
  have "\<not> starts_with [47] (root @ tail)" if "root \<in> set source_roots" for root tail
    using that by (auto simp: source_roots_def starts_with_def text_eval)
  moreover have "\<not> starts_with [47] s" if "47 \<notin> set s" for s using that by (cases s) (auto simp: starts_with_def)
  ultimately show ?thesis using sanitize_location_cases [of l] by auto
qed

lemma byte_len_app: "byte_len (a @ b) = byte_len a + byte_len b"
  by (simp add: byte_len_utf8)

lemma sanitized_no_longer: "byte_len (sanitize_location l) \<le> byte_len l \<and> set (sanitize_location l) \<subseteq> set l"
proof -
  have root: "byte_len x \<le> byte_len l \<and> set x \<subseteq> set l" if "below_root roots l = Some x" for roots x
    using that
  proof (induction roots)
    case (Cons root roots)
    show ?case
    proof (cases "split_once_str (47 # root) l")
      case None
      then show ?thesis using Cons by simp
    next
      case (Some ab)
      then have "x = root @ snd ab" "l = fst ab @ (47 # root) @ snd ab"
        using Cons.prems split_once_str_append [of "47 # root" l "fst ab" "snd ab"] by (auto split: prod.splits)
      then show ?thesis by (auto simp: byte_len_app)
    qed
  qed simp
  obtain front where "rev (rev l) = front @ last_component l"
    unfolding last_component_def by (metis rev_append takeWhile_dropWhile_id)
  then have l: "l = front @ last_component l" by simp
  have "byte_len l = byte_len front + byte_len (last_component l)" using arg_cong [OF l, of byte_len] by (simp only: byte_len_app)
  moreover have "set l = set front \<union> set (last_component l)" using arg_cong [OF l, of set] by (simp only: set_append)
  ultimately have "byte_len (last_component l) \<le> byte_len l \<and> set (last_component l) \<subseteq> set l" by simp
  then show ?thesis using root by (auto simp: sanitize_location_def split: option.splits)
qed

lemma line_reason_shape:
  assumes "line_reason line = Some r"
  shows "byte_len r \<le> 4096 \<and> set r \<subseteq> set line \<union> set (lit '' at '') \<and>
    (rsplit_once_str (lit '' at '') r = None \<or> (\<exists>message location. r = message @ lit '' at '' @ location \<and> location \<noteq> [] \<and> \<not> starts_with [47] location))"
proof -
  let ?line = "trim_end_matches (\<lambda>c. c = 13) line"
  have set_line: "set ?line \<subseteq> set line" by (meson set_mono_prefix trim_end_matches_prefix)
  have short: "byte_len ?line \<le> 4096" using assms by (auto simp: line_reason_def Let_def split: if_splits)
  show ?thesis
  proof (cases "rsplit_once_str (lit '' at '') ?line")
    case None
    then have "r = ?line" using assms by (auto simp: line_reason_def Let_def split: if_splits)
    then show ?thesis using None short set_line by auto
  next
    case (Some ml)
    obtain m l where ml: "ml = (m, l)" by (cases ml)
    have line: "?line = m @ lit '' at '' @ l" using Some ml rsplit_once_str_append by blast
    have r: "r = m @ lit '' at '' @ sanitize_location l" "sanitize_location l \<noteq> []"
      using assms Some ml by (auto simp: line_reason_def Let_def split: if_splits)
    have "byte_len r \<le> byte_len ?line" unfolding r line using sanitized_no_longer [of l] by (simp add: byte_len_app)
    moreover have "set r \<subseteq> set ?line" unfolding r line using sanitized_no_longer [of l] by auto
    moreover have "\<exists>message location. r = message @ lit '' at '' @ location \<and> location \<noteq> [] \<and> \<not> starts_with [47] location"
      using r sanitized_relative [of l] by blast
    ultimately show ?thesis using short set_line by auto
  qed
qed

lemma lines_no_feed: "w \<in> set (lines s) \<Longrightarrow> 10 \<notin> set w"
proof -
  have strip: "set (strip_cr w) \<subseteq> set w" for w by (auto simp: strip_cr_def strip_suffix_Some split: option.splits)
  have "10 \<notin> set v" if "v \<in> set (split_char 10 s)" for v using split_char_no_sep that by blast
  moreover assume "w \<in> set (lines s)"
  moreover have "last (split_char 10 s) \<in> set (split_char 10 s)" by simp
  ultimately show ?thesis using strip by (fastforce simp: lines_def Let_def dest: in_set_butlastD split: if_splits)
qed

text \<open>A reason is one line of at most 4096 bytes, and the location in it is not an absolute path of a Unix system.\<close>

theorem reason_shape:
  assumes "failure_reason_from_diagnostics bytes = Some r"
  shows "byte_len r \<le> 4096 \<and> 10 \<notin> set r \<and>
    (rsplit_once_str (lit '' at '') r = None \<or> (\<exists>message location. r = message @ lit '' at '' @ location \<and> location \<noteq> [] \<and> \<not> starts_with [47] location))"
proof -
  obtain header line where "find (\<lambda>line. line_reason line \<noteq> None) (lines header) = Some line" and line: "line_reason line = Some r"
    using assms unfolding failure_reason_from_diagnostics_def Let_def bind_eq_Some_conv by blast
  then have member: "line \<in> set (lines header)" by (auto simp: find_Some_iff)
  have "10 \<notin> set (lit '' at '')" by (simp add: text_eval)
  then show ?thesis using line_reason_shape [OF line] lines_no_feed [OF member] by blast
qed

text \<open>A path of Windows that is written with slashes begins with a drive, so it is neither cut at a directory of the sources nor reduced to its last
  component: the reason has the name of the person's directory.\<close>

theorem windows_path_is_kept:
  "failure_reason_from_diagnostics (utf8 (lit ''Rust panic: boom at C:/Users/ada/ladybird/AK/a.rs'')) =
    Some (lit ''Rust panic: boom at C:/Users/ada/ladybird/AK/a.rs'')"
proof -
  have "from_utf8 (utf8 (lit ''Rust panic: boom at C:/Users/ada/ladybird/AK/a.rs'')) = Some (lit ''Rust panic: boom at C:/Users/ada/ladybird/AK/a.rs'')"
    by (simp add: from_utf8_Some is_scalar_def text_eval)
  then show ?thesis
    by (simp add: failure_reason_from_diagnostics_def line_reason_def sanitize_location_def FAILURE_PREFIXES_def rsplit_once_str_def
        starts_with_def lines_def trim_end_matches_def text_eval)
qed

section \<open>The backlog\<close>

definition storable :: "(str \<Rightarrow> bytes result) \<Rightarrow> diagnostics_row \<Rightarrow> bool" where
  "storable read a \<longleftrightarrow> (case attachment_reason read a of Some r \<Rightarrow> 0 \<notin> set r | None \<Rightarrow> True)"

lemma finish_storable:
  "storable read a \<Longrightarrow> \<exists>fields. finish_failure_reason a (attachment_reason read a) s = (Ok (), s\<lparr> fdb_fields := fields,
    fdb_attachments := map (\<lambda>b. if dgr_id b = dgr_id a then b\<lparr> dgr_processed := Some (fdb_now s) \<rparr> else b) (fdb_attachments s) \<rparr>)"
proof -
  assume ok: "storable read a"
  let ?f = "case attachment_reason read a of Some r \<Rightarrow> if map_of (fdb_fields s) (dgr_report a, lit ''failure_reason'') = None
      then fdb_fields s @ [((dgr_report a, lit ''failure_reason''), r)] else fdb_fields s | None \<Rightarrow> fdb_fields s"
  show ?thesis
    by (rule exI [of _ ?f]) (use ok in \<open>simp add: finish_failure_reason_def storable_def split: option.splits\<close>)
qed

definition processed :: "uuid set \<Rightarrow> int \<Rightarrow> diagnostics_row \<Rightarrow> diagnostics_row" where
  "processed ids t b = (if dgr_id b \<in> ids then b\<lparr> dgr_processed := Some t \<rparr> else b)"

lemma finish_all_storable:
  "\<forall>a \<in> set as. storable read a \<Longrightarrow> \<exists>fields. finish_all read as s = (Ok (), s\<lparr> fdb_fields := fields,
    fdb_attachments := map (processed (dgr_id ` set as) (fdb_now s)) (fdb_attachments s) \<rparr>)"
proof (induction as arbitrary: s)
  case Nil
  have "map (processed {} (fdb_now s)) (fdb_attachments s) = fdb_attachments s" by (intro map_idI) (simp add: processed_def)
  then show ?case by (intro exI [of _ "fdb_fields s"]) simp
next
  case (Cons a as)
  let ?m = "map (\<lambda>b. if dgr_id b = dgr_id a then b\<lparr> dgr_processed := Some (fdb_now s) \<rparr> else b) (fdb_attachments s)"
  obtain f where f: "finish_failure_reason a (attachment_reason read a) s = (Ok (), s\<lparr> fdb_fields := f, fdb_attachments := ?m \<rparr>)"
    using finish_storable [of read a s] Cons.prems by auto
  obtain g where g: "finish_all read as (s\<lparr> fdb_fields := f, fdb_attachments := ?m \<rparr>) =
      (Ok (), s\<lparr> fdb_fields := g, fdb_attachments := map (processed (dgr_id ` set as) (fdb_now s)) ?m \<rparr>)"
    using Cons.IH [of "s\<lparr> fdb_fields := f, fdb_attachments := ?m \<rparr>"] Cons.prems by auto
  have both: "map (processed (dgr_id ` set as) (fdb_now s)) ?m = map (processed (dgr_id ` set (a # as)) (fdb_now s)) (fdb_attachments s)"
    by (auto simp: processed_def)
  have "finish_all read (a # as) s = (Ok (), s\<lparr> fdb_fields := g, fdb_attachments := map (processed (dgr_id ` set as) (fdb_now s)) ?m \<rparr>)"
    by (simp only: finish_all.simps bind_prog_def f prod.case sum.case g)
  then show ?case unfolding both by blast
qed

lemma awaits_processed: "awaits_reason (processed ids t a) \<longleftrightarrow> awaits_reason a \<and> dgr_id a \<notin> ids"
  by (simp add: processed_def awaits_reason_def)

text \<open>When every reason can be stored, a round handles the fifty attachments that have waited longest, and the rest waits as before: after
  \<open>n / 50\<close> rounds none of \<open>n\<close> is left. An attachment that cannot be read counts as handled.\<close>

theorem diagnostics_backlog_shrinks:
  assumes "distinct (map dgr_id (fdb_attachments s))" and "\<forall>a \<in> set (waiting_diagnostics s). storable read a"
  shows "\<exists>s'. backfill_failure_reasons read s = (Ok (min FAILURE_REASON_BATCH_SIZE (length (waiting_diagnostics s))), s') \<and>
    waiting_diagnostics s' = drop FAILURE_REASON_BATCH_SIZE (waiting_diagnostics s) \<and>
    map dgr_id (fdb_attachments s') = map dgr_id (fdb_attachments s)"
proof -
  let ?p = "pending_failure_reasons s"
  let ?ids = "dgr_id ` set ?p"
  have "\<forall>a \<in> set ?p. storable read a" using assms(2) by (auto simp: pending_failure_reasons_def dest: in_set_takeD)
  then obtain f where f: "finish_all read ?p s = (Ok (), s\<lparr> fdb_fields := f, fdb_attachments := map (processed ?ids (fdb_now s)) (fdb_attachments s) \<rparr>)"
    using finish_all_storable by blast
  let ?s = "s\<lparr> fdb_fields := f, fdb_attachments := map (processed ?ids (fdb_now s)) (fdb_attachments s) \<rparr>"
  have run: "backfill_failure_reasons read s = (Ok (length ?p), ?s)"
    by (simp add: backfill_failure_reasons_def get_prog_def bind_prog_def f return_prog_def)
  have left: "filter awaits_reason (map (processed ?ids t) as) = filter (\<lambda>a. dgr_id a \<notin> ?ids) (filter awaits_reason as)" for t as
    by (induction as) (auto simp: awaits_processed, simp add: processed_def)
  have "distinct (map dgr_id (waiting_diagnostics s))"
  proof -
    have parts: "distinct (fdb_attachments s)" "inj_on dgr_id (set (fdb_attachments s))" using assms(1) by (simp_all only: distinct_map)
    have "distinct (waiting_diagnostics s)" unfolding waiting_diagnostics_def distinct_sort by (rule distinct_filter [OF parts(1)])
    moreover have "inj_on dgr_id (set (waiting_diagnostics s))" by (rule inj_on_subset [OF parts(2)]) (auto simp: waiting_diagnostics_def)
    ultimately show ?thesis by (simp only: distinct_map simp_thms)
  qed
  note dist = this
  have "waiting_diagnostics ?s = sort_key dgr_created (filter awaits_reason (map (processed ?ids (fdb_now s)) (fdb_attachments s)))"
    by (simp add: waiting_diagnostics_def)
  also have "\<dots> = sort_key dgr_created (filter (\<lambda>a. dgr_id a \<notin> ?ids) (filter awaits_reason (fdb_attachments s)))" by (simp only: left)
  also have "\<dots> = filter (\<lambda>a. dgr_id a \<notin> ?ids) (waiting_diagnostics s)" by (simp only: waiting_diagnostics_def filter_sort)
  also have "\<dots> = drop FAILURE_REASON_BATCH_SIZE (waiting_diagnostics s)"
    unfolding pending_failure_reasons_def by (rule filter_take_ids [OF dist])
  finally have "waiting_diagnostics ?s = drop FAILURE_REASON_BATCH_SIZE (waiting_diagnostics s)" .
  moreover have "map dgr_id (fdb_attachments ?s) = map dgr_id (fdb_attachments s)" by (simp add: processed_def)
  moreover have "length ?p = min FAILURE_REASON_BATCH_SIZE (length (waiting_diagnostics s))" by (simp add: pending_failure_reasons_def min.commute)
  ultimately show ?thesis using run by metis
qed

text \<open>Diagnostics may contain the character zero, which is valid UTF-8 and passes the validation of attachments. When the attachment that has waited
  longest has it in its reason, the tables refuse the reason, the round fails, and so does every later one: no attachment is handled any more.\<close>

theorem refused_reason_stops_backfill:
  assumes "waiting_diagnostics s = a # rest" and "attachment_reason read a = Some r" and "0 \<in> set r"
  shows "backfill_failure_reasons read s = (Err (Database ''invalid byte sequence for encoding UTF8''), s) \<and>
    ((\<lambda>s. fst (run_failure_reason_backfill read s)) ^^ n) s = s"
proof -
  have "pending_failure_reasons s = a # take 49 rest" by (simp add: pending_failure_reasons_def assms(1) numeral_eq_Suc)
  then have run: "backfill_failure_reasons read s = (Err (Database ''invalid byte sequence for encoding UTF8''), s)"
    by (simp add: backfill_failure_reasons_def get_prog_def bind_prog_def finish_failure_reason_def assms(2,3))
  have "((\<lambda>s. fst (run_failure_reason_backfill read s)) ^^ n) s = s"
    by (induction n) (simp_all add: run_failure_reason_backfill_def run)
  then show ?thesis using run by blast
qed

section \<open>Samples\<close>

definition diagnostics_sample :: "uuid \<Rightarrow> diagnostics_row" where
  "diagnostics_sample u = \<lparr> dgr_id = u, dgr_report = u, dgr_name = lit ''crash-diagnostics.txt'', dgr_media_type = lit ''text/plain'', dgr_storage_key = [],
    dgr_created = 0, dgr_ready = True, dgr_processed = None \<rparr>"

definition failure_sample :: failure_db where
  "failure_sample = \<lparr> fdb_now = 9, fdb_attachments = [diagnostics_sample 1, diagnostics_sample 2], fdb_fields = [] \<rparr>"

lemma failure_sample_waiting: "waiting_diagnostics failure_sample = [diagnostics_sample 1, diagnostics_sample 2]"
  by (simp add: waiting_diagnostics_def failure_sample_def awaits_reason_def diagnostics_sample_def)

lemma zero_reason: "failure_reason_from_diagnostics (utf8 (lit ''Rust panic: '' @ [0])) = Some (lit ''Rust panic: '' @ [0])"
proof -
  have "from_utf8 (utf8 (lit ''Rust panic: '' @ [0])) = Some (lit ''Rust panic: '' @ [0])"
    unfolding from_utf8_Some by (simp add: is_scalar_def text_eval)
  then show ?thesis
    by (simp add: failure_reason_from_diagnostics_def line_reason_def FAILURE_PREFIXES_def rsplit_once_str_def starts_with_def lines_def
        trim_end_matches_def text_eval)
qed

theorem reason_shape_witness: "byte_len (lit ''Rust panic: '' @ [0]) \<le> 4096 \<and> 10 \<notin> set (lit ''Rust panic: '' @ [0])"
  using reason_shape [OF zero_reason] by blast

theorem diagnostics_backlog_shrinks_witness:
  "\<exists>s'. backfill_failure_reasons (\<lambda>_. Err (Io ''gone'')) failure_sample = (Ok 2, s') \<and> waiting_diagnostics s' = []"
  using diagnostics_backlog_shrinks [of failure_sample "\<lambda>_. Err (Io ''gone'')"]
  by (simp add: failure_sample_waiting storable_def attachment_reason_def) (auto simp: failure_sample_def diagnostics_sample_def)

theorem refused_reason_stops_backfill_witness:
  "((\<lambda>s. fst (run_failure_reason_backfill (\<lambda>_. Ok (utf8 (lit ''Rust panic: '' @ [0]))) s)) ^^ 1000) failure_sample = failure_sample"
proof -
  have reason: "attachment_reason (\<lambda>_. Ok (utf8 (lit ''Rust panic: '' @ [0]))) (diagnostics_sample 1) = Some (lit ''Rust panic: '' @ [0])"
    unfolding attachment_reason_def sum.case by (rule zero_reason)
  have "0 \<in> set (lit ''Rust panic: '' @ [0])" by simp
  from refused_reason_stops_backfill [OF failure_sample_waiting reason this] show ?thesis by blast
qed

end
